(* ===== verification/Prelude.thy ===== *)
theory Prelude
  imports Main "HOL-Library.Word" "HOL-Library.Multiset"
begin

text \<open>
  Shared vocabulary of the development: the Rust integer types at their widths, the
  checked and saturating operations of the standard library, results and panics as
  values, time stamps, and the generic lemmas the component theories use.

  The release profile of the repository sets \<open>overflow-checks = true\<close>, so plain
  \<open>+\<close>, \<open>-\<close> and \<open>*\<close> on integers panic on overflow while the atomic
  \<open>fetch_add\<close> and \<open>fetch_sub\<close> wrap around. A function that may panic returns
  an \<open>option\<close> (type \<open>may_panic\<close>) whose \<open>None\<close> is the panic; a Rust
  \<open>Result<T, E>\<close> is the sum \<open>'e + 'a\<close> with \<open>Inl\<close> for \<open>Err\<close>.
\<close>

unbundle bit_operations_syntax

section \<open>Types\<close>

type_synonym u8 = "8 word"
type_synonym u16 = "16 word"
type_synonym u32 = "32 word"
type_synonym u64 = "64 word"
type_synonym usize = "64 word"

type_synonym 'a may_panic = "'a option"
type_synonym ('e, 'a) rresult = "'e + 'a"

text \<open>
  An \<open>Instant\<close> and a \<open>Duration\<close> are counts of nanoseconds. \<open>Instant::elapsed\<close>
  saturates at zero, which is what subtraction on \<open>nat\<close> does.
\<close>

type_synonym instant = nat
type_synonym duration = nat

definition from_secs :: "nat \<Rightarrow> duration" where
  "from_secs s = s * 1000000000"

definition from_millis :: "nat \<Rightarrow> duration" where
  "from_millis s = s * 1000000"

definition elapsed :: "instant \<Rightarrow> instant \<Rightarrow> duration" where
  "elapsed now t = now - t"

text \<open>\<open>std::net::IpAddr\<close>: the address as a number, most significant octet first.\<close>

datatype IpAddr = V4 u32 | V6 "128 word"

section \<open>Rust integer arithmetic\<close>

definition checked_add :: "'a::len word \<Rightarrow> 'a word \<Rightarrow> 'a word option" where
  "checked_add a b = (if unat a + unat b < 2 ^ LENGTH('a) then Some (a + b) else None)"

definition checked_sub :: "'a::len word \<Rightarrow> 'a word \<Rightarrow> 'a word option" where
  "checked_sub a b = (if b \<le> a then Some (a - b) else None)"

definition checked_mul :: "'a::len word \<Rightarrow> 'a word \<Rightarrow> 'a word option" where
  "checked_mul a b = (if unat a * unat b < 2 ^ LENGTH('a) then Some (a * b) else None)"

definition saturating_add :: "'a::len word \<Rightarrow> 'a word \<Rightarrow> 'a word" where
  "saturating_add a b = (if unat a + unat b < 2 ^ LENGTH('a) then a + b else - 1)"

definition saturating_sub :: "'a::len word \<Rightarrow> 'a word \<Rightarrow> 'a word" where
  "saturating_sub a b = (if b \<le> a then a - b else 0)"

definition saturating_mul :: "'a::len word \<Rightarrow> 'a word \<Rightarrow> 'a word" where
  "saturating_mul a b = (if unat a * unat b < 2 ^ LENGTH('a) then a * b else - 1)"

named_theorems rust_arith "definitions of the Rust integer operations"
named_theorems results "when a chain of fallible steps succeeds and when it fails"

lemmas rust_arith_defs [rust_arith] =
  checked_add_def checked_sub_def checked_mul_def
  saturating_add_def saturating_sub_def saturating_mul_def

lemma checked_add_Some_iff:
  "checked_add a b = Some c \<longleftrightarrow> unat c = unat a + unat b"
  for a b c :: "'a::len word"
proof (cases "unat a + unat b < 2 ^ LENGTH('a)")
  case True
  then show ?thesis by (auto simp: checked_add_def unat_word_ariths word_unat_eq_iff)
next
  case False
  have "unat c < 2 ^ LENGTH('a)" by (rule unsigned_less)
  with False have "unat c \<noteq> unat a + unat b" by linarith
  with False show ?thesis by (simp add: checked_add_def)
qed

lemma checked_add_None_iff:
  "checked_add a b = None \<longleftrightarrow> 2 ^ LENGTH('a) \<le> unat a + unat b"
  for a b :: "'a::len word"
  by (auto simp: checked_add_def)

lemma unat_minus_one_word_max: "unat (- 1 :: 'a::len word) = 2 ^ LENGTH('a) - 1"
  by (simp add: unsigned_minus_1_eq_mask mask_eq_exp_minus_1)

lemma unat_saturating_add:
  "unat (saturating_add a b) = min (unat a + unat b) (2 ^ LENGTH('a) - 1)"
  for a b :: "'a::len word"
  by (auto simp: saturating_add_def unat_word_ariths unat_minus_one_word_max)

lemma unat_saturating_sub: "unat (saturating_sub a b) = unat a - unat b"
  for a b :: "'a::len word"
  by (auto simp: saturating_sub_def unat_sub word_le_nat_alt)

lemma word_add_one_ne_zero_unat:
  "a \<noteq> - 1 \<Longrightarrow> unat (a + 1) = Suc (unat a)" for a :: "'a::len word"
  by (metis add.commute add_diff_cancel_left' unatSuc word_succ_p1 word_sp_01(1))

lemma unat_add_one:
  "Suc (unat a) < 2 ^ LENGTH('a) \<Longrightarrow> unat (a + 1) = Suc (unat a)" for a :: "'a::len word"
  by (rule word_add_one_ne_zero_unat) (auto simp: unat_minus_one_word_max)

lemma unat_u32_lt: "unat (x :: u32) < 4294967296"
  by (rule order_less_le_trans [OF unsigned_less]) simp

lemma unat_u64_lt: "unat (x :: u64) < 18446744073709551616"
  by (rule order_less_le_trans [OF unsigned_less]) simp

lemma unat_ucast_u32_u64 [simp]: "unat (ucast (x :: u32) :: u64) = unat x"
  by (simp add: unsigned_ucast_eq take_bit_nat_eq_self order_less_trans [OF unsigned_less])

section \<open>Results\<close>

definition is_ok :: "('e, 'a) rresult \<Rightarrow> bool" where
  "is_ok r = (case r of Inl _ \<Rightarrow> False | Inr _ \<Rightarrow> True)"

lemma is_ok_simps [simp]: "is_ok (Inl e) = False" "is_ok (Inr v) = True"
  by (simp_all add: is_ok_def)

text \<open>\<open>Result::and_then\<close>, which is also what the operator \<open>?\<close> does, and \<open>ok_or\<close>.\<close>

definition and_then :: "('e, 'a) rresult \<Rightarrow> ('a \<Rightarrow> ('e, 'b) rresult) \<Rightarrow> ('e, 'b) rresult" where
  "and_then r f = (case r of Inl e \<Rightarrow> Inl e | Inr v \<Rightarrow> f v)"

definition ok_or :: "'e \<Rightarrow> 'a option \<Rightarrow> ('e, 'a) rresult" where
  "ok_or e x = (case x of None \<Rightarrow> Inl e | Some v \<Rightarrow> Inr v)"

definition map_err :: "('e \<Rightarrow> 'f) \<Rightarrow> ('e, 'a) rresult \<Rightarrow> ('f, 'a) rresult" where
  "map_err f r = (case r of Inl e \<Rightarrow> Inl (f e) | Inr v \<Rightarrow> Inr v)"

definition ensure :: "bool \<Rightarrow> 'e \<Rightarrow> ('e, unit) rresult" where
  "ensure b e = (if b then Inr () else Inl e)"

lemma and_then_Inr [results]: "and_then r f = Inr w \<longleftrightarrow> (\<exists>v. r = Inr v \<and> f v = Inr w)"
  by (cases r) (auto simp: and_then_def)

lemma and_then_Inl [results]: "and_then r f = Inl e \<longleftrightarrow> r = Inl e \<or> (\<exists>v. r = Inr v \<and> f v = Inl e)"
  by (cases r) (auto simp: and_then_def)

lemma ok_or_iff [results]: "ok_or e x = Inr v \<longleftrightarrow> x = Some v" "ok_or e x = Inl e' \<longleftrightarrow> x = None \<and> e' = e"
  by (cases x; auto simp: ok_or_def)+

lemma map_err_iff [results]: "map_err f r = Inr v \<longleftrightarrow> r = Inr v" "map_err f r = Inl e \<longleftrightarrow> (\<exists>e'. r = Inl e' \<and> e = f e')"
  by (cases r; auto simp: map_err_def)+

lemma ensure_iff [results]: "ensure b e = Inr u \<longleftrightarrow> b" "ensure b e = Inl e' \<longleftrightarrow> \<not> b \<and> e' = e"
  by (auto simp: ensure_def)

lemma early_return [results]:
  "(case x of None \<Rightarrow> r | Some d \<Rightarrow> Inl (f d)) = Inr v \<longleftrightarrow> x = None \<and> r = Inr v"
  "(if b then Inl e else r) = Inr v \<longleftrightarrow> \<not> b \<and> r = Inr v"
  by (auto split: option.splits)

lemma result_simps [simp]:
  "and_then (Inr v) f = f v" "and_then (Inl e) f = Inl e"
  "ok_or e (Some v) = Inr v" "ok_or e None = Inl e"
  "map_err g (Inr v) = Inr v" "map_err g (Inl d) = Inl (g d)"
  "ensure True e = Inr ()" "ensure False e = Inl e"
  by (simp_all add: and_then_def ok_or_def map_err_def ensure_def)

text \<open>What the errors of a chain of fallible steps have in common, one rule per combinator.\<close>

definition fails_only :: "('e \<Rightarrow> bool) \<Rightarrow> ('e, 'a) rresult \<Rightarrow> bool" where
  "fails_only Q r \<longleftrightarrow> (\<forall>e. r = Inl e \<longrightarrow> Q e)"

lemma fails_onlyD: "fails_only Q r \<Longrightarrow> r = Inl e \<Longrightarrow> Q e"
  by (simp add: fails_only_def)

lemma fails_only_intros [intro]:
  "fails_only Q r \<Longrightarrow> (\<And>v. r = Inr v \<Longrightarrow> fails_only Q (f v)) \<Longrightarrow> fails_only Q (and_then r f)"
  "(\<And>d. s = Inl d \<Longrightarrow> Q (g d)) \<Longrightarrow> fails_only Q (map_err g s)"
  "Q e \<Longrightarrow> fails_only Q (ok_or e x)"
  "Q e \<Longrightarrow> fails_only Q (Inl e)"
  "fails_only Q (Inr v)"
  "(b \<Longrightarrow> fails_only Q r) \<Longrightarrow> (\<not> b \<Longrightarrow> fails_only Q r') \<Longrightarrow> fails_only Q (if b then r else r')"
  "(y = None \<Longrightarrow> fails_only Q r) \<Longrightarrow> (\<And>d. y = Some d \<Longrightarrow> fails_only Q (h d)) \<Longrightarrow>
     fails_only Q (case y of None \<Rightarrow> r | Some d \<Rightarrow> h d)"
  by (auto simp: fails_only_def results split: option.splits)

section \<open>Machines: runs of operations and their invariants\<close>

text \<open>
  A component with state is a step function from an operation and a state to the next
  state, or \<open>None\<close> when the operation panics. A run stops at the first panic.
\<close>

fun run :: "('op \<Rightarrow> 's \<Rightarrow> 's may_panic) \<Rightarrow> 'op list \<Rightarrow> 's \<Rightarrow> 's may_panic" where
  "run step [] s = Some s"
| "run step (x # xs) s = (case step x s of None \<Rightarrow> None | Some t \<Rightarrow> run step xs t)"

lemma run_append:
  "run step (xs @ ys) s = (case run step xs s of None \<Rightarrow> None | Some t \<Rightarrow> run step ys t)"
  by (induction xs arbitrary: s) (auto split: option.splits)

locale invariant_machine =
  fixes step :: "'op \<Rightarrow> 's \<Rightarrow> 's may_panic"
    and inv :: "'s \<Rightarrow> bool"
  assumes step_inv: "inv s \<Longrightarrow> step x s = Some t \<Longrightarrow> inv t"
begin

lemma run_inv: "inv s \<Longrightarrow> run step xs s = Some t \<Longrightarrow> inv t"
  by (induction xs arbitrary: s) (auto split: option.splits intro: step_inv)

end

locale total_machine = invariant_machine step inv
  for step :: "'op \<Rightarrow> 's \<Rightarrow> 's may_panic" and inv :: "'s \<Rightarrow> bool" +
  assumes step_total: "inv s \<Longrightarrow> step x s \<noteq> None"
begin

lemma run_total: "inv s \<Longrightarrow> \<exists>t. run step xs s = Some t \<and> inv t"
proof (induction xs arbitrary: s)
  case (Cons x xs)
  from step_total [OF Cons.prems] obtain t where "step x s = Some t" by auto
  moreover from step_inv [OF Cons.prems this] have "inv t" .
  ultimately show ?case using Cons.IH by simp
qed simp

end

section \<open>The greatest element of an iterator\<close>

text \<open>\<open>Iterator::max_by_key\<close> returns the last of several maximal elements.\<close>

fun max_by_key :: "('a \<Rightarrow> nat) \<Rightarrow> 'a list \<Rightarrow> 'a option" where
  "max_by_key f [] = None"
| "max_by_key f (x # xs) = Some (foldl (\<lambda>b y. if f b \<le> f y then y else b) x xs)"

lemma max_by_key_foldl:
  "foldl (\<lambda>b y. if f b \<le> f y then y else b) x xs \<in> insert x (set xs) \<and>
   (\<forall>z \<in> insert x (set xs). f z \<le> f (foldl (\<lambda>b y. if f b \<le> f y then y else b) x xs))"
  for f :: "'a \<Rightarrow> nat"
proof (induction xs arbitrary: x)
  case (Cons y ys)
  define b where "b = (if f x \<le> f y then y else x)"
  define r where "r = foldl (\<lambda>b y. if f b \<le> f y then y else b) b ys"
  have r: "r \<in> insert b (set ys)" "\<And>z. z \<in> insert b (set ys) \<Longrightarrow> f z \<le> f r"
    using Cons.IH [of b] unfolding r_def by auto
  have b: "f x \<le> f b" "f y \<le> f b" "b = x \<or> b = y" by (simp_all add: b_def)
  have "f b \<le> f r" using r(2) by simp
  with b have "f x \<le> f r" "f y \<le> f r" by linarith+
  with r b(3) have "r \<in> insert x (set (y # ys)) \<and> (\<forall>z \<in> insert x (set (y # ys)). f z \<le> f r)"
    by auto
  moreover have "foldl (\<lambda>b y. if f b \<le> f y then y else b) x (y # ys) = r"
    by (simp add: r_def b_def)
  ultimately show ?case by simp
qed simp

lemma max_by_key_Some:
  assumes "max_by_key f xs = Some y"
  shows "y \<in> set xs" "\<forall>z \<in> set xs. f z \<le> f y"
  using assms max_by_key_foldl [of f] by (cases xs; auto)+

lemma max_by_key_None [simp]: "max_by_key f xs = None \<longleftrightarrow> xs = []"
  by (cases xs) auto

end
