(* ===== verification/CircuitBreaker.thy ===== *)
theory CircuitBreaker
  imports Prelude
begin

text \<open>
  The per-provider circuit breaker of \<open>crates/traffic-control/src/circuit_breaker.rs\<close>.

  The state of a breaker is a record with the fields of the Rust struct; the atomic
  counters are 64-bit words, so that \<open>fetch_add\<close> and \<open>fetch_sub\<close> wrap around.
  Every method is a function on that record; \<open>Instant::now()\<close> is the argument
  \<open>now\<close>. A method runs atomically here: interleavings are sequences of whole method
  calls. \<open>record_failure\<close> adds one to the value returned by \<open>fetch_add\<close>, which
  is a checked addition: it panics when the counter is at its maximum.
\<close>

section \<open>Data\<close>

datatype CircuitState = Closed | Open | HalfOpen

fun CircuitState_from :: "u8 \<Rightarrow> CircuitState" where
  "CircuitState_from v =
     (if v = 0 then Closed else if v = 1 then Open else if v = 2 then HalfOpen else Closed)"

fun CircuitState_repr :: "CircuitState \<Rightarrow> u8" where
  "CircuitState_repr Closed = 0"
| "CircuitState_repr Open = 1"
| "CircuitState_repr HalfOpen = 2"

record CircuitBreakerConfig =
  failure_threshold :: u32
  open_duration :: duration
  half_open_max_attempts :: u32

definition CircuitBreakerConfig_default :: CircuitBreakerConfig where
  "CircuitBreakerConfig_default =
     \<lparr>failure_threshold = 3, open_duration = from_secs 30, half_open_max_attempts = 1\<rparr>"

record CircuitStatus =
  cs_state :: CircuitState
  last_failure_time :: "instant option"

definition CircuitStatus_new :: CircuitStatus where
  "CircuitStatus_new = \<lparr>cs_state = Closed, last_failure_time = None\<rparr>"

record CircuitBreaker =
  cb_config :: CircuitBreakerConfig
  status :: CircuitStatus
  failure_count :: u64
  success_count :: u64
  half_open_successes :: u64
  probes_in_flight :: u64
  cb_node_id :: string

datatype CircuitBreakerError =
    CircuitOpen (node: string) (reason: string)
  | CbInternal string

record CircuitMetrics =
  cm_node_id :: string
  cm_state :: CircuitState
  consecutive_failures :: u64
  total_successes :: u64

section \<open>Operations\<close>

definition CircuitBreaker_new :: "string \<Rightarrow> CircuitBreakerConfig \<Rightarrow> CircuitBreaker" where
  "CircuitBreaker_new n cfg =
     \<lparr>cb_config = cfg, status = CircuitStatus_new, failure_count = 0, success_count = 0,
      half_open_successes = 0, probes_in_flight = 0, cb_node_id = n\<rparr>"

definition cb_state :: "CircuitBreaker \<Rightarrow> CircuitState" where
  "cb_state b = cs_state (status b)"

definition transition_to :: "CircuitState \<Rightarrow> CircuitBreaker \<Rightarrow> CircuitBreaker" where
  "transition_to new_state b =
     (let b1 = b\<lparr>status := (status b)\<lparr>cs_state := new_state\<rparr>\<rparr>
      in case new_state of
           Closed \<Rightarrow> b1\<lparr>failure_count := 0, half_open_successes := 0, probes_in_flight := 0\<rparr>
         | Open \<Rightarrow> b1\<lparr>half_open_successes := 0\<rparr>
         | HalfOpen \<Rightarrow> b1)"

definition allow_request ::
  "instant \<Rightarrow> CircuitBreaker \<Rightarrow> (CircuitBreakerError, unit) rresult \<times> CircuitBreaker" where
  "allow_request now b =
     (case cb_state b of
        Closed \<Rightarrow> (Inr (), b)
      | Open \<Rightarrow>
          (let rejected =
             (Inl (CircuitOpen (cb_node_id b) ''Failure threshold exceeded''), b)
           in case map_option (elapsed now) (last_failure_time (status b)) of
                Some e \<Rightarrow>
                  if open_duration (cb_config b) \<le> e
                  then (Inr (), transition_to HalfOpen b) else rejected
              | None \<Rightarrow> rejected)
      | HalfOpen \<Rightarrow>
          (let current_probes = probes_in_flight b;
               b1 = b\<lparr>probes_in_flight := probes_in_flight b + 1\<rparr>
           in if ucast (half_open_max_attempts (cb_config b)) \<le> current_probes
              then (Inl (CircuitOpen (cb_node_id b) ''HalfOpen probe slot exhausted''),
                    b1\<lparr>probes_in_flight := probes_in_flight b1 - 1\<rparr>)
              else (Inr (), b1)))"

definition record_success :: "CircuitBreaker \<Rightarrow> CircuitBreaker" where
  "record_success b =
     (let b1 = b\<lparr>success_count := success_count b + 1, failure_count := 0\<rparr>
      in if cb_state b1 = HalfOpen
         then let b2 = b1\<lparr>probes_in_flight := probes_in_flight b1 - 1,
                          half_open_successes := half_open_successes b1 + 1\<rparr>
              in if ucast (half_open_max_attempts (cb_config b2)) \<le> half_open_successes b2
                 then transition_to Closed b2 else b2
         else b1)"

definition record_failure ::
  "instant \<Rightarrow> u16 option \<Rightarrow> CircuitBreaker \<Rightarrow> CircuitBreaker may_panic" where
  "record_failure now status_code b =
     (case checked_add (failure_count b) 1 of
        None \<Rightarrow> None
      | Some failures \<Rightarrow>
          let b1 = b\<lparr>failure_count := failure_count b + 1,
                     status := (status b)\<lparr>last_failure_time := Some now\<rparr>\<rparr>;
              b2 = (if ucast (failure_threshold (cb_config b1)) \<le> failures
                    then transition_to Open b1 else b1);
              b3 = (if cb_state b2 = HalfOpen
                    then transition_to Open (b2\<lparr>probes_in_flight := probes_in_flight b2 - 1\<rparr>)
                    else b2)
          in Some b3)"

definition metrics :: "CircuitBreaker \<Rightarrow> CircuitMetrics" where
  "metrics b = \<lparr>cm_node_id = cb_node_id b, cm_state = cb_state b,
                consecutive_failures = failure_count b, total_successes = success_count b\<rparr>"

text \<open>
  A \<open>ProbeGuard\<close> is a handle on the breaker; what a holder does with it is one of
  the three ways it ends: marked successful, marked failed, dropped unresolved.
\<close>

record ProbeGuard =
  resolved :: bool

definition acquire_probe_guard ::
  "instant \<Rightarrow> CircuitBreaker \<Rightarrow> (CircuitBreakerError, ProbeGuard) rresult \<times> CircuitBreaker" where
  "acquire_probe_guard now b =
     (case allow_request now b of
        (Inl e, b1) \<Rightarrow> (Inl e, b1)
      | (Inr (), b1) \<Rightarrow> (Inr \<lparr>resolved = False\<rparr>, b1))"

definition ProbeGuard_drop ::
  "instant \<Rightarrow> ProbeGuard \<Rightarrow> CircuitBreaker \<Rightarrow> CircuitBreaker may_panic" where
  "ProbeGuard_drop now g b =
     (if \<not> resolved g
      then let b1 = (if 0 < probes_in_flight b
                     then b\<lparr>probes_in_flight := probes_in_flight b - 1\<rparr> else b)
           in record_failure now None b1
      else Some b)"

definition mark_success :: "instant \<Rightarrow> ProbeGuard \<Rightarrow> CircuitBreaker \<Rightarrow> CircuitBreaker may_panic" where
  "mark_success now g b =
     (let g1 = g\<lparr>resolved := True\<rparr> in ProbeGuard_drop now g1 (record_success b))"

definition mark_failure ::
  "instant \<Rightarrow> u16 option \<Rightarrow> ProbeGuard \<Rightarrow> CircuitBreaker \<Rightarrow> CircuitBreaker may_panic" where
  "mark_failure now code g b =
     (let g1 = g\<lparr>resolved := True\<rparr>
      in case record_failure now code b of None \<Rightarrow> None | Some b1 \<Rightarrow> ProbeGuard_drop now g1 b1)"

datatype cb_op =
    AllowRequest instant
  | RecordSuccess
  | RecordFailure instant "u16 option"
  | MarkSuccess instant
  | MarkFailure instant "u16 option"
  | DropGuard instant

fun cb_step :: "cb_op \<Rightarrow> CircuitBreaker \<Rightarrow> CircuitBreaker may_panic" where
  "cb_step (AllowRequest now) b = Some (snd (allow_request now b))"
| "cb_step RecordSuccess b = Some (record_success b)"
| "cb_step (RecordFailure now c) b = record_failure now c b"
| "cb_step (MarkSuccess now) b = mark_success now \<lparr>resolved = False\<rparr> b"
| "cb_step (MarkFailure now c) b = mark_failure now c \<lparr>resolved = False\<rparr> b"
| "cb_step (DropGuard now) b = ProbeGuard_drop now \<lparr>resolved = False\<rparr> b"

text \<open>A burst of admission checks with no outcome reported in between.\<close>

fun allow_all :: "instant list \<Rightarrow> CircuitBreaker \<Rightarrow> bool list \<times> CircuitBreaker" where
  "allow_all [] b = ([], b)"
| "allow_all (now # nows) b =
     (let (r, b1) = allow_request now b; (rs, b2) = allow_all nows b1 in (is_ok r # rs, b2))"

section \<open>Invariant\<close>

definition cb_inv :: "CircuitBreaker \<Rightarrow> bool" where
  "cb_inv b \<longleftrightarrow>
     (cb_state b = Closed \<longrightarrow> half_open_successes b = 0) \<and>
     (cb_state b = Open \<longrightarrow> half_open_successes b = 0 \<and> last_failure_time (status b) \<noteq> None) \<and>
     (cb_state b = HalfOpen \<longrightarrow> half_open_successes b = 0 \<or>
        half_open_successes b < ucast (half_open_max_attempts (cb_config b)))"

named_theorems cb_defs "definitions of the breaker's operations"

lemmas cb_op_defs [cb_defs] =
  transition_to_def allow_request_def record_success_def record_failure_def
  ProbeGuard_drop_def mark_success_def mark_failure_def cb_state_def Let_def

lemmas cb_splits = CircuitState.splits option.splits if_splits

lemma cb_inv_new: "cb_inv (CircuitBreaker_new n cfg)"
  by (simp add: cb_inv_def CircuitBreaker_new_def CircuitStatus_new_def cb_defs)

lemma allow_request_inv: "cb_inv b \<Longrightarrow> cb_inv (snd (allow_request now b))"
  by (auto simp: cb_inv_def cb_defs split: cb_splits)

lemma record_success_inv: "cb_inv b \<Longrightarrow> cb_inv (record_success b)"
  by (cases "cs_state (status b)") (auto simp: cb_inv_def cb_defs not_le)

lemma record_failure_inv: "cb_inv b \<Longrightarrow> record_failure now c b = Some b' \<Longrightarrow> cb_inv b'"
  by (cases "cs_state (status b)") (auto simp: cb_inv_def cb_defs split: option.splits if_splits)

lemma ProbeGuard_drop_inv:
  assumes "cb_inv b" "ProbeGuard_drop now g b = Some b'"
  shows "cb_inv b'"
proof -
  have "cb_inv (b\<lparr>probes_in_flight := p\<rparr>)" for p
    using assms(1) by (simp add: cb_inv_def cb_state_def)
  then show ?thesis
    using assms by (auto simp: ProbeGuard_drop_def Let_def split: if_splits intro: record_failure_inv)
qed

interpretation cbm: invariant_machine cb_step cb_inv
proof
  fix b op b'
  assume "cb_inv b" and "cb_step op b = Some b'"
  then show "cb_inv b'"
    by (cases op) (auto simp: mark_success_def mark_failure_def Let_def split: option.splits
        intro: allow_request_inv record_success_inv record_failure_inv ProbeGuard_drop_inv)
qed

lemma cb_config_run: "run cb_step ops b = Some b' \<Longrightarrow> cb_config b' = cb_config b"
proof (induction ops arbitrary: b)
  case (Cons op ops)
  from Cons.prems obtain b1 where b1: "cb_step op b = Some b1" "run cb_step ops b1 = Some b'"
    by (auto split: option.splits)
  from b1(1) have "cb_config b1 = cb_config b"
    by (cases op; cases "cs_state (status b)") (auto simp: cb_defs split: option.splits if_splits)
  with Cons.IH [OF b1(2)] show ?case by simp
qed simp

section \<open>Admission\<close>

lemma allow_all_Open_cooling:
  assumes "cb_state b = Open" "last_failure_time (status b) = Some t"
    and "\<forall>now \<in> set nows. t \<le> now \<and> now < t + open_duration (cb_config b)"
  shows "allow_all nows b = (replicate (length nows) False, b)"
  using assms(3)
proof (induction nows)
  case (Cons now nows)
  then have "\<not> open_duration (cb_config b) \<le> elapsed now t"
    by (auto simp: elapsed_def)
  then have "allow_request now b =
      (Inl (CircuitOpen (cb_node_id b) ''Failure threshold exceeded''), b)"
    using assms(1,2) by (simp add: allow_request_def)
  with Cons show ?case by simp
qed simp

lemma allow_request_HalfOpen:
  assumes "cb_state b = HalfOpen"
  shows "allow_request now b =
     (if ucast (half_open_max_attempts (cb_config b)) \<le> probes_in_flight b
      then (Inl (CircuitOpen (cb_node_id b) ''HalfOpen probe slot exhausted''), b)
      else (Inr (), b\<lparr>probes_in_flight := probes_in_flight b + 1\<rparr>))"
  using assms by (simp add: allow_request_def Let_def)

lemma allow_all_HalfOpen:
  assumes "cb_state b = HalfOpen"
  shows "length (filter id (fst (allow_all nows b))) =
           min (length nows) (unat (half_open_max_attempts (cb_config b)) - unat (probes_in_flight b))
         \<and> cb_state (snd (allow_all nows b)) = HalfOpen"
  using assms
proof (induction nows arbitrary: b)
  case (Cons now nows)
  let ?m = "half_open_max_attempts (cb_config b)"
  let ?b1 = "b\<lparr>probes_in_flight := probes_in_flight b + 1\<rparr>"
  have s1: "cb_state ?b1 = HalfOpen" using Cons.prems by (simp add: cb_state_def)
  show ?case
  proof (cases "ucast ?m \<le> probes_in_flight b")
    case True
    then have "unat ?m \<le> unat (probes_in_flight b)" by (simp add: word_le_nat_alt)
    with True Cons.IH [OF Cons.prems] show ?thesis
      using Cons.prems by (simp add: allow_request_HalfOpen case_prod_unfold Let_def)
  next
    case False
    then have lt: "unat (probes_in_flight b) < unat ?m" by (simp add: word_le_nat_alt)
    have "probes_in_flight b \<noteq> - 1"
      using lt unat_u32_lt [of ?m] by (auto simp: unat_minus_one_word_max)
    then have "unat (probes_in_flight b + 1) = Suc (unat (probes_in_flight b))"
      by (rule word_add_one_ne_zero_unat)
    with False lt Cons.IH [OF s1] show ?thesis
      using Cons.prems by (simp add: allow_request_HalfOpen case_prod_unfold Let_def)
  qed
qed simp

lemma allow_request_cooled:
  assumes "cb_state b = Open" "last_failure_time (status b) = Some t"
    and "t + open_duration (cb_config b) \<le> now"
  shows "allow_request now b = (Inr (), transition_to HalfOpen b)"
  using assms by (simp add: allow_request_def elapsed_def)

section \<open>Tripping\<close>

fun fail_all :: "(instant \<times> u16 option) list \<Rightarrow> CircuitBreaker \<Rightarrow> CircuitBreaker may_panic" where
  "fail_all [] b = Some b"
| "fail_all ((now, c) # fs) b =
     (case record_failure now c b of None \<Rightarrow> None | Some b1 \<Rightarrow> fail_all fs b1)"

lemma fail_all_append:
  "fail_all (xs @ ys) b = (case fail_all xs b of None \<Rightarrow> None | Some b1 \<Rightarrow> fail_all ys b1)"
  by (induction xs b rule: fail_all.induct) (auto split: option.splits)

lemma record_failure_Closed_or_Open:
  assumes "cb_state b \<noteq> HalfOpen" "Suc (unat (failure_count b)) < 2 ^ 64"
  shows "record_failure now c b =
     Some ((if unat (failure_threshold (cb_config b)) \<le> Suc (unat (failure_count b))
            then transition_to Open else id)
            (b\<lparr>failure_count := failure_count b + 1,
               status := (status b)\<lparr>last_failure_time := Some now\<rparr>\<rparr>))"
proof -
  have "unat (failure_count b + 1) = Suc (unat (failure_count b))"
    using assms(2) by (intro unat_add_one) simp
  then show ?thesis
    using assms by (auto simp: record_failure_def checked_add_def cb_state_def transition_to_def
        word_le_nat_alt Let_def)
qed

lemma fail_all_new:
  assumes "length fs < 2 ^ 64"
  shows "\<exists>b. fail_all fs (CircuitBreaker_new n cfg) = Some b \<and> cb_config b = cfg
           \<and> unat (failure_count b) = length fs
           \<and> last_failure_time (status b) = (if fs = [] then None else Some (fst (last fs)))
           \<and> cb_state b =
               (if fs \<noteq> [] \<and> unat (failure_threshold cfg) \<le> length fs then Open else Closed)"
  using assms
proof (induction fs rule: rev_induct)
  case Nil
  show ?case by (simp add: CircuitBreaker_new_def CircuitStatus_new_def cb_state_def)
next
  case (snoc f fs)
  then obtain b where b: "fail_all fs (CircuitBreaker_new n cfg) = Some b" "cb_config b = cfg"
      "unat (failure_count b) = length fs"
      "cb_state b = (if fs \<noteq> [] \<and> unat (failure_threshold cfg) \<le> length fs then Open else Closed)"
    by auto
  from b(4) have nh: "cb_state b \<noteq> HalfOpen" by simp
  have bound: "Suc (unat (failure_count b)) < 2 ^ 64" using snoc.prems b(3) by simp
  have fc: "unat (failure_count b + 1) = Suc (length fs)"
    using bound b(3) unat_add_one [of "failure_count b"] by simp
  obtain t c where f: "f = (t, c)" by (cases f)
  let ?b1 = "b\<lparr>failure_count := failure_count b + 1,
                  status := (status b)\<lparr>last_failure_time := Some t\<rparr>\<rparr>"
  let ?b2 = "(if unat (failure_threshold cfg) \<le> Suc (length fs) then transition_to Open else id) ?b1"
  have fail: "fail_all (fs @ [f]) (CircuitBreaker_new n cfg) = Some ?b2"
    using record_failure_Closed_or_Open [OF nh bound, of t c] b(1,2,3) f
    by (simp add: fail_all_append)
  have "cb_state b = Closed" if "\<not> unat (failure_threshold cfg) \<le> Suc (length fs)"
    using b(4) that by simp
  then have "cb_state ?b2 = (if unat (failure_threshold cfg) \<le> Suc (length fs) then Open else Closed)"
    by (simp add: transition_to_def cb_state_def)
  moreover have "cb_config ?b2 = cfg" "failure_count ?b2 = failure_count b + 1"
    "last_failure_time (status ?b2) = Some t"
    using b(2) by (simp_all add: transition_to_def)
  ultimately show ?case using fail fc f by simp
qed

section \<open>Properties\<close>

text \<open>
  An open breaker fails fast. From an open breaker whose last failure was at time \<open>t\<close>,
  every admission check made before \<open>t + open_duration\<close> is rejected, however many
  are made, and none of them changes the breaker.
\<close>

theorem cb_open_fails_fast:
  assumes "cb_state b = Open" "last_failure_time (status b) = Some t"
    and "\<forall>now \<in> set nows. t \<le> now \<and> now < t + open_duration (cb_config b)"
  shows "allow_all nows b = (replicate (length nows) False, b)"
  using assms by (rule allow_all_Open_cooling)

theorem cb_open_fails_fast_witness:
  "let b = (CircuitBreaker_new ''groq'' CircuitBreakerConfig_default)
             \<lparr>status := \<lparr>cs_state = Open, last_failure_time = Some 5\<rparr>\<rparr>
   in allow_all [7, 9, 1000000] b = ([False, False, False], b)"
proof -
  let ?b = "(CircuitBreaker_new ''groq'' CircuitBreakerConfig_default)
             \<lparr>status := \<lparr>cs_state = Open, last_failure_time = Some 5\<rparr>\<rparr>"
  have "allow_all [7, 9, 1000000] ?b = (replicate (length [7, 9, 1000000 :: instant]) False, ?b)"
    by (rule cb_open_fails_fast [where t = 5])
      (simp_all add: cb_state_def CircuitBreaker_new_def CircuitBreakerConfig_default_def from_secs_def)
  then show ?thesis by (simp add: Let_def numeral_3_eq_3)
qed

text \<open>
  C16: A fresh breaker trips exactly when the number of consecutive failures reaches the
  threshold. After any list of reported failures (fewer than \<open>2^64\<close>) nothing has
  panicked, the counter is the number of failures, the time stamp is that of the last one,
  and the breaker is open iff at least one failure was reported and the threshold is reached.
\<close>

theorem cb_trips_exactly_at_threshold:
  assumes "length fs < 2 ^ 64"
  shows "\<exists>b. fail_all fs (CircuitBreaker_new n cfg) = Some b
           \<and> unat (failure_count b) = length fs
           \<and> last_failure_time (status b) = (if fs = [] then None else Some (fst (last fs)))
           \<and> cb_state b =
               (if fs \<noteq> [] \<and> unat (failure_threshold cfg) \<le> length fs then Open else Closed)"
  using fail_all_new [OF assms] by blast

theorem cb_trips_exactly_at_threshold_witness:
  "\<exists>b. fail_all [(1, Some 429), (2, None), (9, Some 500)]
          (CircuitBreaker_new ''groq'' CircuitBreakerConfig_default) = Some b
        \<and> cb_state b = Open \<and> last_failure_time (status b) = Some 9"
  using cb_trips_exactly_at_threshold [of "[(1, Some 429), (2, None), (9, Some 500)]"
      "''groq''" CircuitBreakerConfig_default]
  by (auto simp: CircuitBreakerConfig_default_def)

text \<open>
  C17: An open breaker always recovers (default probe budget). In every state reached from
  a fresh breaker with \<open>half_open_max_attempts \<le> 1\<close> by any sequence of operations, if the
  breaker is open then there is a time from which a request is admitted, and if that request
  is reported successful the breaker is closed with its failure, probe and half-open counters
  at zero.
\<close>

theorem cb_open_recovers:
  assumes "run cb_step ops (CircuitBreaker_new n cfg) = Some b"
    and "half_open_max_attempts cfg \<le> 1" and "cb_state b = Open"
  shows "\<exists>t. \<forall>now \<ge> t. \<exists>b1. allow_request now b = (Inr (), b1) \<and> cb_state b1 = HalfOpen
           \<and> cb_state (record_success b1) = Closed \<and> failure_count (record_success b1) = 0
           \<and> probes_in_flight (record_success b1) = 0
           \<and> half_open_successes (record_success b1) = 0"
proof -
  have "cb_inv b" using cbm.run_inv [OF cb_inv_new assms(1)] .
  then obtain t where t: "last_failure_time (status b) = Some t" and h: "half_open_successes b = 0"
    using assms(3) by (auto simp: cb_inv_def)
  have cfg: "cb_config b = cfg"
    using cb_config_run [OF assms(1)] by (simp add: CircuitBreaker_new_def)
  have "unat (half_open_max_attempts cfg) \<le> 1" using assms(2) by (simp add: word_le_nat_alt)
  then have m: "ucast (half_open_max_attempts cfg) \<le> (1 :: u64)" by (simp add: word_le_nat_alt)
  have "allow_request now b = (Inr (), transition_to HalfOpen b)"
    if "t + open_duration cfg \<le> now" for now
    using allow_request_cooled [OF assms(3) t] that cfg by simp
  moreover have "cb_state (record_success (transition_to HalfOpen b)) = Closed"
    "failure_count (record_success (transition_to HalfOpen b)) = 0"
    "probes_in_flight (record_success (transition_to HalfOpen b)) = 0"
    "half_open_successes (record_success (transition_to HalfOpen b)) = 0"
    "cb_state (transition_to HalfOpen b) = HalfOpen"
    using h m cfg by (simp_all add: record_success_def transition_to_def cb_state_def Let_def)
  ultimately show ?thesis by blast
qed

theorem cb_open_recovers_witness:
  "\<exists>b. run cb_step [RecordFailure 1 None, RecordFailure 2 None, RecordFailure 3 (Some 503)]
          (CircuitBreaker_new ''groq'' CircuitBreakerConfig_default) = Some b
       \<and> (\<exists>t. \<forall>now \<ge> t. is_ok (fst (allow_request now b)))"
proof -
  let ?ops = "[RecordFailure 1 None, RecordFailure 2 None, RecordFailure 3 (Some 503)]"
  let ?new = "CircuitBreaker_new ''groq'' CircuitBreakerConfig_default"
  obtain b where b: "run cb_step ?ops ?new = Some b" "cb_state b = Open"
    by (simp add: cb_defs checked_add_def CircuitBreaker_new_def CircuitStatus_new_def
        CircuitBreakerConfig_default_def)
  have "half_open_max_attempts CircuitBreakerConfig_default \<le> 1"
    by (simp add: CircuitBreakerConfig_default_def)
  from cb_open_recovers [OF b(1) this b(2)] have "\<exists>t. \<forall>now \<ge> t. is_ok (fst (allow_request now b))"
    by fastforce
  with b(1) show ?thesis by blast
qed

text \<open>
  How many requests a cooled-down breaker admits before any outcome is reported. The
  request that moves it to half-open takes no probe slot, so a burst of \<open>k + 1\<close> checks
  admits that one and then as many as there are free slots:
  \<open>1 + min k (half_open_max_attempts - probes_in_flight)\<close>. With the default of one
  attempt this is two requests, not the single probe the module header describes.
\<close>

theorem cb_half_open_burst:
  assumes "cb_state b = Open" "last_failure_time (status b) = Some t"
    and "t + open_duration (cb_config b) \<le> now"
  shows "length (filter id (fst (allow_all (now # nows) b))) =
           1 + min (length nows)
                 (unat (half_open_max_attempts (cb_config b)) - unat (probes_in_flight b))
         \<and> cb_state (snd (allow_all (now # nows) b)) = HalfOpen"
proof -
  let ?b1 = "transition_to HalfOpen b"
  have h: "cb_state ?b1 = HalfOpen" "cb_config ?b1 = cb_config b"
      "probes_in_flight ?b1 = probes_in_flight b"
    by (simp_all add: transition_to_def cb_state_def)
  show ?thesis
    using allow_all_HalfOpen [OF h(1), of nows] h(2,3)
    by (simp add: allow_request_cooled [OF assms] case_prod_unfold Let_def)
qed

theorem cb_half_open_burst_witness:
  "let b = (CircuitBreaker_new ''groq'' CircuitBreakerConfig_default)
             \<lparr>status := \<lparr>cs_state = Open, last_failure_time = Some 0\<rparr>\<rparr>
   in length (filter id (fst (allow_all [from_secs 30, from_secs 31, from_secs 32] b))) = 2"
proof -
  let ?b = "(CircuitBreaker_new ''groq'' CircuitBreakerConfig_default)
             \<lparr>status := \<lparr>cs_state = Open, last_failure_time = Some 0\<rparr>\<rparr>"
  show ?thesis
    using cb_half_open_burst [of ?b 0 "from_secs 30" "[from_secs 31, from_secs 32]"]
    by (simp add: cb_state_def CircuitBreaker_new_def CircuitBreakerConfig_default_def Let_def)
qed

text \<open>
  With a probe budget of two or more the half-open state wedges. The request that moves
  an open breaker to half-open takes no slot, yet reporting its success releases one, so the
  in-flight counter wraps to \<open>2^64 - 1\<close>; from then on every admission check is rejected,
  at every time, and the breaker stays half-open.
\<close>

theorem cb_half_open_wedges:
  assumes "cb_state b = Open" "last_failure_time (status b) = Some t"
    and "t + open_duration (cb_config b) \<le> now"
    and "probes_in_flight b = 0" "half_open_successes b = 0"
    and "2 \<le> half_open_max_attempts (cb_config b)"
  defines "b2 \<equiv> record_success (snd (allow_request now b))"
  shows "allow_all nows b2 = (replicate (length nows) False, b2) \<and> cb_state b2 = HalfOpen
         \<and> probes_in_flight b2 = - 1"
proof -
  let ?m = "half_open_max_attempts (cb_config b)"
  have "2 \<le> unat ?m" using assms(6) by (simp add: word_le_nat_alt)
  then have "\<not> ucast ?m \<le> (1 :: u64)" by (simp add: word_le_nat_alt)
  then have b2: "cb_state b2 = HalfOpen" "probes_in_flight b2 = - 1" "cb_config b2 = cb_config b"
    using allow_request_cooled [OF assms(1-3)] assms(4,5)
    by (simp_all add: b2_def record_success_def transition_to_def cb_state_def Let_def)
  have full: "(ucast ?m :: u64) \<le> - 1" by simp
  have "allow_all nows b2 = (replicate (length nows) False, b2)"
    by (induction nows) (simp_all add: allow_request_HalfOpen [OF b2(1)] b2(2,3) full)
  with b2 show ?thesis by blast
qed

theorem cb_half_open_wedges_witness:
  "let cfg = CircuitBreakerConfig_default\<lparr>half_open_max_attempts := 2\<rparr>;
       b = (CircuitBreaker_new ''groq'' cfg)
             \<lparr>status := \<lparr>cs_state = Open, last_failure_time = Some 0\<rparr>\<rparr>;
       b2 = record_success (snd (allow_request (from_secs 30) b))
   in allow_all [from_secs 60, from_secs 3600] b2 = ([False, False], b2)"
proof -
  let ?cfg = "CircuitBreakerConfig_default\<lparr>half_open_max_attempts := 2\<rparr>"
  let ?b = "(CircuitBreaker_new ''groq'' ?cfg)
             \<lparr>status := \<lparr>cs_state = Open, last_failure_time = Some 0\<rparr>\<rparr>"
  show ?thesis
    using cb_half_open_wedges [of ?b 0 "from_secs 30" "[from_secs 60, from_secs 3600]"]
    by (simp add: cb_state_def CircuitBreaker_new_def CircuitBreakerConfig_default_def Let_def
        numeral_2_eq_2)
qed

end
