(* ===== verification/F64.thy ===== *)
theory F64
  imports Prelude Complex_Main
begin

text \<open>
  IEEE 754 binary64 as the Rust code uses it. A finite value is the rational number it
  denotes; every arithmetic operation is the exact rational operation followed by
  rounding to nearest, ties to even, with 53 bits of significand and the least exponent
  \<open>-1074\<close>; a result of magnitude \<open>2^1024\<close> or more is an infinity. The two zeros are
  identified: the code never observes the sign of a zero, since its only divisor that may
  be zero is a converted unsigned integer or a rate read from the configuration.

  The client theories use the rounding only through the laws of the locale \<open>rounding\<close>
  (monotone, exact on integers up to \<open>2^53\<close>), which \<open>rnd\<close> is shown to satisfy.
\<close>

section \<open>Rounding\<close>

fun ilog :: "nat \<Rightarrow> nat" where
  "ilog n = (if n < 2 then 0 else Suc (ilog (n div 2)))"

declare ilog.simps [simp del]

abbreviation pow2 :: "int \<Rightarrow> rat" where
  "pow2 k \<equiv> 2 powi k"

definition lg2 :: "rat \<Rightarrow> int" where
  "lg2 x =
     (let (n, d) = quotient_of x; k = int (ilog (nat n)) - int (ilog (nat d))
      in if pow2 k \<le> x then k else k - 1)"

definition round_even :: "rat \<Rightarrow> int" where
  "round_even x =
     (let f = \<lfloor>x\<rfloor>; d = x - of_int f
      in if d < 1 / 2 then f else if 1 / 2 < d then f + 1 else if even f then f else f + 1)"

definition exponent :: "rat \<Rightarrow> int" where
  "exponent x = max (- 1074) (lg2 x - 52)"

definition rnd_pos :: "rat \<Rightarrow> rat" where
  "rnd_pos x = of_int (round_even (x / pow2 (exponent x))) * pow2 (exponent x)"

definition rnd :: "rat \<Rightarrow> rat" where
  "rnd x = (if x = 0 then 0 else if 0 < x then rnd_pos x else - rnd_pos (- x))"

section \<open>Values and operations\<close>

datatype f64 = NaN | PInf | NInf | Fin rat

definition to_f64 :: "rat \<Rightarrow> f64" where
  "to_f64 x =
     (let r = rnd x
      in if pow2 1024 \<le> r then PInf else if r \<le> - pow2 1024 then NInf else Fin r)"

fun fneg :: "f64 \<Rightarrow> f64" where
  "fneg NaN = NaN"
| "fneg PInf = NInf"
| "fneg NInf = PInf"
| "fneg (Fin a) = Fin (- a)"

fun fadd :: "f64 \<Rightarrow> f64 \<Rightarrow> f64" where
  "fadd (Fin a) (Fin b) = to_f64 (a + b)"
| "fadd NaN _ = NaN"
| "fadd _ NaN = NaN"
| "fadd PInf NInf = NaN"
| "fadd NInf PInf = NaN"
| "fadd PInf _ = PInf"
| "fadd _ PInf = PInf"
| "fadd NInf _ = NInf"
| "fadd _ NInf = NInf"

definition fsub :: "f64 \<Rightarrow> f64 \<Rightarrow> f64" where
  "fsub a b = fadd a (fneg b)"

definition finf :: "bool \<Rightarrow> f64" where
  "finf positive = (if positive then PInf else NInf)"

fun fmul :: "f64 \<Rightarrow> f64 \<Rightarrow> f64" where
  "fmul (Fin a) (Fin b) = to_f64 (a * b)"
| "fmul NaN _ = NaN"
| "fmul _ NaN = NaN"
| "fmul (Fin a) PInf = (if a = 0 then NaN else finf (0 < a))"
| "fmul (Fin a) NInf = (if a = 0 then NaN else finf (a < 0))"
| "fmul PInf (Fin a) = (if a = 0 then NaN else finf (0 < a))"
| "fmul NInf (Fin a) = (if a = 0 then NaN else finf (a < 0))"
| "fmul PInf PInf = PInf"
| "fmul NInf NInf = PInf"
| "fmul _ _ = NInf"

fun fdiv :: "f64 \<Rightarrow> f64 \<Rightarrow> f64" where
  "fdiv (Fin a) (Fin b) =
     (if b = 0 then (if a = 0 then NaN else finf (0 < a)) else to_f64 (a / b))"
| "fdiv NaN _ = NaN"
| "fdiv _ NaN = NaN"
| "fdiv (Fin a) _ = Fin 0"
| "fdiv PInf (Fin b) = finf (0 \<le> b)"
| "fdiv NInf (Fin b) = finf (b < 0)"
| "fdiv _ _ = NaN"

fun fle :: "f64 \<Rightarrow> f64 \<Rightarrow> bool" where
  "fle (Fin a) (Fin b) = (a \<le> b)"
| "fle NaN _ = False"
| "fle _ NaN = False"
| "fle NInf _ = True"
| "fle _ PInf = True"
| "fle _ _ = False"

fun flt :: "f64 \<Rightarrow> f64 \<Rightarrow> bool" where
  "flt (Fin a) (Fin b) = (a < b)"
| "flt NaN _ = False"
| "flt _ NaN = False"
| "flt NInf b = (b \<noteq> NInf)"
| "flt a PInf = (a \<noteq> PInf)"
| "flt _ _ = False"

text \<open>\<open>f64::min\<close> and \<open>f64::max\<close> return the other operand when one is a NaN.\<close>

definition fmin :: "f64 \<Rightarrow> f64 \<Rightarrow> f64" where
  "fmin a b = (if a = NaN then b else if b = NaN then a else if flt b a then b else a)"

definition fmax :: "f64 \<Rightarrow> f64 \<Rightarrow> f64" where
  "fmax a b = (if a = NaN then b else if b = NaN then a else if flt a b then b else a)"

fun fabs :: "f64 \<Rightarrow> f64" where
  "fabs NaN = NaN"
| "fabs (Fin a) = Fin \<bar>a\<bar>"
| "fabs _ = PInf"

fun ffloor :: "f64 \<Rightarrow> f64" where
  "ffloor (Fin a) = Fin (of_int \<lfloor>a\<rfloor>)"
| "ffloor a = a"

fun fceil :: "f64 \<Rightarrow> f64" where
  "fceil (Fin a) = Fin (of_int \<lceil>a\<rceil>)"
| "fceil a = a"

fun is_finite :: "f64 \<Rightarrow> bool" where
  "is_finite (Fin _) = True"
| "is_finite _ = False"

definition f64_of_nat :: "nat \<Rightarrow> f64" where
  "f64_of_nat n = to_f64 (of_nat n)"

text \<open>The saturating casts \<open>as u64\<close> and \<open>as u32\<close>: NaN is 0, the fraction is cut off.\<close>

fun as_word :: "f64 \<Rightarrow> 'a::len word" where
  "as_word NaN = 0"
| "as_word PInf = - 1"
| "as_word NInf = 0"
| "as_word (Fin a) =
     (if a \<le> 0 then 0 else if 2 ^ LENGTH('a) \<le> a then - 1 else of_nat (nat \<lfloor>a\<rfloor>))"

text \<open>\<open>Duration::as_secs_f64\<close>: whole seconds plus the rounded fraction.\<close>

definition as_secs_f64 :: "duration \<Rightarrow> f64" where
  "as_secs_f64 d =
     fadd (f64_of_nat (d div 1000000000))
       (fdiv (f64_of_nat (d mod 1000000000)) (f64_of_nat 1000000000))"

section \<open>The contract of rounding\<close>

locale rounding =
  fixes rnd :: "rat \<Rightarrow> rat"
  assumes rnd_mono: "x \<le> y \<Longrightarrow> rnd x \<le> rnd y"
    and rnd_int: "\<bar>n\<bar> \<le> 2 ^ 53 \<Longrightarrow> rnd (of_int n) = of_int n"
begin

lemma rnd_zero: "rnd 0 = 0"
  using rnd_int [of 0] by simp

lemma rnd_one: "rnd 1 = 1"
  using rnd_int [of 1] by simp

lemma rnd_nat: "n \<le> 2 ^ 53 \<Longrightarrow> rnd (of_nat n) = of_nat n"
  using rnd_int [of "int n"] by simp

lemma rnd_nonneg: "0 \<le> x \<Longrightarrow> 0 \<le> rnd x"
  using rnd_mono [of 0 x] by (simp add: rnd_zero)

lemma rnd_ge_nat: "of_nat n \<le> x \<Longrightarrow> n \<le> 2 ^ 53 \<Longrightarrow> of_nat n \<le> rnd x"
  using rnd_mono [of "of_nat n" x] by (simp add: rnd_nat)

lemma rnd_le_nat: "x \<le> of_nat n \<Longrightarrow> n \<le> 2 ^ 53 \<Longrightarrow> rnd x \<le> of_nat n"
  using rnd_mono [of x "of_nat n"] by (simp add: rnd_nat)

lemma rnd_ge_one: "1 \<le> x \<Longrightarrow> 1 \<le> rnd x"
  using rnd_mono [of 1 x] by (simp add: rnd_one)

lemma rnd_pos_one: "1 \<le> x \<Longrightarrow> 0 < rnd x"
  using rnd_ge_one by fastforce

end

section \<open>The rounding function satisfies the contract\<close>

lemma ilog_bounds: "0 < n \<Longrightarrow> 2 ^ ilog n \<le> n \<and> n < 2 ^ Suc (ilog n)"
proof (induction n rule: ilog.induct)
  case (1 n)
  show ?case
  proof (cases "n < 2")
    case True
    with 1 show ?thesis by (simp add: ilog.simps)
  next
    case False
    with 1 have "2 ^ ilog (n div 2) \<le> n div 2" "n div 2 < 2 ^ Suc (ilog (n div 2))" by auto
    then have "2 * 2 ^ ilog (n div 2) \<le> n" "n < 4 * 2 ^ ilog (n div 2)" by auto
    then show ?thesis using False by (simp add: ilog.simps [of n])
  qed
qed

lemma pow2_pos [simp]: "0 < pow2 k"
  by (simp add: zero_less_power_int)

lemma pow2_mono: "k \<le> l \<Longrightarrow> pow2 k \<le> pow2 l"
  by (rule power_int_increasing) auto

lemma pow2_less_iff: "pow2 k < pow2 l \<longleftrightarrow> k < l"
  by (meson leD linorder_le_less_linear pow2_mono power_int_strict_increasing one_less_numeral_iff
      semiring_norm(76))

lemma lg2_bounds:
  assumes "0 < x"
  shows "pow2 (lg2 x) \<le> x \<and> x < pow2 (lg2 x + 1)"
proof -
  obtain n d where q: "quotient_of x = (n, d)" by (cases "quotient_of x")
  have d: "0 < d" using q by (rule quotient_of_denom_pos)
  have x: "x = of_int n / of_int d" using q by (rule quotient_of_div)
  then have n: "0 < n" using assms d by (simp add: zero_less_divide_iff)
  let ?a = "ilog (nat n)" and ?b = "ilog (nat d)"
  have to_rat: "(2::rat) ^ a \<le> of_int m \<and> of_int m < (2::rat) ^ Suc a"
    if "2 ^ a \<le> nat m" "nat m < 2 ^ Suc a" "0 < m" for a m
  proof -
    have "(2::int) ^ a \<le> m" "m < 2 ^ Suc a"
      using that by (simp_all add: le_nat_iff nat_less_iff)
    then have "(of_int (2 ^ a) :: rat) \<le> of_int m" "(of_int m :: rat) < of_int (2 ^ Suc a)"
      by (simp_all only: of_int_le_iff of_int_less_iff)
    then show ?thesis by simp
  qed
  have na: "(2::rat) ^ ?a \<le> of_int n" "of_int n < (2::rat) ^ Suc ?a"
    using ilog_bounds [of "nat n"] n to_rat [of ?a n] by auto
  have db: "(2::rat) ^ ?b \<le> of_int d" "of_int d < (2::rat) ^ Suc ?b"
    using ilog_bounds [of "nat d"] d to_rat [of ?b d] by auto
  have p: "pow2 (int i - int j) = 2 ^ i / 2 ^ j" for i j
    by (simp add: power_int_diff)
  have up: "x < pow2 (int (Suc ?a) - int ?b)"
    unfolding x p using na db d n
    by (intro frac_less) auto
  have lo: "pow2 (int ?a - int (Suc ?b)) \<le> x"
    unfolding x p using na db d n
    by (intro frac_le) auto
  have k: "lg2 x = (if pow2 (int ?a - int ?b) \<le> x then int ?a - int ?b else int ?a - int ?b - 1)"
    by (simp add: lg2_def q)
  have e1: "int (Suc ?a) - int ?b = int ?a - int ?b + 1"
    and e2: "int ?a - int (Suc ?b) = int ?a - int ?b - 1" by simp_all
  show ?thesis using up lo unfolding k e1 e2 by simp
qed

lemma lg2_mono: "0 < x \<Longrightarrow> x \<le> y \<Longrightarrow> lg2 x \<le> lg2 y"
proof -
  assume a: "0 < x" "x \<le> y"
  have "pow2 (lg2 x) < pow2 (lg2 y + 1)"
    using lg2_bounds [of x] lg2_bounds [of y] a by linarith
  then show ?thesis by (simp add: pow2_less_iff)
qed

lemma round_even_mono: "x \<le> y \<Longrightarrow> round_even x \<le> round_even y"
proof -
  assume a: "x \<le> y"
  then have "\<lfloor>x\<rfloor> \<le> \<lfloor>y\<rfloor>" by (rule floor_mono)
  then consider "\<lfloor>x\<rfloor> = \<lfloor>y\<rfloor>" | "\<lfloor>x\<rfloor> + 1 \<le> \<lfloor>y\<rfloor>" by linarith
  then show ?thesis
    using a by cases (auto simp: round_even_def Let_def)
qed

lemma round_even_int [simp]: "round_even (of_int n) = n"
  by (simp add: round_even_def Let_def)

lemma round_even_ge: "of_int n \<le> x \<Longrightarrow> n \<le> round_even x"
  using round_even_mono [of "of_int n" x] by simp

lemma round_even_le: "x \<le> of_int n \<Longrightarrow> round_even x \<le> n"
  using round_even_mono [of x "of_int n"] by simp

lemma exponent_bounds:
  assumes "0 < x"
  shows "x / pow2 (exponent x) \<le> 2 ^ 53"
    and "- 1074 < exponent x \<Longrightarrow> 2 ^ 52 \<le> x / pow2 (exponent x)"
proof -
  have "lg2 x + 1 \<le> exponent x + 53" by (simp add: exponent_def)
  then have "x < pow2 (exponent x + 53)"
    using lg2_bounds [OF assms] pow2_mono [of "lg2 x + 1" "exponent x + 53"] by linarith
  then show "x / pow2 (exponent x) \<le> 2 ^ 53"
    by (simp add: power_int_add field_simps)
  assume "- 1074 < exponent x"
  then have "pow2 (exponent x + 52) \<le> x"
    using lg2_bounds [OF assms] by (simp add: exponent_def)
  then show "2 ^ 52 \<le> x / pow2 (exponent x)"
    by (simp add: power_int_add field_simps)
qed

lemma rnd_pos_upper: "0 < x \<Longrightarrow> rnd_pos x \<le> pow2 (exponent x + 53)"
proof -
  assume "0 < x"
  then have "round_even (x / pow2 (exponent x)) \<le> 2 ^ 53"
    using exponent_bounds(1) [of x] by (intro round_even_le) simp
  then have "(of_int (round_even (x / pow2 (exponent x))) :: rat) \<le> of_int (2 ^ 53)"
    by (simp only: of_int_le_iff)
  then show ?thesis by (simp add: rnd_pos_def power_int_add mult.commute)
qed

lemma rnd_pos_lower: "0 < x \<Longrightarrow> - 1074 < exponent x \<Longrightarrow> pow2 (exponent x + 52) \<le> rnd_pos x"
proof -
  assume "0 < x" "- 1074 < exponent x"
  then have "2 ^ 52 \<le> round_even (x / pow2 (exponent x))"
    using exponent_bounds(2) [of x] by (intro round_even_ge) simp
  then have "(of_int (2 ^ 52) :: rat) \<le> of_int (round_even (x / pow2 (exponent x)))"
    by (simp only: of_int_le_iff)
  then show ?thesis by (simp add: rnd_pos_def power_int_add mult.commute)
qed

lemma rnd_pos_nonneg: "0 < x \<Longrightarrow> 0 \<le> rnd_pos x"
  unfolding rnd_pos_def by (intro mult_nonneg_nonneg) (auto intro!: round_even_ge simp: less_imp_le)

lemma rnd_pos_mono:
  assumes "0 < x" "x \<le> y"
  shows "rnd_pos x \<le> rnd_pos y"
proof (cases "exponent x = exponent y")
  case True
  have "x / pow2 (exponent y) \<le> y / pow2 (exponent y)"
    using assms by (intro divide_right_mono) (auto simp: less_imp_le)
  then show ?thesis
    using True by (simp add: rnd_pos_def round_even_mono mult_right_mono less_imp_le)
next
  case False
  moreover have "exponent x \<le> exponent y"
    using lg2_mono [OF assms] by (auto simp: exponent_def)
  ultimately have lt: "exponent x + 53 \<le> exponent y + 52" by simp
  have "- 1074 \<le> exponent x" by (simp add: exponent_def)
  with lt have "pow2 (exponent y + 52) \<le> rnd_pos y"
    using assms by (intro rnd_pos_lower) auto
  with rnd_pos_upper [OF assms(1)] pow2_mono [OF lt] show ?thesis by linarith
qed

lemma rnd_minus: "rnd (- x) = - rnd x"
  by (simp add: rnd_def)

lemma rnd_mono: "x \<le> y \<Longrightarrow> rnd x \<le> rnd y"
proof -
  assume a: "x \<le> y"
  consider "0 < x" | "x = 0" | "x < 0" "0 \<le> y" | "x < 0" "y < 0" by linarith
  then show ?thesis
  proof cases
    case 1
    with a show ?thesis by (simp add: rnd_def rnd_pos_mono)
  next
    case 2
    with a show ?thesis by (simp add: rnd_def rnd_pos_nonneg)
  next
    case 3
    then have "0 \<le> rnd_pos (- x)" "0 < y \<longrightarrow> 0 \<le> rnd_pos y" by (simp_all add: rnd_pos_nonneg)
    with 3 show ?thesis by (auto simp: rnd_def)
  next
    case 4
    with a show ?thesis by (simp add: rnd_def rnd_pos_mono)
  qed
qed

lemma rnd_pos_exact:
  assumes "0 < x" "x = of_int m * pow2 e" "exponent x \<le> e"
  shows "rnd_pos x = x"
proof -
  define k where "k = exponent x"
  let ?M = "m * 2 ^ nat (e - k)"
  have "pow2 e = 2 ^ nat (e - k) * pow2 k"
    using assms(3) by (simp add: k_def flip: power_int_of_nat power_int_add)
  then have x: "x = of_int ?M * pow2 k"
    using assms(2) by simp
  then have "x / pow2 k = of_int ?M" by simp
  then have "rnd_pos x = of_int ?M * pow2 k"
    by (simp only: rnd_pos_def round_even_int flip: k_def)
  with x show ?thesis by simp
qed

lemma rnd_pos_int:
  assumes "0 < n" "n \<le> 2 ^ 53"
  shows "rnd_pos (of_int n) = of_int n"
proof (cases "n = 2 ^ 53")
  case True
  have "lg2 (of_int n) \<le> 53"
  proof -
    have "(of_int n :: rat) = pow2 53" by (simp add: True)
    then have "pow2 (lg2 (of_int n)) \<le> pow2 53" using lg2_bounds [of "of_int n"] assms by simp
    then show ?thesis by (meson linorder_not_le pow2_less_iff)
  qed
  then show ?thesis
    using assms True by (intro rnd_pos_exact [where m = "2 ^ 52" and e = 1]) (auto simp: exponent_def)
next
  case False
  with assms have "n < 2 ^ 53" by simp
  then have "(of_int n :: rat) < of_int (2 ^ 53)" by (simp only: of_int_less_iff)
  then have "pow2 (lg2 (of_int n)) < pow2 53"
    using lg2_bounds [of "of_int n"] assms by simp
  then have "lg2 (of_int n) < 53" by (simp only: pow2_less_iff)
  then show ?thesis
    using assms by (intro rnd_pos_exact [where m = n and e = 0]) (auto simp: exponent_def)
qed

lemma rnd_int: "\<bar>n\<bar> \<le> 2 ^ 53 \<Longrightarrow> rnd (of_int n) = of_int n"
proof -
  assume a: "\<bar>n\<bar> \<le> 2 ^ 53"
  consider "n = 0" | "0 < n" | "0 < - n" by linarith
  then show ?thesis
  proof cases
    case 2
    with a show ?thesis by (simp add: rnd_def rnd_pos_int)
  next
    case 3
    with a have "rnd_pos (of_int (- n)) = of_int (- n)" by (intro rnd_pos_int) auto
    with 3 show ?thesis by (simp add: rnd_def)
  qed (simp add: rnd_def)
qed

interpretation f64r: rounding rnd
  by unfold_locales (fact rnd_mono, fact rnd_int)

text \<open>The largest value below one: \<open>1 - 2^-53\<close> is representable.\<close>

lemma rnd_below_one: "rnd (1 - 1 / 2 ^ 53) = 1 - 1 / 2 ^ 53"
proof -
  let ?x = "1 - 1 / 2 ^ 53 :: rat"
  have "?x < pow2 0" "0 < ?x" by simp_all
  with lg2_bounds [of ?x] have "pow2 (lg2 ?x) < pow2 0" by linarith
  then have "lg2 ?x < 0" by (simp only: pow2_less_iff)
  moreover have "?x = of_int (2 ^ 53 - 1) * pow2 (- 53)"
    by (simp add: power_int_minus field_simps)
  ultimately have "rnd_pos ?x = ?x"
    by (intro rnd_pos_exact [where m = "2 ^ 53 - 1" and e = "- 53"]) (auto simp: exponent_def)
  then show ?thesis by (simp add: rnd_def)
qed

lemma rnd_pow2: "- 1074 \<le> k \<Longrightarrow> rnd (pow2 k) = pow2 k"
proof -
  assume k: "- 1074 \<le> k"
  have "pow2 (lg2 (pow2 k)) \<le> pow2 k" using lg2_bounds [of "pow2 k"] by simp
  then have "lg2 (pow2 k) \<le> k" by (meson linorder_not_le pow2_less_iff)
  with k have "rnd_pos (pow2 k) = pow2 k"
    by (intro rnd_pos_exact [where m = 1 and e = k]) (auto simp: exponent_def)
  then show ?thesis
    using pow2_pos [of k] by (simp add: rnd_def del: pow2_pos)
qed

text \<open>Below \<open>2^64\<close> in magnitude no operation overflows to an infinity.\<close>

lemma to_f64_Fin:
  assumes "\<bar>x\<bar> \<le> 2 ^ 64"
  shows "to_f64 x = Fin (rnd x)"
proof -
  have r: "rnd (2 ^ 64) = 2 ^ 64" using rnd_pow2 [of 64] by simp
  have "rnd x \<le> 2 ^ 64" using rnd_mono [of x "2 ^ 64"] assms r by simp
  moreover have "- (2 ^ 64) \<le> rnd x"
    using rnd_mono [of "- (2 ^ 64)" x] assms r rnd_minus [of "2 ^ 64"] by simp
  moreover have "(2::rat) ^ 64 < pow2 1024" by simp
  ultimately have "\<not> pow2 1024 \<le> rnd x" "\<not> rnd x \<le> - pow2 1024" by linarith+
  then show ?thesis by (simp add: to_f64_def Let_def)
qed

lemma to_f64_one [simp]: "to_f64 1 = Fin 1"
  by (simp add: to_f64_Fin f64r.rnd_one)

lemma f64_of_nat_u64: "n < 2 ^ 64 \<Longrightarrow> f64_of_nat n = Fin (rnd (of_nat n))"
proof -
  assume "n < 2 ^ 64"
  then have "(of_nat n :: rat) \<le> of_nat (2 ^ 64)" by (intro of_nat_mono) simp
  then show ?thesis by (simp add: f64_of_nat_def to_f64_Fin)
qed

section \<open>Non-negative binary64 arithmetic\<close>

definition nonneg_or_nan :: "f64 \<Rightarrow> bool" where
  "nonneg_or_nan x \<longleftrightarrow> \<not> flt x (Fin 0)"

lemma nonneg_or_nan_simps [simp]:
  "nonneg_or_nan NaN" "nonneg_or_nan PInf" "\<not> nonneg_or_nan NInf"
  "nonneg_or_nan (Fin a) \<longleftrightarrow> 0 \<le> a"
  by (auto simp: nonneg_or_nan_def)

lemma to_f64_nonneg: "0 \<le> x \<Longrightarrow> to_f64 x = Fin (rnd x) \<or> to_f64 x = PInf"
  using f64r.rnd_nonneg [of x] pow2_pos [of 1024] unfolding to_f64_def Let_def
  by (metis leD le_less_trans neg_less_0_iff_less)

lemma nonneg_to_f64: "0 \<le> x \<Longrightarrow> nonneg_or_nan (to_f64 x)"
  using to_f64_nonneg [of x] f64r.rnd_nonneg [of x] by auto

lemma nonneg_fmul: "nonneg_or_nan a \<Longrightarrow> nonneg_or_nan b \<Longrightarrow> nonneg_or_nan (fmul a b)"
  by (cases a; cases b) (auto simp: nonneg_to_f64 finf_def)

lemma nonneg_fadd: "nonneg_or_nan a \<Longrightarrow> nonneg_or_nan b \<Longrightarrow> nonneg_or_nan (fadd a b)"
  by (cases a; cases b) (auto simp: nonneg_to_f64)

lemma nonneg_fdiv: "nonneg_or_nan a \<Longrightarrow> 0 < b \<Longrightarrow> nonneg_or_nan (fdiv a (Fin b))"
  by (cases a) (auto simp: nonneg_to_f64 finf_def)

lemma f64_of_nat_small: "n \<le> 2 ^ 53 \<Longrightarrow> f64_of_nat n = Fin (of_nat n)"
  by (simp add: f64_of_nat_u64 f64r.rnd_nat)

lemma f64_of_u32: "f64_of_nat (unat (c :: u32)) = Fin (of_nat (unat c))"
  using unat_u32_lt [of c] by (intro f64_of_nat_small) simp

lemma nonneg_as_secs: "nonneg_or_nan (as_secs_f64 d)"
  unfolding as_secs_f64_def
  by (intro nonneg_fadd) (simp_all add: f64_of_nat_def [of "_ div _"] f64_of_nat_small nonneg_to_f64
      nonneg_fdiv f64_of_nat_def [of "_ mod _"] order.trans [OF mod_less_eq_dividend])

lemma as_secs_zero [simp]: "as_secs_f64 0 = Fin 0"
  by (simp add: as_secs_f64_def f64_of_nat_small to_f64_Fin f64r.rnd_zero)

text \<open>Below one second the conversion is strictly below one.\<close>

lemma as_secs_below_one:
  assumes "d < 1000000000"
  shows "\<exists>s. as_secs_f64 d = Fin s \<and> 0 \<le> s \<and> s \<le> 1 - 1 / 2 ^ 53"
proof -
  have r: "(of_nat d / 1000000000 :: rat) \<le> 1 - 1 / 2 ^ 53"
  proof -
    have "(of_nat d :: rat) \<le> of_nat 999999999" using assms by (intro of_nat_mono) simp
    then show ?thesis by (simp add: field_simps)
  qed
  have r0: "(0 :: rat) \<le> of_nat d / 1000000000" by simp
  have le: "rnd (of_nat d / 1000000000) \<le> 1 - 1 / 2 ^ 53"
    using rnd_mono [OF r] rnd_below_one by simp
  have ge: "0 \<le> rnd (of_nat d / 1000000000)" by (rule f64r.rnd_nonneg [OF r0])
  have le2: "rnd (rnd (of_nat d / 1000000000)) \<le> 1 - 1 / 2 ^ 53"
    using rnd_mono [OF le] rnd_below_one by simp
  have one: "(1 :: rat) - 1 / 2 ^ 53 \<le> 2 ^ 64" by simp
  have ab: "\<bar>of_nat d / 1000000000 :: rat\<bar> \<le> 2 ^ 64" "\<bar>rnd (of_nat d / 1000000000)\<bar> \<le> 2 ^ 64"
    using r r0 le ge one by (simp_all only: abs_of_nonneg)
  have "as_secs_f64 d = Fin (rnd (rnd (of_nat d / 1000000000)))"
    using assms ab by (simp add: as_secs_f64_def f64_of_nat_small to_f64_Fin)
  then show ?thesis using le2 f64r.rnd_nonneg [OF ge] by blast
qed

lemma as_secs_u64_bounds:
  assumes "d < 2 ^ 64"
  shows "\<exists>s. as_secs_f64 d = Fin s \<and> 0 \<le> s \<and> s \<le> 2 ^ 54"
proof -
  have small: "d div 1000000000 \<le> 2 ^ 53" "d mod 1000000000 \<le> 2 ^ 53" using assms by simp_all
  have "(of_nat (d mod 1000000000) :: rat) \<le> of_nat 1000000000" by (intro of_nat_mono) simp
  then have le1: "(of_nat (d mod 1000000000) / 1000000000 :: rat) \<le> of_nat 1" by simp
  then have q: "\<bar>of_nat (d mod 1000000000) / 1000000000 :: rat\<bar> \<le> 2 ^ 64" by simp
  have r: "rnd (of_nat (d mod 1000000000) / 1000000000) \<le> 1"
    "0 \<le> rnd (of_nat (d mod 1000000000) / 1000000000)"
    using f64r.rnd_le_nat [OF le1] by (simp_all add: f64r.rnd_nonneg)
  let ?x = "of_nat (d div 1000000000) + rnd (of_nat (d mod 1000000000) / 1000000000) :: rat"
  have "(of_nat (d div 1000000000) :: rat) \<le> of_nat (2 ^ 53)" using small(1) by (rule of_nat_mono)
  with r have x: "0 \<le> ?x" "?x \<le> 2 ^ 54" by simp_all
  have "rnd (2 ^ 54) = 2 ^ 54" using rnd_pow2 [of 54] by simp
  with rnd_mono [OF x(2)] have "rnd ?x \<le> 2 ^ 54" by simp
  moreover have "as_secs_f64 d = Fin (rnd ?x)"
    using small q x by (simp add: as_secs_f64_def f64_of_nat_small to_f64_Fin)
  ultimately show ?thesis using f64r.rnd_nonneg [OF x(1)] by blast
qed

text \<open>Rounding computed from the nearest multiple of the last place.\<close>

lemma rnd_dyadic:
  assumes "e \<le> 1074" "2 ^ 52 \<le> x * 2 ^ e" "x * 2 ^ e < 2 ^ 53" "round_even (x * 2 ^ e) = m"
  shows "rnd x = of_int m / 2 ^ e"
proof -
  have "0 < x * 2 ^ e" using assms(2) by (rule order_less_le_trans [rotated]) simp
  then have x: "0 < x" by (simp add: zero_less_mult_iff)
  have p: "pow2 (int i - int e) = 2 ^ i / 2 ^ e" for i by (simp add: power_int_diff)
  have "pow2 (int 52 - int e) \<le> x" "x < pow2 (int 53 - int e)"
    unfolding p using assms(2,3) by (simp_all add: field_simps)
  with lg2_bounds [OF x] have "pow2 (int 52 - int e) < pow2 (lg2 x + 1)" "pow2 (lg2 x) < pow2 (int 53 - int e)"
    by linarith+
  then have "lg2 x = 52 - int e" unfolding pow2_less_iff by simp
  then have ex: "exponent x = - int e" using assms(1) by (simp add: exponent_def)
  have d: "x / pow2 (- int e) = x * 2 ^ e" by (simp add: power_int_minus divide_inverse)
  show ?thesis using x assms(4) unfolding rnd_def rnd_pos_def ex d by (simp add: power_int_minus divide_inverse)
qed

lemma floor_rat_numeral: "\<lfloor>numeral a / numeral b :: rat\<rfloor> = numeral a div numeral b"
  using floor_divide_of_int_eq [of "numeral a" "numeral b", where ?'a = rat] by simp

lemmas rnd_dyadic_numeral = rnd_dyadic [where m = "numeral m" for m, unfolded of_int_numeral]

lemmas round_even_eval = round_even_def Let_def floor_rat_numeral

end
