(* ===== verification/FuelMonitor.thy ===== *)
theory FuelMonitor
  imports F64
begin

text \<open>
  Fuel accounting and emergency shutdown: the \<open>FuelMonitor\<close> of
  \<open>crates/core/src/engine/fuel_monitor.rs\<close>, the \<open>SisInterlock\<close> of
  \<open>crates/core/src/engine/hot_swap.rs\<close>, and the \<open>FuelAllocator\<close> and
  \<open>FuelFuse\<close> of \<open>crates/cache-storage/src/lib.rs\<close>.

  The monitor divides the consumed fuel by the quota in binary64, so its thresholds are
  about rounded quotients; the lemmas below say what they mean for the integer counters.
  The atomic counters wrap around, plain additions panic on overflow.
\<close>

section \<open>FuelMonitor\<close>

datatype EsdState = EsdNormal | EsdWarning | EsdCritical | EsdEmergencyShutdown

fun EsdState_repr :: "EsdState \<Rightarrow> u8" where
  "EsdState_repr EsdNormal = 0"
| "EsdState_repr EsdWarning = 1"
| "EsdState_repr EsdCritical = 2"
| "EsdState_repr EsdEmergencyShutdown = 3"

datatype Trap = Interrupt

definition SIS_FUEL_QUOTA :: u64 where
  "SIS_FUEL_QUOTA = 10000000000"

definition PRE_SHUTDOWN_THRESHOLD :: f64 where
  "PRE_SHUTDOWN_THRESHOLD = to_f64 (90 / 100)"

definition CRITICAL_THRESHOLD :: f64 where
  "CRITICAL_THRESHOLD = to_f64 (95 / 100)"

definition JOULES_PER_FUEL :: f64 where
  "JOULES_PER_FUEL = to_f64 (1 / 10 ^ 10)"

record FuelMonitor =
  fm_consumed :: u64
  fm_quota :: u64
  fm_state :: u8
  fm_start_time :: instant
  fm_esd_callback :: bool

record EnergyMetrics =
  em_fuel_consumed :: u64
  em_fuel_remaining :: u64
  em_joules_consumed :: f64
  em_utilization_percent :: f64
  em_state :: EsdState
  em_uptime :: duration

definition FuelMonitor_new :: "instant \<Rightarrow> u64 \<Rightarrow> FuelMonitor" where
  "FuelMonitor_new now quota =
     \<lparr>fm_consumed = 0, fm_quota = quota, fm_state = EsdState_repr EsdNormal,
      fm_start_time = now, fm_esd_callback = False\<rparr>"

definition with_esd_callback :: "FuelMonitor \<Rightarrow> FuelMonitor" where
  "with_esd_callback m = m\<lparr>fm_esd_callback := True\<rparr>"

definition f64_of_u64 :: "u64 \<Rightarrow> f64" where
  "f64_of_u64 w = f64_of_nat (unat w)"

definition compute_state :: "FuelMonitor \<Rightarrow> u64 \<Rightarrow> EsdState" where
  "compute_state m consumed =
     (let utilization = fdiv (f64_of_u64 consumed) (f64_of_u64 (fm_quota m))
      in if fle (to_f64 1) utilization then EsdEmergencyShutdown
         else if fle CRITICAL_THRESHOLD utilization then EsdCritical
         else if fle PRE_SHUTDOWN_THRESHOLD utilization then EsdWarning
         else EsdNormal)"

text \<open>The second component of the result says whether the shutdown callback was called.\<close>

definition consume :: "u64 \<Rightarrow> FuelMonitor \<Rightarrow> (Trap, unit) rresult \<times> bool \<times> FuelMonitor" where
  "consume fuel m =
     (let total = fm_consumed m;
          m1 = m\<lparr>fm_consumed := total + fuel\<rparr>;
          new_total = saturating_add total fuel;
          new_state = compute_state m1 new_total;
          m2 = m1\<lparr>fm_state := EsdState_repr new_state\<rparr>
      in case new_state of
           EsdEmergencyShutdown \<Rightarrow> (Inl Interrupt, fm_esd_callback m2, m2)
         | EsdCritical \<Rightarrow> (Inr (), False, m2)
         | EsdWarning \<Rightarrow> (Inr (), False, m2)
         | EsdNormal \<Rightarrow> (Inr (), False, m2))"

definition fm_current_state :: "FuelMonitor \<Rightarrow> EsdState" where
  "fm_current_state m =
     (if fm_state m = 0 then EsdNormal else if fm_state m = 1 then EsdWarning
      else if fm_state m = 2 then EsdCritical else if fm_state m = 3 then EsdEmergencyShutdown
      else EsdNormal)"

definition fm_fuel_remaining :: "FuelMonitor \<Rightarrow> u64" where
  "fm_fuel_remaining m = saturating_sub (fm_quota m) (fm_consumed m)"

definition joules_consumed :: "FuelMonitor \<Rightarrow> f64" where
  "joules_consumed m = fmul (f64_of_u64 (fm_consumed m)) JOULES_PER_FUEL"

definition fm_metrics :: "instant \<Rightarrow> FuelMonitor \<Rightarrow> EnergyMetrics" where
  "fm_metrics now m =
     \<lparr>em_fuel_consumed = fm_consumed m,
      em_fuel_remaining = saturating_sub (fm_quota m) (fm_consumed m),
      em_joules_consumed = fmul (f64_of_u64 (fm_consumed m)) JOULES_PER_FUEL,
      em_utilization_percent =
        fmul (fdiv (f64_of_u64 (fm_consumed m)) (f64_of_u64 (fm_quota m))) (to_f64 100),
      em_state = fm_current_state m,
      em_uptime = elapsed now (fm_start_time m)\<rparr>"

definition fm_reset :: "FuelMonitor \<Rightarrow> FuelMonitor" where
  "fm_reset m = m\<lparr>fm_consumed := 0, fm_state := EsdState_repr EsdNormal\<rparr>"

definition is_esd_active :: "FuelMonitor \<Rightarrow> bool" where
  "is_esd_active m = (fm_current_state m = EsdEmergencyShutdown)"

fun consume_all :: "u64 list \<Rightarrow> FuelMonitor \<Rightarrow> (Trap, unit) rresult list \<times> FuelMonitor" where
  "consume_all [] m = ([], m)"
| "consume_all (f # fs) m =
     (let (r, _, m1) = consume f m; (rs, m2) = consume_all fs m1 in (r # rs, m2))"

section \<open>SisInterlock\<close>

datatype SisInterlockState = SisNormal | SisPreShutdown | SisEmergencyShutdown | SisLocked

fun SisInterlockState_repr :: "SisInterlockState \<Rightarrow> u8" where
  "SisInterlockState_repr SisNormal = 0"
| "SisInterlockState_repr SisPreShutdown = 1"
| "SisInterlockState_repr SisEmergencyShutdown = 2"
| "SisInterlockState_repr SisLocked = 3"

record SisInterlock =
  sis_state :: u8
  sis_fuel_consumed :: u64
  sis_fuel_limit :: u64

definition SisInterlock_new :: "u64 \<Rightarrow> SisInterlock" where
  "SisInterlock_new limit =
     \<lparr>sis_state = SisInterlockState_repr SisNormal, sis_fuel_consumed = 0, sis_fuel_limit = limit\<rparr>"

definition sis_transition_to :: "SisInterlockState \<Rightarrow> SisInterlock \<Rightarrow> SisInterlock" where
  "sis_transition_to new_state s = s\<lparr>sis_state := SisInterlockState_repr new_state\<rparr>"

definition trigger_esd :: "SisInterlock \<Rightarrow> SisInterlock" where
  "trigger_esd s = sis_transition_to SisEmergencyShutdown s"

definition consume_fuel :: "u64 \<Rightarrow> SisInterlock \<Rightarrow> (SisInterlockState \<times> SisInterlock) may_panic" where
  "consume_fuel amount s =
     (let total = sis_fuel_consumed s;
          s1 = s\<lparr>sis_fuel_consumed := total + amount\<rparr>
      in case checked_add total amount of
           None \<Rightarrow> None
         | Some new_total \<Rightarrow>
             if sis_fuel_limit s1 \<le> new_total
             then Some (SisEmergencyShutdown, trigger_esd s1)
             else case checked_mul (sis_fuel_limit s1) 9 of
                    None \<Rightarrow> None
                  | Some p \<Rightarrow>
                      if p div 10 \<le> new_total
                      then Some (SisPreShutdown, sis_transition_to SisPreShutdown s1)
                      else Some (SisNormal, s1))"

definition sis_current_state :: "SisInterlock \<Rightarrow> SisInterlockState" where
  "sis_current_state s =
     (if sis_state s = 0 then SisNormal else if sis_state s = 1 then SisPreShutdown
      else if sis_state s = 2 then SisEmergencyShutdown else if sis_state s = 3 then SisLocked
      else SisNormal)"

definition sis_fuel_remaining :: "SisInterlock \<Rightarrow> u64" where
  "sis_fuel_remaining s = saturating_sub (sis_fuel_limit s) (sis_fuel_consumed s)"

definition sis_reset :: "SisInterlock \<Rightarrow> SisInterlock" where
  "sis_reset s = sis_transition_to SisNormal (s\<lparr>sis_fuel_consumed := 0\<rparr>)"

fun consume_fuel_all ::
  "u64 list \<Rightarrow> SisInterlock \<Rightarrow> (SisInterlockState list \<times> SisInterlock) may_panic" where
  "consume_fuel_all [] s = Some ([], s)"
| "consume_fuel_all (a # as) s =
     (case consume_fuel a s of
        None \<Rightarrow> None
      | Some (r, s1) \<Rightarrow>
          (case consume_fuel_all as s1 of None \<Rightarrow> None | Some (rs, s2) \<Rightarrow> Some (r # rs, s2)))"

section \<open>FuelAllocator and FuelFuse\<close>

record FuelAllocator =
  total_fuel :: u64
  allocated_fuel :: u64

datatype fuel_error = FuelAllocationExceeded u64 u64 u64 | FuseAlreadyTripped | FuelFuseTripped u64 u64

definition FuelAllocator_new :: "u64 \<Rightarrow> FuelAllocator" where
  "FuelAllocator_new t = \<lparr>total_fuel = t, allocated_fuel = 0\<rparr>"

definition fa_allocate ::
  "u64 \<Rightarrow> FuelAllocator \<Rightarrow> ((fuel_error, u64) rresult \<times> FuelAllocator) may_panic" where
  "fa_allocate fuel a =
     (case checked_add (allocated_fuel a) fuel of
        None \<Rightarrow> None
      | Some n \<Rightarrow>
          if total_fuel a < n
          then Some (Inl (FuelAllocationExceeded (allocated_fuel a) fuel (total_fuel a)), a)
          else Some (Inr fuel, a\<lparr>allocated_fuel := n\<rparr>))"

definition fa_remaining :: "FuelAllocator \<Rightarrow> u64 may_panic" where
  "fa_remaining a = checked_sub (total_fuel a) (allocated_fuel a)"

record FuelFuse =
  ff_budget :: u64
  ff_consumed :: u64
  ff_tripped :: bool

definition FuelFuse_new :: "u64 \<Rightarrow> FuelFuse" where
  "FuelFuse_new b = \<lparr>ff_budget = b, ff_consumed = 0, ff_tripped = False\<rparr>"

definition ff_consume :: "u64 \<Rightarrow> FuelFuse \<Rightarrow> ((fuel_error, unit) rresult \<times> FuelFuse) may_panic" where
  "ff_consume fuel f =
     (if ff_tripped f then Some (Inl FuseAlreadyTripped, f)
      else case checked_add (ff_consumed f) fuel of
             None \<Rightarrow> None
           | Some c \<Rightarrow>
               let f1 = f\<lparr>ff_consumed := c\<rparr>
               in if ff_budget f1 < ff_consumed f1
                  then Some (Inl (FuelFuseTripped (ff_consumed f1) (ff_budget f1)),
                             f1\<lparr>ff_tripped := True\<rparr>)
                  else Some (Inr (), f1))"

definition ff_is_tripped :: "FuelFuse \<Rightarrow> bool" where
  "ff_is_tripped f = ff_tripped f"

section \<open>What the rounded thresholds mean\<close>

definition util :: "nat \<Rightarrow> nat \<Rightarrow> rat" where
  "util c q = rnd (rnd (of_nat c) / rnd (of_nat q))"

lemma utilization_nat:
  assumes "0 < q" "q < 2 ^ 64" "c < 2 ^ 64"
  shows "fdiv (f64_of_nat c) (f64_of_nat q) = Fin (util c q)"
proof -
  have q: "1 \<le> rnd (of_nat q)"
    using assms(1) by (intro f64r.rnd_ge_one) simp
  have c: "0 \<le> rnd (of_nat c)" by (intro f64r.rnd_nonneg) simp
  have "(of_nat c :: rat) \<le> of_nat (2 ^ 64)" using assms(3) by (intro of_nat_mono) simp
  then have "rnd (of_nat c) \<le> rnd (2 ^ 64)" by (intro rnd_mono) simp
  then have c64: "rnd (of_nat c) \<le> 2 ^ 64" using rnd_pow2 [of 64] by simp
  have "rnd (of_nat c) / rnd (of_nat q) \<le> rnd (of_nat c) / 1"
    using q c by (intro divide_left_mono) auto
  moreover have "0 \<le> rnd (of_nat c) / rnd (of_nat q)" using q c by simp
  ultimately have "\<bar>rnd (of_nat c) / rnd (of_nat q)\<bar> \<le> 2 ^ 64" using c64 by linarith
  then show ?thesis
    using q assms by (simp add: f64_of_nat_u64 to_f64_Fin util_def)
qed

lemma utilization_eq:
  "0 < q \<Longrightarrow> fdiv (f64_of_u64 c) (f64_of_u64 q) = Fin (util (unat c) (unat q))"
  using utilization_nat [of "unat q" "unat c"] unat_u64_lt [of c] unat_u64_lt [of q]
  by (simp add: f64_of_u64_def word_less_nat_alt)

lemma util_ge_one: "0 < q \<Longrightarrow> q \<le> c \<Longrightarrow> 1 \<le> util c q"
proof -
  assume a: "0 < q" "q \<le> c"
  have "0 < rnd (of_nat q)" using a by (intro f64r.rnd_pos_one) simp
  moreover have "rnd (of_nat q) \<le> rnd (of_nat c)" using a by (intro rnd_mono) simp
  ultimately show ?thesis unfolding util_def by (intro f64r.rnd_ge_one) simp
qed

lemma util_exact: "c \<le> 2 ^ 53 \<Longrightarrow> q \<le> 2 ^ 53 \<Longrightarrow> util c q = rnd (of_nat c / of_nat q)"
  by (simp add: util_def f64r.rnd_nat)

lemma util_less_one:
  assumes "c < q" "q \<le> 2 ^ 53"
  shows "util c q < 1"
proof -
  have q: "(of_nat q :: rat) \<le> 2 ^ 53" "0 < (of_nat q :: rat)"
    using assms of_nat_mono [of q "2 ^ 53", where 'a = rat] by simp_all
  have "(of_nat c :: rat) \<le> of_nat q - 1" using assms(1) by (simp flip: of_nat_Suc)
  then have "of_nat c / of_nat q \<le> (of_nat q - 1) / (of_nat q :: rat)"
    using q by (intro divide_right_mono) auto
  also have "\<dots> = 1 - 1 / of_nat q" using q by (simp add: diff_divide_distrib)
  also have "\<dots> \<le> 1 - 1 / 2 ^ 53" using q by (simp add: divide_left_mono)
  finally have "rnd (of_nat c / of_nat q) \<le> rnd (1 - 1 / 2 ^ 53)" by (rule rnd_mono)
  then have "util c q \<le> 1 - 1 / 2 ^ 53"
    using assms util_exact [of c q] rnd_below_one by simp
  moreover have "(1 - 1 / 2 ^ 53 :: rat) < 1" by simp
  ultimately show ?thesis by linarith
qed

lemma util_ge_threshold:
  assumes "r * of_nat q \<le> of_nat c" "0 < q" "q \<le> 2 ^ 53" "r \<le> 1" "0 \<le> r"
  shows "rnd r \<le> util c q"
proof (cases "c \<le> q")
  case True
  have "r \<le> of_nat c / of_nat q" using assms by (simp add: field_simps)
  with True assms show ?thesis by (simp add: util_exact rnd_mono)
next
  case False
  then have "1 \<le> util c q" using assms by (intro util_ge_one) simp_all
  moreover have "rnd r \<le> 1" using rnd_mono [OF assms(4)] by (simp add: f64r.rnd_one)
  ultimately show ?thesis by linarith
qed

lemma compute_state_eq:
  assumes "0 < fm_quota m"
  shows "compute_state m c =
    (let u = util (unat c) (unat (fm_quota m))
     in if 1 \<le> u then EsdEmergencyShutdown else if rnd (95 / 100) \<le> u then EsdCritical
        else if rnd (90 / 100) \<le> u then EsdWarning else EsdNormal)"
  using utilization_eq [OF assms, of c]
  by (simp add: compute_state_def CRITICAL_THRESHOLD_def PRE_SHUTDOWN_THRESHOLD_def to_f64_Fin Let_def)

lemma consume_result:
  "fst (consume fuel m) =
     (if compute_state m (saturating_add (fm_consumed m) fuel) = EsdEmergencyShutdown
      then Inl Interrupt else Inr ())"
  "fm_consumed (snd (snd (consume fuel m))) = fm_consumed m + fuel"
  "fm_quota (snd (snd (consume fuel m))) = fm_quota m"
  "fm_state (snd (snd (consume fuel m))) =
     EsdState_repr (compute_state m (saturating_add (fm_consumed m) fuel))"
  by (auto simp: consume_def compute_state_def Let_def split: EsdState.splits)

lemma consume_traps:
  assumes "0 < fm_quota m" "unat (fm_quota m) \<le> unat (fm_consumed m) + unat fuel"
  shows "fst (consume fuel m) = Inl Interrupt"
proof -
  have "unat (fm_quota m) \<le> unat (saturating_add (fm_consumed m) fuel)"
    using assms(2) unat_u64_lt [of "fm_quota m"] by (simp add: unat_saturating_add)
  then show ?thesis
    using util_ge_one [of "unat (fm_quota m)"] assms(1)
    by (simp add: consume_result(1) compute_state_eq word_less_nat_alt)
qed

lemma consume_passes:
  assumes "unat (fm_quota m) \<le> 2 ^ 53" "unat (fm_consumed m) + unat fuel < unat (fm_quota m)"
  shows "fst (consume fuel m) = Inr ()"
proof -
  have q: "0 < fm_quota m" using assms(2) by (auto simp: word_less_nat_alt)
  have "unat (saturating_add (fm_consumed m) fuel) = unat (fm_consumed m) + unat fuel"
    using assms(2) unat_u64_lt [of "fm_quota m"] by (simp add: unat_saturating_add)
  then show ?thesis
    using util_less_one [OF assms(2,1)]
    by (auto simp: consume_result(1) compute_state_eq [OF q] Let_def)
qed

lemma consume_all_traps:
  assumes "0 < fm_quota m" "unat (fm_quota m) \<le> unat (fm_consumed m)"
    and "unat (fm_consumed m) + sum_list (map unat fs) < 2 ^ 64"
  shows "fst (consume_all fs m) = replicate (length fs) (Inl Interrupt)"
  using assms
proof (induction fs arbitrary: m)
  case (Cons f fs)
  let ?m1 = "snd (snd (consume f m))"
  have "unat (fm_consumed m + f) = unat (fm_consumed m) + unat f"
    using Cons.prems(3) by (simp add: unat_word_ariths)
  then have "fst (consume_all fs ?m1) = replicate (length fs) (Inl Interrupt)"
    using Cons.prems by (intro Cons.IH) (simp_all add: consume_result)
  moreover have "fst (consume f m) = Inl Interrupt"
    using Cons.prems by (intro consume_traps) simp_all
  ultimately show ?case by (simp add: case_prod_unfold Let_def)
qed simp

lemma EsdState_current [simp]:
  "fm_state m = EsdState_repr st \<Longrightarrow> fm_current_state m = st"
  by (cases st) (simp_all add: fm_current_state_def)

lemma consume_current_state:
  "fm_current_state (snd (snd (consume fuel m))) =
     compute_state m (saturating_add (fm_consumed m) fuel)"
  by (rule EsdState_current) (rule consume_result(4))

lemma rnd_threshold_pos: "0 < rnd (90 / 100)" "0 < rnd (95 / 100)"
proof -
  have "pow2 (- 1) \<le> rnd (90 / 100)" "pow2 (- 1) \<le> rnd (95 / 100)"
    using rnd_mono [of "pow2 (- 1)" "90 / 100"] rnd_mono [of "pow2 (- 1)" "95 / 100"]
      rnd_pow2 [of "- 1"] by simp_all
  then show "0 < rnd (90 / 100)" "0 < rnd (95 / 100)"
    using pow2_pos [of "- 1"] by linarith+
qed

section \<open>SisInterlock: the integer thresholds\<close>

lemma checked_mul_nat:
  "checked_mul a b = (if unat a * unat b < 2 ^ 64 then Some (a * b) else None)" for a b :: u64
  by (simp add: checked_mul_def)

lemma unat_mul_9_div_10:
  assumes "unat limit * 9 < 2 ^ 64"
  shows "unat ((limit :: u64) * 9 div 10) = unat limit * 9 div 10"
proof -
  have "unat (limit * 9) = unat limit * 9"
    using assms by (simp add: unat_word_ariths)
  then show ?thesis by (simp add: unat_div_distrib)
qed

lemma consume_fuel_spec:
  "consume_fuel amount s =
     (let total = unat (sis_fuel_consumed s) + unat amount; limit = unat (sis_fuel_limit s);
          s1 = s\<lparr>sis_fuel_consumed := sis_fuel_consumed s + amount\<rparr>
      in if 2 ^ 64 \<le> total then None
         else if limit \<le> total
         then Some (SisEmergencyShutdown, s1\<lparr>sis_state := 2\<rparr>)
         else if 2 ^ 64 \<le> limit * 9 then None
         else if limit * 9 div 10 \<le> total then Some (SisPreShutdown, s1\<lparr>sis_state := 1\<rparr>)
         else Some (SisNormal, s1))"
proof (cases "unat (sis_fuel_consumed s) + unat amount < 2 ^ 64")
  case True
  then have t: "unat (sis_fuel_consumed s + amount) = unat (sis_fuel_consumed s) + unat amount"
    by (simp add: unat_word_ariths)
  show ?thesis
    using True t unat_mul_9_div_10 [of "sis_fuel_limit s"]
    by (auto simp: consume_fuel_def checked_add_def checked_mul_nat trigger_esd_def
        sis_transition_to_def word_le_nat_alt Let_def)
next
  case False
  then show ?thesis by (simp add: consume_fuel_def checked_add_def Let_def)
qed

lemma consume_fuel_total:
  assumes "consume_fuel a s = Some (r, s1)"
  shows "unat (sis_fuel_consumed s1) = unat (sis_fuel_consumed s) + unat a"
    and "sis_fuel_limit s1 = sis_fuel_limit s"
    and "r = SisEmergencyShutdown \<longleftrightarrow> unat (sis_fuel_limit s) \<le> unat (sis_fuel_consumed s1)"
    and "r = SisEmergencyShutdown \<Longrightarrow> sis_current_state s1 = SisEmergencyShutdown"
  using assms
  by (auto simp: consume_fuel_spec Let_def unat_word_ariths sis_current_state_def split: if_splits)

lemma consume_fuel_all_latched:
  assumes "unat (sis_fuel_limit s) \<le> unat (sis_fuel_consumed s)"
    and "sis_current_state s = SisEmergencyShutdown"
    and "consume_fuel_all as s = Some (rs, s')"
  shows "rs = replicate (length as) SisEmergencyShutdown
       \<and> sis_current_state s' = SisEmergencyShutdown"
  using assms
proof (induction as arbitrary: s rs)
  case (Cons a as)
  obtain r s1 rs1 where s1: "consume_fuel a s = Some (r, s1)"
      "consume_fuel_all as s1 = Some (rs1, s')" "rs = r # rs1"
    using Cons.prems(3) by (auto split: option.splits prod.splits)
  note t = consume_fuel_total [OF s1(1)]
  have r: "r = SisEmergencyShutdown" using t Cons.prems(1) by simp
  have "rs1 = replicate (length as) SisEmergencyShutdown
      \<and> sis_current_state s' = SisEmergencyShutdown"
    using t r Cons.prems(1) by (intro Cons.IH [OF _ _ s1(2)]) simp_all
  with r s1(3) show ?case by simp
qed simp

section \<open>Allocator and fuse invariants\<close>

definition fa_inv :: "FuelAllocator \<Rightarrow> bool" where
  "fa_inv a \<longleftrightarrow> allocated_fuel a \<le> total_fuel a"

definition fa_step :: "u64 \<Rightarrow> FuelAllocator \<Rightarrow> FuelAllocator may_panic" where
  "fa_step fuel a = map_option snd (fa_allocate fuel a)"

interpretation fam: invariant_machine fa_step fa_inv
  by unfold_locales
    (auto simp: fa_step_def fa_inv_def fa_allocate_def split: option.splits if_splits)

definition ff_inv :: "FuelFuse \<Rightarrow> bool" where
  "ff_inv f \<longleftrightarrow> (ff_tripped f \<longleftrightarrow> ff_budget f < ff_consumed f)"

definition ff_step :: "u64 \<Rightarrow> FuelFuse \<Rightarrow> FuelFuse may_panic" where
  "ff_step fuel f = map_option snd (ff_consume fuel f)"

interpretation ffm: invariant_machine ff_step ff_inv
  by unfold_locales
    (auto simp: ff_step_def ff_inv_def ff_consume_def Let_def split: option.splits if_splits)

section \<open>Properties\<close>

text \<open>
  The fuel monitor traps exactly when the quota is used up. For a positive quota of at
  most \<open>2^53\<close> (the default is ten thousand million) the binary64 comparison is exact:
  a charge traps iff the consumed fuel plus the charge reaches the quota.
\<close>

theorem fm_trap_iff_exhausted:
  assumes "0 < fm_quota m" "unat (fm_quota m) \<le> 2 ^ 53"
  shows "fst (consume fuel m) = Inl Interrupt \<longleftrightarrow>
           unat (fm_quota m) \<le> unat (fm_consumed m) + unat fuel"
  using consume_traps [OF assms(1)] consume_passes [OF assms(2)] by (metis linorder_not_le sum.distinct(1))

theorem fm_trap_iff_exhausted_witness:
  "fst (consume 1 ((FuelMonitor_new 0 SIS_FUEL_QUOTA)\<lparr>fm_consumed := 9999999999\<rparr>)) = Inl Interrupt"
  using fm_trap_iff_exhausted [of "(FuelMonitor_new 0 SIS_FUEL_QUOTA)\<lparr>fm_consumed := 9999999999\<rparr>" 1]
  by (simp add: FuelMonitor_new_def SIS_FUEL_QUOTA_def)

text \<open>
  The warning levels come in time. With a positive quota of at most \<open>2^53\<close>, a charge
  that brings consumption to 90% of the quota leaves the monitor at least in the warning
  state, and one that brings it to 95% leaves it critical or shut down.
\<close>

theorem fm_early_warning:
  fixes m :: FuelMonitor and fuel :: u64
  defines "used \<equiv> unat (fm_consumed m) + unat fuel"
    and "st \<equiv> fm_current_state (snd (snd (consume fuel m)))"
  assumes "0 < fm_quota m" "unat (fm_quota m) \<le> 2 ^ 53"
  shows "(90 * unat (fm_quota m) \<le> 100 * used \<longrightarrow> st \<noteq> EsdNormal)
       \<and> (95 * unat (fm_quota m) \<le> 100 * used \<longrightarrow> st = EsdCritical \<or> st = EsdEmergencyShutdown)"
proof -
  let ?q = "unat (fm_quota m)" and ?c = "unat (saturating_add (fm_consumed m) fuel)"
  have q: "0 < ?q" using assms(3) by (simp add: word_less_nat_alt)
  have thr: "rnd (of_nat p / 100) \<le> util ?c ?q" if "p * ?q \<le> 100 * used" "p \<le> 100" for p
  proof -
    have "p * ?q \<le> 100 * ?c"
    proof (cases "used < 2 ^ 64")
      case True
      then show ?thesis using that by (simp add: unat_saturating_add used_def)
    next
      case False
      then have "?q \<le> ?c"
        using unat_u64_lt [of "fm_quota m"] by (simp add: unat_saturating_add used_def)
      then show ?thesis using that(2) mult_le_mono [of p 100 ?q ?c] by simp
    qed
    then have "(of_nat (p * ?q) :: rat) \<le> of_nat (100 * ?c)" by (rule of_nat_mono)
    then show ?thesis
      using q assms(4) that(2) by (intro util_ge_threshold) (simp_all del: of_nat_unat)
  qed
  have st: "st = compute_state m (saturating_add (fm_consumed m) fuel)"
    by (simp add: st_def consume_current_state)
  show ?thesis
    using thr [of 90] thr [of 95] by (auto simp: st compute_state_eq [OF assms(3)] Let_def)
qed

theorem fm_early_warning_witness:
  "fm_current_state (snd (snd (consume 9000000000 (FuelMonitor_new 0 SIS_FUEL_QUOTA)))) \<noteq> EsdNormal"
  using fm_early_warning [of "FuelMonitor_new 0 SIS_FUEL_QUOTA" 9000000000]
  by (simp add: FuelMonitor_new_def SIS_FUEL_QUOTA_def)

text \<open>
  Once exhausted, the monitor keeps trapping as long as the 64-bit counter does not
  overflow: after the consumed fuel has reached the quota, every charge of any later
  sequence whose total stays below \<open>2^64\<close> traps.
\<close>

theorem fm_shutdown_persists:
  assumes "0 < fm_quota m" "unat (fm_quota m) \<le> unat (fm_consumed m)"
    and "unat (fm_consumed m) + sum_list (map unat fs) < 2 ^ 64"
  shows "fst (consume_all fs m) = replicate (length fs) (Inl Interrupt)"
  using assms by (rule consume_all_traps)

theorem fm_shutdown_persists_witness:
  "fst (consume_all [0, 5] ((FuelMonitor_new 0 7)\<lparr>fm_consumed := 7\<rparr>)) = [Inl Interrupt, Inl Interrupt]"
  using fm_shutdown_persists [of "(FuelMonitor_new 0 7)\<lparr>fm_consumed := 7\<rparr>" "[0, 5]"]
  by (simp add: FuelMonitor_new_def)

text \<open>
  The shutdown is lost when the counter overflows. The stored counter is updated with a
  wrapping addition while only the local total saturates: a charge that brings the counter to
  exactly \<open>2^64\<close> traps, but leaves the counter at zero, so that the next charge of nothing
  succeeds and puts the monitor back into the normal state.
\<close>

theorem fm_shutdown_lost_on_overflow:
  assumes "0 < fm_quota m" "unat (fm_consumed m) + unat fuel = 2 ^ 64"
  defines "m1 \<equiv> snd (snd (consume fuel m))"
  shows "fst (consume fuel m) = Inl Interrupt \<and> is_esd_active m1 \<and> fst (consume 0 m1) = Inr ()
       \<and> fm_current_state (snd (snd (consume 0 m1))) = EsdNormal"
proof -
  have "unat (fm_consumed m + fuel) = 0" using assms(2) by (simp add: unat_word_ariths)
  then have z: "fm_consumed m1 = 0" by (simp add: m1_def consume_result unat_eq_zero)
  have tr: "fst (consume fuel m) = Inl Interrupt"
    using assms(1,2) unat_u64_lt [of "fm_quota m"] by (intro consume_traps) simp_all
  then have "is_esd_active m1"
    by (simp add: is_esd_active_def m1_def consume_current_state consume_result(1) split: if_splits)
  moreover have "compute_state m1 (saturating_add (fm_consumed m1) 0) = EsdNormal"
  proof -
    have "util 0 q = 0" for q by (simp add: util_def f64r.rnd_zero)
    moreover have "0 < fm_quota m1" using assms(1) by (simp add: m1_def consume_result)
    ultimately show ?thesis
      using rnd_threshold_pos compute_state_eq [of m1 0] by (simp add: z saturating_add_def)
  qed
  ultimately show ?thesis
    using tr by (simp add: consume_result(1) consume_current_state)
qed

theorem fm_shutdown_lost_on_overflow_witness:
  "fst (consume 0 (snd (snd (consume (- 1) ((FuelMonitor_new 0 7)\<lparr>fm_consumed := 1\<rparr>))))) = Inr ()"
  using fm_shutdown_lost_on_overflow [of "(FuelMonitor_new 0 7)\<lparr>fm_consumed := 1\<rparr>" "- 1"]
  by (simp add: FuelMonitor_new_def unat_minus_one_word_max)

text \<open>
  the safety interlock's thresholds are exact on integers, and it panics in exactly two
  cases: the running total exceeds 64 bits, or nine times the limit does while the total is
  below the limit. Otherwise it reports shutdown from the limit on, pre-shutdown from
  \<open>limit * 9 / 10\<close> on, and stores the same state (the normal branch stores none).
\<close>

theorem sis_consume_fuel_spec:
  "consume_fuel amount s =
     (let total = unat (sis_fuel_consumed s) + unat amount; limit = unat (sis_fuel_limit s);
          s1 = s\<lparr>sis_fuel_consumed := sis_fuel_consumed s + amount\<rparr>
      in if 2 ^ 64 \<le> total then None
         else if limit \<le> total then Some (SisEmergencyShutdown, s1\<lparr>sis_state := 2\<rparr>)
         else if 2 ^ 64 \<le> limit * 9 then None
         else if limit * 9 div 10 \<le> total then Some (SisPreShutdown, s1\<lparr>sis_state := 1\<rparr>)
         else Some (SisNormal, s1))"
  by (rule consume_fuel_spec)

text \<open>
  Emergency shutdown is irreversible by further consumption. Once a charge has returned
  \<open>EmergencyShutdown\<close>, every later charge that returns at all returns
  \<open>EmergencyShutdown\<close> too and the stored state stays there.
\<close>

theorem sis_shutdown_irreversible:
  assumes "consume_fuel a s = Some (SisEmergencyShutdown, s1)"
    and "consume_fuel_all as s1 = Some (rs, s2)"
  shows "rs = replicate (length as) SisEmergencyShutdown
       \<and> sis_current_state s2 = SisEmergencyShutdown"
  using consume_fuel_total [OF assms(1)] by (intro consume_fuel_all_latched [OF _ _ assms(2)]) simp_all

theorem sis_shutdown_irreversible_witness:
  "\<exists>s1 rs s2. consume_fuel 10 (SisInterlock_new 10) = Some (SisEmergencyShutdown, s1)
     \<and> consume_fuel_all [0, 3] s1 = Some (rs, s2)
     \<and> rs = [SisEmergencyShutdown, SisEmergencyShutdown]"
proof -
  have "\<exists>s1 rs s2. consume_fuel 10 (SisInterlock_new 10) = Some (SisEmergencyShutdown, s1)
      \<and> consume_fuel_all [0, 3] s1 = Some (rs, s2)"
    by (simp add: consume_fuel_def checked_add_def SisInterlock_new_def trigger_esd_def
        sis_transition_to_def)
  then show ?thesis
    using sis_shutdown_irreversible [of 10 "SisInterlock_new 10" _ "[0, 3]"]
    by (fastforce simp: numeral_2_eq_2)
qed

text \<open>
  The fuel allocator never hands out more than its total. After any sequence of
  allocation requests that does not panic, the allocated fuel is at most the total, so
  \<open>remaining\<close> does not underflow and gives exactly the difference.
\<close>

theorem fa_never_overallocates:
  assumes "run fa_step reqs (FuelAllocator_new t) = Some a"
  shows "allocated_fuel a \<le> total_fuel a
       \<and> fa_remaining a = Some (total_fuel a - allocated_fuel a)"
proof -
  have "fa_inv (FuelAllocator_new t)" by (simp add: fa_inv_def FuelAllocator_new_def)
  from fam.run_inv [OF this assms] show ?thesis
    by (simp add: fa_inv_def fa_remaining_def checked_sub_def)
qed

theorem fa_never_overallocates_witness:
  "\<exists>a. run fa_step [60, 50, 30] (FuelAllocator_new 100) = Some a \<and> fa_remaining a = Some 10"
proof -
  have r: "run fa_step [60, 50, 30] (FuelAllocator_new 100) =
      Some \<lparr>total_fuel = 100, allocated_fuel = 90\<rparr>"
    by (simp add: fa_step_def fa_allocate_def checked_add_def FuelAllocator_new_def)
  show ?thesis using fa_never_overallocates [OF r] r by simp
qed

end
