(* ===== verification/HashMaps.thy ===== *)
theory HashMaps
  imports Prelude "HOL-Library.AList"
begin

text \<open>
  \<open>std::collections::HashMap\<close> and \<open>DashMap\<close>: an association list with distinct
  keys, in iteration order. The standard library leaves that order unspecified; where the
  program's result can depend on it, the component theory takes the order as an argument
  and its theorems hold for every order.

  The locale \<open>key_value_map\<close> is the interface the components rely on.
\<close>

type_synonym ('k, 'v) hmap = "('k \<times> 'v) list"

definition hm_insert :: "'k \<Rightarrow> 'v \<Rightarrow> ('k, 'v) hmap \<Rightarrow> ('k, 'v) hmap" where
  "hm_insert k v m = AList.update k v m"

definition hm_get :: "('k, 'v) hmap \<Rightarrow> 'k \<Rightarrow> 'v option" where
  "hm_get m k = map_of m k"

definition hm_remove :: "'k \<Rightarrow> ('k, 'v) hmap \<Rightarrow> ('k, 'v) hmap" where
  "hm_remove k m = AList.delete k m"

definition hm_retain :: "('k \<Rightarrow> 'v \<Rightarrow> bool) \<Rightarrow> ('k, 'v) hmap \<Rightarrow> ('k, 'v) hmap" where
  "hm_retain p m = filter (\<lambda>(k, v). p k v) m"

definition hm_len :: "('k, 'v) hmap \<Rightarrow> nat" where
  "hm_len m = length m"

definition hm_inv :: "('k, 'v) hmap \<Rightarrow> bool" where
  "hm_inv m \<longleftrightarrow> distinct (map fst m)"

locale key_value_map =
  fixes empty :: 'm
    and insert :: "'k \<Rightarrow> 'v \<Rightarrow> 'm \<Rightarrow> 'm"
    and get :: "'m \<Rightarrow> 'k \<Rightarrow> 'v option"
    and remove :: "'k \<Rightarrow> 'm \<Rightarrow> 'm"
    and len :: "'m \<Rightarrow> nat"
    and inv :: "'m \<Rightarrow> bool"
  assumes inv_empty: "inv empty"
    and inv_insert: "inv m \<Longrightarrow> inv (insert k v m)"
    and inv_remove: "inv m \<Longrightarrow> inv (remove k m)"
    and get_empty: "get empty k = None"
    and get_insert: "get (insert k v m) j = (if j = k then Some v else get m j)"
    and get_remove: "get (remove k m) j = (if j = k then None else get m j)"
    and len_card: "inv m \<Longrightarrow> len m = card (dom (get m))"
    and finite_keys: "inv m \<Longrightarrow> finite (dom (get m))"
begin

lemma keys_insert: "dom (get (insert k v m)) = Set.insert k (dom (get m))"
  by (auto simp: get_insert dom_def)

lemma keys_remove: "dom (get (remove k m)) = dom (get m) - {k}"
  by (auto simp: get_remove dom_def)

lemma len_insert:
  "inv m \<Longrightarrow> len (insert k v m) = (if get m k = None then Suc (len m) else len m)"
  using finite_keys [of m] by (simp add: len_card inv_insert keys_insert card_insert_if domIff)

lemma len_remove:
  "inv m \<Longrightarrow> len (remove k m) = (if get m k = None then len m else len m - 1)"
  using finite_keys [of m] by (simp add: len_card inv_remove keys_remove card_Diff_singleton_if domIff)

end

interpretation hm: key_value_map "[]" hm_insert hm_get hm_remove hm_len hm_inv
proof
  fix m :: "('k, 'v) hmap"
  assume "hm_inv m"
  then have d: "distinct (map fst m)" by (simp add: hm_inv_def)
  have dom: "dom (hm_get m) = fst ` set m"
    unfolding hm_get_def by (rule dom_map_of_conv_image_fst)
  show "finite (dom (hm_get m))" by (simp add: dom)
  have "card (set (map fst m)) = length (map fst m)" using d by (rule distinct_card)
  then show "hm_len m = card (dom (hm_get m))" by (simp add: dom hm_len_def)
qed (auto simp: hm_inv_def hm_insert_def hm_get_def hm_remove_def update_conv' AList.distinct_update
    distinct_delete delete_conv')

lemma hm_inv_retain: "hm_inv m \<Longrightarrow> hm_inv (hm_retain p m)"
  by (auto simp: hm_inv_def hm_retain_def distinct_map intro: inj_on_subset)

lemma hm_get_retain:
  assumes "hm_inv m"
  shows "hm_get (hm_retain p m) k =
     (case hm_get m k of None \<Rightarrow> None | Some v \<Rightarrow> if p k v then Some v else None)"
  using assms
proof (induction m)
  case (Cons kv m)
  then have "hm_inv m" by (simp add: hm_inv_def)
  obtain k' v where kv: "kv = (k', v)" by (cases kv)
  have "k' \<notin> fst ` set m" using Cons.prems kv by (simp add: hm_inv_def)
  then have "hm_get m k' = None" by (auto simp: hm_get_def map_of_eq_None_iff)
  with Cons.IH [OF \<open>hm_inv m\<close>] kv show ?case
    by (auto simp: hm_get_def hm_retain_def)
qed (simp add: hm_get_def hm_retain_def)

lemma hm_len_retain: "hm_len (hm_retain p m) \<le> hm_len m"
  by (simp add: hm_len_def hm_retain_def)

text \<open>Collecting distinct entries into a map.\<close>

definition hm_collect :: "('k \<times> 'v) list \<Rightarrow> ('k, 'v) hmap" where
  "hm_collect es = foldl (\<lambda>h (k, v). hm_insert k v h) [] es"

lemma hm_insert_new: "k \<notin> fst ` set m \<Longrightarrow> hm_insert k v m = m @ [(k, v)]"
  unfolding hm_insert_def by (induction m) auto

lemma hm_collect_distinct: "distinct (map fst es) \<Longrightarrow> hm_collect es = es"
proof (induction es rule: rev_induct)
  case (snoc e es)
  obtain k v where e: "e = (k, v)" by (cases e)
  from snoc e have "hm_collect es = es" "k \<notin> fst ` set es" by auto
  with e show ?case by (simp add: hm_collect_def hm_insert_new)
qed (simp add: hm_collect_def)

end
