(* ===== verification/Text.thy ===== *)
theory Text
  imports Prelude "HOL-Library.Sublist" "HOL-Library.List_Lexorder" "HOL-Library.Char_ord"
begin

text \<open>
  The operations of \<open>str\<close> the code uses. A Rust string is the list of its UTF-8 bytes,
  so \<open>length\<close> is \<open>str::len\<close>. Character classes (white space, case, letters) are
  those of ASCII: text outside ASCII is carried through unchanged.
\<close>

definition is_ws :: "char \<Rightarrow> bool" where
  "is_ws c \<longleftrightarrow> of_char c \<in> {9, 10, 11, 12, 13, 32 :: nat}"

definition trim_start :: "string \<Rightarrow> string" where
  "trim_start s = dropWhile is_ws s"

definition trim_end :: "string \<Rightarrow> string" where
  "trim_end s = rev (dropWhile is_ws (rev s))"

definition trim :: "string \<Rightarrow> string" where
  "trim s = trim_end (trim_start s)"

definition starts_with :: "string \<Rightarrow> string \<Rightarrow> bool" where
  "starts_with s p \<longleftrightarrow> prefix p s"

definition strip_prefix :: "string \<Rightarrow> string \<Rightarrow> string option" where
  "strip_prefix s p = (if prefix p s then Some (drop (length p) s) else None)"

fun contains :: "string \<Rightarrow> string \<Rightarrow> bool" where
  "contains [] p = (p = [])"
| "contains (c # s) p = (prefix p (c # s) \<or> contains s p)"

text \<open>\<open>rfind\<close>: the position of the last occurrence.\<close>

fun rfind :: "string \<Rightarrow> string \<Rightarrow> nat option" where
  "rfind [] p = (if p = [] then Some 0 else None)"
| "rfind (c # s) p =
     (case rfind s p of
        Some i \<Rightarrow> Some (Suc i)
      | None \<Rightarrow> if prefix p (c # s) then Some 0 else None)"

text \<open>The first occurrence of a pattern: what is before it and what is behind it.\<close>

fun find_str :: "string \<Rightarrow> string \<Rightarrow> (string \<times> string) option" where
  "find_str p [] = None"
| "find_str p (c # s) =
     (if prefix p (c # s) then Some ([], drop (length p) (c # s))
      else map_option (\<lambda>(u, v). (c # u, v)) (find_str p s))"

lemma find_str_Some: "find_str p s = Some (u, v) \<Longrightarrow> s = u @ p @ v"
  by (induction s arbitrary: u) (auto simp: prefix_def split: if_splits)

lemma find_str_behind: "p \<noteq> [] \<Longrightarrow> hd p \<notin> set u \<Longrightarrow> find_str p (u @ p @ v) = Some (u, v)"
proof (induction u)
  case Nil
  then show ?case by (cases p) auto
next
  case (Cons c u)
  then have "\<not> prefix p (c # u @ p @ v)" by (cases p) auto
  with Cons show ?case by simp
qed

lemma find_str_None: "p \<noteq> [] \<Longrightarrow> hd p \<notin> set s \<Longrightarrow> find_str p s = None"
  by (induction s) (auto simp: prefix_def Cons_eq_append_conv)

definition strip_markdown_fences :: "string \<Rightarrow> string" where
  "strip_markdown_fences response =
     (let s = trim response
      in if starts_with s ''```''
         then case (case strip_prefix s ''```json'' of
                      Some r \<Rightarrow> Some r | None \<Rightarrow> strip_prefix s ''```'') of
                Some after_open \<Rightarrow>
                  (let s1 = trim_start after_open
                   in case rfind s1 ''```'' of Some pos \<Rightarrow> trim (take pos s1) | None \<Rightarrow> s1)
              | None \<Rightarrow> s
         else s)"

lemma set_trim: "set (trim s) \<subseteq> set s"
  by (auto simp: trim_def trim_start_def trim_end_def dest!: set_dropWhileD)

lemma trim_empty_iff: "trim s = [] \<longleftrightarrow> (\<forall>c \<in> set s. is_ws c)"
  by (auto simp: trim_def trim_end_def trim_start_def dropWhile_eq_Nil_conv
      dest: set_dropWhileD)
    (metis dropWhile_eq_Nil_conv set_rev hd_dropWhile list.set_sel(1))

lemma trim_start_no_ws: "s = [] \<or> \<not> is_ws (hd s) \<Longrightarrow> trim_start s = s"
  by (cases s) (auto simp: trim_start_def)

lemma trim_end_no_ws: "s = [] \<or> \<not> is_ws (last s) \<Longrightarrow> trim_end s = s"
  by (cases s rule: rev_cases) (auto simp: trim_end_def)

lemma hd_trim_start: "trim_start s \<noteq> [] \<Longrightarrow> \<not> is_ws (hd (trim_start s))"
  by (simp add: trim_start_def hd_dropWhile)

lemma last_trim_end: "trim_end s \<noteq> [] \<Longrightarrow> \<not> is_ws (last (trim_end s))"
  using hd_dropWhile [of is_ws "rev s"] by (simp add: trim_end_def last_rev)

lemma hd_trim_end: "trim_end s \<noteq> [] \<Longrightarrow> hd (trim_end s) = hd s"
proof -
  assume a: "trim_end s \<noteq> []"
  have "s = trim_end s @ rev (takeWhile is_ws (rev s))"
    unfolding trim_end_def by (metis rev_append rev_rev_ident takeWhile_dropWhile_id)
  then show ?thesis using a by (metis hd_append2)
qed

lemma trim_idem [simp]: "trim (trim s) = trim s"
proof (cases "trim s = []")
  case False
  then have ne: "trim_end (trim_start s) \<noteq> []" by (simp add: trim_def)
  then have ns: "trim_start s \<noteq> []" by (auto simp: trim_end_def)
  have "\<not> is_ws (hd (trim s))"
    using hd_trim_end [OF ne] hd_trim_start [OF ns] by (simp add: trim_def)
  then have "trim_start (trim s) = trim s" by (simp add: trim_start_no_ws)
  moreover have "trim_end (trim s) = trim s"
    using last_trim_end [OF ne] by (simp add: trim_def trim_end_no_ws)
  ultimately show ?thesis by (simp add: trim_def [of "trim s"])
next
  case True
  then show ?thesis by (simp only:) (simp add: trim_def trim_start_def trim_end_def)
qed

lemma trim_around:
  assumes "\<forall>c \<in> set w. is_ws c" "\<forall>c \<in> set w'. is_ws c" "trim s = s"
  shows "trim (w @ s @ w') = s"
proof (cases "s = []")
  case True
  then show ?thesis using assms(1,2) trim_empty_iff [of "w @ w'"] by auto
next
  case False
  then have ne: "trim_end (trim_start s) \<noteq> []" using assms(3) by (simp add: trim_def)
  then have "trim_start s \<noteq> []" by (auto simp: trim_end_def)
  from hd_trim_start [OF this] hd_trim_end [OF ne] last_trim_end [OF ne] have "\<not> is_ws (hd s)" "\<not> is_ws (last s)"
    using assms(3) by (simp_all add: trim_def)
  note ends = this
  have drop: "dropWhile is_ws (u @ c # v) = c # v" if "\<forall>c \<in> set u. is_ws c" "\<not> is_ws c" for u c v
    using that by (induction u) auto
  have "dropWhile is_ws (w @ s @ w') = s @ w'"
    using False ends(1) drop [OF assms(1)] by (cases s) auto
  moreover have "dropWhile is_ws (rev w' @ rev s) = rev s"
    using False ends(2) drop [of "rev w'"] assms(2) by (cases s rule: rev_cases) auto
  ultimately show ?thesis by (simp add: trim_def trim_start_def trim_end_def)
qed

section \<open>Decimal numbers and case\<close>

definition digit :: "nat \<Rightarrow> char" where
  "digit n = char_of (48 + n)"

fun dec :: "nat \<Rightarrow> string" where
  "dec n = (if n < 10 then [digit n] else dec (n div 10) @ [digit (n mod 10)])"

declare dec.simps [simp del]

definition lower :: "char \<Rightarrow> char" where
  "lower c = (let k = of_char c :: nat in if 65 \<le> k \<and> k \<le> 90 then char_of (k + 32) else c)"

definition to_lowercase :: "string \<Rightarrow> string" where
  "to_lowercase s = map lower s"

definition eq_ignore_ascii_case :: "string \<Rightarrow> string \<Rightarrow> bool" where
  "eq_ignore_ascii_case s t \<longleftrightarrow> map lower s = map lower t"

lemma digit_chars: "n < 10 \<Longrightarrow> digit n \<in> set ''0123456789''"
proof -
  assume "n < 10"
  moreover have "list_all (\<lambda>n. digit n \<in> set ''0123456789'') [0..<10]" by code_simp
  ultimately show ?thesis by (simp add: list_all_iff)
qed

lemma set_dec: "set (dec n) \<subseteq> set ''0123456789''"
proof (induction n rule: dec.induct)
  case (1 n)
  show ?case
    using 1 digit_chars [of n] digit_chars [of "n mod 10"] by (subst dec.simps) auto
qed

text \<open>\<open>str::parse\<close> for unsigned integers: an optional plus sign and at least one digit.\<close>

definition digit_val :: "char \<Rightarrow> nat" where
  "digit_val c = of_char c - 48"

definition is_digit :: "char \<Rightarrow> bool" where
  "is_digit c \<longleftrightarrow> 48 \<le> (of_char c :: nat) \<and> (of_char c :: nat) \<le> 57"

definition parse_unsigned :: "nat \<Rightarrow> string \<Rightarrow> nat option" where
  "parse_unsigned w s =
     (let ds = (if s \<noteq> [] \<and> hd s = CHR ''+'' then tl s else s)
      in if ds = [] \<or> \<not> list_all is_digit ds then None
         else let n = foldl (\<lambda>a c. 10 * a + digit_val c) 0 ds
              in if n < 2 ^ w then Some n else None)"

text \<open>Signed integers have an optional sign; \<open>-0\<close> is zero.\<close>

definition parse_i64 :: "string \<Rightarrow> int option" where
  "parse_i64 s =
     (if s \<noteq> [] \<and> hd s = CHR ''-''
      then if tl s \<noteq> [] \<and> list_all is_digit (tl s)
           then let n = foldl (\<lambda>a c. 10 * a + digit_val c) 0 (tl s)
                in if n \<le> 2 ^ 63 then Some (- int n) else None
           else None
      else map_option int (parse_unsigned 63 s))"

definition show_int :: "int \<Rightarrow> string" where
  "show_int i = (if i < 0 then CHR ''-'' # dec (nat (- i)) else dec (nat i))"

lemma digit_is_digit: "n < 10 \<Longrightarrow> is_digit (digit n) \<and> digit_val (digit n) = n"
  by (simp add: is_digit_def digit_val_def digit_def)

lemma dec_digits: "list_all is_digit (dec n) \<and> dec n \<noteq> []"
proof (induction n rule: dec.induct)
  case (1 n)
  then show ?case
    using digit_is_digit [of n] digit_is_digit [of "n mod 10"] by (subst (1 2) dec.simps) auto
qed

lemma dec_value: "foldl (\<lambda>a c. 10 * a + digit_val c) 0 (dec n) = n"
proof (induction n rule: dec.induct)
  case (1 n)
  then show ?case
    using digit_is_digit [of n] digit_is_digit [of "n mod 10"] by (subst dec.simps) auto
qed

lemma dec_hd: "is_digit (hd (dec n))"
  using dec_digits [of n] by (cases "dec n") auto

lemma parse_unsigned_dec: "n < 2 ^ w \<Longrightarrow> parse_unsigned w (dec n) = Some n"
proof -
  assume n: "n < 2 ^ w"
  have "hd (dec n) \<noteq> CHR ''+''" using dec_hd [of n] by (auto simp: is_digit_def)
  with n dec_digits [of n] dec_value [of n] show ?thesis by (simp add: parse_unsigned_def Let_def)
qed

lemma parse_i64_show_int:
  assumes "- (2 ^ 63) \<le> i" "i < 2 ^ 63"
  shows "parse_i64 (show_int i) = Some i"
proof (cases "i < 0")
  case True
  then show ?thesis
    using assms dec_digits [of "nat (- i)"] dec_value [of "nat (- i)"]
    by (simp add: parse_i64_def show_int_def Let_def nat_le_iff)
next
  case False
  have "hd (dec (nat i)) \<noteq> CHR ''-''" using dec_hd [of "nat i"] by (auto simp: is_digit_def)
  then have "parse_i64 (dec (nat i)) = map_option int (parse_unsigned 63 (dec (nat i)))"
    using dec_digits [of "nat i"] by (simp add: parse_i64_def)
  with False assms show ?thesis by (simp add: show_int_def parse_unsigned_dec nat_less_iff)
qed

section \<open>Splitting and joining\<close>

text \<open>\<open>find\<close> for a character, \<open>split\<close> on a character and \<open>join\<close> with one.\<close>

fun find_char :: "char \<Rightarrow> string \<Rightarrow> nat option" where
  "find_char c [] = None"
| "find_char c (d # s) = (if d = c then Some 0 else map_option Suc (find_char c s))"

fun split_char :: "char \<Rightarrow> string \<Rightarrow> string list" where
  "split_char c [] = [[]]"
| "split_char c (d # s) =
     (if d = c then [] # split_char c s
      else case split_char c s of x # xs \<Rightarrow> (d # x) # xs | [] \<Rightarrow> [[d]])"

fun join :: "string \<Rightarrow> string list \<Rightarrow> string" where
  "join sep [] = []"
| "join sep [x] = x"
| "join sep (x # y # xs) = x @ sep @ join sep (y # xs)"

lemma find_char_append: "c \<notin> set u \<Longrightarrow> find_char c (u @ c # v) = Some (length u)"
  by (induction u) auto

lemma split_char_not_Nil [simp]: "split_char c s \<noteq> []"
  by (induction s) (auto split: list.split)

lemma split_char_no_sep: "x \<in> set (split_char c s) \<Longrightarrow> c \<notin> set x"
proof (induction s arbitrary: x)
  case (Cons d s)
  then show ?case by (cases "split_char c s") (auto split: if_splits)
qed simp

lemma split_char_join: "xs \<noteq> [] \<Longrightarrow> \<forall>x \<in> set xs. c \<notin> set x \<Longrightarrow> split_char c (join [c] xs) = xs"
proof (induction "[c]" xs rule: join.induct)
  case (2 x)
  have "c \<notin> set x \<Longrightarrow> split_char c x = [x]" for x
    by (induction x) auto
  with 2 show ?case by simp
next
  case (3 x y xs)
  have "c \<notin> set x \<Longrightarrow> split_char c (x @ c # r) = x # split_char c r" for x r
    by (induction x) auto
  with 3 show ?case by simp
qed simp

section \<open>UTF-8\<close>

text \<open>\<open>std::str::from_utf8\<close>: the well-formed byte sequences of the Unicode standard.\<close>

definition utf8_tail :: "u8 \<Rightarrow> bool" where
  "utf8_tail b \<longleftrightarrow> 0x80 \<le> b \<and> b \<le> 0xBF"

fun utf8_valid :: "u8 list \<Rightarrow> bool" where
  "utf8_valid [] = True"
| "utf8_valid (a # r) =
     (if a < 0x80 then utf8_valid r
      else if 0xC2 \<le> a \<and> a \<le> 0xDF
      then (case r of b # r' \<Rightarrow> utf8_tail b \<and> utf8_valid r' | [] \<Rightarrow> False)
      else if 0xE0 \<le> a \<and> a \<le> 0xEF
      then (case r of
              b # c # r' \<Rightarrow> utf8_tail b \<and> (a = 0xE0 \<longrightarrow> 0xA0 \<le> b) \<and> (a = 0xED \<longrightarrow> b \<le> 0x9F)
                 \<and> utf8_tail c \<and> utf8_valid r'
            | _ \<Rightarrow> False)
      else if 0xF0 \<le> a \<and> a \<le> 0xF4
      then (case r of
              b # c # d # r' \<Rightarrow> utf8_tail b \<and> (a = 0xF0 \<longrightarrow> 0x90 \<le> b) \<and> (a = 0xF4 \<longrightarrow> b \<le> 0x8F)
                 \<and> utf8_tail c \<and> utf8_tail d \<and> utf8_valid r'
            | _ \<Rightarrow> False)
      else False)"

definition from_utf8 :: "u8 list \<Rightarrow> string option" where
  "from_utf8 bs = (if utf8_valid bs then Some (map (\<lambda>b. char_of (unat b)) bs) else None)"

definition bytes_of :: "string \<Rightarrow> u8 list" where
  "bytes_of s = map of_char s"

lemma unat_of_char_u8: "unat (of_char c :: u8) = of_char c"
proof -
  have "(of_char c :: nat) < 256" by simp
  then have "unat (of_nat (of_char c) :: u8) = of_char c"
    by (simp only: unsigned_of_nat) (simp add: take_bit_nat_eq_self)
  then show ?thesis by (simp add: of_nat_of_char)
qed

lemma of_char_of_unat_u8: "of_char (char_of (unat (b :: u8))) = b"
proof -
  have "unat b < 256" using unsigned_less [of b, where 'a = nat] by simp
  then have "(of_char (char_of (unat b)) :: nat) = unat b" by simp
  then have "of_nat (of_char (char_of (unat b)) :: nat) = b" by simp
  then show ?thesis by (simp only: of_nat_of_char)
qed

lemma length_from_utf8: "from_utf8 bs = Some s \<Longrightarrow> length s = length bs"
  by (auto simp: from_utf8_def split: if_splits)

text \<open>\<open>chars\<close>: the scalar values of a well-formed byte sequence, and \<open>char::len_utf8\<close>.\<close>

fun utf8_chars :: "u8 list \<Rightarrow> nat list" where
  "utf8_chars [] = []"
| "utf8_chars (a # r) =
     (if a < 0x80 then unat a # utf8_chars r
      else if a \<le> 0xDF
      then (case r of b # r' \<Rightarrow> ((unat a - 0xC0) * 64 + (unat b - 0x80)) # utf8_chars r' | _ \<Rightarrow> [])
      else if a \<le> 0xEF
      then (case r of b # c # r' \<Rightarrow>
                ((unat a - 0xE0) * 4096 + (unat b - 0x80) * 64 + (unat c - 0x80)) # utf8_chars r' | _ \<Rightarrow> [])
      else (case r of b # c # d # r' \<Rightarrow>
                ((unat a - 0xF0) * 262144 + (unat b - 0x80) * 4096 + (unat c - 0x80) * 64 + (unat d - 0x80))
                  # utf8_chars r' | _ \<Rightarrow> []))"

definition len_utf8 :: "nat \<Rightarrow> nat" where
  "len_utf8 c = (if c < 0x80 then 1 else if c < 0x800 then 2 else if c < 0x10000 then 3 else 4)"

lemma bytes_roundtrip: "map (\<lambda>b. char_of (unat (b :: u8))) (bytes_of s) = s"
  by (simp add: bytes_of_def comp_def unat_of_char_u8)

text \<open>\<open>str::is_char_boundary\<close>.\<close>

definition is_char_boundary :: "string \<Rightarrow> nat \<Rightarrow> bool" where
  "is_char_boundary s i \<longleftrightarrow>
     i = 0 \<or> i = length s \<or> (i < length s \<and> \<not> (128 \<le> (of_char (s ! i) :: nat) \<and> (of_char (s ! i) :: nat) < 192))"

section \<open>Replacement\<close>

text \<open>\<open>str::replace\<close>: every occurrence from left to right, without overlap.\<close>

function str_replace :: "string \<Rightarrow> string \<Rightarrow> string \<Rightarrow> string" where
  "str_replace s p r =
     (if p = [] then concat (map (\<lambda>c. r @ [c]) s) @ r
      else case s of
             [] \<Rightarrow> []
           | c # s' \<Rightarrow>
               if prefix p s then r @ str_replace (drop (length p) s) p r
               else c # str_replace s' p r)"
  by pat_completeness auto
termination by (relation "measure (\<lambda>(s, p, r). length s)") auto

declare str_replace.simps [simp del]

lemma str_replace_nomatch:
  "p \<noteq> [] \<Longrightarrow> \<not> prefix p (c # s) \<Longrightarrow> str_replace (c # s) p r = c # str_replace s p r"
  by (subst str_replace.simps) simp

lemma str_replace_match: "p \<noteq> [] \<Longrightarrow> str_replace (p @ s) p r = r @ str_replace s p r"
  by (cases p) (simp_all add: str_replace.simps [of "_ # _"])

end
