(* ===== verification/Json.thy ===== *)
theory Json
  imports F64 Text
begin

text \<open>
  \<open>serde_json::Value\<close> and the operations the repository defines on it: recursive key
  sorting (\<open>sort_json_keys\<close> of \<open>crates/consensus/src/tmr_consensus.rs\<close>) and the
  tolerant comparison (\<open>fuzzy_json_eq\<close> of \<open>crates/traffic-control/src/lib.rs\<close>).
  An object is the list of its entries in iteration order; the parser produces objects
  with distinct keys (predicate \<open>wf_json\<close>). Parsing and printing belong to the
  \<open>serde_json\<close> crate and are parameters of the theories that call them.
\<close>

datatype jnum = PosInt u64 | NegInt int | JFloat f64

datatype json =
    JNull
  | JBool bool
  | JNumber jnum
  | JString string
  | JArray "json list"
  | JObject "(string \<times> json) list"

fun jnum_as_f64 :: "jnum \<Rightarrow> f64" where
  "jnum_as_f64 (PosInt n) = f64_of_nat (unat n)"
| "jnum_as_f64 (NegInt i) = to_f64 (of_int i)"
| "jnum_as_f64 (JFloat f) = f"

text \<open>A float that is not finite becomes \<open>null\<close>.\<close>

definition json_of_f64 :: "f64 \<Rightarrow> json" where
  "json_of_f64 f = (case f of Fin _ \<Rightarrow> JNumber (JFloat f) | _ \<Rightarrow> JNull)"

section \<open>Key sorting\<close>

text \<open>Collecting into a \<open>BTreeMap\<close>: sorted by key, a later entry replaces an earlier one.\<close>

fun bt_insert :: "string \<Rightarrow> 'a \<Rightarrow> (string \<times> 'a) list \<Rightarrow> (string \<times> 'a) list" where
  "bt_insert k v [] = [(k, v)]"
| "bt_insert k v ((k', v') # m) =
     (if k < k' then (k, v) # (k', v') # m
      else if k = k' then (k, v) # m else (k', v') # bt_insert k v m)"

definition bt_collect :: "(string \<times> 'a) list \<Rightarrow> (string \<times> 'a) list" where
  "bt_collect xs = foldl (\<lambda>m (k, v). bt_insert k v m) [] xs"

lemma set_bt_insert: "set (bt_insert k v m) \<subseteq> insert (k, v) (set m)"
  by (induction k v m rule: bt_insert.induct) auto

lemma set_bt_foldl: "set (foldl (\<lambda>m (k, v). bt_insert k v m) m0 xs) \<subseteq> set m0 \<union> set xs"
proof (induction xs arbitrary: m0)
  case (Cons x xs)
  obtain k v where x: "x = (k, v)" by (cases x)
  show ?case using Cons.IH [of "bt_insert k v m0"] set_bt_insert [of k v m0] x by fastforce
qed simp

lemma set_bt_collect: "set (bt_collect xs) \<subseteq> set xs"
  unfolding bt_collect_def using set_bt_foldl [of "[]" xs] by simp

lemma bt_collect_size [termination_simp]:
  "(k, v) \<in> set (bt_collect kvs) \<Longrightarrow> size v < Suc (size_list (size_prod (\<lambda>_. 0) size) kvs)"
proof -
  assume "(k, v) \<in> set (bt_collect kvs)"
  then have "(k, v) \<in> set kvs" using set_bt_collect by blast
  then have "size_prod (\<lambda>_. 0) size (k, v) \<le> size_list (size_prod (\<lambda>_. 0) size) kvs"
    by (rule size_list_estimation') simp
  then show ?thesis by simp
qed

function sort_json_keys :: "json \<Rightarrow> json" where
  "sort_json_keys (JObject kvs) =
     JObject (map (\<lambda>(k, v). (k, sort_json_keys v)) (bt_collect kvs))"
| "sort_json_keys (JArray xs) = JArray (map sort_json_keys xs)"
| "sort_json_keys JNull = JNull"
| "sort_json_keys (JBool b) = JBool b"
| "sort_json_keys (JNumber n) = JNumber n"
| "sort_json_keys (JString s) = JString s"
  by pat_completeness auto
termination
  by (relation "measure size") (auto simp: less_Suc_eq_le intro: size_list_estimation' dest: bt_collect_size)

section \<open>Well-formed values and equality up to key order\<close>

fun wf_json :: "json \<Rightarrow> bool" where
  "wf_json (JObject kvs) = (distinct (map fst kvs) \<and> list_all (\<lambda>kv. wf_json (snd kv)) kvs)"
| "wf_json (JArray xs) = list_all wf_json xs"
| "wf_json _ = True"

text \<open>
  The specification of canonical hashing: two values are the same up to the order of
  object keys, at every depth.
\<close>

inductive json_sim :: "json \<Rightarrow> json \<Rightarrow> bool" where
  sim_null: "json_sim JNull JNull"
| sim_bool: "json_sim (JBool b) (JBool b)"
| sim_number: "json_sim (JNumber n) (JNumber n)"
| sim_string: "json_sim (JString s) (JString s)"
| sim_array: "list_all2 json_sim xs ys \<Longrightarrow> json_sim (JArray xs) (JArray ys)"
| sim_object: "mset kvs = mset kvs' \<Longrightarrow> list_all2 (rel_prod (=) json_sim) kvs' kvs'' \<Longrightarrow>
    json_sim (JObject kvs) (JObject kvs'')"

lemma map_fst_bt_insert_sorted:
  "sorted_wrt (<) (map fst m) \<Longrightarrow> sorted_wrt (<) (map fst (bt_insert k v m))"
proof (induction k v m rule: bt_insert.induct)
  case (2 k v k' v' m)
  have "\<forall>x \<in> fst ` set (bt_insert k v m). k' < x" if "\<not> k < k'" "k \<noteq> k'"
    using 2 that set_bt_insert [of k v m] by fastforce
  with 2 show ?case by auto
qed simp

lemma sorted_bt_foldl:
  "sorted_wrt (<) (map fst m) \<Longrightarrow>
     sorted_wrt (<) (map fst (foldl (\<lambda>m (k, v). bt_insert k v m) m xs))"
  by (induction xs arbitrary: m) (auto simp: map_fst_bt_insert_sorted)

lemma sorted_bt_collect: "sorted_wrt (<) (map fst (bt_collect xs))"
  by (simp add: bt_collect_def sorted_bt_foldl)

lemma mset_bt_insert: "k \<notin> fst ` set m \<Longrightarrow> mset (bt_insert k v m) = add_mset (k, v) (mset m)"
  by (induction k v m rule: bt_insert.induct) auto

lemma mset_bt_foldl:
  "distinct (map fst xs) \<Longrightarrow> fst ` set m \<inter> fst ` set xs = {} \<Longrightarrow>
     mset (foldl (\<lambda>m (k, v). bt_insert k v m) m xs) = mset m + mset xs"
proof (induction xs arbitrary: m)
  case (Cons x xs)
  obtain k v where x: "x = (k, v)" by (cases x)
  have m: "mset (bt_insert k v m) = add_mset (k, v) (mset m)"
    using Cons.prems x by (intro mset_bt_insert) auto
  have "set (bt_insert k v m) = insert (k, v) (set m)"
    using m by (metis set_mset_add_mset_insert set_mset_mset)
  then show ?case using Cons x m by auto
qed simp

lemma mset_bt_collect: "distinct (map fst xs) \<Longrightarrow> mset (bt_collect xs) = mset xs"
  by (simp add: bt_collect_def mset_bt_foldl)

text \<open>Sorting by distinct keys is determined by the multiset of entries.\<close>

lemma sorted_keys_unique:
  fixes xs ys :: "(string \<times> 'a) list"
  assumes "sorted_wrt (<) (map fst xs)" "sorted_wrt (<) (map fst ys)" "mset xs = mset ys"
  shows "xs = ys"
proof -
  have d: "distinct (map fst xs)" using assms(1) by (simp add: strict_sorted_iff)
  have s: "set xs = set ys" using assms(3) by (rule mset_eq_setD)
  have "inj_on fst (set xs \<union> set ys)" using d s by (simp add: distinct_map)
  moreover have "sorted (map fst xs)" "sorted (map fst ys)" "distinct (map fst ys)"
    using assms by (simp_all add: strict_sorted_iff)
  ultimately show ?thesis using d s by (intro map_sorted_distinct_set_unique)
qed

abbreviation sort_entry :: "string \<times> json \<Rightarrow> string \<times> json" where
  "sort_entry \<equiv> \<lambda>(k, v). (k, sort_json_keys v)"

lemma fst_sort_entry [simp]: "fst (sort_entry kv) = fst kv"
  by (cases kv) simp

lemma map_fst_sort_entry [simp]: "map fst (map sort_entry kvs) = map fst kvs"
  by (simp add: comp_def)

lemma sort_objects_eq:
  assumes "distinct (map fst kvs)" "distinct (map fst kvs2)"
    and "image_mset sort_entry (mset kvs) = image_mset sort_entry (mset kvs2)"
  shows "map sort_entry (bt_collect kvs) = map sort_entry (bt_collect kvs2)"
  using assms
  by (intro sorted_keys_unique)
    (simp_all only: map_fst_sort_entry sorted_bt_collect mset_map mset_bt_collect)

lemma json_sim_sort:
  "json_sim a b \<Longrightarrow> wf_json a \<Longrightarrow> wf_json b \<Longrightarrow> sort_json_keys a = sort_json_keys b"
proof (induction rule: json_sim.induct)
  case (sim_array xs ys)
  then have "list_all2 (\<lambda>x y. sort_json_keys x = sort_json_keys y) xs ys"
    by (auto simp: list_all2_conv_all_nth list_all_length)
  then show ?case by (auto simp: list_all2_conv_all_nth intro: nth_equalityI)
next
  case (sim_object kvs kvs' kvs'')
  have wf: "list_all (\<lambda>kv. wf_json (snd kv)) kvs'" "list_all (\<lambda>kv. wf_json (snd kv)) kvs''"
    using sim_object.prems sim_object.hyps(1) by (auto simp: list_all_iff dest: mset_eq_setD)
  have "map sort_entry kvs' = map sort_entry kvs''"
  proof (rule nth_equalityI)
    show "length (map sort_entry kvs') = length (map sort_entry kvs'')"
      using sim_object.IH by (simp add: list_all2_lengthD)
    fix i assume "i < length (map sort_entry kvs')"
    then have i: "i < length kvs'" "i < length kvs''"
      using sim_object.IH by (simp_all add: list_all2_lengthD)
    then have "fst (kvs' ! i) = fst (kvs'' ! i)"
        "sort_json_keys (snd (kvs' ! i)) = sort_json_keys (snd (kvs'' ! i))"
      using sim_object.IH wf by (auto simp: list_all2_conv_all_nth list_all_length rel_prod_sel)
    then show "map sort_entry kvs' ! i = map sort_entry kvs'' ! i"
      using i by (simp add: case_prod_unfold)
  qed
  then have "image_mset sort_entry (mset kvs) = image_mset sort_entry (mset kvs'')"
    using sim_object.hyps(1) by (metis mset_map)
  then show ?case
    using sim_object.prems by (simp only: sort_json_keys.simps json.inject) (auto intro: sort_objects_eq)
qed simp_all

lemma sort_eq_json_sim:
  "sort_json_keys a = sort_json_keys b \<Longrightarrow> wf_json a \<Longrightarrow> wf_json b \<Longrightarrow> json_sim a b"
proof (induction a arbitrary: b rule: sort_json_keys.induct)
  case (1 kvs)
  from "1.prems"(1) obtain kvs2 where b: "b = JObject kvs2"
    and eq: "map sort_entry (bt_collect kvs) = map sort_entry (bt_collect kvs2)"
    by (cases b) auto
  have sets: "set (bt_collect kvs) \<subseteq> set kvs" "set (bt_collect kvs2) \<subseteq> set kvs2"
    by (rule set_bt_collect)+
  have rel: "list_all2 (rel_prod (=) json_sim) (bt_collect kvs) (bt_collect kvs2)"
  proof (rule list_all2I)
    show "length (bt_collect kvs) = length (bt_collect kvs2)" using map_eq_imp_length_eq [OF eq] .
    show "\<forall>x \<in> set (zip (bt_collect kvs) (bt_collect kvs2)). case x of (x, y) \<Rightarrow> rel_prod (=) json_sim x y"
    proof safe
      fix k v k2 v2
      assume z: "((k, v), (k2, v2)) \<in> set (zip (bt_collect kvs) (bt_collect kvs2))"
      then have m: "(k, v) \<in> set (bt_collect kvs)" "(k2, v2) \<in> set (bt_collect kvs2)"
        by (auto dest: set_zip_leftD set_zip_rightD)
      from z obtain i where i: "i < length (bt_collect kvs)" "i < length (bt_collect kvs2)"
          "bt_collect kvs ! i = (k, v)" "bt_collect kvs2 ! i = (k2, v2)"
        by (auto simp: set_zip)
      have "map sort_entry (bt_collect kvs) ! i = map sort_entry (bt_collect kvs2) ! i"
        by (simp only: eq)
      then have "sort_entry (k, v) = sort_entry (k2, v2)"
        by (simp only: nth_map [OF i(1)] nth_map [OF i(2)] i(3,4))
      moreover have "wf_json v" "wf_json v2"
        using m sets "1.prems"(2,3) b by (fastforce simp: list_all_iff)+
      ultimately have "json_sim v v2" using "1.IH" [OF m(1)] by auto
      then show "rel_prod (=) json_sim (k, v) (k2, v2)"
        using \<open>sort_entry (k, v) = sort_entry (k2, v2)\<close> by simp
    qed
  qed
  have "mset kvs2 = mset (bt_collect kvs2)" "mset (bt_collect kvs) = mset kvs"
    using "1.prems"(2,3) b by (simp_all add: mset_bt_collect)
  moreover have "list_all2 (rel_prod (=) json_sim)\<inverse>\<inverse> (bt_collect kvs2) (bt_collect kvs)"
    using rel by (simp only: list.rel_flip)
  ultimately obtain kvs' where "list_all2 (rel_prod (=) json_sim) kvs' kvs2" "mset kvs' = mset kvs"
    using list_all2_reorder_left_invariance list.rel_flip by metis
  then show ?case unfolding b by (intro sim_object) simp_all
next
  case (2 xs)
  from "2.prems"(1) obtain ys where b: "b = JArray ys" and eq: "map sort_json_keys xs = map sort_json_keys ys"
    by (cases b) auto
  have "list_all2 json_sim xs ys"
    using eq "2.IH" "2.prems"(2,3) b
    by (auto simp: list_all2_conv_all_nth list_all_length list_eq_iff_nth_eq)
  then show ?case unfolding b by (rule sim_array)
next
  case 3
  then show ?case by (cases b) (simp_all add: sim_null)
next
  case (4 x)
  then show ?case by (cases b) (simp_all add: sim_bool)
next
  case (5 n)
  then show ?case by (cases b) (simp_all add: sim_number)
next
  case (6 s)
  then show ?case by (cases b) (simp_all add: sim_string)
qed

end
