(* ===== verification/Consensus.thy ===== *)
theory Consensus
  imports Json HashMaps
begin

text \<open>
  The consensus engine of \<open>crates/consensus/src/tmr_consensus.rs\<close>: canonical keys of
  provider outputs, the health table, and the two adjudicators \<open>evaluate\<close> (all
  responses collected) and \<open>query\<close> (stops at the first quorum).

  JSON parsing and printing, SHA-256, BLAKE3 and hexadecimal encoding belong to other
  crates: they are the fields of the record \<open>codecs\<close>. The iteration order of the
  \<open>HashMap\<close> of votes is the argument \<open>ord\<close>, a function that permutes its entries.
  In \<open>query\<close> the responses come in the order in which the provider futures complete.
\<close>

section \<open>Canonical keys\<close>

record codecs =
  parse_json :: "string \<Rightarrow> json option"
  print_json :: "json \<Rightarrow> string"
  sha256_hex :: "string \<Rightarrow> string"
  blake3_hex :: "string \<Rightarrow> string"

definition RAYON_BACKPRESSURE_LIMIT :: nat where
  "RAYON_BACKPRESSURE_LIMIT = 1000"

definition compute_canonical_hash :: "codecs \<Rightarrow> string \<Rightarrow> string option" where
  "compute_canonical_hash cd raw_output =
     (case parse_json cd (trim raw_output) of
        None \<Rightarrow> None
      | Some v \<Rightarrow> Some (sha256_hex cd (print_json cd (sort_json_keys v))))"

definition compute_canonical_key_sync :: "codecs \<Rightarrow> string \<Rightarrow> string" where
  "compute_canonical_key_sync cd raw =
     (let trimmed = trim (strip_markdown_fences raw)
      in if \<not> starts_with trimmed ''{'' \<and> \<not> starts_with trimmed ''[''
         then ''blake3:'' @ blake3_hex cd trimmed
         else case compute_canonical_hash cd trimmed of
                Some h \<Rightarrow> ''sha256:'' @ h
              | None \<Rightarrow> ''blake3:'' @ blake3_hex cd trimmed)"

text \<open>
  \<open>canonical_semantic_key\<close> with the value of the global counter it reads and whether
  the worker delivered its result before the channel closed.
\<close>

definition canonical_semantic_key :: "codecs \<Rightarrow> nat \<Rightarrow> bool \<Rightarrow> string \<Rightarrow> string" where
  "canonical_semantic_key cd pending delivered raw =
     (if RAYON_BACKPRESSURE_LIMIT < pending then ''429_TOO_MANY_REQUESTS_BACKPRESSURE''
      else if delivered then compute_canonical_key_sync cd raw
      else ''500_RAYON_WORKER_DROPPED'')"

section \<open>Data\<close>

datatype ProviderNode = GoogleGemini | DeepSeek | Groq | Custom string

fun ProviderNode_fmt :: "ProviderNode \<Rightarrow> string" where
  "ProviderNode_fmt GoogleGemini = ''gemini''"
| "ProviderNode_fmt DeepSeek = ''deepseek''"
| "ProviderNode_fmt Groq = ''groq''"
| "ProviderNode_fmt (Custom i) = ''custom:'' @ i"

datatype NodeHealth = Healthy | Degraded | Tripped

datatype ResponseStatus = Success | RateLimited | ServerError | NetworkError | Timeout

record ProviderResponse =
  pr_provider :: ProviderNode
  pr_content :: string
  semantic_key :: string
  latency_ms :: u64
  tokens_used :: u32
  pr_status :: ResponseStatus

record ConsensusResult =
  cr_content :: string
  winning_providers :: "ProviderNode list"
  total_latency_ms :: u64
  degraded :: bool
  total_tokens_used :: u32

text \<open>The message of \<open>NoConsensus\<close> is the tuple of the numbers it prints.\<close>

datatype no_consensus = ReceivedNoMajority nat | ReceivedBestRequired nat nat nat

datatype ConsensusError =
    AllProvidersUnavailable
  | NoConsensus no_consensus
  | ProviderError string string
  | Backpressure nat

record TmrConfig =
  strict_mode :: bool
  query_timeout_ms :: u64
  consensus_timeout_ms :: u64
  min_agreement :: nat

definition TmrConfig_default :: TmrConfig where
  "TmrConfig_default =
     \<lparr>strict_mode = True, query_timeout_ms = 30000, consensus_timeout_ms = 60000, min_agreement = 2\<rparr>"

record TmrConsensusEngine =
  tmr_config :: TmrConfig
  node_health :: "(ProviderNode, NodeHealth) hmap"

section \<open>The health table\<close>

definition with_config_and_nodes :: "TmrConfig \<Rightarrow> ProviderNode list \<Rightarrow> TmrConsensusEngine" where
  "with_config_and_nodes cfg nodes =
     \<lparr>tmr_config = cfg, node_health = foldl (\<lambda>m n. hm_insert n Healthy m) [] nodes\<rparr>"

definition with_nodes :: "ProviderNode list \<Rightarrow> TmrConsensusEngine" where
  "with_nodes nodes =
     \<lparr>tmr_config = TmrConfig_default, node_health = foldl (\<lambda>m n. hm_insert n Healthy m) [] nodes\<rparr>"

definition with_config :: "TmrConfig \<Rightarrow> TmrConsensusEngine" where
  "with_config cfg =
     \<lparr>tmr_config = cfg,
      node_health = [(GoogleGemini, Healthy), (DeepSeek, Healthy), (Groq, Healthy)]\<rparr>"

definition TmrConsensusEngine_new :: TmrConsensusEngine where
  "TmrConsensusEngine_new =
     \<lparr>tmr_config = TmrConfig_default,
      node_health = [(GoogleGemini, Healthy), (DeepSeek, Healthy), (Groq, Healthy)]\<rparr>"

definition register_node :: "ProviderNode \<Rightarrow> NodeHealth \<Rightarrow> TmrConsensusEngine \<Rightarrow> TmrConsensusEngine" where
  "register_node n h e = e\<lparr>node_health := hm_insert n h (node_health e)\<rparr>"

definition update_node_health ::
  "ProviderNode \<Rightarrow> NodeHealth \<Rightarrow> TmrConsensusEngine \<Rightarrow> TmrConsensusEngine" where
  "update_node_health n h e = e\<lparr>node_health := hm_insert n h (node_health e)\<rparr>"

definition healthy_nodes :: "TmrConsensusEngine \<Rightarrow> ProviderNode list" where
  "healthy_nodes e = map fst (filter (\<lambda>(_, h). h \<noteq> Tripped) (node_health e))"

definition health_snapshot :: "TmrConsensusEngine \<Rightarrow> (string, NodeHealth) hmap" where
  "health_snapshot e =
     foldl (\<lambda>m (n, h). hm_insert (ProviderNode_fmt n) h m) [] (node_health e)"

section \<open>Votes\<close>

type_synonym votes = "(string, nat \<times> string \<times> ProviderNode list) hmap"

definition counts :: "ProviderResponse \<Rightarrow> bool" where
  "counts r \<longleftrightarrow> pr_status r = Success \<and> semantic_key r \<noteq> []"

definition add_vote :: "ProviderResponse \<Rightarrow> votes \<Rightarrow> votes" where
  "add_vote r m =
     (if counts r
      then let (n, _, ps) = (case hm_get m (semantic_key r) of Some e \<Rightarrow> e | None \<Rightarrow> (0, [], []))
           in hm_insert (semantic_key r) (n + 1, pr_content r, ps @ [pr_provider r]) m
      else m)"

definition required_votes :: "TmrConfig \<Rightarrow> nat \<Rightarrow> nat" where
  "required_votes cfg total_nodes =
     (if strict_mode cfg then (if 3 \<le> total_nodes then min_agreement cfg else total_nodes) else 1)"

section \<open>Adjudication\<close>

fun eval_loop ::
  "ProviderResponse list \<Rightarrow> u32 \<Rightarrow> u64 \<Rightarrow> votes \<Rightarrow> (u32 \<times> u64 \<times> votes) may_panic" where
  "eval_loop [] tokens lat m = Some (tokens, lat, m)"
| "eval_loop (r # rs) tokens lat m =
     (case checked_add tokens (tokens_used r) of
        None \<Rightarrow> None
      | Some t \<Rightarrow> eval_loop rs t (max lat (latency_ms r)) (add_vote r m))"

definition evaluate ::
  "(votes \<Rightarrow> votes) \<Rightarrow> TmrConsensusEngine \<Rightarrow> ProviderResponse list
     \<Rightarrow> (ConsensusError, ConsensusResult) rresult may_panic" where
  "evaluate ord e responses =
     (if responses = [] then Some (Inl AllProvidersUnavailable)
      else
        let available = healthy_nodes e;
            total_nodes = (if available = [] then length responses else length available)
        in case eval_loop responses 0 0 [] of
             None \<Rightarrow> None
           | Some (tokens, lat, m) \<Rightarrow>
               let required = required_votes (tmr_config e) total_nodes;
                   vals = map snd (ord m);
                   failed = Some (Inl (NoConsensus (ReceivedBestRequired (length responses)
                     (case max_by_key fst vals of Some v \<Rightarrow> fst v | None \<Rightarrow> 0) required)))
               in case max_by_key fst vals of
                    Some (votes, content, providers) \<Rightarrow>
                      if required \<le> votes
                      then Some (Inr \<lparr>cr_content = content, winning_providers = providers,
                                      total_latency_ms = lat, degraded = total_nodes < 3,
                                      total_tokens_used = tokens\<rparr>)
                      else failed
                  | None \<Rightarrow> failed)"

text \<open>
  \<open>query\<close>: \<open>done\<close> are the responses received so far, \<open>lat\<close> the elapsed time
  reported with the result; the sum of tokens is computed when a quorum is found and
  panics on overflow.
\<close>

fun sum_tokens :: "ProviderResponse list \<Rightarrow> u32 \<Rightarrow> u32 may_panic" where
  "sum_tokens [] t = Some t"
| "sum_tokens (r # rs) t =
     (case checked_add t (tokens_used r) of None \<Rightarrow> None | Some t1 \<Rightarrow> sum_tokens rs t1)"

fun query_loop ::
  "(votes \<Rightarrow> votes) \<Rightarrow> nat \<Rightarrow> nat \<Rightarrow> u64 \<Rightarrow> ProviderResponse list \<Rightarrow> ProviderResponse list
     \<Rightarrow> votes \<Rightarrow> (ConsensusError, ConsensusResult) rresult may_panic" where
  "query_loop ord avail required lat received [] m =
     Some (Inl (NoConsensus (ReceivedNoMajority (length received))))"
| "query_loop ord avail required lat received (r # rs) m =
     (let m1 = add_vote r m; received1 = received @ [r]
      in case find (\<lambda>(c, _, _). required \<le> c) (map snd (ord m1)) of
           Some (_, content, providers) \<Rightarrow>
             (case sum_tokens received1 0 of
                None \<Rightarrow> None
              | Some t \<Rightarrow> Some (Inr \<lparr>cr_content = content, winning_providers = providers,
                                     total_latency_ms = lat, degraded = avail < 3,
                                     total_tokens_used = t\<rparr>))
         | None \<Rightarrow> query_loop ord avail required lat received1 rs m1)"

text \<open>A provider that does not answer within the query timeout is a timeout response.\<close>

definition timeout_response :: "TmrConfig \<Rightarrow> ProviderNode \<Rightarrow> ProviderResponse" where
  "timeout_response cfg n =
     \<lparr>pr_provider = n, pr_content = [], semantic_key = [],
      latency_ms = query_timeout_ms cfg, tokens_used = 0, pr_status = Timeout\<rparr>"

text \<open>
  \<open>arrivals\<close> lists the available nodes in the order in which their futures complete,
  with the response or \<open>None\<close> for a timeout.
\<close>

definition query ::
  "(votes \<Rightarrow> votes) \<Rightarrow> TmrConsensusEngine \<Rightarrow> u64 \<Rightarrow> (ProviderNode \<times> ProviderResponse option) list
     \<Rightarrow> (ConsensusError, ConsensusResult) rresult may_panic" where
  "query ord e lat arrivals =
     (let available = healthy_nodes e
      in if available = [] then Some (Inl AllProvidersUnavailable)
         else query_loop ord (length available)
                (required_votes (tmr_config e) (length available)) lat []
                (map (\<lambda>(n, r). case r of Some x \<Rightarrow> x | None \<Rightarrow> timeout_response (tmr_config e) n) arrivals)
                [])"

section \<open>What the vote table holds\<close>

definition votes_for :: "string \<Rightarrow> ProviderResponse list \<Rightarrow> ProviderResponse list" where
  "votes_for k rs = filter (\<lambda>r. counts r \<and> semantic_key r = k) rs"

definition tally :: "ProviderResponse list \<Rightarrow> votes" where
  "tally rs = foldl (\<lambda>m r. add_vote r m) [] rs"

definition vote_entry :: "ProviderResponse list \<Rightarrow> nat \<times> string \<times> ProviderNode list" where
  "vote_entry vs = (length vs, pr_content (last vs), map pr_provider vs)"

definition permutes_votes :: "(votes \<Rightarrow> votes) \<Rightarrow> bool" where
  "permutes_votes ord \<longleftrightarrow> (\<forall>m. mset (ord m) = mset m)"

definition token_sum :: "ProviderResponse list \<Rightarrow> nat" where
  "token_sum rs = sum_list (map (\<lambda>r. unat (tokens_used r)) rs)"

lemma votes_for_snoc:
  "votes_for k (rs @ [r]) = votes_for k rs @ (if counts r \<and> semantic_key r = k then [r] else [])"
  by (simp add: votes_for_def)

lemma tally_snoc: "tally (rs @ [r]) = add_vote r (tally rs)"
  by (simp add: tally_def)

lemma votes_for_empty_key [simp]: "votes_for [] rs = []"
  by (auto simp: votes_for_def counts_def filter_empty_conv)

lemma hm_inv_tally: "hm_inv (tally rs)"
proof (induction rs rule: rev_induct)
  case Nil
  show ?case by (simp add: tally_def hm.inv_empty)
next
  case (snoc r rs)
  then show ?case
    by (simp add: tally_snoc add_vote_def Let_def hm.inv_insert split: prod.split)
qed

lemma hm_get_tally:
  "hm_get (tally rs) k =
     (if votes_for k rs = [] then None else Some (vote_entry (votes_for k rs)))"
proof (induction rs arbitrary: k rule: rev_induct)
  case Nil
  show ?case by (simp add: tally_def votes_for_def hm.get_empty)
next
  case (snoc r rs)
  show ?case
    using snoc.IH [of k] snoc.IH [of "semantic_key r"]
    by (auto simp: tally_snoc add_vote_def votes_for_snoc hm.get_insert vote_entry_def Let_def
        split: prod.splits)
qed

lemma set_tally:
  "(k, e) \<in> set (tally rs) \<longleftrightarrow> votes_for k rs \<noteq> [] \<and> e = vote_entry (votes_for k rs)"
proof -
  have "(k, e) \<in> set (tally rs) \<longleftrightarrow> hm_get (tally rs) k = Some e"
    using hm_inv_tally [of rs] by (simp add: hm_get_def hm_inv_def)
  then show ?thesis by (auto simp: hm_get_tally)
qed

lemma set_values:
  assumes "permutes_votes ord"
  shows "e \<in> set (map snd (ord (tally rs))) \<longleftrightarrow>
           (\<exists>k. votes_for k rs \<noteq> [] \<and> e = vote_entry (votes_for k rs))"
proof -
  have "set (ord (tally rs)) = set (tally rs)"
    using assms unfolding permutes_votes_def by (intro mset_eq_setD) blast
  then have "e \<in> set (map snd (ord (tally rs))) \<longleftrightarrow> (\<exists>k. (k, e) \<in> set (tally rs))"
    by (auto simp: image_iff intro: rev_bexI)
  then show ?thesis by (simp only: set_tally)
qed

lemma eval_loop_eq:
  "eval_loop rs t l m =
     (if unat t + token_sum rs < 2 ^ 32
      then Some (t + of_nat (token_sum rs), foldl max l (map latency_ms rs),
                 foldl (\<lambda>m r. add_vote r m) m rs)
      else None)"
proof (induction rs arbitrary: t l m)
  case (Cons r rs)
  show ?case
  proof (cases "unat t + unat (tokens_used r) < 2 ^ 32")
    case True
    then have "unat (t + tokens_used r) = unat t + unat (tokens_used r)"
      by (simp add: unat_word_ariths)
    with True Cons.IH [of "t + tokens_used r"] show ?thesis
      by (simp add: checked_add_def token_sum_def add.assoc)
  next
    case False
    then show ?thesis by (simp add: checked_add_def token_sum_def)
  qed
qed (simp add: token_sum_def unat_u32_lt [simplified])

lemma sum_tokens_eq:
  "sum_tokens rs t =
     (if unat t + token_sum rs < 2 ^ 32 then Some (t + of_nat (token_sum rs)) else None)"
proof (induction rs arbitrary: t)
  case (Cons r rs)
  show ?case
  proof (cases "unat t + unat (tokens_used r) < 2 ^ 32")
    case True
    then have "unat (t + tokens_used r) = unat t + unat (tokens_used r)"
      by (simp add: unat_word_ariths)
    with True Cons.IH [of "t + tokens_used r"] show ?thesis
      by (simp add: checked_add_def token_sum_def add.assoc)
  next
    case False
    then show ?thesis by (simp add: checked_add_def token_sum_def)
  qed
qed (simp add: token_sum_def unat_u32_lt [simplified])

section \<open>Adjudication in terms of votes\<close>

definition node_total :: "TmrConsensusEngine \<Rightarrow> ProviderResponse list \<Rightarrow> nat" where
  "node_total e rs = (if healthy_nodes e = [] then length rs else length (healthy_nodes e))"

definition quorum :: "TmrConsensusEngine \<Rightarrow> ProviderResponse list \<Rightarrow> nat" where
  "quorum e rs = required_votes (tmr_config e) (node_total e rs)"

definition best_votes :: "ProviderResponse list \<Rightarrow> nat" where
  "best_votes rs = Max (insert 0 ((\<lambda>k. length (votes_for k rs)) ` (semantic_key ` set rs)))"

lemma votes_for_key: "votes_for k rs \<noteq> [] \<Longrightarrow> k \<in> semantic_key ` set rs"
  by (auto simp: votes_for_def filter_empty_conv)

lemma best_votes_ge: "length (votes_for k rs) \<le> best_votes rs"
proof (cases "votes_for k rs = []")
  case False
  then show ?thesis
    using votes_for_key [OF False] unfolding best_votes_def by (intro Max_ge) auto
qed simp

lemma max_by_key_votes:
  assumes "permutes_votes ord"
  shows "case max_by_key fst (map snd (ord (tally rs))) of
           None \<Rightarrow> \<forall>k. votes_for k rs = []
         | Some e \<Rightarrow> \<exists>k. votes_for k rs \<noteq> [] \<and> e = vote_entry (votes_for k rs)
                        \<and> length (votes_for k rs) = best_votes rs"
proof (cases "max_by_key fst (map snd (ord (tally rs)))")
  case None
  then have "map snd (ord (tally rs)) = []" by (simp only: max_by_key_None)
  then have "votes_for k rs = []" for k
    using set_values [OF assms, of "vote_entry (votes_for k rs)" rs] by auto
  with None show ?thesis by simp
next
  case (Some e)
  note m = max_by_key_Some [OF Some]
  from m(1) obtain k where k: "votes_for k rs \<noteq> []" "e = vote_entry (votes_for k rs)"
    by (simp only: set_values [OF assms]) blast
  have le: "length (votes_for k' rs) \<le> length (votes_for k rs)" for k'
  proof (cases "votes_for k' rs = []")
    case False
    then have "vote_entry (votes_for k' rs) \<in> set (map snd (ord (tally rs)))"
      by (simp only: set_values [OF assms]) blast
    with m(2) k show ?thesis by (force simp: vote_entry_def)
  qed simp
  then have "best_votes rs \<le> length (votes_for k rs)"
    unfolding best_votes_def by (intro Max.boundedI) auto
  with best_votes_ge [of k rs] Some k show ?thesis by auto
qed

lemma evaluate_eq:
  assumes "permutes_votes ord" "rs \<noteq> []"
  shows "evaluate ord e rs =
    (if 2 ^ 32 \<le> token_sum rs then None
     else case max_by_key fst (map snd (ord (tally rs))) of
            Some (n, content, providers) \<Rightarrow>
              if quorum e rs \<le> n
              then Some (Inr \<lparr>cr_content = content, winning_providers = providers,
                              total_latency_ms = foldl max 0 (map latency_ms rs),
                              degraded = node_total e rs < 3,
                              total_tokens_used = of_nat (token_sum rs)\<rparr>)
              else Some (Inl (NoConsensus (ReceivedBestRequired (length rs) n (quorum e rs))))
          | None \<Rightarrow> Some (Inl (NoConsensus (ReceivedBestRequired (length rs) 0 (quorum e rs)))))"
  using assms(2)
  by (auto simp: evaluate_def eval_loop_eq quorum_def node_total_def Let_def tally_def
      split: option.splits)

lemma evaluate_Ok:
  assumes "permutes_votes ord" "evaluate ord e rs = Some (Inr res)"
  shows "\<exists>k. votes_for k rs \<noteq> [] \<and> quorum e rs \<le> length (votes_for k rs)
           \<and> length (votes_for k rs) = best_votes rs
           \<and> cr_content res = pr_content (last (votes_for k rs))
           \<and> winning_providers res = map pr_provider (votes_for k rs)"
proof -
  have "rs \<noteq> []" using assms(2) by (auto simp: evaluate_def)
  then show ?thesis
    using max_by_key_votes [OF assms(1), of rs] assms(2)
    by (auto simp: evaluate_eq [OF assms(1)] vote_entry_def split: option.splits if_splits)
qed

lemma evaluate_decides:
  assumes "permutes_votes ord" "rs \<noteq> []" "token_sum rs < 2 ^ 32"
  shows "(\<exists>res. evaluate ord e rs = Some (Inr res)) \<longleftrightarrow>
           (\<exists>k. votes_for k rs \<noteq> [] \<and> quorum e rs \<le> length (votes_for k rs))"
proof
  assume "\<exists>res. evaluate ord e rs = Some (Inr res)"
  then show "\<exists>k. votes_for k rs \<noteq> [] \<and> quorum e rs \<le> length (votes_for k rs)"
    using evaluate_Ok [OF assms(1)] by blast
next
  assume "\<exists>k. votes_for k rs \<noteq> [] \<and> quorum e rs \<le> length (votes_for k rs)"
  then obtain k where k: "votes_for k rs \<noteq> []" "quorum e rs \<le> length (votes_for k rs)" by blast
  show "\<exists>res. evaluate ord e rs = Some (Inr res)"
    using max_by_key_votes [OF assms(1), of rs] k best_votes_ge [of k rs] assms(3)
    by (auto simp: evaluate_eq [OF assms(1,2)] vote_entry_def split: option.splits)
qed

text \<open>Two different keys share the responses, so two majorities cannot coexist.\<close>

lemma two_keys_bound:
  "k \<noteq> k' \<Longrightarrow> length (votes_for k rs) + length (votes_for k' rs) \<le> length rs"
  by (induction rs) (auto simp: votes_for_def)

lemma majority_key_unique:
  assumes "length rs < 2 * q" "q \<le> length (votes_for k rs)" "q \<le> length (votes_for k' rs)"
  shows "k = k'"
  using two_keys_bound [of k k' rs] assms by (cases "k = k'") auto

section \<open>The early-stopping query\<close>

lemma find_quorum:
  assumes "permutes_votes ord"
  shows "case find (\<lambda>(c, _, _). q \<le> c) (map snd (ord (tally rs))) of
           None \<Rightarrow> \<forall>k. votes_for k rs \<noteq> [] \<longrightarrow> length (votes_for k rs) < q
         | Some e \<Rightarrow> \<exists>k. votes_for k rs \<noteq> [] \<and> q \<le> length (votes_for k rs)
                        \<and> e = vote_entry (votes_for k rs)"
proof (cases "find (\<lambda>(c, _, _). q \<le> c) (map snd (ord (tally rs)))")
  case None
  have "length (votes_for k rs) < q" if "votes_for k rs \<noteq> []" for k
  proof -
    have "vote_entry (votes_for k rs) \<in> set (map snd (ord (tally rs)))"
      using that by (simp only: set_values [OF assms]) blast
    then show ?thesis using None by (auto simp: find_None_iff vote_entry_def)
  qed
  with None show ?thesis by simp
next
  case (Some e)
  then have "e \<in> set (map snd (ord (tally rs)))" "q \<le> fst e"
    by (auto simp: find_Some_iff in_set_conv_nth simp del: set_map)
  then obtain k where "votes_for k rs \<noteq> []" "e = vote_entry (votes_for k rs)"
    by (simp only: set_values [OF assms]) blast
  with Some \<open>q \<le> fst e\<close> show ?thesis by (auto simp: vote_entry_def)
qed

definition has_quorum :: "nat \<Rightarrow> ProviderResponse list \<Rightarrow> bool" where
  "has_quorum q rs \<longleftrightarrow> (\<exists>k. votes_for k rs \<noteq> [] \<and> q \<le> length (votes_for k rs))"

lemma votes_for_append: "votes_for k (xs @ ys) = votes_for k xs @ votes_for k ys"
  by (simp add: votes_for_def)

lemma has_quorum_append: "has_quorum q xs \<Longrightarrow> has_quorum q (xs @ ys)"
  by (auto simp: has_quorum_def votes_for_append intro: exI trans_le_add1)

lemma token_sum_append: "token_sum (xs @ ys) = token_sum xs + token_sum ys"
  by (simp add: token_sum_def)

lemma query_loop_decides:
  assumes "permutes_votes ord" "token_sum (done @ rs) < 2 ^ 32" "\<not> has_quorum q done"
  shows "(\<exists>res. query_loop ord n q lat done rs (tally done) = Some (Inr res)) \<longleftrightarrow>
           has_quorum q (done @ rs)"
  using assms(2,3)
proof (induction rs arbitrary: "done")
  case (Cons r rs)
  let ?d = "done @ [r]"
  have t: "token_sum ?d < 2 ^ 32" using Cons.prems(1) by (simp add: token_sum_append token_sum_def)
  note f = find_quorum [OF assms(1), where q = q and rs = ?d]
  show ?case
  proof (cases "find (\<lambda>(c, _, _). q \<le> c) (map snd (ord (tally ?d)))")
    case None
    with f have nq: "\<not> has_quorum q ?d" by (auto simp: has_quorum_def)
    have "token_sum (?d @ rs) < 2 ^ 32" using Cons.prems(1) by simp
    from Cons.IH [OF this nq] None show ?thesis by (simp add: tally_snoc Let_def)
  next
    case (Some e)
    obtain c content ps where e: "e = (c, content, ps)" by (cases e)
    have "has_quorum q ?d" using f Some by (auto simp: has_quorum_def)
    then have "has_quorum q (done @ r # rs)" using has_quorum_append [of q ?d rs] by simp
    moreover have "sum_tokens ?d 0 = Some (of_nat (token_sum ?d))"
      using t by (simp add: sum_tokens_eq)
    ultimately show ?thesis using Some e by (simp add: tally_snoc Let_def)
  qed
qed simp

lemma query_loop_sound:
  assumes "permutes_votes ord" "query_loop ord n q lat done rs (tally done) = Some (Inr res)"
  shows "\<exists>pre k. prefix pre (done @ rs) \<and> votes_for k pre \<noteq> [] \<and> q \<le> length (votes_for k pre)
           \<and> cr_content res = pr_content (last (votes_for k pre))
           \<and> winning_providers res = map pr_provider (votes_for k pre)"
  using assms(2)
proof (induction rs arbitrary: "done")
  case (Cons r rs)
  let ?d = "done @ [r]"
  note f = find_quorum [OF assms(1), where q = q and rs = ?d]
  show ?case
  proof (cases "find (\<lambda>(c, _, _). q \<le> c) (map snd (ord (tally ?d)))")
    case None
    with Cons.prems have "query_loop ord n q lat ?d rs (tally ?d) = Some (Inr res)"
      by (simp add: tally_snoc Let_def)
    from Cons.IH [OF this] show ?thesis by simp
  next
    case (Some e)
    with f obtain k where k: "votes_for k ?d \<noteq> []" "q \<le> length (votes_for k ?d)"
        "e = vote_entry (votes_for k ?d)" by auto
    have "cr_content res = pr_content (last (votes_for k ?d))"
        "winning_providers res = map pr_provider (votes_for k ?d)"
      using Cons.prems Some k(3)
      by (auto simp: tally_snoc Let_def vote_entry_def split: option.splits)
    moreover have "prefix ?d (done @ r # rs)" by (simp add: prefix_def)
    ultimately show ?thesis using k(1,2) by blast
  qed
qed simp

section \<open>Properties\<close>

text \<open>
  C2: The adjudicator is sound. Whatever the iteration order of the vote table, when
  \<open>evaluate\<close> returns a result there is a key with at least the required number of
  successful responses, no key has more, the winners are exactly the providers of the
  responses with that key in order, and the content is that of the last of them.
\<close>

theorem evaluate_sound:
  assumes "permutes_votes ord" "evaluate ord e rs = Some (Inr res)"
  shows "\<exists>k. votes_for k rs \<noteq> [] \<and> quorum e rs \<le> length (votes_for k rs)
           \<and> (\<forall>k'. length (votes_for k' rs) \<le> length (votes_for k rs))
           \<and> cr_content res = pr_content (last (votes_for k rs))
           \<and> winning_providers res = map pr_provider (votes_for k rs)"
  using evaluate_Ok [OF assms] best_votes_ge by metis

definition example_response :: "ProviderNode \<Rightarrow> string \<Rightarrow> string \<Rightarrow> ProviderResponse" where
  "example_response n c k =
     \<lparr>pr_provider = n, pr_content = c, semantic_key = k, latency_ms = 10, tokens_used = 5,
      pr_status = Success\<rparr>"

definition example_round :: "ProviderResponse list" where
  "example_round =
     [example_response GoogleGemini ''yes'' ''k1'', example_response DeepSeek ''no'' ''k2'',
      example_response Groq ''Yes'' ''k1'']"

lemma example_round_votes:
  "votes_for ''k1'' example_round =
     [example_response GoogleGemini ''yes'' ''k1'', example_response Groq ''Yes'' ''k1'']"
  "token_sum example_round = 15" "length example_round = 3" "example_round \<noteq> []"
  "quorum TmrConsensusEngine_new example_round = 2"
  "length (healthy_nodes TmrConsensusEngine_new) = 3"
  by (simp_all add: votes_for_def counts_def example_round_def example_response_def token_sum_def
      quorum_def node_total_def required_votes_def healthy_nodes_def TmrConsensusEngine_new_def
      TmrConfig_default_def)

lemma permutes_id: "permutes_votes id"
  by (simp add: permutes_votes_def)

theorem evaluate_sound_witness:
  "\<exists>res. evaluate id TmrConsensusEngine_new example_round = Some (Inr res)
     \<and> (\<exists>k. winning_providers res = map pr_provider (votes_for k example_round))"
proof -
  have "\<exists>res. evaluate id TmrConsensusEngine_new example_round = Some (Inr res)"
    by (rule evaluate_decides [THEN iffD2], rule permutes_id)
      (use example_round_votes in \<open>auto intro!: exI [of _ "''k1''"]\<close>)
  then obtain res where res: "evaluate id TmrConsensusEngine_new example_round = Some (Inr res)" ..
  with evaluate_sound [OF permutes_id res] show ?thesis by blast
qed

text \<open>
  C3: The adjudicator is complete. If the token counts fit in 32 bits, \<open>evaluate\<close>
  returns a result exactly when some key has the required number of votes; in particular it
  never reports \<open>NoConsensus\<close> while a quorum exists, in any iteration order.
\<close>

theorem evaluate_iff_quorum:
  assumes "permutes_votes ord" "rs \<noteq> []" "token_sum rs < 2 ^ 32"
  shows "(\<exists>res. evaluate ord e rs = Some (Inr res)) \<longleftrightarrow>
           (\<exists>k. votes_for k rs \<noteq> [] \<and> quorum e rs \<le> length (votes_for k rs))"
  using assms by (rule evaluate_decides)

theorem evaluate_iff_quorum_witness:
  "\<exists>res. evaluate rev TmrConsensusEngine_new example_round = Some (Inr res)"
proof -
  have "permutes_votes rev" by (simp add: permutes_votes_def)
  then show ?thesis
    by (rule evaluate_iff_quorum [THEN iffD2])
      (use example_round_votes in \<open>auto intro!: exI [of _ "''k1''"]\<close>)
qed

text \<open>
  With a majority quorum the outcome is deterministic. If the required number of votes
  is more than half of the responses, the iteration order of the vote table does not matter:
  any two orders give the same outcome, result or error.
\<close>

theorem evaluate_order_independent:
  assumes "permutes_votes ord1" "permutes_votes ord2" "length rs < 2 * quorum e rs"
  shows "evaluate ord1 e rs = evaluate ord2 e rs"
proof (cases "rs = []")
  case False
  let ?m1 = "max_by_key fst (map snd (ord1 (tally rs)))"
  let ?m2 = "max_by_key fst (map snd (ord2 (tally rs)))"
  note s1 = max_by_key_votes [OF assms(1), of rs] and s2 = max_by_key_votes [OF assms(2), of rs]
  show ?thesis
  proof (cases "quorum e rs \<le> best_votes rs")
    case True
    have "?m1 = ?m2"
      using s1 s2 True majority_key_unique [OF assms(3)]
      by (auto split: option.splits) metis+
    then show ?thesis by (simp only: evaluate_eq [OF assms(1) False] evaluate_eq [OF assms(2) False])
  next
    case nq: False
    have none: "votes_for k rs = [] \<Longrightarrow> length (votes_for k rs) = 0" for k by simp
    show ?thesis
      using s1 s2 nq
      by (auto simp: evaluate_eq [OF assms(1) False] evaluate_eq [OF assms(2) False] vote_entry_def
          split: option.splits)
  qed
qed (simp add: evaluate_def)

theorem evaluate_order_independent_witness:
  "evaluate id TmrConsensusEngine_new example_round = evaluate rev TmrConsensusEngine_new example_round"
  by (rule evaluate_order_independent)
    (simp_all add: permutes_votes_def example_round_votes)

text \<open>
  C1: Triple modular redundancy masks one faulty provider. With three available nodes and the
  default configuration, if two of three responses are successes with the same key \<open>k\<close>, then
  whatever the third provider did the outcome is a result with the content and exactly the
  providers of the responses with key \<open>k\<close>.
\<close>

theorem tmr_masks_single_fault:
  assumes "permutes_votes ord" "tmr_config e = TmrConfig_default"
    and "length (healthy_nodes e) = 3" "length rs = 3" "token_sum rs < 2 ^ 32"
    and "2 \<le> length (votes_for k rs)"
  shows "\<exists>res. evaluate ord e rs = Some (Inr res)
           \<and> cr_content res = pr_content (last (votes_for k rs))
           \<and> winning_providers res = map pr_provider (votes_for k rs) \<and> \<not> degraded res"
proof -
  have ne: "rs \<noteq> []" using assms(4) by auto
  have nt: "node_total e rs = 3" using assms(3) by (auto simp: node_total_def)
  then have q: "quorum e rs = 2"
    by (simp add: quorum_def assms(2) TmrConfig_default_def required_votes_def)
  have "votes_for k rs \<noteq> []" using assms(6) by auto
  then obtain res where res: "evaluate ord e rs = Some (Inr res)"
    using evaluate_decides [OF assms(1) ne assms(5), of e] assms(6) q by auto
  then obtain k' where k': "2 \<le> length (votes_for k' rs)"
      "cr_content res = pr_content (last (votes_for k' rs))"
      "winning_providers res = map pr_provider (votes_for k' rs)"
    using evaluate_Ok [OF assms(1) res] q by auto
  have "k' = k" using majority_key_unique [of rs 2 k' k] assms(4,6) k'(1) by simp
  moreover have "\<not> degraded res"
    using res by (auto simp: evaluate_eq [OF assms(1) ne] nt split: option.splits if_splits)
  ultimately show ?thesis using res k' by auto
qed

theorem tmr_masks_single_fault_witness:
  "\<exists>res. evaluate id TmrConsensusEngine_new example_round = Some (Inr res)
     \<and> cr_content res = ''Yes'' \<and> winning_providers res = [GoogleGemini, Groq]"
  using tmr_masks_single_fault [of id TmrConsensusEngine_new example_round "''k1''"] example_round_votes
  by (auto simp: permutes_id TmrConsensusEngine_new_def example_response_def)

text \<open>
  C5: Stopping early loses nothing. For any completion order of the provider futures (and any
  iteration orders), \<open>query\<close> reaches consensus exactly when \<open>evaluate\<close> does on the
  complete list of responses, and the winners it reports have the required number of votes
  among the responses received so far.
\<close>

theorem query_equiv_evaluate:
  fixes e :: TmrConsensusEngine and arrivals :: "(ProviderNode \<times> ProviderResponse option) list"
  defines "rs \<equiv> map (\<lambda>(n, r). case r of Some x \<Rightarrow> x | None \<Rightarrow> timeout_response (tmr_config e) n) arrivals"
  assumes "permutes_votes ord1" "permutes_votes ord2" "healthy_nodes e \<noteq> []"
    and "arrivals \<noteq> []" "token_sum rs < 2 ^ 32"
  shows "((\<exists>res. query ord1 e lat arrivals = Some (Inr res)) \<longleftrightarrow>
            (\<exists>res. evaluate ord2 e rs = Some (Inr res)))
       \<and> (\<forall>res. query ord1 e lat arrivals = Some (Inr res) \<longrightarrow>
            (\<exists>pre k. prefix pre rs \<and> votes_for k pre \<noteq> [] \<and> quorum e rs \<le> length (votes_for k pre)
               \<and> winning_providers res = map pr_provider (votes_for k pre)))"
proof -
  have q: "quorum e rs = required_votes (tmr_config e) (length (healthy_nodes e))"
    using assms(4) by (simp add: quorum_def node_total_def)
  have t: "tally [] = []" by (simp add: tally_def)
  have query: "query ord1 e lat arrivals =
      query_loop ord1 (length (healthy_nodes e)) (quorum e rs) lat [] rs (tally [])"
    using assms(4) unfolding query_def Let_def q t by (simp add: rs_def)
  have none: "\<not> has_quorum (quorum e rs) []" by (simp add: has_quorum_def votes_for_def)
  have "rs \<noteq> []" using assms(5) by (simp add: rs_def)
  have "(\<exists>res. query ord1 e lat arrivals = Some (Inr res)) \<longleftrightarrow> has_quorum (quorum e rs) rs"
    unfolding query using query_loop_decides [OF assms(2), of "[]" rs] none assms(6) by simp
  also have "\<dots> \<longleftrightarrow> (\<exists>res. evaluate ord2 e rs = Some (Inr res))"
    using evaluate_decides [OF assms(3) \<open>rs \<noteq> []\<close> assms(6)] by (simp add: has_quorum_def)
  finally show ?thesis
    using query_loop_sound [OF assms(2), of _ _ _ "[]" rs] unfolding query by fastforce
qed

theorem query_equiv_evaluate_witness:
  "\<exists>res. query id TmrConsensusEngine_new 7
     [(Groq, Some (example_response Groq ''Yes'' ''k1'')), (DeepSeek, None),
      (GoogleGemini, Some (example_response GoogleGemini ''yes'' ''k1''))] = Some (Inr res)"
proof -
  let ?rs = "[example_response Groq ''Yes'' ''k1'', timeout_response TmrConfig_default DeepSeek,
      example_response GoogleGemini ''yes'' ''k1'']"
  have "votes_for ''k1'' ?rs \<noteq> [] \<and> quorum TmrConsensusEngine_new ?rs \<le> length (votes_for ''k1'' ?rs)"
    by (simp add: votes_for_def counts_def example_response_def timeout_response_def quorum_def
        node_total_def healthy_nodes_def TmrConsensusEngine_new_def TmrConfig_default_def required_votes_def)
  moreover have tk: "token_sum ?rs < 2 ^ 32"
    by (simp add: token_sum_def example_response_def timeout_response_def)
  ultimately have "\<exists>res. evaluate id TmrConsensusEngine_new ?rs = Some (Inr res)"
    using evaluate_decides [OF permutes_id _ tk] by blast
  then show ?thesis
    using query_equiv_evaluate [OF permutes_id permutes_id, of TmrConsensusEngine_new
        "[(Groq, Some (example_response Groq ''Yes'' ''k1'')), (DeepSeek, None),
          (GoogleGemini, Some (example_response GoogleGemini ''yes'' ''k1''))]" 7] tk
    by (simp add: TmrConsensusEngine_new_def healthy_nodes_def)
qed

text \<open>
  C39: Under backpressure every pair of answers agrees. When the counter of pending hashing
  tasks exceeds the limit, \<open>canonical_semantic_key\<close> returns the same text for every
  output, so responses keyed with it reach consensus whatever their contents are: the
  adjudicator returns the content of the last response with all providers as winners.
\<close>

theorem backpressure_forges_consensus:
  assumes "permutes_votes ord" "RAYON_BACKPRESSURE_LIMIT < pending" "rs \<noteq> []"
    and "\<forall>r \<in> set rs. pr_status r = Success
           \<and> semantic_key r = canonical_semantic_key cd pending delivered (pr_content r)"
    and "quorum e rs \<le> length rs" "token_sum rs < 2 ^ 32"
  shows "\<exists>res. evaluate ord e rs = Some (Inr res) \<and> cr_content res = pr_content (last rs)
           \<and> winning_providers res = map pr_provider rs"
proof -
  let ?k = "''429_TOO_MANY_REQUESTS_BACKPRESSURE''"
  have v: "votes_for k rs = (if k = ?k then rs else [])" for k
    using assms(2,4) by (auto simp: votes_for_def counts_def canonical_semantic_key_def
        filter_id_conv filter_empty_conv)
  obtain res where res: "evaluate ord e rs = Some (Inr res)"
    using evaluate_decides [OF assms(1,3,6), of e] assms(3,5) v by (metis (full_types))
  then show ?thesis using evaluate_Ok [OF assms(1) res] v by (auto split: if_splits)
qed

theorem backpressure_forges_consensus_witness:
  "\<exists>res. evaluate id TmrConsensusEngine_new
      [example_response Groq ''transfer 1'' ''429_TOO_MANY_REQUESTS_BACKPRESSURE'',
       example_response DeepSeek ''transfer 999'' ''429_TOO_MANY_REQUESTS_BACKPRESSURE''] = Some (Inr res)
     \<and> cr_content res = ''transfer 999''"
  using backpressure_forges_consensus [OF permutes_id, of 1001
      "[example_response Groq ''transfer 1'' ''429_TOO_MANY_REQUESTS_BACKPRESSURE'',
        example_response DeepSeek ''transfer 999'' ''429_TOO_MANY_REQUESTS_BACKPRESSURE'']"
      _ True TmrConsensusEngine_new]
  by (auto simp: RAYON_BACKPRESSURE_LIMIT_def canonical_semantic_key_def example_response_def
      quorum_def node_total_def required_votes_def healthy_nodes_def TmrConsensusEngine_new_def
      TmrConfig_default_def token_sum_def)

text \<open>
  C36: Canonical hashing identifies exactly the JSON texts that agree up to key order. For two
  outputs that parse to values with distinct keys, and provided the digests of their two
  canonical forms do not collide, the canonical hashes are equal iff the values are equal up
  to the order of object keys at every depth.
\<close>

theorem canonical_hash_iff_same_json:
  assumes "parse_json cd (trim a) = Some va" "parse_json cd (trim b) = Some vb"
    and "wf_json va" "wf_json vb"
    and "sha256_hex cd (print_json cd (sort_json_keys va)) =
           sha256_hex cd (print_json cd (sort_json_keys vb)) \<Longrightarrow> sort_json_keys va = sort_json_keys vb"
  shows "compute_canonical_hash cd a = compute_canonical_hash cd b \<longleftrightarrow> json_sim va vb"
proof -
  have "compute_canonical_hash cd a = compute_canonical_hash cd b \<longleftrightarrow>
      sort_json_keys va = sort_json_keys vb"
    unfolding compute_canonical_hash_def assms(1,2) option.case option.inject using assms(5) by metis
  also have "\<dots> \<longleftrightarrow> json_sim va vb"
    using json_sim_sort [of va vb] sort_eq_json_sim [of va vb] assms(3,4) by blast
  finally show ?thesis .
qed

theorem canonical_hash_iff_same_json_witness:
  "\<exists>cd va vb. parse_json cd ''A'' = Some va \<and> parse_json cd ''B'' = Some vb \<and> va \<noteq> vb
     \<and> compute_canonical_hash cd ''A'' = compute_canonical_hash cd ''B'' \<and> json_sim va vb"
proof -
  define va where "va = JObject [(''x'', JNull), (''y'', JBool True)]"
  define vb where "vb = JObject [(''y'', JBool True), (''x'', JNull)]"
  define cd where "cd = \<lparr>parse_json = (\<lambda>s. if s = ''A'' then Some va else if s = ''B'' then Some vb else None),
      print_json = (\<lambda>v. if v = va then ''1'' else ''2''), sha256_hex = id, blake3_hex = id\<rparr>"
  have tr: "trim ''A'' = ''A''" "trim ''B'' = ''B''"
    by (simp_all add: trim_def trim_start_def trim_end_def is_ws_def)
  have st: "sort_json_keys va = va" "sort_json_keys vb = va"
    by (simp_all add: va_def vb_def bt_collect_def less_char_def)
  have wf: "wf_json va" "wf_json vb" "va \<noteq> vb" by (simp_all add: va_def vb_def)
  have cd: "parse_json cd ''A'' = Some va" "parse_json cd ''B'' = Some vb" by (simp_all add: cd_def)
  have h: "compute_canonical_hash cd ''A'' = compute_canonical_hash cd ''B''"
    by (simp add: compute_canonical_hash_def tr st cd)
  have "compute_canonical_hash cd ''A'' = compute_canonical_hash cd ''B'' \<longleftrightarrow> json_sim va vb"
    by (rule canonical_hash_iff_same_json) (simp_all add: tr st cd wf)
  with h cd wf(3) show ?thesis by blast
qed

end
