(* ===== verification/RateLimiter.thy ===== *)
theory RateLimiter
  imports F64 HashMaps
begin

text \<open>
  The token buckets of \<open>crates/traffic-control/src/rate_limiter.rs\<close>: the integer
  bucket of one provider (\<open>TokenBucket\<close>) with its registry, and the two-layer admission
  control of the gateway (\<open>SimpleTokenBucket\<close>, \<open>TenantBucket\<close>,
  \<open>ApiRateLimiter\<close>) with its process-wide instance.

  A call reads the clock once, as its argument \<open>now\<close>; a compare-and-exchange loop is the
  one update it performs when it succeeds. \<open>Instant::elapsed\<close> saturates at zero.
\<close>

section \<open>The provider bucket\<close>

record BucketConfig =
  bc_max_tokens :: u64
  refill_rate_per_sec :: f64
  cost_per_request :: u64

definition BucketConfig_default :: BucketConfig where
  "BucketConfig_default = \<lparr>bc_max_tokens = 60, refill_rate_per_sec = Fin 1, cost_per_request = 1\<rparr>"

definition presets_GEMINI :: BucketConfig where
  "presets_GEMINI = \<lparr>bc_max_tokens = 60, refill_rate_per_sec = Fin 1, cost_per_request = 1\<rparr>"

definition presets_DEEPSEEK :: BucketConfig where
  "presets_DEEPSEEK = \<lparr>bc_max_tokens = 60, refill_rate_per_sec = Fin 1, cost_per_request = 1\<rparr>"

record TokenBucket =
  tb_config :: BucketConfig
  tb_tokens :: u64
  tb_max_tokens :: u64
  tb_last_refill :: instant
  tb_is_limited :: bool
  tb_node_id :: string

datatype RateLimitError = RateLimited string u64 | RateLimitInternal string

record BucketMetrics =
  bm_node_id :: string
  bm_available_tokens :: u64
  bm_max_tokens :: u64
  bm_is_limited :: bool

definition TokenBucket_new :: "instant \<Rightarrow> string \<Rightarrow> BucketConfig \<Rightarrow> TokenBucket" where
  "TokenBucket_new now nid cfg =
     \<lparr>tb_config = cfg, tb_tokens = bc_max_tokens cfg, tb_max_tokens = bc_max_tokens cfg,
      tb_last_refill = now, tb_is_limited = False, tb_node_id = nid\<rparr>"

definition tokens_to_add :: "f64 \<Rightarrow> duration \<Rightarrow> u64" where
  "tokens_to_add rate d = as_word (ffloor (fmul (as_secs_f64 d) rate))"

definition refill_tokens :: "instant \<Rightarrow> TokenBucket \<Rightarrow> TokenBucket may_panic" where
  "refill_tokens now b =
     (let add = tokens_to_add (refill_rate_per_sec (tb_config b)) (elapsed now (tb_last_refill b));
          b1 = b\<lparr>tb_last_refill := now\<rparr>
      in if 0 < add
         then (case checked_add (tb_tokens b1) add of
                 None \<Rightarrow> None
               | Some t \<Rightarrow> Some (b1\<lparr>tb_tokens := min t (tb_max_tokens b1)\<rparr>))
         else Some b1)"

definition estimate_retry_after :: "TokenBucket \<Rightarrow> u64 may_panic" where
  "estimate_retry_after b =
     (if cost_per_request (tb_config b) \<le> tb_tokens b then Some 0
      else case checked_sub (cost_per_request (tb_config b)) (tb_tokens b) of
             None \<Rightarrow> None
           | Some deficit \<Rightarrow>
               Some (as_word (fceil (fdiv (f64_of_nat (unat deficit)) (refill_rate_per_sec (tb_config b))))))"

definition try_acquire ::
  "instant \<Rightarrow> TokenBucket \<Rightarrow> ((RateLimitError, unit) rresult \<times> TokenBucket) may_panic" where
  "try_acquire now b =
     (case refill_tokens now b of
        None \<Rightarrow> None
      | Some b1 \<Rightarrow>
          if tb_tokens b1 < cost_per_request (tb_config b1)
          then (case estimate_retry_after b1 of
                  None \<Rightarrow> None
                | Some secs \<Rightarrow> Some (Inl (RateLimited (tb_node_id b1) secs), b1\<lparr>tb_is_limited := True\<rparr>))
          else (case checked_sub (tb_tokens b1) (cost_per_request (tb_config b1)) of
                  None \<Rightarrow> None
                | Some t \<Rightarrow> Some (Inr (), b1\<lparr>tb_tokens := t, tb_is_limited := False\<rparr>)))"

definition tb_reset :: "instant \<Rightarrow> TokenBucket \<Rightarrow> TokenBucket" where
  "tb_reset now b = b\<lparr>tb_tokens := tb_max_tokens b, tb_is_limited := False, tb_last_refill := now\<rparr>"

definition tb_metrics :: "TokenBucket \<Rightarrow> BucketMetrics" where
  "tb_metrics b =
     \<lparr>bm_node_id = tb_node_id b, bm_available_tokens = tb_tokens b, bm_max_tokens = tb_max_tokens b,
      bm_is_limited = tb_is_limited b\<rparr>"

section \<open>The registry of provider buckets\<close>

record RateLimiterRegistry =
  buckets :: "(string, TokenBucket) hmap"

definition RateLimiterRegistry_new :: RateLimiterRegistry where
  "RateLimiterRegistry_new = \<lparr>buckets = []\<rparr>"

definition registry_register ::
  "instant \<Rightarrow> string \<Rightarrow> BucketConfig \<Rightarrow> RateLimiterRegistry \<Rightarrow> RateLimiterRegistry" where
  "registry_register now nid cfg r =
     r\<lparr>buckets := hm_insert nid (TokenBucket_new now nid cfg) (buckets r)\<rparr>"

definition registry_acquire ::
  "instant \<Rightarrow> string \<Rightarrow> RateLimiterRegistry
     \<Rightarrow> ((RateLimitError, unit) rresult \<times> RateLimiterRegistry) may_panic" where
  "registry_acquire now nid r =
     (case hm_get (buckets r) nid of
        None \<Rightarrow> Some (Inr (), r)
      | Some b \<Rightarrow>
          (case try_acquire now b of
             None \<Rightarrow> None
           | Some (res, b1) \<Rightarrow> Some (res, r\<lparr>buckets := hm_insert nid b1 (buckets r)\<rparr>)))"

definition all_metrics :: "RateLimiterRegistry \<Rightarrow> BucketMetrics list" where
  "all_metrics r = map (tb_metrics \<circ> snd) (buckets r)"

section \<open>The two-layer limiter\<close>

datatype NetworkError = TenantQuotaExceeded string u32 f64 | GlobalRateLimitExceeded u32 u32

record SimpleTokenBucket =
  sb_capacity :: u32
  sb_tokens :: f64
  sb_refill_rate :: f64
  sb_last_refill :: instant

definition SimpleTokenBucket_new :: "instant \<Rightarrow> u32 \<Rightarrow> f64 \<Rightarrow> SimpleTokenBucket" where
  "SimpleTokenBucket_new now capacity refill_rate =
     \<lparr>sb_capacity = capacity, sb_tokens = f64_of_nat (unat capacity), sb_refill_rate = refill_rate,
      sb_last_refill = now\<rparr>"

definition sb_refill :: "instant \<Rightarrow> SimpleTokenBucket \<Rightarrow> SimpleTokenBucket" where
  "sb_refill now b =
     b\<lparr>sb_tokens :=
         fmin (fadd (sb_tokens b)
                 (fmul (as_secs_f64 (elapsed now (sb_last_refill b))) (sb_refill_rate b)))
              (f64_of_nat (unat (sb_capacity b))),
       sb_last_refill := now\<rparr>"

definition sb_try_acquire :: "instant \<Rightarrow> SimpleTokenBucket \<Rightarrow> bool \<times> SimpleTokenBucket" where
  "sb_try_acquire now b =
     (let b1 = sb_refill now b
      in if fle (Fin 1) (sb_tokens b1) then (True, b1\<lparr>sb_tokens := fsub (sb_tokens b1) (Fin 1)\<rparr>)
         else (False, b1))"

definition sb_available :: "SimpleTokenBucket \<Rightarrow> u32" where
  "sb_available b = as_word (ffloor (sb_tokens b))"

record TenantBucket =
  tn_bucket :: SimpleTokenBucket
  tn_last_accessed :: instant

record ApiRateLimiter =
  global_bucket :: SimpleTokenBucket
  tenant_buckets :: "(string, TenantBucket) hmap"
  tenant_capacity :: u32
  tenant_refill_rate :: f64
  max_tenants :: nat

definition ApiRateLimiter_new ::
  "instant \<Rightarrow> u32 \<Rightarrow> f64 \<Rightarrow> u32 \<Rightarrow> f64 \<Rightarrow> nat \<Rightarrow> ApiRateLimiter" where
  "ApiRateLimiter_new now global_capacity global_refill_rate t_capacity t_refill_rate max_t =
     \<lparr>global_bucket = SimpleTokenBucket_new now global_capacity global_refill_rate,
      tenant_buckets = [], tenant_capacity = t_capacity, tenant_refill_rate = t_refill_rate,
      max_tenants = max_t\<rparr>"

definition tenant_entry :: "instant \<Rightarrow> string \<Rightarrow> ApiRateLimiter \<Rightarrow> TenantBucket" where
  "tenant_entry now tenant l =
     (case hm_get (tenant_buckets l) tenant of
        Some t \<Rightarrow> t
      | None \<Rightarrow> \<lparr>tn_bucket = SimpleTokenBucket_new now (tenant_capacity l) (tenant_refill_rate l),
                 tn_last_accessed = now\<rparr>)"

definition acquire_api_token ::
  "instant \<Rightarrow> string \<Rightarrow> ApiRateLimiter \<Rightarrow> (NetworkError, unit) rresult \<times> ApiRateLimiter" where
  "acquire_api_token now tenant l =
     (if hm_get (tenant_buckets l) tenant = None \<and> max_tenants l \<le> hm_len (tenant_buckets l)
      then (Inl (GlobalRateLimitExceeded (tenant_capacity l) 0), l)
      else
        let t = tenant_entry now tenant l;
            (ok, b) = sb_try_acquire now (tn_bucket t);
            l1 = l\<lparr>tenant_buckets :=
                     hm_insert tenant (t\<lparr>tn_last_accessed := now, tn_bucket := b\<rparr>) (tenant_buckets l)\<rparr>
        in if \<not> ok
           then (Inl (TenantQuotaExceeded tenant (tenant_capacity l) (tenant_refill_rate l)), l1)
           else
             let (gok, g) = sb_try_acquire now (global_bucket l1); l2 = l1\<lparr>global_bucket := g\<rparr>
             in if \<not> gok then (Inl (GlobalRateLimitExceeded (tenant_capacity l) (sb_available g)), l2)
                else (Inr (), l2))"

definition evict_stale_tenants :: "instant \<Rightarrow> duration \<Rightarrow> ApiRateLimiter \<Rightarrow> nat \<times> ApiRateLimiter" where
  "evict_stale_tenants now max_age l =
     (let kept = hm_retain (\<lambda>_ t. elapsed now (tn_last_accessed t) < max_age) (tenant_buckets l)
      in (hm_len (tenant_buckets l) - hm_len kept, l\<lparr>tenant_buckets := kept\<rparr>))"

text \<open>
  The process-wide instance is an optional limiter, set once. The result of
  \<open>init_circuit_breaker\<close> and of \<open>get_circuit_breaker\<close> is a reference to it.
\<close>

definition init_circuit_breaker ::
  "instant \<Rightarrow> ApiRateLimiter option \<Rightarrow> ApiRateLimiter option" where
  "init_circuit_breaker now inst =
     (case inst of
        Some l \<Rightarrow> Some l
      | None \<Rightarrow> Some (ApiRateLimiter_new now 10000 (Fin 5000) 100 (Fin 50) 10000))"

definition get_circuit_breaker :: "ApiRateLimiter option \<Rightarrow> ApiRateLimiter option" where
  "get_circuit_breaker inst = inst"

definition acquire_api_token_global ::
  "instant \<Rightarrow> string \<Rightarrow> ApiRateLimiter option
     \<Rightarrow> (NetworkError, unit) rresult \<times> ApiRateLimiter option" where
  "acquire_api_token_global now tenant inst =
     (case inst of
        None \<Rightarrow> (Inl (GlobalRateLimitExceeded 0 0), None)
      | Some l \<Rightarrow> let (r, l1) = acquire_api_token now tenant l in (r, Some l1))"

section \<open>The two-layer limiter: invariant\<close>

definition sb_inv :: "SimpleTokenBucket \<Rightarrow> bool" where
  "sb_inv b \<longleftrightarrow> nonneg_or_nan (sb_refill_rate b)
     \<and> (\<exists>t. sb_tokens b = Fin t \<and> 0 \<le> t \<and> t \<le> of_nat (unat (sb_capacity b)))"

lemma sb_refill_tokens:
  assumes "sb_inv b" "sb_tokens b = Fin t"
  shows "\<exists>t'. sb_tokens (sb_refill now b) = Fin t' \<and> 0 \<le> t' \<and> t' \<le> of_nat (unat (sb_capacity b))
           \<and> (\<forall>n. of_nat n \<le> t \<longrightarrow> of_nat n \<le> t')"
proof -
  define c where "c = unat (sb_capacity b)"
  define a where "a = fmul (as_secs_f64 (elapsed now (sb_last_refill b))) (sb_refill_rate b)"
  have c: "c < 2 ^ 32" by (simp add: c_def unat_u32_lt [simplified])
  have t: "0 \<le> t" "t \<le> of_nat c" using assms by (auto simp: sb_inv_def c_def)
  have a: "nonneg_or_nan a"
    using assms(1) by (simp add: a_def sb_inv_def nonneg_fmul nonneg_as_secs)
  have n53: "n \<le> 2 ^ 53" if "of_nat n \<le> t" for n
  proof -
    have "(of_nat n :: rat) \<le> of_nat c" using that t(2) by linarith
    then show ?thesis using c by (simp only: of_nat_le_iff) simp
  qed
  have tok: "sb_tokens (sb_refill now b) = fmin (fadd (Fin t) a) (Fin (of_nat c))"
    by (simp add: sb_refill_def assms(2) a_def c_def f64_of_u32)
  show ?thesis
  proof (cases a)
    case (Fin r)
    have r: "0 \<le> r" using a Fin by simp
    from to_f64_nonneg [of "t + r"] t r consider "to_f64 (t + r) = Fin (rnd (t + r))" | "to_f64 (t + r) = PInf"
      by auto
    then show ?thesis
    proof cases
      case 1
      have "of_nat n \<le> rnd (t + r)" if "of_nat n \<le> t" for n
        using f64r.rnd_ge_nat [of n "t + r"] that n53 [OF that] r by linarith
      with 1 t r f64r.rnd_nonneg [of "t + r"] show ?thesis
        unfolding tok by (force simp: Fin fmin_def c_def [symmetric])
    next
      case 2
      with t show ?thesis
        unfolding tok by (fastforce simp: Fin fmin_def c_def [symmetric] intro: order.trans)
    qed
  qed (use a t in \<open>fastforce simp: tok fmin_def c_def [symmetric] intro: order.trans\<close>)+
qed

lemma sb_refill_fields [simp]:
  "sb_capacity (sb_refill now b) = sb_capacity b"
  "sb_refill_rate (sb_refill now b) = sb_refill_rate b"
  by (simp_all add: sb_refill_def)

lemma fsub_one:
  assumes "1 \<le> t" "t \<le> of_nat (unat (c :: u32))"
  shows "\<exists>t'. fsub (Fin t) (Fin 1) = Fin t' \<and> 0 \<le> t' \<and> t' \<le> of_nat (unat c)
           \<and> (\<forall>n. of_nat (Suc n) \<le> t \<longrightarrow> of_nat n \<le> t')"
proof -
  have c: "unat c \<le> 2 ^ 53" using unat_u32_lt [of c] by simp
  have "(of_nat (unat c) :: rat) \<le> of_nat (2 ^ 53)" using c by (rule of_nat_mono)
  then have "\<bar>t - 1\<bar> \<le> 2 ^ 64" using assms by simp
  then have f: "fsub (Fin t) (Fin 1) = Fin (rnd (t - 1))" by (simp add: fsub_def to_f64_Fin)
  have "of_nat n \<le> rnd (t - 1)" if "of_nat (Suc n) \<le> t" for n
  proof -
    have "(of_nat n :: rat) \<le> of_nat (unat c)" using that assms(2) by simp
    then have "n \<le> 2 ^ 53" using c by (simp only: of_nat_le_iff)
    then show ?thesis using f64r.rnd_ge_nat [of n "t - 1"] that by simp
  qed
  moreover have "rnd (t - 1) \<le> of_nat (unat c)"
    using f64r.rnd_le_nat [of "t - 1" "unat c"] assms c by simp
  ultimately show ?thesis using f f64r.rnd_nonneg [of "t - 1"] assms(1) by auto
qed

lemma sb_try_acquire_inv:
  assumes "sb_inv b"
  shows "sb_inv (snd (sb_try_acquire now b))"
proof -
  from assms obtain t where t: "sb_tokens b = Fin t" by (auto simp: sb_inv_def)
  from sb_refill_tokens [OF assms t, of now] obtain t' where
    t': "sb_tokens (sb_refill now b) = Fin t'" "0 \<le> t'" "t' \<le> of_nat (unat (sb_capacity b))" by blast
  show ?thesis
  proof (cases "1 \<le> t'")
    case True
    with fsub_one [OF True t'(3)] t' assms show ?thesis
      by (auto simp: sb_try_acquire_def Let_def sb_inv_def)
  qed (use t' assms in \<open>auto simp: sb_try_acquire_def Let_def sb_inv_def\<close>)
qed

lemma sb_try_acquire_fields [simp]:
  "sb_capacity (snd (sb_try_acquire now b)) = sb_capacity b"
  "sb_refill_rate (snd (sb_try_acquire now b)) = sb_refill_rate b"
  by (simp_all add: sb_try_acquire_def Let_def)

lemma sb_inv_new: "nonneg_or_nan rate \<Longrightarrow> sb_inv (SimpleTokenBucket_new now c rate)"
  using of_nat_0_le_iff [of "unat c", where 'a = rat]
  by (simp add: sb_inv_def SimpleTokenBucket_new_def f64_of_u32)


section \<open>Grants of one bucket\<close>

fun sb_run :: "instant list \<Rightarrow> SimpleTokenBucket \<Rightarrow> bool list \<times> SimpleTokenBucket" where
  "sb_run [] b = ([], b)"
| "sb_run (now # ts) b =
     (let (ok, b1) = sb_try_acquire now b; (oks, b2) = sb_run ts b1 in (ok # oks, b2))"

lemma sb_try_acquire_grants:
  assumes "sb_inv b" "sb_tokens b = Fin t" "of_nat (Suc n) \<le> t"
  shows "fst (sb_try_acquire now b)
       \<and> (\<exists>t'. sb_tokens (snd (sb_try_acquire now b)) = Fin t' \<and> of_nat n \<le> t')"
proof -
  from sb_refill_tokens [OF assms(1,2), of now] assms(3) obtain t' where
    t': "sb_tokens (sb_refill now b) = Fin t'" "t' \<le> of_nat (unat (sb_capacity b))"
      "of_nat (Suc n) \<le> t'" by blast
  have "(1 :: rat) \<le> of_nat (Suc n)" by simp
  with t'(3) have one: "1 \<le> t'" by linarith
  with fsub_one [OF one t'(2)] t' show ?thesis
    by (auto simp: sb_try_acquire_def Let_def)
qed

lemma sb_run_grants:
  "sb_inv b \<Longrightarrow> sb_tokens b = Fin t \<Longrightarrow> of_nat (length ts) \<le> t \<Longrightarrow>
     fst (sb_run ts b) = replicate (length ts) True"
proof (induction ts arbitrary: b t)
  case (Cons now ts)
  from sb_try_acquire_grants [OF Cons.prems(1,2), of "length ts" now] Cons.prems(3)
  obtain t' where t': "fst (sb_try_acquire now b)"
      "sb_tokens (snd (sb_try_acquire now b)) = Fin t'" "of_nat (length ts) \<le> t'" by auto
  with Cons.IH [OF sb_try_acquire_inv [OF Cons.prems(1)] t'(2,3)] show ?case
    by (simp add: case_prod_unfold Let_def)
qed simp

lemma sb_zero_rate:
  assumes "sb_refill_rate b = Fin 0" "sb_tokens b = Fin (of_nat n)" "n \<le> unat (sb_capacity b)"
    and "now < 2 ^ 64"
  shows "sb_try_acquire now b =
    (0 < n, b\<lparr>sb_tokens := Fin (of_nat (n - 1)), sb_last_refill := now\<rparr>)"
proof -
  have n: "n \<le> 2 ^ 53" using assms(3) unat_u32_lt [of "sb_capacity b"] by simp
  obtain s where s: "as_secs_f64 (elapsed now (sb_last_refill b)) = Fin s"
    using as_secs_u64_bounds [OF order.strict_trans1 [OF diff_le_self assms(4)]]
    unfolding elapsed_def by blast
  have nn: "f64_of_nat n = Fin (of_nat n)" using n by (rule f64_of_nat_small)
  then have nf: "to_f64 (of_nat n) = Fin (of_nat n)" by (simp add: f64_of_nat_def)
  have "(of_nat n :: rat) \<le> of_nat (unat (sb_capacity b))" using assms(3) by (rule of_nat_mono)
  then have r: "sb_refill now b = b\<lparr>sb_tokens := Fin (of_nat n), sb_last_refill := now\<rparr>"
    using s nf by (simp add: sb_refill_def assms(1,2) f64_of_u32 to_f64_Fin f64r.rnd_zero fmin_def)
  have "f64_of_nat (n - 1) = Fin (of_nat (n - 1))" using n by (intro f64_of_nat_small) simp
  then have "fsub (Fin (of_nat n)) (Fin 1) = Fin (of_nat (n - 1))" if "0 < n"
    using that by (simp add: fsub_def f64_of_nat_def of_nat_diff)
  with r show ?thesis by (auto simp: sb_try_acquire_def Let_def)
qed


section \<open>Runs of the two-layer limiter\<close>

datatype api_op = ApiAcquire instant string | ApiEvict instant duration

fun api_step :: "api_op \<Rightarrow> ApiRateLimiter \<Rightarrow> ApiRateLimiter may_panic" where
  "api_step (ApiAcquire now tenant) l = Some (snd (acquire_api_token now tenant l))"
| "api_step (ApiEvict now max_age) l = Some (snd (evict_stale_tenants now max_age l))"

definition tenant_ok :: "ApiRateLimiter \<Rightarrow> TenantBucket \<Rightarrow> bool" where
  "tenant_ok l t \<longleftrightarrow> sb_inv (tn_bucket t) \<and> sb_capacity (tn_bucket t) = tenant_capacity l
     \<and> sb_refill_rate (tn_bucket t) = tenant_refill_rate l"

definition api_inv :: "ApiRateLimiter \<Rightarrow> bool" where
  "api_inv l \<longleftrightarrow> hm_inv (tenant_buckets l) \<and> hm_len (tenant_buckets l) \<le> max_tenants l
     \<and> sb_inv (global_bucket l) \<and> nonneg_or_nan (tenant_refill_rate l)
     \<and> (\<forall>k t. hm_get (tenant_buckets l) k = Some t \<longrightarrow> tenant_ok l t)"

definition room_for :: "string \<Rightarrow> ApiRateLimiter \<Rightarrow> bool" where
  "room_for tenant l \<longleftrightarrow>
     hm_get (tenant_buckets l) tenant \<noteq> None \<or> hm_len (tenant_buckets l) < max_tenants l"

abbreviation tenant_try :: "instant \<Rightarrow> string \<Rightarrow> ApiRateLimiter \<Rightarrow> bool \<times> SimpleTokenBucket" where
  "tenant_try now tenant l \<equiv> sb_try_acquire now (tn_bucket (tenant_entry now tenant l))"

abbreviation global_try :: "instant \<Rightarrow> ApiRateLimiter \<Rightarrow> bool \<times> SimpleTokenBucket" where
  "global_try now l \<equiv> sb_try_acquire now (global_bucket l)"

lemma acquire_eq:
  "acquire_api_token now tenant l =
     (if \<not> room_for tenant l then (Inl (GlobalRateLimitExceeded (tenant_capacity l) 0), l)
      else let l1 = l\<lparr>tenant_buckets := hm_insert tenant
                 \<lparr>tn_bucket = snd (tenant_try now tenant l), tn_last_accessed = now\<rparr> (tenant_buckets l)\<rparr>
           in if \<not> fst (tenant_try now tenant l)
              then (Inl (TenantQuotaExceeded tenant (tenant_capacity l) (tenant_refill_rate l)), l1)
              else (if fst (global_try now l) then Inr ()
                    else Inl (GlobalRateLimitExceeded (tenant_capacity l) (sb_available (snd (global_try now l)))),
                    l1\<lparr>global_bucket := snd (global_try now l)\<rparr>))"
proof -
  have u: "t\<lparr>tn_last_accessed := now, tn_bucket := b\<rparr> = \<lparr>tn_bucket = b, tn_last_accessed = now\<rparr>" for t :: TenantBucket and b
    by simp
  have r: "hm_get (tenant_buckets l) tenant = None \<and> max_tenants l \<le> hm_len (tenant_buckets l) \<longleftrightarrow>
      \<not> room_for tenant l"
    by (auto simp: room_for_def)
  show ?thesis by (simp add: acquire_api_token_def r u case_prod_unfold Let_def)
qed

lemma acquire_Ok_iff:
  "fst (acquire_api_token now tenant l) = Inr () \<longleftrightarrow>
     room_for tenant l \<and> fst (tenant_try now tenant l) \<and> fst (global_try now l)"
  by (simp add: acquire_eq Let_def)

lemma acquire_fields [simp]:
  "tenant_capacity (snd (acquire_api_token now tenant l)) = tenant_capacity l"
  "tenant_refill_rate (snd (acquire_api_token now tenant l)) = tenant_refill_rate l"
  "max_tenants (snd (acquire_api_token now tenant l)) = max_tenants l"
  by (simp_all add: acquire_eq Let_def)

lemma acquire_get:
  "hm_get (tenant_buckets (snd (acquire_api_token now tenant l))) k =
     (if room_for tenant l \<and> k = tenant
      then Some \<lparr>tn_bucket = snd (tenant_try now tenant l), tn_last_accessed = now\<rparr>
      else hm_get (tenant_buckets l) k)"
  by (simp add: acquire_eq Let_def hm.get_insert)

lemma tenant_entry_ok: "api_inv l \<Longrightarrow> tenant_ok l (tenant_entry now tenant l)"
  by (auto simp: api_inv_def tenant_entry_def tenant_ok_def sb_inv_new split: option.split)
    (simp_all add: SimpleTokenBucket_new_def)

lemma api_inv_acquire:
  assumes "api_inv l"
  shows "api_inv (snd (acquire_api_token now tenant l))"
proof -
  have e: "tenant_ok l \<lparr>tn_bucket = snd (tenant_try now tenant l), tn_last_accessed = now\<rparr>"
    using tenant_entry_ok [OF assms, of now tenant] by (simp add: tenant_ok_def sb_try_acquire_inv)
  show ?thesis
    using assms e
    by (auto simp: acquire_eq Let_def api_inv_def room_for_def tenant_ok_def hm.inv_insert hm.len_insert
        hm.get_insert sb_try_acquire_inv)
qed

lemma api_inv_evict: "api_inv l \<Longrightarrow> api_inv (snd (evict_stale_tenants now max_age l))"
  using hm_len_retain [of "\<lambda>_ t. elapsed now (tn_last_accessed t) < max_age" "tenant_buckets l"]
  by (auto simp: api_inv_def evict_stale_tenants_def Let_def hm_inv_retain hm_get_retain tenant_ok_def
      split: option.splits if_splits)

interpretation apim: total_machine api_step api_inv
proof
  fix s t x
  assume "api_inv s" "api_step x s = Some t"
  then show "api_inv t" by (cases x) (auto simp: api_inv_acquire api_inv_evict)
next
  fix s x
  show "api_step x s \<noteq> None" by (cases x) simp_all
qed

lemma api_inv_new: "nonneg_or_nan gr \<Longrightarrow> nonneg_or_nan tr \<Longrightarrow> api_inv (ApiRateLimiter_new now gc gr tc tr mt)"
  by (simp add: api_inv_def ApiRateLimiter_new_def hm.inv_empty hm.get_empty hm_len_def sb_inv_new)

fun api_run ::
  "(instant \<times> string) list \<Rightarrow> ApiRateLimiter \<Rightarrow> (NetworkError, unit) rresult list \<times> ApiRateLimiter" where
  "api_run [] l = ([], l)"
| "api_run ((now, tenant) # cs) l =
     (let (r, l1) = acquire_api_token now tenant l; (rs, l2) = api_run cs l1 in (r # rs, l2))"

definition granted_to :: "string \<Rightarrow> (instant \<times> string) list \<Rightarrow> (NetworkError, unit) rresult list \<Rightarrow> nat" where
  "granted_to a cs rs = length (filter (\<lambda>(c, r). snd c = a \<and> r = Inr ()) (zip cs rs))"

text \<open>With a zero refill rate the tokens left in a tenant's bucket bound its further grants.\<close>

definition tokens_left :: "string \<Rightarrow> ApiRateLimiter \<Rightarrow> nat \<Rightarrow> bool" where
  "tokens_left a l n \<longleftrightarrow> n \<le> unat (tenant_capacity l)
     \<and> (case hm_get (tenant_buckets l) a of
          None \<Rightarrow> n = unat (tenant_capacity l)
        | Some t \<Rightarrow> sb_tokens (tn_bucket t) = Fin (of_nat n))"

lemma acquire_tokens_left:
  assumes "api_inv l" "tenant_refill_rate l = Fin 0" "now < 2 ^ 64" "tokens_left a l n"
  shows "\<exists>n'. tokens_left a (snd (acquire_api_token now tenant l)) n'
       \<and> (if tenant = a \<and> fst (acquire_api_token now tenant l) = Inr () then Suc n' = n else n' \<le> n)"
proof (cases "room_for tenant l \<and> tenant = a")
  case True
  let ?b = "tn_bucket (tenant_entry now a l)"
  have b: "sb_refill_rate ?b = Fin 0" "sb_capacity ?b = tenant_capacity l"
    using tenant_entry_ok [OF assms(1), of now a] assms(2) by (simp_all add: tenant_ok_def)
  have t: "sb_tokens ?b = Fin (of_nat n)"
    using assms(4) by (auto simp: tokens_left_def tenant_entry_def SimpleTokenBucket_new_def f64_of_u32
        simp del: of_nat_unat split: option.splits)
  have n: "n \<le> unat (tenant_capacity l)" using assms(4) by (simp add: tokens_left_def)
  note z = sb_zero_rate [OF b(1) t _ assms(3), unfolded b(2), OF n]
  have "tokens_left a (snd (acquire_api_token now tenant l)) (n - 1)"
    using conjunct1 [OF True] conjunct2 [OF True] n by (simp add: tokens_left_def acquire_get z le_diff_conv)
  moreover have "0 < n" if "fst (acquire_api_token now tenant l) = Inr ()"
    using that True by (simp add: acquire_Ok_iff z)
  ultimately show ?thesis using True by (intro exI [of _ "n - 1"]) auto
next
  case False
  then have "tokens_left a (snd (acquire_api_token now tenant l)) n"
    using assms(4) by (auto simp: tokens_left_def acquire_get split: option.split)
  moreover have "\<not> (tenant = a \<and> fst (acquire_api_token now tenant l) = Inr ())"
    using False by (auto simp: acquire_Ok_iff)
  ultimately show ?thesis by auto
qed

lemma api_run_quota:
  "api_inv l \<Longrightarrow> tenant_refill_rate l = Fin 0 \<Longrightarrow> \<forall>c \<in> set cs. fst c < 2 ^ 64 \<Longrightarrow> tokens_left a l n \<Longrightarrow>
     granted_to a cs (fst (api_run cs l)) \<le> n"
proof (induction cs arbitrary: l n)
  case (Cons c cs)
  obtain now tenant where c: "c = (now, tenant)" by (cases c)
  let ?l = "snd (acquire_api_token now tenant l)" and ?r = "fst (acquire_api_token now tenant l)"
  have "now < 2 ^ 64" using Cons.prems(3) c by simp
  from acquire_tokens_left [OF Cons.prems(1,2) this Cons.prems(4), of tenant] obtain n' where
    n': "tokens_left a ?l n'" "if tenant = a \<and> ?r = Inr () then Suc n' = n else n' \<le> n" by blast
  have "granted_to a cs (fst (api_run cs ?l)) \<le> n'"
    using Cons.prems n'(1) by (intro Cons.IH) (simp_all add: api_inv_acquire)
  moreover have "granted_to a (c # cs) (fst (api_run (c # cs) l)) =
      (if tenant = a \<and> ?r = Inr () then 1 else 0) + granted_to a cs (fst (api_run cs ?l))"
    by (auto simp add: c granted_to_def case_prod_unfold Let_def)
  ultimately show ?case using n'(2) by (auto split: if_splits)
qed (simp add: granted_to_def)


section \<open>Runs of the provider bucket\<close>

fun tb_run :: "instant list \<Rightarrow> TokenBucket \<Rightarrow> (bool list \<times> TokenBucket) may_panic" where
  "tb_run [] b = Some ([], b)"
| "tb_run (now # ts) b =
     (case try_acquire now b of
        None \<Rightarrow> None
      | Some (r, b1) \<Rightarrow>
          (case tb_run ts b1 of None \<Rightarrow> None | Some (rs, b2) \<Rightarrow> Some (is_ok r # rs, b2)))"

fun refill_sum :: "f64 \<Rightarrow> instant \<Rightarrow> instant list \<Rightarrow> nat" where
  "refill_sum rate prev [] = 0"
| "refill_sum rate prev (now # ts) =
     unat (tokens_to_add rate (elapsed now prev)) + refill_sum rate now ts"

lemma refill_tokens_bound:
  assumes "refill_tokens now b = Some b1"
  shows "unat (tb_tokens b1) \<le> unat (tb_tokens b) +
           unat (tokens_to_add (refill_rate_per_sec (tb_config b)) (elapsed now (tb_last_refill b)))"
    "tb_config b1 = tb_config b" "tb_max_tokens b1 = tb_max_tokens b" "tb_last_refill b1 = now"
    "tb_tokens b \<le> tb_max_tokens b \<Longrightarrow> tb_tokens b1 \<le> tb_max_tokens b"
  using assms
  by (auto simp: refill_tokens_def Let_def checked_add_Some_iff word_le_nat_alt min_def
      split: if_splits option.splits)

lemma checked_sub_le: "b \<le> a \<Longrightarrow> checked_sub a b = Some (a - b)"
  by (simp add: checked_sub_def)

lemma try_acquire_cases:
  assumes "try_acquire now b = Some (r, b2)"
  shows "\<exists>b1. refill_tokens now b = Some b1 \<and> tb_config b2 = tb_config b \<and> tb_last_refill b2 = now
       \<and> tb_max_tokens b2 = tb_max_tokens b
       \<and> (if is_ok r then unat (tb_tokens b2) + unat (cost_per_request (tb_config b)) = unat (tb_tokens b1)
          else tb_tokens b2 = tb_tokens b1 \<and> tb_tokens b1 < cost_per_request (tb_config b))"
proof -
  from assms obtain b1 where b1: "refill_tokens now b = Some b1"
    by (auto simp: try_acquire_def split: option.splits)
  note f = refill_tokens_bound [OF b1]
  show ?thesis
    using assms b1 f(2-4)
    by (auto simp: try_acquire_def checked_sub_def unat_sub word_le_nat_alt not_less
        split: if_splits option.splits)
qed

lemma tb_run_conservation:
  "tb_run ts b = Some (oks, b2) \<Longrightarrow>
     unat (tb_tokens b2) + length (filter id oks) * unat (cost_per_request (tb_config b))
       \<le> unat (tb_tokens b) + refill_sum (refill_rate_per_sec (tb_config b)) (tb_last_refill b) ts"
proof (induction ts arbitrary: b oks)
  case (Cons now ts)
  from Cons.prems obtain r b1 rs where a: "try_acquire now b = Some (r, b1)"
      "tb_run ts b1 = Some (rs, b2)" "oks = is_ok r # rs" by (auto split: option.splits)
  from try_acquire_cases [OF a(1)] obtain b0 where b0: "refill_tokens now b = Some b0"
      "tb_config b1 = tb_config b" "tb_last_refill b1 = now"
      "if is_ok r then unat (tb_tokens b1) + unat (cost_per_request (tb_config b)) = unat (tb_tokens b0)
       else tb_tokens b1 = tb_tokens b0" by (auto split: if_splits)
  from Cons.IH [OF a(2)] refill_tokens_bound(1) [OF b0(1)] b0(2-4) a(3) show ?case
    by (auto split: if_splits)
qed simp

text \<open>At a rate of at most one token per second, a gap below one second adds nothing.\<close>

lemma tokens_to_add_short_gap:
  assumes "0 \<le> r" "r \<le> 1" "d < 1000000000"
  shows "tokens_to_add (Fin r) d = 0"
proof -
  obtain s where s: "as_secs_f64 d = Fin s" "0 \<le> s" "s \<le> 1 - 1 / 2 ^ 53"
    using as_secs_below_one [OF assms(3)] by blast
  have p: "0 \<le> s * r" "s * r \<le> 1 - 1 / 2 ^ 53"
    using s assms mult_left_le [of r s] by (auto intro: order.trans)
  have one: "(1 :: rat) - 1 / 2 ^ 53 < 1" by simp
  have le: "rnd (s * r) \<le> 1 - 1 / 2 ^ 53" using rnd_mono [OF p(2)] rnd_below_one by simp
  then have lt: "rnd (s * r) < 1" using one by (rule le_less_trans)
  have ge: "0 \<le> rnd (s * r)" using p(1) by (rule f64r.rnd_nonneg)
  from lt ge have "\<lfloor>rnd (s * r)\<rfloor> = 0" by (simp add: floor_eq_iff)
  moreover have "\<bar>s * r\<bar> \<le> 2 ^ 64" using p one by (simp only: abs_of_nonneg) (rule order.trans, assumption, simp)
  ultimately show ?thesis by (simp add: tokens_to_add_def s(1) to_f64_Fin)
qed

fun short_gaps :: "instant \<Rightarrow> instant list \<Rightarrow> bool" where
  "short_gaps prev [] = True"
| "short_gaps prev (now # ts) = (elapsed now prev < 1000000000 \<and> short_gaps now ts)"

lemma try_acquire_starved:
  assumes "refill_rate_per_sec (tb_config b) = Fin r" "0 \<le> r" "r \<le> 1"
    and "elapsed now (tb_last_refill b) < 1000000000" "tb_tokens b < cost_per_request (tb_config b)"
  shows "\<exists>e b1. try_acquire now b = Some (Inl e, b1) \<and> tb_tokens b1 = tb_tokens b
           \<and> tb_config b1 = tb_config b \<and> tb_last_refill b1 = now"
proof -
  have "refill_tokens now b = Some (b\<lparr>tb_last_refill := now\<rparr>)"
    using tokens_to_add_short_gap [OF assms(2-4)] by (simp add: refill_tokens_def Let_def assms(1))
  with assms(5) show ?thesis
    by (auto simp: try_acquire_def estimate_retry_after_def checked_sub_def not_le)
qed


section \<open>Properties\<close>

text \<open>
  admission through both layers. A call succeeds exactly when the tenant is known or there
  is room to track it, the tenant's bucket has a token and the global bucket has a token; and
  whatever the outcome, no other tenant's bucket changes.
\<close>

theorem api_admission:
  "(fst (acquire_api_token now a l) = Inr () \<longleftrightarrow>
      room_for a l \<and> fst (sb_try_acquire now (tn_bucket (tenant_entry now a l)))
      \<and> fst (sb_try_acquire now (global_bucket l)))
   \<and> (b = a \<or> hm_get (tenant_buckets (snd (acquire_api_token now a l))) b = hm_get (tenant_buckets l) b)"
  by (simp add: acquire_Ok_iff acquire_get)





text \<open>
  A full bucket is never refused. A fresh bucket of capacity \<open>c\<close> and any rate that is
  not negative grants the first \<open>c\<close> requests, at whatever times they come, rounding of
  the refills included.
\<close>

theorem bucket_grants_capacity:
  assumes "nonneg_or_nan rate" "length ts \<le> unat c"
  shows "fst (sb_run ts (SimpleTokenBucket_new now c rate)) = replicate (length ts) True"
proof (rule sb_run_grants [OF sb_inv_new [OF assms(1)]])
  show "sb_tokens (SimpleTokenBucket_new now c rate) = Fin (of_nat (unat c))"
    unfolding SimpleTokenBucket_new_def by (simp only: SimpleTokenBucket.select_convs f64_of_u32)
  show "(of_nat (length ts) :: rat) \<le> of_nat (unat c)" using assms(2) by (rule of_nat_mono)
qed

theorem bucket_grants_capacity_witness:
  "fst (sb_run [3, 1, 7] (SimpleTokenBucket_new 0 3 (Fin (1 / 3)))) = [True, True, True]"
proof -
  have "fst (sb_run [3, 1, 7] (SimpleTokenBucket_new 0 3 (Fin (1 / 3)))) = replicate (length [3, 1, 7 :: nat]) True"
    by (rule bucket_grants_capacity) simp_all
  also have "\<dots> = [True, True, True]" by simp
  finally show ?thesis .
qed

text \<open>
  A rejection by the second layer still costs the tenant a token. When the tenant's bucket
  grants the request and the global bucket refuses it, the call fails with the tenant capacity
  as the reported capacity, and the tenant's bucket has one token less than after its refill.
\<close>

theorem layer2_rejection_consumes_tenant_token:
  assumes "room_for a l" "fst (sb_try_acquire now (tn_bucket (tenant_entry now a l)))"
    and "\<not> fst (sb_try_acquire now (global_bucket l))"
  shows "\<exists>av t. fst (acquire_api_token now a l) = Inl (GlobalRateLimitExceeded (tenant_capacity l) av)
       \<and> hm_get (tenant_buckets (snd (acquire_api_token now a l))) a = Some t
       \<and> sb_tokens (tn_bucket t) = fsub (sb_tokens (sb_refill now (tn_bucket (tenant_entry now a l)))) (Fin 1)"
proof -
  let ?b = "tn_bucket (tenant_entry now a l)"
  have "sb_tokens (snd (sb_try_acquire now ?b)) = fsub (sb_tokens (sb_refill now ?b)) (Fin 1)"
    using assms(2) by (auto simp: sb_try_acquire_def Let_def split: if_splits)
  with assms show ?thesis by (simp add: acquire_get) (simp add: acquire_eq Let_def)
qed

lemma sb_zero_rate_new:
  "now < 2 ^ 64 \<Longrightarrow> fst (sb_try_acquire now (SimpleTokenBucket_new 0 c (Fin 0))) = (0 < unat c)"
  using sb_zero_rate [of "SimpleTokenBucket_new 0 c (Fin 0)" "unat c" now]
  by (simp add: SimpleTokenBucket_new_def f64_of_u32 del: of_nat_unat)

theorem layer2_rejection_consumes_tenant_token_witness:
  "\<exists>av t. fst (acquire_api_token 0 ''a'' (ApiRateLimiter_new 0 0 (Fin 0) 5 (Fin 0) 1)) =
       Inl (GlobalRateLimitExceeded 5 av)
     \<and> hm_get (tenant_buckets (snd (acquire_api_token 0 ''a'' (ApiRateLimiter_new 0 0 (Fin 0) 5 (Fin 0) 1)))) ''a'' = Some t"
proof -
  let ?l = "ApiRateLimiter_new 0 0 (Fin 0) 5 (Fin 0) 1"
  have e: "tn_bucket (tenant_entry 0 ''a'' ?l) = SimpleTokenBucket_new 0 5 (Fin 0)"
    "global_bucket ?l = SimpleTokenBucket_new 0 0 (Fin 0)" "tenant_capacity ?l = 5" "room_for ''a'' ?l"
    by (simp_all add: ApiRateLimiter_new_def tenant_entry_def hm.get_empty room_for_def hm_len_def)
  show ?thesis
    using layer2_rejection_consumes_tenant_token [OF e(4), of 0]
    unfolding e(1-3) by (auto simp: sb_zero_rate_new)
qed

text \<open>
  a provider bucket conserves tokens. Over any sequence of calls that does not panic, the
  cost of the granted calls plus the tokens left is at most the initial tokens plus the tokens
  that the elapsed times add.
\<close>

theorem bucket_conservation:
  assumes "tb_run ts b = Some (oks, b2)"
  shows "unat (tb_tokens b2) + length (filter id oks) * unat (cost_per_request (tb_config b))
       \<le> unat (tb_tokens b) + refill_sum (refill_rate_per_sec (tb_config b)) (tb_last_refill b) ts"
  using assms by (rule tb_run_conservation)

lemma tb_run_full:
  "tb_run [0] (TokenBucket_new 0 ''g'' presets_GEMINI) =
     Some ([True], (TokenBucket_new 0 ''g'' presets_GEMINI)\<lparr>tb_tokens := 59\<rparr>)"
  using tokens_to_add_short_gap [of 1 0]
  by (simp add: try_acquire_def refill_tokens_def Let_def TokenBucket_new_def presets_GEMINI_def elapsed_def
      checked_sub_def)

theorem bucket_conservation_witness:
  "\<exists>oks b2. tb_run [0] (TokenBucket_new 0 ''g'' presets_GEMINI) = Some (oks, b2)
     \<and> unat (tb_tokens b2) + length (filter id oks) \<le> 60"
  using bucket_conservation [OF tb_run_full] tb_run_full tokens_to_add_short_gap [of 1 0]
  by (auto simp: TokenBucket_new_def presets_GEMINI_def elapsed_def)

text \<open>
  Frequent polling starves a provider. Every call advances the refill clock and drops the
  fraction of a token, so at a rate of at most one token per second (both presets) an exhausted
  bucket that is asked at least once per second is never refilled: however long the sequence
  of calls, every one of them is rejected.
\<close>

theorem polling_starves_bucket:
  assumes "refill_rate_per_sec (tb_config b) = Fin r" "0 \<le> r" "r \<le> 1"
    and "short_gaps (tb_last_refill b) ts" "tb_tokens b < cost_per_request (tb_config b)"
  shows "\<exists>b2. tb_run ts b = Some (replicate (length ts) False, b2) \<and> tb_tokens b2 = tb_tokens b"
  using assms
proof (induction ts arbitrary: b)
  case (Cons now ts)
  from try_acquire_starved [OF Cons.prems(1-3) _ Cons.prems(5), of now] Cons.prems(4)
  obtain e b1 where b1: "try_acquire now b = Some (Inl e, b1)" "tb_tokens b1 = tb_tokens b"
      "tb_config b1 = tb_config b" "tb_last_refill b1 = now" by auto
  from Cons.IH [of b1] Cons.prems b1 show ?case by auto
qed simp

theorem polling_starves_bucket_witness:
  "\<exists>b2. tb_run [900000000, 1800000000, 2700000000]
      ((TokenBucket_new 0 ''g'' presets_GEMINI)\<lparr>tb_tokens := 0\<rparr>) = Some ([False, False, False], b2)"
  using polling_starves_bucket [of "(TokenBucket_new 0 ''g'' presets_GEMINI)\<lparr>tb_tokens := 0\<rparr>" 1
      "[900000000, 1800000000, 2700000000]"]
  by (auto simp: TokenBucket_new_def presets_GEMINI_def elapsed_def numeral_3_eq_3)

end
