(* ===== verification/FinOps.thy ===== *)
theory FinOps
  imports Prelude
begin

text \<open>
  The token budget of \<open>crates/traffic-control/src/rate_limiter.rs\<close>
  (\<open>FinOpsBudgetManager\<close>, its refund script and \<open>FinOpsRefundGuard\<close>).

  Redis is a service: its commands are the fields of the record \<open>redis\<close> over a type of
  server states, and \<open>redis_docs\<close> names what the scripts rely on (before the idempotency
  key expires). A call meets one of three fates: the server replies, the client gets an error,
  or the client times out, in the last two cases with or without the script having run.
\<close>

section \<open>The store\<close>

record 's redis =
  r_exists :: "string \<Rightarrow> 's \<Rightarrow> bool"
  r_get :: "string \<Rightarrow> 's \<Rightarrow> int"
  r_incrby :: "string \<Rightarrow> int \<Rightarrow> 's \<Rightarrow> 's"
  r_set_ex :: "string \<Rightarrow> string \<Rightarrow> int \<Rightarrow> 's \<Rightarrow> 's"
  r_getset :: "string \<Rightarrow> int \<Rightarrow> 's \<Rightarrow> int \<times> 's"

definition redis_docs :: "'s redis \<Rightarrow> bool" where
  "redis_docs rd \<longleftrightarrow>
     (\<forall>k n s j. r_get rd j (r_incrby rd k n s) = (if j = k then r_get rd k s + n else r_get rd j s))
   \<and> (\<forall>k n s j. j \<noteq> k \<longrightarrow> r_exists rd j (r_incrby rd k n s) = r_exists rd j s)
   \<and> (\<forall>k v t s j. j \<noteq> k \<longrightarrow> r_get rd j (r_set_ex rd k v t s) = r_get rd j s)
   \<and> (\<forall>k v t s j. r_exists rd j (r_set_ex rd k v t s) = (j = k \<or> r_exists rd j s))"

datatype fate = Replied | Failed bool | TimedOut bool

fun ran :: "fate \<Rightarrow> bool" where
  "ran Replied = True"
| "ran (Failed b) = b"
| "ran (TimedOut b) = b"

section \<open>Data\<close>

datatype BudgetDeductionResult = DeductSuccess int | InsufficientFunds int int

datatype BudgetRefundResult = RefundSuccess int | AlreadyRefunded | RefundStoreInaccessible

datatype FinOpsError = UnexpectedScriptResult int | RedisError string | StateStoreInaccessible

definition FINOPS_KEY_PREFIX :: string where
  "FINOPS_KEY_PREFIX = ''serein:finops:budget''"

definition balance_key :: "string \<Rightarrow> string" where
  "balance_key tenant = FINOPS_KEY_PREFIX @ '':'' @ tenant"

definition idempotency_key :: "string \<Rightarrow> string" where
  "idempotency_key request = ''serein:finops:refund:'' @ request"

section \<open>Operations\<close>

text \<open>
  \<open>deduct_tokens\<close> returns before it builds a key; the rest of its body is unreachable.
\<close>

definition deduct_tokens ::
  "'s redis \<Rightarrow> string \<Rightarrow> int \<Rightarrow> 's \<Rightarrow> (FinOpsError, BudgetDeductionResult) rresult \<times> 's" where
  "deduct_tokens rd tenant estimated_cost s = (Inr (DeductSuccess (- 1)), s)"

definition FINOPS_REFUND_LUA ::
  "'s redis \<Rightarrow> string \<Rightarrow> string \<Rightarrow> int \<Rightarrow> int \<Rightarrow> 's \<Rightarrow> int \<times> 's" where
  "FINOPS_REFUND_LUA rd bal idem amount ttl s =
     (if r_exists rd idem s then (0, s)
      else let s1 = r_incrby rd bal amount s
           in (r_get rd bal s1, r_set_ex rd idem ''1'' ttl s1))"

definition refund_tokens ::
  "'s redis \<Rightarrow> fate \<Rightarrow> string \<Rightarrow> int \<Rightarrow> string \<Rightarrow> 's \<Rightarrow> BudgetRefundResult \<times> 's" where
  "refund_tokens rd f tenant amount request s =
     (if amount \<le> 0 then (RefundSuccess (- 1), s)
      else
        let (n, s1) = FINOPS_REFUND_LUA rd (balance_key tenant) (idempotency_key request) amount 86400 s;
            s2 = (if ran f then s1 else s)
        in case f of
             Replied \<Rightarrow> (if n = 0 then AlreadyRefunded else RefundSuccess n, s2)
           | Failed _ \<Rightarrow> (RefundStoreInaccessible, s2)
           | TimedOut _ \<Rightarrow> (RefundStoreInaccessible, s2))"

definition set_budget :: "'s redis \<Rightarrow> fate \<Rightarrow> string \<Rightarrow> int \<Rightarrow> 's \<Rightarrow> int \<times> 's" where
  "set_budget rd f tenant budget s =
     (let (prev, s1) = r_getset rd (balance_key tenant) budget s; s2 = (if ran f then s1 else s)
      in case f of Replied \<Rightarrow> (prev, s2) | _ \<Rightarrow> (- 1, s2))"

definition get_balance :: "'s redis \<Rightarrow> fate \<Rightarrow> string \<Rightarrow> 's \<Rightarrow> int option" where
  "get_balance rd f tenant s =
     (case f of Replied \<Rightarrow> Some (r_get rd (balance_key tenant) s) | _ \<Rightarrow> None)"

text \<open>The guard refunds one token when it is dropped without having been consumed.\<close>

record FinOpsRefundGuard =
  rg_tenant_id :: string
  rg_request_id :: string
  rg_consumed :: bool

definition FinOpsRefundGuard_new :: "string \<Rightarrow> string \<Rightarrow> FinOpsRefundGuard" where
  "FinOpsRefundGuard_new tenant request =
     \<lparr>rg_tenant_id = tenant, rg_request_id = request, rg_consumed = False\<rparr>"

definition rg_consume :: "FinOpsRefundGuard \<Rightarrow> FinOpsRefundGuard" where
  "rg_consume g = g\<lparr>rg_consumed := True\<rparr>"

definition rg_drop :: "'s redis \<Rightarrow> fate \<Rightarrow> FinOpsRefundGuard \<Rightarrow> 's \<Rightarrow> 's" where
  "rg_drop rd f g s =
     (if \<not> rg_consumed g then snd (refund_tokens rd f (rg_tenant_id g) 1 (rg_request_id g) s) else s)"

section \<open>Refunds\<close>

lemma keys_differ: "balance_key t \<noteq> idempotency_key r"
  by (simp add: balance_key_def idempotency_key_def FINOPS_KEY_PREFIX_def)

lemma refund_tokens_effect:
  fixes rd :: "'s redis" and f :: fate and t r :: string and s :: 's
  assumes "redis_docs rd" "0 < amount"
  defines "s' \<equiv> snd (refund_tokens rd f t amount r s)"
  shows "r_get rd (balance_key t) s' = r_get rd (balance_key t) s +
           (if ran f \<and> \<not> r_exists rd (idempotency_key r) s then amount else 0)"
    and "r_exists rd (idempotency_key r) s' \<longleftrightarrow> ran f \<or> r_exists rd (idempotency_key r) s"
    and "t' \<noteq> t \<Longrightarrow> r_get rd (balance_key t') s' = r_get rd (balance_key t') s"
proof -
  have b: "balance_key t' = balance_key t \<longleftrightarrow> t' = t" for t'
    by (simp add: balance_key_def)
  note d = assms(1) [unfolded redis_docs_def]
  show "r_get rd (balance_key t) s' = r_get rd (balance_key t) s +
           (if ran f \<and> \<not> r_exists rd (idempotency_key r) s then amount else 0)"
    using assms(2) d keys_differ [of t r]
    by (cases f) (auto simp: s'_def refund_tokens_def FINOPS_REFUND_LUA_def Let_def)
  show "r_exists rd (idempotency_key r) s' \<longleftrightarrow> ran f \<or> r_exists rd (idempotency_key r) s"
    using assms(2) d keys_differ [of t r]
    by (cases f) (auto simp: s'_def refund_tokens_def FINOPS_REFUND_LUA_def Let_def)
  show "r_get rd (balance_key t') s' = r_get rd (balance_key t') s" if "t' \<noteq> t"
    using that assms(2) d keys_differ [of t' r] b
    by (cases f) (auto simp: s'_def refund_tokens_def FINOPS_REFUND_LUA_def Let_def)
qed

fun refund_all :: "'s redis \<Rightarrow> fate list \<Rightarrow> string \<Rightarrow> int \<Rightarrow> string \<Rightarrow> 's \<Rightarrow> 's" where
  "refund_all rd [] t n r s = s"
| "refund_all rd (f # fs) t n r s = refund_all rd fs t n r (snd (refund_tokens rd f t n r s))"

lemma refund_all_effect:
  assumes "redis_docs rd" "0 < n"
  shows "r_get rd (balance_key t) (refund_all rd fs t n r s) = r_get rd (balance_key t) s +
           (if (\<exists>f \<in> set fs. ran f) \<and> \<not> r_exists rd (idempotency_key r) s then n else 0)"
proof (induction fs arbitrary: s)
  case (Cons f fs)
  show ?case
    using Cons.IH [of "snd (refund_tokens rd f t n r s)"] refund_tokens_effect [OF assms, where t = t and f = f and r = r and s = s]
    by (cases "ran f") auto
qed simp

section \<open>A concrete store\<close>

definition map_redis :: "(string \<Rightarrow> int option) redis" where
  "map_redis =
     \<lparr>r_exists = (\<lambda>k s. s k \<noteq> None),
      r_get = (\<lambda>k s. case s k of None \<Rightarrow> 0 | Some n \<Rightarrow> n),
      r_incrby = (\<lambda>k n s. s(k \<mapsto> (case s k of None \<Rightarrow> 0 | Some m \<Rightarrow> m) + n)),
      r_set_ex = (\<lambda>k v t s. s(k \<mapsto> 1)),
      r_getset = (\<lambda>k n s. (case s k of None \<Rightarrow> 0 | Some m \<Rightarrow> m, s(k \<mapsto> n)))\<rparr>"

lemma redis_docs_map: "redis_docs map_redis"
  by (simp add: redis_docs_def map_redis_def)

section \<open>Properties\<close>

text \<open>
  A refund is applied exactly once. However often the refund of a request is retried, and
  whichever calls fail or time out, with or without the script having run, the balance grows
  by the amount if some attempt reached the server and the request had not been refunded
  before, and by nothing otherwise.
\<close>

theorem refund_exactly_once:
  assumes "redis_docs rd" "0 < n"
  shows "r_get rd (balance_key t) (refund_all rd fs t n r s) = r_get rd (balance_key t) s +
           (if (\<exists>f \<in> set fs. ran f) \<and> \<not> r_exists rd (idempotency_key r) s then n else 0)"
  using assms by (rule refund_all_effect)

theorem refund_exactly_once_witness:
  "r_get map_redis (balance_key ''t'')
     (refund_all map_redis [TimedOut True, Failed False, Replied] ''t'' 5 ''r'' Map.empty) = 5"
  using refund_exactly_once [OF redis_docs_map, of 5 "''t''" "[TimedOut True, Failed False, Replied]" "''r''"
      Map.empty]
  by (simp add: map_redis_def del: refund_all.simps)

text \<open>
  The budget is not enforced. For every tenant, cost and store, \<open>deduct_tokens\<close>
  succeeds with the bypass marker and leaves the store as it is; a guard that is then dropped
  unconsumed credits the tenant with a token that was never taken.
\<close>

theorem budget_not_enforced:
  assumes "redis_docs rd" "\<not> r_exists rd (idempotency_key r) s"
  shows "fst (deduct_tokens rd t c s) = Inr (DeductSuccess (- 1))
       \<and> r_get rd (balance_key t)
           (rg_drop rd Replied (FinOpsRefundGuard_new t r) (snd (deduct_tokens rd t c s)))
         = r_get rd (balance_key t) s + 1"
  using refund_tokens_effect(1) [OF assms(1), where amount = 1 and t = t and f = Replied and r = r and s = s] assms(2)
  by (simp add: deduct_tokens_def rg_drop_def FinOpsRefundGuard_new_def)

theorem budget_not_enforced_witness:
  "r_get map_redis (balance_key ''t'') (rg_drop map_redis Replied (FinOpsRefundGuard_new ''t'' ''r'')
     (snd (deduct_tokens map_redis ''t'' 1000000 Map.empty))) = 1"
  using budget_not_enforced [OF redis_docs_map, of "''r''" Map.empty "''t''" 1000000]
  by (simp add: map_redis_def)

end
