(* ===== verification/Arbitrator.thy ===== *)
theory Arbitrator
  imports Json
begin

text \<open>
  \<open>crates/traffic-control/src/lib.rs\<close>: the edge routing of \<open>NexusGateway\<close> and the
  arbitrator \<open>TmrArbitrator\<close> with its tolerant JSON comparison. JSON parsing is the
  parameter \<open>parse\<close>; the backends' answers come in completion order.
\<close>

section \<open>Tolerant comparison\<close>

text \<open>The literal \<open>1e-6\<close> is the nearest binary64 value.\<close>

definition FUZZY_DELTA :: f64 where
  "FUZZY_DELTA = to_f64 (1 / 1000000)"

text \<open>
  \<open>signum\<close> of two infinities is compared by their constructors; \<open>Number::as_f64\<close>
  is always \<open>Some\<close> for the three forms of a number.
\<close>

definition fuzzy_num_eq :: "jnum \<Rightarrow> jnum \<Rightarrow> bool" where
  "fuzzy_num_eq na nb =
     (let fa = jnum_as_f64 na; fb = jnum_as_f64 nb
      in if fa = NaN \<and> fb = NaN then True
         else if (fa = PInf \<and> fb = PInf) \<or> (fa = NInf \<and> fb = NInf) then True
         else let diff = fabs (fsub fa fb); max_abs = fmax (fabs fa) (fabs fb)
              in if flt (Fin 0) max_abs then fle (fdiv diff max_abs) FUZZY_DELTA
                 else fle diff FUZZY_DELTA)"

function fuzzy_json_eq :: "json \<Rightarrow> json \<Rightarrow> bool" where
  "fuzzy_json_eq (JNumber a) (JNumber b) = fuzzy_num_eq a b"
| "fuzzy_json_eq (JArray xs) (JArray ys) =
     (length xs = length ys \<and> list_all (\<lambda>(x, y). fuzzy_json_eq x y) (zip xs ys))"
| "fuzzy_json_eq (JObject as) (JObject bs) =
     (length as = length bs \<and>
      list_all (\<lambda>(k, va). case map_of bs k of None \<Rightarrow> False | Some vb \<Rightarrow> fuzzy_json_eq va vb) as)"
| "fuzzy_json_eq (JString a) (JString b) = (a = b)"
| "fuzzy_json_eq (JBool a) (JBool b) = (a = b)"
| "fuzzy_json_eq JNull JNull = True"
| "fuzzy_json_eq (JNumber a) JNull = False" | "fuzzy_json_eq (JNumber a) (JBool b) = False"
| "fuzzy_json_eq (JNumber a) (JString s) = False" | "fuzzy_json_eq (JNumber a) (JArray ys) = False"
| "fuzzy_json_eq (JNumber a) (JObject bs) = False"
| "fuzzy_json_eq (JArray xs) JNull = False" | "fuzzy_json_eq (JArray xs) (JBool b) = False"
| "fuzzy_json_eq (JArray xs) (JString s) = False" | "fuzzy_json_eq (JArray xs) (JNumber n) = False"
| "fuzzy_json_eq (JArray xs) (JObject bs) = False"
| "fuzzy_json_eq (JObject as) JNull = False" | "fuzzy_json_eq (JObject as) (JBool b) = False"
| "fuzzy_json_eq (JObject as) (JString s) = False" | "fuzzy_json_eq (JObject as) (JNumber n) = False"
| "fuzzy_json_eq (JObject as) (JArray ys) = False"
| "fuzzy_json_eq (JString a) JNull = False" | "fuzzy_json_eq (JString a) (JBool b) = False"
| "fuzzy_json_eq (JString a) (JNumber n) = False" | "fuzzy_json_eq (JString a) (JArray ys) = False"
| "fuzzy_json_eq (JString a) (JObject bs) = False"
| "fuzzy_json_eq (JBool a) JNull = False" | "fuzzy_json_eq (JBool a) (JNumber n) = False"
| "fuzzy_json_eq (JBool a) (JString s) = False" | "fuzzy_json_eq (JBool a) (JArray ys) = False"
| "fuzzy_json_eq (JBool a) (JObject bs) = False"
| "fuzzy_json_eq JNull (JBool b) = False" | "fuzzy_json_eq JNull (JNumber n) = False"
| "fuzzy_json_eq JNull (JString s) = False" | "fuzzy_json_eq JNull (JArray ys) = False"
| "fuzzy_json_eq JNull (JObject bs) = False"
  by pat_completeness auto

lemma size_in_entries: "(k, v) \<in> set kvs \<Longrightarrow> size v < size (JObject kvs)"
proof -
  assume "(k, v) \<in> set kvs"
  then have "size_prod (\<lambda>_. 0) size (k, v) \<le> size_list (size_prod (\<lambda>_. 0) size) kvs"
    by (rule size_list_estimation') simp
  then show ?thesis by simp
qed

lemma size_in_array: "x \<in> set xs \<Longrightarrow> size x < size (JArray xs)"
  using size_list_estimation' [of x xs "size x" size] by simp

termination fuzzy_json_eq
  by (relation "measure (\<lambda>(a, b). size a)")
    (auto dest!: set_zip_leftD size_in_array size_in_entries)

section \<open>Arbitration\<close>

record BackendResult =
  br_node_id :: string
  br_payload :: string

datatype NexusError = RouteNotFound string | MalformedPayload string | NexusInternal string | TmrConsensusFailure string

fun nexus_display :: "NexusError \<Rightarrow> string" where
  "nexus_display (RouteNotFound e) = ''Route not found for endpoint: '' @ e"
| "nexus_display (MalformedPayload e) = ''Malformed payload: '' @ e"
| "nexus_display (NexusInternal e) = ''Internal gateway error: '' @ e"
| "nexus_display (TmrConsensusFailure e) = ''TMR Consensus failed: '' @ e"

definition no_backend :: NexusError where
  "no_backend = TmrConsensusFailure ''All backends failed - no consensus possible''"

definition parsed_payload :: "(string \<Rightarrow> json option) \<Rightarrow> BackendResult \<Rightarrow> json" where
  "parsed_payload parse r =
     (case parse (strip_markdown_fences (br_payload r)) of Some v \<Rightarrow> v | None \<Rightarrow> JString (br_payload r))"

text \<open>The count for index \<open>i\<close> starts at one and adds the later payloads equal to it.\<close>

fun agreement :: "json list \<Rightarrow> bool" where
  "agreement [] = False"
| "agreement (v # vs) = (2 \<le> 1 + length (filter (fuzzy_json_eq v) vs) \<or> agreement vs)"

definition has_consensus :: "(string \<Rightarrow> json option) \<Rightarrow> BackendResult list \<Rightarrow> bool" where
  "has_consensus parse results =
     (if length results < 2 then False else agreement (map (parsed_payload parse) results))"

fun arbitrate_loop ::
  "(string \<Rightarrow> json option) \<Rightarrow> BackendResult list \<Rightarrow> (NexusError, BackendResult) rresult list
     \<Rightarrow> BackendResult list \<times> BackendResult option" where
  "arbitrate_loop parse results [] = (results, None)"
| "arbitrate_loop parse results (Inl e # rest) = arbitrate_loop parse results rest"
| "arbitrate_loop parse results (Inr r # rest) =
     (if has_consensus parse (results @ [r]) then (results @ [r], Some r)
      else arbitrate_loop parse (results @ [r]) rest)"

definition arbitrate ::
  "(string \<Rightarrow> json option) \<Rightarrow> (NexusError, BackendResult) rresult list
     \<Rightarrow> (NexusError, BackendResult) rresult" where
  "arbitrate parse outcomes =
     (case arbitrate_loop parse [] outcomes of
        (_, Some r) \<Rightarrow> Inr r
      | ([], None) \<Rightarrow> Inl no_backend
      | (r # _, None) \<Rightarrow> Inr r)"

section \<open>Routing\<close>

definition route_request :: "(json \<Rightarrow> string) \<Rightarrow> string \<Rightarrow> json \<Rightarrow> (NexusError, string) rresult" where
  "route_request print endpoint p =
     (if starts_with endpoint ''/v1/agent/''
      then Inr (print (JObject [(''status'', JString ''ok''), (''tenant'', JString ''agent-execution''),
                (''rate_limit'', JObject [(''remaining'', JNumber (PosInt 999)),
                                          (''reset_after_secs'', JNumber (PosInt 3600))])]))
      else Inl (RouteNotFound endpoint))"

definition receive_request ::
  "(string \<Rightarrow> string + json) \<Rightarrow> (json \<Rightarrow> string) \<Rightarrow> string \<Rightarrow> string \<Rightarrow> NexusError + string" where
  "receive_request from_str print endpoint body =
     and_then (map_err MalformedPayload (from_str body)) (route_request print endpoint)"

definition handle_request ::
  "(string \<Rightarrow> string + json) \<Rightarrow> (json \<Rightarrow> string) \<Rightarrow> string \<Rightarrow> string \<Rightarrow> NexusError + string" where
  "handle_request from_str print endpoint body = receive_request from_str print endpoint body"

section \<open>Lemmas\<close>

text \<open>The tolerant comparison holds between a value and itself reordered by key.\<close>

lemma rnd_sub_self: "to_f64 0 = Fin 0"
  by (simp add: to_f64_Fin f64r.rnd_zero)

lemma fuzzy_delta_nonneg: "fle (Fin 0) FUZZY_DELTA"
  using f64r.rnd_nonneg [of "1 / 1000000"] by (simp add: FUZZY_DELTA_def to_f64_Fin)

lemma fuzzy_num_refl: "fuzzy_num_eq n n"
proof (cases "jnum_as_f64 n")
  case (Fin a)
  have "fsub (Fin a) (Fin a) = Fin 0" by (simp add: fsub_def rnd_sub_self)
  then show ?thesis
    using fuzzy_delta_nonneg by (auto simp: fuzzy_num_eq_def Fin Let_def fmax_def rnd_sub_self)
qed (simp_all add: fuzzy_num_eq_def)

lemma fuzzy_json_refl: "wf_json v \<Longrightarrow> fuzzy_json_eq v v"
proof (induction v rule: wf_json.induct)
  case (1 kvs)
  have "case map_of kvs k of None \<Rightarrow> False | Some vb \<Rightarrow> fuzzy_json_eq va vb" if "(k, va) \<in> set kvs" for k va
    using 1 that by (auto simp: list_all_iff)
  then show ?case by (auto simp: list_all_iff)
next
  case (2 xs)
  then show ?case by (auto simp: list_all_iff zip_same)
qed (simp_all add: fuzzy_num_refl)

lemma agreement_iff:
  "agreement vs \<longleftrightarrow> (\<exists>i j. i < j \<and> j < length vs \<and> fuzzy_json_eq (vs ! i) (vs ! j))"
proof (induction vs)
  case (Cons v vs)
  have "2 \<le> 1 + length (filter (fuzzy_json_eq v) vs) \<longleftrightarrow> filter (fuzzy_json_eq v) vs \<noteq> []"
    by (cases "filter (fuzzy_json_eq v) vs") auto
  also have "\<dots> \<longleftrightarrow> (\<exists>j < length vs. fuzzy_json_eq v (vs ! j))"
    unfolding filter_empty_conv by (metis in_set_conv_nth)
  finally have a: "agreement (v # vs) \<longleftrightarrow> (\<exists>j < length vs. fuzzy_json_eq v (vs ! j)) \<or>
      (\<exists>i j. i < j \<and> j < length vs \<and> fuzzy_json_eq (vs ! i) (vs ! j))"
    using Cons.IH by simp
  show ?case
  proof
    assume "agreement (v # vs)"
    with a consider j where "j < length vs" "fuzzy_json_eq v (vs ! j)"
      | i j where "i < j" "j < length vs" "fuzzy_json_eq (vs ! i) (vs ! j)" by blast
    then show "\<exists>i j. i < j \<and> j < length (v # vs) \<and> fuzzy_json_eq ((v # vs) ! i) ((v # vs) ! j)"
    proof cases
      case (1 j)
      then show ?thesis by (intro exI [of _ 0] exI [of _ "Suc j"]) simp
    next
      case (2 i j)
      then show ?thesis by (intro exI [of _ "Suc i"] exI [of _ "Suc j"]) simp
    qed
  next
    assume "\<exists>i j. i < j \<and> j < length (v # vs) \<and> fuzzy_json_eq ((v # vs) ! i) ((v # vs) ! j)"
    then obtain i j where ij: "i < j" "j < length (v # vs)" "fuzzy_json_eq ((v # vs) ! i) ((v # vs) ! j)"
      by blast
    then obtain j' where j': "j = Suc j'" by (cases j) auto
    with ij a show "agreement (v # vs)" by (cases i) auto
  qed
qed simp

lemma has_consensus_iff:
  "has_consensus parse rs \<longleftrightarrow>
     (\<exists>i j. i < j \<and> j < length rs \<and>
        fuzzy_json_eq (parsed_payload parse (rs ! i)) (parsed_payload parse (rs ! j)))"
proof -
  have n: "fuzzy_json_eq (map f rs ! i) (map f rs ! j) \<longleftrightarrow> fuzzy_json_eq (f (rs ! i)) (f (rs ! j))"
    if "i < j" "j < length rs" for f i j
    using that by simp
  show ?thesis
  proof (cases "length rs < 2")
    case False
    then show ?thesis
      unfolding has_consensus_def agreement_iff using n by (simp cong: conj_cong)
  qed (auto simp: has_consensus_def)
qed

definition successes :: "(NexusError, BackendResult) rresult list \<Rightarrow> BackendResult list" where
  "successes outcomes = concat (map (\<lambda>o1. case o1 of Inr r \<Rightarrow> [r] | Inl _ \<Rightarrow> []) outcomes)"

lemma successes_simps [simp]:
  "successes [] = []" "successes (Inl e # os) = successes os" "successes (Inr r # os) = r # successes os"
  by (simp_all add: successes_def)

lemma has_consensus_append: "has_consensus parse xs \<Longrightarrow> has_consensus parse (xs @ ys)"
proof -
  assume "has_consensus parse xs"
  then obtain i j where ij: "i < j" "j < length xs"
      "fuzzy_json_eq (parsed_payload parse (xs ! i)) (parsed_payload parse (xs ! j))"
    unfolding has_consensus_iff by blast
  then show ?thesis
    unfolding has_consensus_iff by (intro exI [of _ i] exI [of _ j]) (simp add: nth_append)
qed

text \<open>What the loop leaves: all the successes and no pair that agrees, or the first success that agrees.\<close>

lemma arbitrate_loop_spec:
  "\<not> has_consensus parse results \<Longrightarrow>
     (case arbitrate_loop parse results os of
        (rs, None) \<Rightarrow> rs = results @ successes os \<and> \<not> has_consensus parse rs
      | (rs, Some r) \<Rightarrow> (\<exists>pre post. results @ successes os = pre @ r # post \<and> rs = pre @ [r]
                          \<and> \<not> has_consensus parse pre \<and> has_consensus parse (pre @ [r])))"
proof (induction parse results os rule: arbitrate_loop.induct)
  case (3 parse results r rest)
  show ?case
  proof (cases "has_consensus parse (results @ [r])")
    case True
    with "3.prems" show ?thesis by (auto intro!: exI [of _ results])
  next
    case False
    with "3.IH" show ?thesis by (auto split: prod.splits option.splits)
  qed
qed simp_all

section \<open>Properties\<close>

text \<open>
  What the arbitrator returns. If two of the successful answers agree up to the numeric
  tolerance, the result is the first answer, in completion order, that agrees with an earlier
  one. If no two agree it is the first success, without any consensus; only when every backend
  failed is it an error.
\<close>

theorem arbitrate_spec:
  "(has_consensus parse (successes os) \<longrightarrow>
      (\<exists>pre r post. successes os = pre @ r # post \<and> \<not> has_consensus parse pre
         \<and> has_consensus parse (pre @ [r]) \<and> arbitrate parse os = Inr r))
   \<and> (\<not> has_consensus parse (successes os) \<longrightarrow>
        arbitrate parse os = (case successes os of [] \<Rightarrow> Inl no_backend | r # _ \<Rightarrow> Inr r))"
proof -
  have e: "\<not> has_consensus parse []" by (simp add: has_consensus_def)
  obtain rs w where l: "arbitrate_loop parse [] os = (rs, w)" by (cases "arbitrate_loop parse [] os")
  show ?thesis
  proof (cases w)
    case None
    with arbitrate_loop_spec [OF e, of os] l show ?thesis
      by (auto simp: arbitrate_def split: list.split)
  next
    case (Some r)
    with arbitrate_loop_spec [OF e, of os] l obtain pre post where
      p: "successes os = pre @ r # post" "\<not> has_consensus parse pre" "has_consensus parse (pre @ [r])"
      by auto
    have a: "arbitrate parse os = Inr r" using l Some by (auto simp: arbitrate_def split: list.split)
    have "has_consensus parse (successes os)" using has_consensus_append [OF p(3), of post] p(1) by simp
    with p a show ?thesis by blast
  qed
qed

theorem arbitrate_spec_witness:
  "arbitrate (\<lambda>_. None) [Inr \<lparr>br_node_id = ''a'', br_payload = ''x''\<rparr>, Inr \<lparr>br_node_id = ''b'', br_payload = ''y''\<rparr>] =
     Inr \<lparr>br_node_id = ''a'', br_payload = ''x''\<rparr>"
  using arbitrate_spec [of "\<lambda>_. None"
      "[Inr \<lparr>br_node_id = ''a'', br_payload = ''x''\<rparr>, Inr \<lparr>br_node_id = ''b'', br_payload = ''y''\<rparr>]"]
  by (simp add: has_consensus_def parsed_payload_def)

end
