(* ===== verification/Backoff.thy ===== *)
theory Backoff
  imports F64
begin

text \<open>
  The retry strategy of \<open>crates/consensus/src/jittered_backoff.rs\<close>: delays with jitter
  and the two retry loops. The random generator of the \<open>rand\<close> crate is the record
  \<open>rng_ops\<close> over a type of generator states, \<open>f64::powi\<close>, whose precision the
  standard library leaves open, is the argument \<open>pw\<close>. The awaited operation is a
  function of the attempt number, as in the code.
\<close>

section \<open>Retryable statuses\<close>

datatype RetryableHttpStatus = TooManyRequests | RetryServerError u16

definition from_status_code :: "u16 \<Rightarrow> RetryableHttpStatus option" where
  "from_status_code c =
     (if c = 429 then Some TooManyRequests
      else if 500 \<le> c \<and> c \<le> 599 then Some (RetryServerError c)
      else None)"

fun status_code :: "RetryableHttpStatus \<Rightarrow> u16" where
  "status_code TooManyRequests = 429"
| "status_code (RetryServerError c) = c"

section \<open>Delays\<close>

datatype JitterStrategy = Full | Decorrelated | Equal

record BackoffConfig =
  base_delay :: duration
  max_delay :: duration
  max_retries :: u32
  jitter_strategy :: JitterStrategy
  multiplier :: f64

definition BackoffConfig_default :: BackoffConfig where
  "BackoffConfig_default =
     \<lparr>base_delay = from_millis 200, max_delay = from_secs 30, max_retries = 3,
      jitter_strategy = Full, multiplier = Fin 2\<rparr>"

record 'g rng_ops =
  gen_f64 :: "'g \<Rightarrow> f64 \<times> 'g"
  gen_range :: "f64 \<Rightarrow> f64 \<Rightarrow> 'g \<Rightarrow> (f64 \<times> 'g) may_panic"

text \<open>What the \<open>rand\<close> crate documents: \<open>gen::<f64>()\<close> is in \<open>[0, 1)\<close>.\<close>

definition rng_docs :: "'g rng_ops \<Rightarrow> bool" where
  "rng_docs rg \<longleftrightarrow> (\<forall>g. \<exists>u. fst (gen_f64 rg g) = Fin u \<and> 0 \<le> u \<and> u < 1)"

record 'g JitteredBackoff =
  jb_config :: BackoffConfig
  current_attempt :: u32
  previous_delay :: duration
  rng :: 'g

definition jb_with_config :: "'g \<Rightarrow> BackoffConfig \<Rightarrow> 'g JitteredBackoff" where
  "jb_with_config g cfg =
     \<lparr>jb_config = cfg, current_attempt = 0, previous_delay = base_delay cfg, rng = g\<rparr>"

definition jb_new :: "'g \<Rightarrow> 'g JitteredBackoff" where
  "jb_new g = jb_with_config g BackoffConfig_default"

text \<open>
  \<open>Duration::from_secs_f64\<close> panics on a NaN, a negative value or one beyond the range,
  and rounds to the nearest nanosecond otherwise.
\<close>

fun from_secs_f64 :: "f64 \<Rightarrow> duration may_panic" where
  "from_secs_f64 (Fin a) =
     (if a < 0 \<or> 2 ^ 64 \<le> a then None else Some (nat (round_even (a * 1000000000))))"
| "from_secs_f64 _ = None"

definition jitter_cap :: "(f64 \<Rightarrow> nat \<Rightarrow> f64) \<Rightarrow> 'g JitteredBackoff \<Rightarrow> f64" where
  "jitter_cap pw b =
     (let ex = pw (multiplier (jb_config b)) (unat (current_attempt b));
          raw = fmul (as_secs_f64 (base_delay (jb_config b))) ex
      in fmin (as_secs_f64 (max_delay (jb_config b))) raw)"

definition full_jitter ::
  "'g rng_ops \<Rightarrow> (f64 \<Rightarrow> nat \<Rightarrow> f64) \<Rightarrow> 'g JitteredBackoff \<Rightarrow> (duration \<times> 'g JitteredBackoff) may_panic" where
  "full_jitter rg pw b =
     (let cap = jitter_cap pw b; (u, g) = gen_f64 rg (rng b); jittered = fmul u cap
      in case from_secs_f64 (fmax jittered (to_f64 (1 / 1000))) of
           None \<Rightarrow> None
         | Some d \<Rightarrow> Some (d, b\<lparr>rng := g\<rparr>))"

definition decorrelated_jitter ::
  "'g rng_ops \<Rightarrow> 'g JitteredBackoff \<Rightarrow> (duration \<times> 'g JitteredBackoff) may_panic" where
  "decorrelated_jitter rg b =
     (let lower = as_secs_f64 (base_delay (jb_config b));
          upper = fmul (Fin 3) (as_secs_f64 (previous_delay b))
      in case gen_range rg lower upper (rng b) of
           None \<Rightarrow> None
         | Some (jittered, g) \<Rightarrow>
             (case from_secs_f64 jittered of None \<Rightarrow> None | Some d \<Rightarrow> Some (d, b\<lparr>rng := g\<rparr>)))"

definition equal_jitter ::
  "'g rng_ops \<Rightarrow> (f64 \<Rightarrow> nat \<Rightarrow> f64) \<Rightarrow> 'g JitteredBackoff \<Rightarrow> (duration \<times> 'g JitteredBackoff) may_panic" where
  "equal_jitter rg pw b =
     (let half = fdiv (jitter_cap pw b) (Fin 2); (u, g) = gen_f64 rg (rng b);
          jittered = fadd half (fmul u half)
      in case from_secs_f64 jittered of None \<Rightarrow> None | Some d \<Rightarrow> Some (d, b\<lparr>rng := g\<rparr>))"

definition can_retry :: "'g JitteredBackoff \<Rightarrow> bool" where
  "can_retry b \<longleftrightarrow> current_attempt b < max_retries (jb_config b)"

definition jitter ::
  "'g rng_ops \<Rightarrow> (f64 \<Rightarrow> nat \<Rightarrow> f64) \<Rightarrow> 'g JitteredBackoff \<Rightarrow> (duration \<times> 'g JitteredBackoff) may_panic" where
  "jitter rg pw b =
     (case jitter_strategy (jb_config b) of
        Full \<Rightarrow> full_jitter rg pw b
      | Decorrelated \<Rightarrow> decorrelated_jitter rg b
      | Equal \<Rightarrow> equal_jitter rg pw b)"

definition next_delay ::
  "'g rng_ops \<Rightarrow> (f64 \<Rightarrow> nat \<Rightarrow> f64) \<Rightarrow> 'g JitteredBackoff
     \<Rightarrow> (duration option \<times> 'g JitteredBackoff) may_panic" where
  "next_delay rg pw b =
     (if max_retries (jb_config b) \<le> current_attempt b then Some (None, b)
      else case jitter rg pw b of
             None \<Rightarrow> None
           | Some (delay, b1) \<Rightarrow>
               let capped = min delay (max_delay (jb_config b1))
               in (case checked_add (current_attempt b1) 1 of
                     None \<Rightarrow> None
                   | Some n \<Rightarrow> Some (Some capped, b1\<lparr>previous_delay := capped, current_attempt := n\<rparr>)))"

definition jb_reset :: "'g JitteredBackoff \<Rightarrow> 'g JitteredBackoff" where
  "jb_reset b = b\<lparr>current_attempt := 0, previous_delay := base_delay (jb_config b)\<rparr>"

text \<open>\<open>wait_next\<close> sleeps for the delay; the sleep is the returned duration.\<close>

definition wait_next ::
  "'g rng_ops \<Rightarrow> (f64 \<Rightarrow> nat \<Rightarrow> f64) \<Rightarrow> 'g JitteredBackoff
     \<Rightarrow> ((unit, duration) rresult \<times> 'g JitteredBackoff) may_panic" where
  "wait_next rg pw b =
     (case next_delay rg pw b of
        None \<Rightarrow> None
      | Some (Some d, b1) \<Rightarrow> Some (Inr d, b1)
      | Some (None, b1) \<Rightarrow> Some (Inl (), b1))"

lemma jitter_config:
  assumes "jitter rg pw b = Some (d, b1)"
  shows "jb_config b1 = jb_config b \<and> current_attempt b1 = current_attempt b"
proof (cases "jitter_strategy (jb_config b)")
  case Full
  with assms show ?thesis
    by (auto simp: jitter_def full_jitter_def Let_def case_prod_unfold split: option.splits)
next
  case Decorrelated
  with assms show ?thesis
    by (auto simp: jitter_def decorrelated_jitter_def Let_def split: option.splits)
next
  case Equal
  with assms show ?thesis
    by (auto simp: jitter_def equal_jitter_def Let_def case_prod_unfold split: option.splits)
qed

lemma next_delay_Some:
  assumes "next_delay rg pw b = Some (Some d, b1)"
  shows "unat (current_attempt b1) = Suc (unat (current_attempt b))"
    "current_attempt b < max_retries (jb_config b)" "jb_config b1 = jb_config b"
    "previous_delay b1 = d" "d \<le> max_delay (jb_config b)"
proof -
  from assms obtain delay b0 n where j: "jitter rg pw b = Some (delay, b0)"
    and lt: "current_attempt b < max_retries (jb_config b)"
    and n: "checked_add (current_attempt b0) 1 = Some n"
    and b1: "b1 = b0\<lparr>previous_delay := d, current_attempt := n\<rparr>" "d = min delay (max_delay (jb_config b0))"
    by (auto simp: next_delay_def Let_def not_le split: if_splits option.splits)
  from jitter_config [OF j] n b1 lt
  show "unat (current_attempt b1) = Suc (unat (current_attempt b))"
    "current_attempt b < max_retries (jb_config b)" "jb_config b1 = jb_config b"
    "previous_delay b1 = d" "d \<le> max_delay (jb_config b)"
    by (auto simp: checked_add_Some_iff)
qed

lemma next_delay_measure:
  "next_delay rg pw b = Some (Some d, b1) \<Longrightarrow>
     unat (max_retries (jb_config b1)) - unat (current_attempt b1)
       < unat (max_retries (jb_config b)) - unat (current_attempt b)"
  using next_delay_Some [of rg pw b d b1] by (auto simp: word_less_nat_alt)

section \<open>The retry loops\<close>

text \<open>
  The result is the value or error returned, with the delays slept; \<open>None\<close> is a panic.
  \<open>next_delay().unwrap()\<close> panics on \<open>None\<close>.
\<close>

function execute_loop ::
  "'g rng_ops \<Rightarrow> (f64 \<Rightarrow> nat \<Rightarrow> f64) \<Rightarrow> (u32 \<Rightarrow> ('e, 'a) rresult) \<Rightarrow> 'g JitteredBackoff \<Rightarrow> duration list
     \<Rightarrow> (('e, 'a) rresult \<times> duration list) may_panic" where
  "execute_loop rg pw operation b slept =
     (case operation (current_attempt b) of
        Inr v \<Rightarrow> Some (Inr v, slept)
      | Inl err \<Rightarrow>
          if \<not> can_retry b then Some (Inl err, slept)
          else (case next_delay rg pw b of
                  None \<Rightarrow> None
                | Some (None, _) \<Rightarrow> None
                | Some (Some d, b1) \<Rightarrow> execute_loop rg pw operation b1 (slept @ [d])))"
  by pat_completeness auto
termination
  by (relation "measure (\<lambda>(_, _, _, b, _). unat (max_retries (jb_config b)) - unat (current_attempt b))")
    (auto intro: next_delay_measure)

declare execute_loop.simps [simp del]

definition execute_with_backoff ::
  "'g rng_ops \<Rightarrow> (f64 \<Rightarrow> nat \<Rightarrow> f64) \<Rightarrow> 'g \<Rightarrow> (u32 \<Rightarrow> ('e, 'a) rresult) \<Rightarrow> BackoffConfig option
     \<Rightarrow> (('e, 'a) rresult \<times> duration list) may_panic" where
  "execute_with_backoff rg pw g operation config =
     execute_loop rg pw operation
       (jb_with_config g (case config of Some c \<Rightarrow> c | None \<Rightarrow> BackoffConfig_default)) []"

datatype 'a HttpOutcome = HttpSuccess 'a | RetryableStatus u16

datatype 'e HttpBackoffError = RetryableStatusExhausted u16 u32 | Transport 'e

function execute_http_loop ::
  "'g rng_ops \<Rightarrow> (f64 \<Rightarrow> nat \<Rightarrow> f64) \<Rightarrow> (u32 \<Rightarrow> ('e, 'a HttpOutcome) rresult) \<Rightarrow> 'g JitteredBackoff
     \<Rightarrow> duration list \<Rightarrow> (('e HttpBackoffError, 'a) rresult \<times> duration list) may_panic" where
  "execute_http_loop rg pw operation b slept =
     (case operation (current_attempt b) of
        Inr (HttpSuccess v) \<Rightarrow> Some (Inr v, slept)
      | Inr (RetryableStatus code) \<Rightarrow>
          if \<not> can_retry b then Some (Inl (RetryableStatusExhausted code (current_attempt b)), slept)
          else (case next_delay rg pw b of
                  None \<Rightarrow> None
                | Some (None, _) \<Rightarrow> None
                | Some (Some d, b1) \<Rightarrow> execute_http_loop rg pw operation b1 (slept @ [d]))
      | Inl err \<Rightarrow>
          if \<not> can_retry b then Some (Inl (Transport err), slept)
          else (case next_delay rg pw b of
                  None \<Rightarrow> None
                | Some (None, _) \<Rightarrow> None
                | Some (Some d, b1) \<Rightarrow> execute_http_loop rg pw operation b1 (slept @ [d])))"
  by pat_completeness auto
termination
  by (relation "measure (\<lambda>(_, _, _, b, _). unat (max_retries (jb_config b)) - unat (current_attempt b))")
    (auto intro: next_delay_measure)

declare execute_http_loop.simps [simp del]

definition execute_with_http_backoff ::
  "'g rng_ops \<Rightarrow> (f64 \<Rightarrow> nat \<Rightarrow> f64) \<Rightarrow> 'g \<Rightarrow> (u32 \<Rightarrow> ('e, 'a HttpOutcome) rresult) \<Rightarrow> BackoffConfig option
     \<Rightarrow> (('e HttpBackoffError, 'a) rresult \<times> duration list) may_panic" where
  "execute_with_http_backoff rg pw g operation config =
     execute_http_loop rg pw operation
       (jb_with_config g (case config of Some c \<Rightarrow> c
                          | None \<Rightarrow> BackoffConfig_default\<lparr>jitter_strategy := Full\<rparr>)) []"

section \<open>Full jitter never panics\<close>

lemma fmax_milli:
  assumes "x = NaN \<or> x = NInf \<or> (\<exists>a. x = Fin a \<and> a \<le> 2 ^ 54)"
  shows "\<exists>d. from_secs_f64 (fmax x (to_f64 (1 / 1000))) = Some d"
proof -
  have m: "to_f64 (1 / 1000) = Fin (rnd (1 / 1000))" by (simp add: to_f64_Fin)
  have b: "0 \<le> rnd (1 / 1000)" "rnd (1 / 1000) \<le> 1"
    using f64r.rnd_nonneg [of "1 / 1000"] f64r.rnd_le_nat [of "1 / 1000" 1] by simp_all
  then have c: "\<not> 18446744073709551616 \<le> rnd (1 / 1000)" "\<not> rnd (1 / 1000) < 0" by simp_all
  have l: "\<not> 2 ^ 64 \<le> a" if "a \<le> 2 ^ 54" for a :: rat
  proof -
    have "(2 :: rat) ^ 54 < 2 ^ 64" by simp
    with that show ?thesis by linarith
  qed
  from assms show ?thesis
    by (auto simp: m c l fmax_def not_less dest: order.trans [OF b(1)])
qed

lemma jitter_cap_cases:
  assumes "max_delay (jb_config b) < 2 ^ 64"
  shows "jitter_cap pw b = NInf \<or> (\<exists>c. jitter_cap pw b = Fin c \<and> c \<le> 2 ^ 54)"
proof -
  obtain m where m: "as_secs_f64 (max_delay (jb_config b)) = Fin m" "m \<le> 2 ^ 54"
    using as_secs_u64_bounds [OF assms] by blast
  define r where "r = fmul (as_secs_f64 (base_delay (jb_config b)))
      (pw (multiplier (jb_config b)) (unat (current_attempt b)))"
  have "jitter_cap pw b = fmin (Fin m) r" by (simp add: jitter_cap_def m(1) r_def Let_def)
  then show ?thesis using m(2) by (cases r) (auto simp: fmin_def dest: order.trans)
qed

lemma fmul_unit_bound:
  assumes "0 \<le> u" "u < 1" "c = NInf \<or> (\<exists>a. c = Fin a \<and> a \<le> 2 ^ 54)"
  shows "fmul (Fin u) c = NaN \<or> fmul (Fin u) c = NInf \<or> (\<exists>a. fmul (Fin u) c = Fin a \<and> a \<le> 2 ^ 54)"
proof (cases "c = NInf")
  case False
  with assms(3) obtain a where a: "c = Fin a" "a \<le> 2 ^ 54" by blast
  have "u * a \<le> 2 ^ 54"
  proof (cases "0 \<le> a")
    case True
    then have "u * a \<le> 1 * a" using assms(1,2) by (intro mult_right_mono) auto
    with a(2) show ?thesis by simp
  next
    case False
    then have "u * a \<le> 0" using assms(1) by (simp add: mult_nonneg_nonpos)
    then show ?thesis by (rule order.trans) simp
  qed
  moreover have "rnd (2 ^ 54) = 2 ^ 54" using rnd_pow2 [of 54] by simp
  ultimately have le: "rnd (u * a) \<le> 2 ^ 54" using rnd_mono [of "u * a" "2 ^ 54"] by simp
  moreover have "(2 :: rat) ^ 54 < pow2 1024" by simp
  ultimately have "\<not> pow2 1024 \<le> rnd (u * a)" by linarith
  with le a show ?thesis by (simp add: to_f64_def Let_def)
qed (use assms in \<open>auto simp: finf_def\<close>)

lemma full_jitter_total:
  assumes "rng_docs rg" "max_delay (jb_config b) < 2 ^ 64"
  shows "\<exists>d b1. full_jitter rg pw b = Some (d, b1)"
proof -
  obtain u where u: "fst (gen_f64 rg (rng b)) = Fin u" "0 \<le> u" "u < 1"
    using assms(1) unfolding rng_docs_def by blast
  from fmax_milli [OF fmul_unit_bound [OF u(2,3) jitter_cap_cases [OF assms(2)]], of pw]
  show ?thesis by (auto simp: full_jitter_def Let_def case_prod_unfold u(1))
qed

lemma next_delay_total:
  assumes "rng_docs rg" "jitter_strategy (jb_config b) = Full" "max_delay (jb_config b) < 2 ^ 64"
    and "can_retry b"
  shows "\<exists>d b1. next_delay rg pw b = Some (Some d, b1)"
proof -
  obtain d b1 where f: "full_jitter rg pw b = Some (d, b1)"
    using full_jitter_total [OF assms(1,3)] by blast
  have j: "jitter rg pw b = Some (d, b1)" using f assms(2) by (simp add: jitter_def)
  have "current_attempt b1 = current_attempt b" using jitter_config [OF j] by simp
  moreover have "unat (current_attempt b) < unat (max_retries (jb_config b))"
    using assms(4) by (simp add: can_retry_def word_less_nat_alt)
  moreover have "unat (max_retries (jb_config b)) < 2 ^ 32" by (rule order_less_le_trans [OF unsigned_less]) simp
  ultimately show ?thesis
    using assms(4) j by (auto simp: next_delay_def can_retry_def checked_add_def Let_def)
qed

section \<open>The loop\<close>

lemma execute_loop_spec:
  "rng_docs rg \<Longrightarrow> jitter_strategy (jb_config b) = Full \<Longrightarrow> max_delay (jb_config b) < 2 ^ 64 \<Longrightarrow>
     length slept = unat (current_attempt b) \<Longrightarrow> current_attempt b \<le> max_retries (jb_config b) \<Longrightarrow>
     \<exists>res more. execute_loop rg pw operation b slept = Some (res, slept @ more)
       \<and> (\<forall>d \<in> set more. d \<le> max_delay (jb_config b))
       \<and> length (slept @ more) \<le> unat (max_retries (jb_config b))
       \<and> res = operation (of_nat (length (slept @ more)))
       \<and> (\<forall>i. length slept \<le> i \<and> i < length (slept @ more) \<longrightarrow> \<not> is_ok (operation (of_nat i)))
       \<and> (is_ok res \<or> length (slept @ more) = unat (max_retries (jb_config b)))"
proof (induction rg pw operation b slept rule: execute_loop.induct)
  case (1 rg pw operation b slept)
  have cur: "(of_nat (length slept) :: u32) = current_attempt b" by (simp add: "1.prems"(4))
  have le: "length slept \<le> unat (max_retries (jb_config b))"
    using "1.prems"(4,5) by (simp add: word_le_nat_alt)
  show ?case
  proof (cases "operation (current_attempt b)")
    case (Inr v)
    then show ?thesis
      using cur le by (intro exI [of _ "Inr v"] exI [of _ "[]"]) (auto simp: execute_loop.simps)
  next
    case (Inl err)
    show ?thesis
    proof (cases "can_retry b")
      case False
      then have "length slept = unat (max_retries (jb_config b))"
        using le "1.prems"(4) by (simp add: can_retry_def word_less_nat_alt)
      then show ?thesis
        using Inl False cur by (intro exI [of _ "Inl err"] exI [of _ "[]"]) (auto simp: execute_loop.simps)
    next
      case True
      from next_delay_total [OF "1.prems"(1,2,3) True, of pw] obtain d b1 where
        nd: "next_delay rg pw b = Some (Some d, b1)" by blast
      note n = next_delay_Some [OF nd]
      have "current_attempt b1 \<le> max_retries (jb_config b1)"
        using n(1-3) by (simp add: word_less_nat_alt word_le_nat_alt)
      with "1.IH" [OF Inl _ nd refl refl] True n "1.prems"
      obtain res more where ih: "execute_loop rg pw operation b1 (slept @ [d]) = Some (res, (slept @ [d]) @ more)"
          "\<forall>d \<in> set more. d \<le> max_delay (jb_config b)"
          "length ((slept @ [d]) @ more) \<le> unat (max_retries (jb_config b))"
          "res = operation (of_nat (length ((slept @ [d]) @ more)))"
          "\<forall>i. length (slept @ [d]) \<le> i \<and> i < length ((slept @ [d]) @ more) \<longrightarrow> \<not> is_ok (operation (of_nat i))"
          "is_ok res \<or> length ((slept @ [d]) @ more) = unat (max_retries (jb_config b))"
        by auto
      have "\<not> is_ok (operation (of_nat i))" if "length slept \<le> i" "i < length ((slept @ [d]) @ more)" for i
        using that ih(5) Inl cur by (cases "i = length slept") auto
      then show ?thesis
        using ih n(5) Inl True nd
        by (intro exI [of _ res] exI [of _ "d # more"]) (simp add: execute_loop.simps)
    qed
  qed
qed

text \<open>
  C35: The retry loop returns, with the right answer, after a bounded number of bounded waits.
  With full jitter and any generator that draws from \<open>[0, 1)\<close>, whatever the multiplier
  and \<open>powi\<close> give, \<open>execute_with_backoff\<close> does not panic and makes at most
  \<open>max_retries + 1\<close> attempts; its result is that of the last attempt made, every earlier
  attempt failed, and it gives up only after the last allowed attempt. No wait exceeds
  \<open>max_delay\<close>.
\<close>

theorem retry_loop_correct:
  assumes "rng_docs rg" "jitter_strategy cfg = Full" "max_delay cfg < 2 ^ 64"
  shows "\<exists>res slept. execute_with_backoff rg pw g operation (Some cfg) = Some (res, slept)
       \<and> (\<forall>d \<in> set slept. d \<le> max_delay cfg)
       \<and> length slept \<le> unat (max_retries cfg) \<and> res = operation (of_nat (length slept))
       \<and> (\<forall>i < length slept. \<not> is_ok (operation (of_nat i)))
       \<and> (is_ok res \<or> length slept = unat (max_retries cfg))"
  using execute_loop_spec [OF assms(1), of "jb_with_config g cfg" "[]" pw operation] assms(2,3)
  by (auto simp: jb_with_config_def execute_with_backoff_def)

definition half_rng :: "unit rng_ops" where
  "half_rng = \<lparr>gen_f64 = (\<lambda>g. (Fin (1 / 2), g)),
               gen_range = (\<lambda>a b g. if flt a b then Some (a, g) else None)\<rparr>"

lemma rng_docs_half: "rng_docs half_rng"
  by (auto simp: rng_docs_def half_rng_def intro!: exI [of _ "1 / 2"])

theorem retry_loop_correct_witness:
  "\<exists>res slept. execute_with_backoff half_rng (\<lambda>x n. x) () (\<lambda>n. if n < 2 then Inl n else Inr True)
      (Some BackoffConfig_default) = Some (res, slept) \<and> length slept \<le> 3"
  using retry_loop_correct [OF rng_docs_half, of BackoffConfig_default "\<lambda>x n. x" "()"
      "\<lambda>n. if n < 2 then Inl n else Inr True"]
  by (fastforce simp: BackoffConfig_default_def from_secs_def)

text \<open>
  decorrelated jitter panics when the cap is too small. If the generator refuses empty
  ranges, as documented, and the cap is at most a third of the base delay, measured as
  binary64 seconds, then the first delay is returned but asking for the second one panics.
\<close>

theorem decorrelated_small_cap_panics:
  assumes "\<forall>a b g. \<not> flt a b \<longrightarrow> gen_range rg a b g = None"
    and "jitter_strategy cfg = Decorrelated" "1 < max_retries cfg"
    and "\<forall>d \<le> max_delay cfg. \<not> flt (as_secs_f64 (base_delay cfg)) (fmul (Fin 3) (as_secs_f64 d))"
    and "next_delay rg pw (jb_with_config g cfg) = Some (Some d, b)"
  shows "next_delay rg pw b = None"
proof -
  note n = next_delay_Some [OF assms(5)]
  have c: "jb_config b = cfg" "previous_delay b = d" "d \<le> max_delay cfg" "unat (current_attempt b) = 1"
    using n by (simp_all add: jb_with_config_def)
  then have "\<not> max_retries cfg \<le> current_attempt b"
    using assms(3) by (simp add: word_less_nat_alt word_le_nat_alt)
  moreover have "decorrelated_jitter rg b = None"
    using assms(1,4) c by (simp add: decorrelated_jitter_def Let_def)
  ultimately show ?thesis using assms(2) c by (simp add: next_delay_def jitter_def)
qed

lemma as_secs_one: "as_secs_f64 1000000000 = Fin 1"
  by (simp add: as_secs_f64_def f64_of_nat_small to_f64_Fin f64r.rnd_zero f64r.rnd_one)

definition small_cap :: BackoffConfig where
  "small_cap = \<lparr>base_delay = 1000000000, max_delay = 0, max_retries = 3,
                jitter_strategy = Decorrelated, multiplier = Fin 2\<rparr>"

lemma small_cap_first:
  "next_delay half_rng pw (jb_with_config () small_cap) =
     Some (Some 0, (jb_with_config () small_cap)\<lparr>previous_delay := 0, current_attempt := 1\<rparr>)"
proof -
  have "to_f64 3 = Fin 3" using f64_of_nat_small [of 3] by (simp add: f64_of_nat_def)
  then show ?thesis
    by (simp add: next_delay_def jitter_def small_cap_def jb_with_config_def decorrelated_jitter_def
        half_rng_def as_secs_one Let_def checked_add_def)
qed

theorem decorrelated_small_cap_panics_witness:
  "next_delay half_rng (\<lambda>x n. x) ((jb_with_config () small_cap)\<lparr>previous_delay := 0, current_attempt := 1\<rparr>) = None"
  by (rule decorrelated_small_cap_panics [OF _ _ _ _ small_cap_first])
    (auto simp: half_rng_def small_cap_def as_secs_one to_f64_Fin f64r.rnd_zero)

end
