(* ===== verification/AbiGuard.thy ===== *)
theory AbiGuard
  imports HashMaps
begin

text \<open>
  \<open>crates/core/src/abi_guard.rs\<close>: bounds validation of guest memory, simulated CHERI
  capabilities, and the guard that checks cross-domain calls and counts violations.
  A Wasmtime memory is its byte contents; its \<open>data_size\<close> is their number.
\<close>

definition DEFAULT_TLSF_POOL_SIZE :: usize where
  "DEFAULT_TLSF_POOL_SIZE = 256 * 1024 * 1024"

section \<open>Guest memory\<close>

datatype WasmMemoryViolation =
    WasmOutOfBounds usize usize usize
  | OffsetOverflow usize usize usize
  | MemoryExportNotFound

definition validate_wasm_memory_bounds :: "usize \<Rightarrow> usize \<Rightarrow> usize \<Rightarrow> (WasmMemoryViolation, unit) rresult" where
  "validate_wasm_memory_bounds data_size offset len =
     (case checked_add offset len of
        None \<Rightarrow> Inl (OffsetOverflow offset len data_size)
      | Some en \<Rightarrow> if data_size < en then Inl (WasmOutOfBounds offset len data_size) else Inr ())"

text \<open>Slicing \<open>data[offset..offset + length]\<close> panics when the range is not in the slice.\<close>

definition slice :: "'a list \<Rightarrow> usize \<Rightarrow> usize \<Rightarrow> 'a list may_panic" where
  "slice data a b =
     (if a \<le> b \<and> unat b \<le> length data then Some (take (unat b - unat a) (drop (unat a) data)) else None)"

definition read_wasm_memory ::
  "u8 list \<Rightarrow> usize \<Rightarrow> usize \<Rightarrow> (WasmMemoryViolation, u8 list) rresult may_panic" where
  "read_wasm_memory data offset len =
     (case validate_wasm_memory_bounds (of_nat (length data)) offset len of
        Inl v \<Rightarrow> Some (Inl v)
      | Inr _ \<Rightarrow>
          (case checked_add offset len of
             None \<Rightarrow> None
           | Some en \<Rightarrow>
               (case slice data offset en of None \<Rightarrow> None | Some bs \<Rightarrow> Some (Inr bs))))"

definition read_wasm_memory_from_caller ::
  "u8 list option \<Rightarrow> usize \<Rightarrow> usize \<Rightarrow> (WasmMemoryViolation, u8 list) rresult may_panic" where
  "read_wasm_memory_from_caller export offset len =
     (case export of
        None \<Rightarrow> Some (Inl MemoryExportNotFound)
      | Some data \<Rightarrow> read_wasm_memory data offset len)"

section \<open>Capabilities\<close>

record CheriPermission =
  readable :: bool
  writable :: bool
  executable :: bool
  load_capability :: bool
  store_capability :: bool
  seal :: bool
  unseal :: bool

definition CheriPermission_default :: CheriPermission where
  "CheriPermission_default =
     \<lparr>readable = True, writable = True, executable = False, load_capability = True,
      store_capability = True, seal = False, unseal = False\<rparr>"

definition read_only :: CheriPermission where
  "read_only =
     \<lparr>readable = True, writable = False, executable = False, load_capability = True,
      store_capability = False, seal = False, unseal = False\<rparr>"

definition execute_only :: CheriPermission where
  "execute_only =
     \<lparr>readable = False, writable = False, executable = True, load_capability = False,
      store_capability = False, seal = False, unseal = False\<rparr>"

definition full :: CheriPermission where
  "full =
     \<lparr>readable = True, writable = True, executable = True, load_capability = True,
      store_capability = True, seal = True, unseal = True\<rparr>"

datatype Capability =
    MemoryRead | MemoryWrite | Execute | NetworkAccess | FileSystemAccess | TimeAccess | RandomAccess

datatype AbiViolation =
    OutOfBoundsAccess usize usize usize
  | UnauthorizedCall string string
  | CapabilityViolation "Capability list" "Capability list"
  | PointerProvenance usize string
  | StackPointerViolation usize usize usize
  | CheriBoundaryViolation usize usize usize
  | CheriTagInvalid
  | CheriPermissionDenied CheriPermission CheriPermission

record CheriCapability =
  base :: usize
  cap_length :: usize
  offset :: usize
  permissions :: CheriPermission
  tag :: bool
  sealed :: bool

definition CheriCapability_new :: "usize \<Rightarrow> usize \<Rightarrow> CheriPermission \<Rightarrow> CheriCapability" where
  "CheriCapability_new b l p =
     \<lparr>base = b, cap_length = l, offset = 0, permissions = p, tag = True, sealed = False\<rparr>"

definition from_tlsf_pool :: "usize \<Rightarrow> CheriCapability" where
  "from_tlsf_pool pool_size = CheriCapability_new 0 pool_size CheriPermission_default"

definition current_address :: "CheriCapability \<Rightarrow> usize" where
  "current_address c = saturating_add (base c) (offset c)"

definition is_valid :: "CheriCapability \<Rightarrow> bool" where
  "is_valid c \<longleftrightarrow> tag c \<and> \<not> sealed c \<and> offset c \<le> cap_length c"

definition check_bounds :: "CheriCapability \<Rightarrow> usize \<Rightarrow> usize \<Rightarrow> (AbiViolation, unit) rresult" where
  "check_bounds c access_offset access_length =
     (if \<not> tag c then Inl CheriTagInvalid
      else if sealed c then Inl CheriTagInvalid
      else let absolute_offset = saturating_add (offset c) access_offset
           in case checked_add absolute_offset access_length of
                None \<Rightarrow> Inl (CheriBoundaryViolation (base c) (cap_length c) (- 1))
              | Some en \<Rightarrow>
                  if cap_length c < en then Inl (CheriBoundaryViolation (base c) (cap_length c) en)
                  else Inr ())"

definition derive :: "CheriCapability \<Rightarrow> usize \<Rightarrow> usize \<Rightarrow> (AbiViolation, CheriCapability) rresult" where
  "derive c new_offset new_length =
     (if \<not> is_valid c then Inl CheriTagInvalid
      else let derived_base = saturating_add (base c) new_offset
           in if cap_length c < saturating_add new_offset new_length
              then Inl (CheriBoundaryViolation (base c) (cap_length c) (saturating_add new_offset new_length))
              else Inr \<lparr>base = derived_base, cap_length = new_length, offset = 0,
                        permissions = permissions c, tag = True, sealed = False\<rparr>)"

section \<open>The guard\<close>

record CrossDomainContext =
  source_domain :: string
  target_domain :: string
  function_name :: string
  timestamp :: instant

record AbiGuardStats =
  total_calls :: u64
  violations_detected :: u64
  memory_checks :: u64
  capability_checks :: u64
  cheri_boundary_checks :: u64

definition stats_zero :: AbiGuardStats where
  "stats_zero = \<lparr>total_calls = 0, violations_detected = 0, memory_checks = 0, capability_checks = 0,
                 cheri_boundary_checks = 0\<rparr>"

record AbiGuard =
  stats :: AbiGuardStats
  enabled :: bool
  ag_strict_mode :: bool
  default_capability :: CheriCapability
  named_capabilities :: "(string, CheriCapability) hmap"

definition AbiGuard_with_pool_size :: "bool \<Rightarrow> bool \<Rightarrow> usize \<Rightarrow> AbiGuard" where
  "AbiGuard_with_pool_size en strict pool_size =
     \<lparr>stats = stats_zero, enabled = en, ag_strict_mode = strict,
      default_capability = from_tlsf_pool pool_size, named_capabilities = []\<rparr>"

definition AbiGuard_new :: "bool \<Rightarrow> bool \<Rightarrow> AbiGuard" where
  "AbiGuard_new en strict =
     \<lparr>stats = stats_zero, enabled = en, ag_strict_mode = strict,
      default_capability = from_tlsf_pool DEFAULT_TLSF_POOL_SIZE, named_capabilities = []\<rparr>"

definition register_capability ::
  "string \<Rightarrow> CheriCapability \<Rightarrow> AbiGuard \<Rightarrow> (AbiViolation, unit) rresult \<times> AbiGuard" where
  "register_capability name cap g =
     (if \<not> is_valid cap then (Inl CheriTagInvalid, g)
      else (Inr (), g\<lparr>named_capabilities := hm_insert name cap (named_capabilities g)\<rparr>))"

text \<open>The counters are atomic and wrap around.\<close>

definition count_violation :: "AbiGuard \<Rightarrow> AbiGuard" where
  "count_violation g = g\<lparr>stats := (stats g)\<lparr>violations_detected := violations_detected (stats g) + 1\<rparr>\<rparr>"

definition check_cheri_boundary ::
  "usize \<Rightarrow> usize \<Rightarrow> AbiGuard \<Rightarrow> (AbiViolation, CheriCapability) rresult \<times> AbiGuard" where
  "check_cheri_boundary off len g =
     (if \<not> enabled g then (Inr (default_capability g), g)
      else
        let g1 = g\<lparr>stats := (stats g)\<lparr>cheri_boundary_checks := cheri_boundary_checks (stats g) + 1\<rparr>\<rparr>
        in case check_bounds (default_capability g) off len of
             Inl v \<Rightarrow> (Inl v, g1)
           | Inr _ \<Rightarrow> (derive (default_capability g) off len, g1))"

definition check_memory_access ::
  "usize \<Rightarrow> usize \<Rightarrow> usize \<Rightarrow> AbiGuard \<Rightarrow> (AbiViolation, unit) rresult \<times> AbiGuard" where
  "check_memory_access off len max_memory g =
     (if \<not> enabled g then (Inr (), g)
      else
        let g1 = g\<lparr>stats := (stats g)\<lparr>memory_checks := memory_checks (stats g) + 1\<rparr>\<rparr>
        in case checked_add off len of
             None \<Rightarrow> (Inl (OutOfBoundsAccess off len max_memory), g1)
           | Some en \<Rightarrow>
               if max_memory < en then (Inl (OutOfBoundsAccess off len max_memory), count_violation g1)
               else (Inr (), g1))"

definition check_cross_domain_call ::
  "CrossDomainContext \<Rightarrow> Capability list \<Rightarrow> Capability list \<Rightarrow> AbiGuard
     \<Rightarrow> (AbiViolation, unit) rresult \<times> AbiGuard" where
  "check_cross_domain_call ctx required granted g =
     (if \<not> enabled g then (Inr (), g)
      else
        let g1 = g\<lparr>stats := (stats g)\<lparr>total_calls := total_calls (stats g) + 1,
                                       capability_checks := capability_checks (stats g) + 1\<rparr>\<rparr>
        in case find (\<lambda>r. r \<notin> set granted) required of
             Some _ \<Rightarrow> (Inl (CapabilityViolation required granted), count_violation g1)
           | None \<Rightarrow> (Inr (), g1))"

definition check_pointer_provenance ::
  "usize \<Rightarrow> string \<Rightarrow> string \<Rightarrow> AbiGuard \<Rightarrow> (AbiViolation, unit) rresult \<times> AbiGuard" where
  "check_pointer_provenance ptr expected actual g =
     (if \<not> enabled g then (Inr (), g)
      else if expected \<noteq> actual then (Inl (PointerProvenance ptr expected), count_violation g)
      else (Inr (), g))"

definition check_stack_pointer ::
  "usize \<Rightarrow> usize \<Rightarrow> usize \<Rightarrow> AbiGuard \<Rightarrow> (AbiViolation, unit) rresult \<times> AbiGuard" where
  "check_stack_pointer sp lower upper g =
     (if \<not> enabled g then (Inr (), g)
      else if sp < lower \<or> upper < sp then (Inl (StackPointerViolation sp lower upper), count_violation g)
      else (Inr (), g))"

definition reset_stats :: "AbiGuard \<Rightarrow> AbiGuard" where
  "reset_stats g = g\<lparr>stats := stats_zero\<rparr>"

section \<open>Regions\<close>

text \<open>The addresses a capability may touch, as natural numbers.\<close>

definition region :: "CheriCapability \<Rightarrow> nat set" where
  "region c = {unat (base c) ..< unat (base c) + unat (cap_length c)}"

definition fits :: "CheriCapability \<Rightarrow> bool" where
  "fits c \<longleftrightarrow> unat (base c) + unat (cap_length c) < 2 ^ 64 \<and> unat (cap_length c) < 2 ^ 64 - 1"

lemma derive_Ok:
  assumes "derive c off len = Inr d"
  shows "is_valid c" "saturating_add off len \<le> cap_length c" "base d = saturating_add (base c) off"
    "cap_length d = len" "permissions d = permissions c" "is_valid d"
  using assms by (auto simp: derive_def Let_def is_valid_def split: if_splits)

lemma derive_region:
  assumes "fits c" "derive c off len = Inr d"
  shows "region d \<subseteq> region c \<and> fits d"
proof -
  note d = derive_Ok [OF assms(2)]
  have "min (unat off + unat len) (2 ^ 64 - 1) \<le> unat (cap_length c)"
    using d(2) by (simp add: word_le_nat_alt unat_saturating_add)
  with assms(1) have le: "unat off + unat len \<le> unat (cap_length c)"
    by (auto simp: fits_def min_def split: if_splits)
  have "unat (base d) = min (unat (base c) + unat off) (2 ^ 64 - 1)"
    by (simp add: d(3) unat_saturating_add)
  with le d(4) assms(1) show ?thesis by (auto simp: region_def fits_def)
qed

fun derive_all :: "CheriCapability \<Rightarrow> (usize \<times> usize) list \<Rightarrow> (AbiViolation, CheriCapability) rresult" where
  "derive_all c [] = Inr c"
| "derive_all c ((off, len) # ds) =
     (case derive c off len of Inl v \<Rightarrow> Inl v | Inr d \<Rightarrow> derive_all d ds)"

section \<open>Properties\<close>

text \<open>
  Capabilities only shrink. Any chain of derivations from a capability whose region fits
  in the address space gives a region inside the original one with the same permissions.
\<close>

theorem derive_monotone:
  assumes "fits c" "derive_all c ds = Inr d"
  shows "region d \<subseteq> region c \<and> permissions d = permissions c"
  using assms
proof (induction ds arbitrary: c)
  case (Cons x ds)
  obtain off len where x: "x = (off, len)" by (cases x)
  from Cons.prems(2) x obtain c1 where c1: "derive c off len = Inr c1" "derive_all c1 ds = Inr d"
    by (auto split: sum.splits)
  with derive_region [OF Cons.prems(1) c1(1)] derive_Ok(5) [OF c1(1)] Cons.IH [of c1] show ?case by auto
qed simp

theorem derive_monotone_witness:
  "\<exists>d. derive_all (from_tlsf_pool 4096) [(1024, 2048), (16, 100)] = Inr d
     \<and> region d \<subseteq> region (from_tlsf_pool 4096)"
proof -
  have "\<exists>d. derive_all (from_tlsf_pool 4096) [(1024, 2048), (16, 100)] = Inr d"
    by (simp add: derive_def from_tlsf_pool_def CheriCapability_new_def is_valid_def saturating_add_def Let_def)
  moreover have "fits (from_tlsf_pool 4096)"
    by (simp add: fits_def from_tlsf_pool_def CheriCapability_new_def)
  ultimately show ?thesis using derive_monotone by blast
qed

text \<open>
  the boundary check is exact. For an enabled guard over a pool, every derived capability
  the check hands out is valid and starts at the offset with the requested length, and the
  check succeeds exactly when the access ends inside the pool, computed without overflow.
\<close>

theorem cheri_boundary_exact:
  assumes "unat pool < 2 ^ 64 - 1"
  shows "fst (check_cheri_boundary off len (AbiGuard_with_pool_size True strict pool)) =
    (if unat off + unat len \<le> unat pool
     then Inr \<lparr>base = off, cap_length = len, offset = 0, permissions = CheriPermission_default,
                tag = True, sealed = False\<rparr>
     else Inl (CheriBoundaryViolation 0 pool
                (if unat off + unat len < 2 ^ 64 then off + len else - 1)))"
proof -
  have z: "saturating_add 0 x = x" for x :: usize
    by (rule word_unat_eq_iff [THEN iffD2]) (use unat_u64_lt [of x] in \<open>simp add: unat_saturating_add\<close>)
  let ?c = "from_tlsf_pool pool"
  have c: "base ?c = 0" "cap_length ?c = pool" "offset ?c = 0" "tag ?c" "\<not> sealed ?c" "is_valid ?c"
    "permissions ?c = CheriPermission_default"
    by (simp_all add: from_tlsf_pool_def CheriCapability_new_def is_valid_def)
  have cmp: "pool < off + len \<longleftrightarrow> unat pool < unat off + unat len" if "unat off + unat len < 2 ^ 64"
    using that by (simp add: word_less_nat_alt unat_word_ariths)
  show ?thesis
    using assms cmp unat_u64_lt [of off]
    by (auto simp: check_cheri_boundary_def AbiGuard_with_pool_size_def check_bounds_def derive_def c z Let_def
        checked_add_def saturating_add_def not_less)
qed

theorem cheri_boundary_exact_witness:
  "is_ok (fst (check_cheri_boundary 100 28 (AbiGuard_with_pool_size True False 128)))"
  using cheri_boundary_exact [of 128 100 28 False] by simp

text \<open>
  Reading guest memory never panics and never leaves the memory. A read returns exactly
  the requested bytes when the range lies inside the memory and an error otherwise.
\<close>

theorem read_wasm_memory_safe:
  assumes "length data < 2 ^ 64"
  shows "\<exists>r. read_wasm_memory data off len = Some r
       \<and> (if unat off + unat len \<le> length data
          then r = Inr (take (unat len) (drop (unat off) data)) else \<not> is_ok r)"
proof -
  have d: "unat (of_nat (length data) :: usize) = length data"
    using assms by (simp add: unat_of_nat take_bit_nat_eq_self)
  show ?thesis
  proof (cases "unat off + unat len < 2 ^ 64")
    case True
    then have "unat (off + len) = unat off + unat len" by (simp add: unat_word_ariths)
    with True d show ?thesis
      by (auto simp: read_wasm_memory_def validate_wasm_memory_bounds_def checked_add_def slice_def
          word_less_nat_alt word_le_nat_alt not_less)
  next
    case False
    with assms show ?thesis
      by (simp add: read_wasm_memory_def validate_wasm_memory_bounds_def checked_add_def)
  qed
qed

theorem read_wasm_memory_safe_witness:
  "\<exists>r. read_wasm_memory [1, 2, 3] (- 1) 2 = Some r \<and> \<not> is_ok r"
  using read_wasm_memory_safe [of "[1, 2, 3]" "- 1" 2] by (auto simp: unat_minus_one_word_max)

end
