(* ===== verification/Allocator.thy ===== *)
theory Allocator
  imports HashMaps F64
begin

text \<open>
  \<open>crates/core/src/allocator.rs\<close>: the accounting of \<open>TlsfPool\<close> over the system
  allocator and the checked pointer \<open>CapabilityPtr\<close>.

  The system allocator is outside the program: the pointer \<open>alloc\<close> returns is an
  argument (0 is the null pointer), and the table \<open>heap\<close> records the live blocks with the
  layout they were allocated with. The contract of \<open>dealloc\<close> demands that layout; a call
  that breaks it is undefined behaviour, the value \<open>None\<close> of \<open>deallocate\<close>.
\<close>

section \<open>The pool\<close>

definition MIN_BLOCK_SIZE :: usize where
  "MIN_BLOCK_SIZE = 16"

definition DEFAULT_POOL_SIZE :: usize where
  "DEFAULT_POOL_SIZE = 256 * 1024 * 1024"

record Layout =
  lay_size :: usize
  lay_align :: usize

record PoolStats =
  total_size :: usize
  used_size :: usize
  free_size :: usize
  allocation_count :: u64
  deallocation_count :: u64
  fragmentation_count :: u64

record TlsfPool =
  pool_stats :: PoolStats
  heap :: "(usize, Layout) hmap"

datatype TlsfError =
    OutOfMemory | InvalidLayout | BoundsViolation | BoundsOverflow | PermissionDenied | DoubleFree | InvalidPointer

definition TlsfPool_new :: "usize \<Rightarrow> TlsfPool" where
  "TlsfPool_new bytes =
     \<lparr>pool_stats = \<lparr>total_size = bytes, used_size = 0, free_size = bytes, allocation_count = 0,
                    deallocation_count = 0, fragmentation_count = 0\<rparr>,
      heap = []\<rparr>"

text \<open>
  \<open>Layout::from_size_align\<close>: the alignment is a power of two and the size, rounded up to
  it, does not exceed \<open>isize::MAX\<close>.
\<close>

definition from_size_align :: "usize \<Rightarrow> usize \<Rightarrow> Layout option" where
  "from_size_align bytes align =
     (if align \<noteq> 0 \<and> (align AND (align - 1)) = 0 \<and> unat bytes + (unat align - 1) < 2 ^ 63
      then Some \<lparr>lay_size = bytes, lay_align = align\<rparr> else None)"

definition allocate :: "Layout \<Rightarrow> usize \<Rightarrow> TlsfPool \<Rightarrow> (TlsfError, usize) rresult \<times> TlsfPool" where
  "allocate layout sys_ptr p =
     (let bytes = max (lay_size layout) MIN_BLOCK_SIZE; align = lay_align layout; st = pool_stats p
      in if free_size st < bytes then (Inl OutOfMemory, p)
         else case from_size_align bytes align of
                None \<Rightarrow> (Inl InvalidLayout, p)
              | Some l \<Rightarrow>
                  if sys_ptr = 0 then (Inl OutOfMemory, p)
                  else (Inr sys_ptr,
                        p\<lparr>pool_stats := st\<lparr>used_size := used_size st + bytes, free_size := free_size st - bytes,
                                           allocation_count := allocation_count st + 1\<rparr>,
                          heap := hm_insert sys_ptr l (heap p)\<rparr>))"

definition deallocate :: "usize \<Rightarrow> Layout \<Rightarrow> TlsfPool \<Rightarrow> ((TlsfError, unit) rresult \<times> TlsfPool) option" where
  "deallocate ptr layout p =
     (if hm_get (heap p) ptr \<noteq> Some layout then None
      else
        let bytes = max (lay_size layout) MIN_BLOCK_SIZE; st = pool_stats p
        in Some (Inr (),
             p\<lparr>pool_stats := st\<lparr>used_size := used_size st - bytes, free_size := free_size st + bytes,
                                deallocation_count := deallocation_count st + 1\<rparr>,
               heap := hm_remove ptr (heap p)\<rparr>))"

definition fragmentation_ratio :: "TlsfPool \<Rightarrow> f64" where
  "fragmentation_ratio p =
     (let used = used_size (pool_stats p); total = total_size (pool_stats p)
      in if total = 0 then Fin 0
         else fsub (Fin 1) (fdiv (f64_of_nat (unat used)) (f64_of_nat (unat total))))"

definition global_pool :: "TlsfPool option \<Rightarrow> TlsfPool" where
  "global_pool inst = (case inst of Some p \<Rightarrow> p | None \<Rightarrow> TlsfPool_new DEFAULT_POOL_SIZE)"

section \<open>Checked pointers\<close>

record CapabilityMetadata =
  cm_base :: usize
  cm_length :: usize
  cm_permissions :: u32
  cm_seal :: bool

definition perm_READ :: u32 where "perm_READ = 1"
definition perm_WRITE :: u32 where "perm_WRITE = 2"
definition perm_EXECUTE :: u32 where "perm_EXECUTE = 4"

record CapabilityPtr =
  cp_ptr :: usize
  capability :: CapabilityMetadata

definition CapabilityPtr_new :: "usize \<Rightarrow> usize \<Rightarrow> u32 \<Rightarrow> CapabilityPtr" where
  "CapabilityPtr_new ptr len perms =
     \<lparr>cp_ptr = ptr, capability = \<lparr>cm_base = ptr, cm_length = len, cm_permissions = perms, cm_seal = False\<rparr>\<rparr>"

definition can_read :: "CapabilityPtr \<Rightarrow> bool" where
  "can_read c \<longleftrightarrow> cm_permissions (capability c) AND perm_READ \<noteq> 0"

definition can_write :: "CapabilityPtr \<Rightarrow> bool" where
  "can_write c \<longleftrightarrow> cm_permissions (capability c) AND perm_WRITE \<noteq> 0"

definition can_execute :: "CapabilityPtr \<Rightarrow> bool" where
  "can_execute c \<longleftrightarrow> cm_permissions (capability c) AND perm_EXECUTE \<noteq> 0"

definition verify_bounds :: "CapabilityPtr \<Rightarrow> usize \<Rightarrow> usize \<Rightarrow> (TlsfError, unit) rresult" where
  "verify_bounds c off access_size =
     (case checked_add off access_size of
        None \<Rightarrow> Inl BoundsOverflow
      | Some en \<Rightarrow>
          if cm_length (capability c) \<le> off \<or> cm_length (capability c) < en then Inl BoundsViolation
          else Inr ())"

text \<open>
  A read or write of a \<open>T\<close> of \<open>sz\<close> bytes: the result is the first address it touches.
  \<open>ptr.add(offset)\<close> counts in elements, so that address is \<open>offset * sz\<close> bytes on.
\<close>

definition cap_read :: "nat \<Rightarrow> CapabilityPtr \<Rightarrow> usize \<Rightarrow> (TlsfError, nat) rresult" where
  "cap_read sz c off =
     (case verify_bounds c off (of_nat sz) of
        Inl e \<Rightarrow> Inl e
      | Inr _ \<Rightarrow> if \<not> can_read c then Inl PermissionDenied else Inr (unat (cp_ptr c) + unat off * sz))"

definition cap_write :: "nat \<Rightarrow> CapabilityPtr \<Rightarrow> usize \<Rightarrow> (TlsfError, nat) rresult" where
  "cap_write sz c off =
     (case verify_bounds c off (of_nat sz) of
        Inl e \<Rightarrow> Inl e
      | Inr _ \<Rightarrow> if \<not> can_write c then Inl PermissionDenied else Inr (unat (cp_ptr c) + unat off * sz))"

section \<open>The accounting invariant\<close>

definition live_bytes :: "(usize, Layout) hmap \<Rightarrow> nat" where
  "live_bytes h = sum_list (map (\<lambda>(_, l). unat (lay_size l)) h)"

definition tlsf_inv :: "TlsfPool \<Rightarrow> bool" where
  "tlsf_inv p \<longleftrightarrow> hm_inv (heap p)
     \<and> unat (used_size (pool_stats p)) + unat (free_size (pool_stats p)) = unat (total_size (pool_stats p))
     \<and> unat (used_size (pool_stats p)) = live_bytes (heap p)
     \<and> (\<forall>(a, l) \<in> set (heap p). MIN_BLOCK_SIZE \<le> lay_size l)"

lemma live_bytes_insert:
  "hm_get h a = None \<Longrightarrow> live_bytes (hm_insert a l h) = live_bytes h + unat (lay_size l)"
  by (induction h) (auto simp: live_bytes_def hm_insert_def hm_get_def split: if_splits)

lemma set_insert_fresh:
  "hm_get h a = None \<Longrightarrow> set (hm_insert a l h) = insert (a, l) (set h)"
  by (induction h) (auto simp: hm_insert_def hm_get_def split: if_splits)

lemma hm_remove_fresh: "hm_get h a = None \<Longrightarrow> hm_remove a h = h"
  by (simp add: hm_remove_def hm_get_def delete_id map_of_eq_None_iff)

lemma live_bytes_remove:
  "hm_inv h \<Longrightarrow> hm_get h a = Some l \<Longrightarrow> live_bytes (hm_remove a h) + unat (lay_size l) = live_bytes h"
proof (induction h)
  case (Cons x h)
  obtain b m where x: "x = (b, m)" by (cases x)
  show ?case
  proof (cases "a = b")
    case True
    then have "hm_get h a = None" using Cons.prems(1) x by (simp add: hm_inv_def hm_get_def map_of_eq_None_iff)
    with True Cons.prems(2) x hm_remove_fresh [of h a] show ?thesis
      by (simp add: live_bytes_def hm_get_def hm_remove_def)
  next
    case False
    with Cons x show ?thesis by (simp add: live_bytes_def hm_get_def hm_remove_def hm_inv_def)
  qed
qed (simp add: hm_get_def)

text \<open>The system allocator never returns the address of a live block.\<close>

datatype tlsf_op = TAllocate Layout usize | TDeallocate usize Layout

fun tlsf_step :: "tlsf_op \<Rightarrow> TlsfPool \<Rightarrow> TlsfPool option" where
  "tlsf_step (TAllocate l a) p = (if hm_get (heap p) a = None then Some (snd (allocate l a p)) else None)"
| "tlsf_step (TDeallocate a l) p = map_option snd (deallocate a l p)"

lemma word_sub_nat: "b \<le> a \<Longrightarrow> unat (a - b) = unat a - unat b" for a b :: usize
  by (simp add: unat_sub word_le_nat_alt)

lemma word_add_nat: "unat a + unat b < 2 ^ 64 \<Longrightarrow> unat (a + b) = unat a + unat b" for a b :: usize
  by (simp add: unat_word_ariths)

lemma allocate_inv:
  assumes "tlsf_inv p" "hm_get (heap p) a = None"
  shows "tlsf_inv (snd (allocate l a p))"
proof -
  let ?st = "pool_stats p"
  define bytes where "bytes = max (lay_size l) MIN_BLOCK_SIZE"
  show ?thesis
  proof (cases "free_size ?st < bytes \<or> from_size_align bytes (lay_align l) = None \<or> a = 0")
    case True
    then have "snd (allocate l a p) = p"
      by (auto simp: allocate_def bytes_def [symmetric] Let_def split: option.split)
    with assms(1) show ?thesis by simp
  next
    case False
    then have fs: "from_size_align bytes (lay_align l) = Some \<lparr>lay_size = bytes, lay_align = lay_align l\<rparr>"
      by (auto simp: from_size_align_def split: if_splits)
    have fit: "bytes \<le> free_size ?st" "unat (used_size ?st) + unat bytes < 2 ^ 64"
      using False assms(1) unat_u64_lt [of "total_size ?st"]
      by (auto simp: tlsf_inv_def not_less word_le_nat_alt)
    have "MIN_BLOCK_SIZE \<le> bytes" by (simp add: bytes_def)
    then show ?thesis
      using False fs fit assms
      by (auto simp: allocate_def bytes_def [symmetric] Let_def tlsf_inv_def hm.inv_insert
          live_bytes_insert set_insert_fresh word_sub_nat word_add_nat word_le_nat_alt)
  qed
qed

lemma deallocate_inv:
  assumes "tlsf_inv p" "deallocate a l p = Some (r, p1)"
  shows "tlsf_inv p1"
proof -
  let ?st = "pool_stats p"
  have g: "hm_get (heap p) a = Some l" using assms(2) by (auto simp: deallocate_def split: if_splits)
  then have "(a, l) \<in> set (heap p)" by (simp add: hm_get_def map_of_SomeD)
  with assms(1) have m: "max (lay_size l) MIN_BLOCK_SIZE = lay_size l"
    by (force simp: tlsf_inv_def max_def)
  have lb: "live_bytes (hm_remove a (heap p)) + unat (lay_size l) = live_bytes (heap p)"
    using assms(1) g by (intro live_bytes_remove) (simp_all add: tlsf_inv_def)
  then have le: "lay_size l \<le> used_size ?st" "unat (free_size ?st) + unat (lay_size l) < 2 ^ 64"
    using assms(1) unat_u64_lt [of "total_size ?st"] by (auto simp: tlsf_inv_def word_le_nat_alt)
  have "set (hm_remove a (heap p)) \<subseteq> set (heap p)" by (auto simp: hm_remove_def AList.delete_eq)
  then show ?thesis
    using assms g lb le
    by (auto simp: deallocate_def m Let_def tlsf_inv_def hm.inv_remove word_sub_nat word_add_nat
        word_le_nat_alt)
qed

interpretation tlsfm: invariant_machine tlsf_step tlsf_inv
proof
  fix s t x
  assume "tlsf_inv s" "tlsf_step x s = Some t"
  then show "tlsf_inv t" by (cases x) (auto simp: allocate_inv deallocate_inv split: if_splits)
qed

section \<open>Properties\<close>

text \<open>
  The pool's accounting is exact. After any sequence of allocations and deallocations
  without undefined behaviour, used plus free bytes are the pool size and the used bytes are
  the sum of the sizes of the live blocks, so the pool never hands out more than its size.
\<close>

theorem pool_accounting:
  assumes "run tlsf_step ops (TlsfPool_new bytes) = Some p"
  shows "unat (used_size (pool_stats p)) + unat (free_size (pool_stats p)) = unat (total_size (pool_stats p))
       \<and> unat (used_size (pool_stats p)) = live_bytes (heap p)
       \<and> live_bytes (heap p) \<le> unat (total_size (pool_stats p))"
proof -
  have "tlsf_inv (TlsfPool_new bytes)" by (simp add: tlsf_inv_def TlsfPool_new_def live_bytes_def hm.inv_empty)
  from tlsfm.run_inv [OF this assms] show ?thesis by (simp add: tlsf_inv_def)
qed

theorem pool_accounting_witness:
  "\<exists>p. run tlsf_step [TAllocate \<lparr>lay_size = 64, lay_align = 8\<rparr> 4096, TAllocate \<lparr>lay_size = 8, lay_align = 8\<rparr> 8192,
        TDeallocate 4096 \<lparr>lay_size = 64, lay_align = 8\<rparr>] (TlsfPool_new 1024) = Some p
     \<and> live_bytes (heap p) \<le> unat (total_size (pool_stats p))"
proof -
  have "\<exists>p. run tlsf_step [TAllocate \<lparr>lay_size = 64, lay_align = 8\<rparr> 4096, TAllocate \<lparr>lay_size = 8, lay_align = 8\<rparr> 8192,
        TDeallocate 4096 \<lparr>lay_size = 64, lay_align = 8\<rparr>] (TlsfPool_new 1024) = Some p"
    by (simp add: allocate_def deallocate_def from_size_align_def TlsfPool_new_def MIN_BLOCK_SIZE_def
        hm_get_def hm_insert_def Let_def)
  then show ?thesis using pool_accounting by blast
qed

text \<open>
  Small blocks cannot be freed legally. A block requested with fewer than 16 bytes is
  allocated with a 16-byte layout but freed with the caller's layout, so freeing it with the
  layout it was requested with breaks the contract of the system allocator.
\<close>

theorem small_block_layout_mismatch:
  assumes "lay_size l < MIN_BLOCK_SIZE" "allocate l a p = (Inr a, p1)"
  shows "deallocate a l p1 = None"
proof -
  have "max (lay_size l) MIN_BLOCK_SIZE = MIN_BLOCK_SIZE" using assms(1) by (simp add: max_absorb2 less_imp_le)
  with assms(2) have "\<exists>al. hm_get (heap p1) a = Some \<lparr>lay_size = MIN_BLOCK_SIZE, lay_align = al\<rparr>"
    by (auto simp: allocate_def Let_def from_size_align_def hm.get_insert split: if_splits option.splits)
  with assms(1) show ?thesis by (auto simp: deallocate_def)
qed

theorem small_block_layout_mismatch_witness:
  "\<exists>p1. allocate \<lparr>lay_size = 8, lay_align = 8\<rparr> 4096 (TlsfPool_new 1024) = (Inr 4096, p1)
      \<and> deallocate 4096 \<lparr>lay_size = 8, lay_align = 8\<rparr> p1 = None"
proof -
  have "\<exists>p1. allocate \<lparr>lay_size = 8, lay_align = 8\<rparr> 4096 (TlsfPool_new 1024) = (Inr 4096, p1)"
    by (simp add: allocate_def from_size_align_def TlsfPool_new_def MIN_BLOCK_SIZE_def Let_def)
  then show ?thesis
    using small_block_layout_mismatch [of "\<lparr>lay_size = 8, lay_align = 8\<rparr>" 4096 "TlsfPool_new 1024"]
    by (auto simp: MIN_BLOCK_SIZE_def)
qed

text \<open>
  The bounds check of a capability pointer and its access disagree on units. The check
  takes the offset in bytes and the access takes it in elements: for every element of at least
  two bytes and every region longer than one element, some read passes the check and touches
  bytes beyond the region.
\<close>

theorem cap_read_escapes:
  assumes "2 \<le> sz" "sz < unat (cm_length (capability c))" "can_read c"
    and "cp_ptr c = cm_base (capability c)"
  shows "\<exists>off a. cap_read sz c off = Inr a
       \<and> unat (cm_base (capability c)) + unat (cm_length (capability c)) < a + sz"
proof -
  let ?n = "unat (cm_length (capability c))"
  define off :: usize where "off = of_nat (?n - sz)"
  have lt: "?n < 2 ^ 64" using unat_u64_lt [of "cm_length (capability c)"] by simp
  have o: "unat off = ?n - sz" using lt by (simp add: off_def unat_of_nat take_bit_nat_eq_self)
  have s: "unat (of_nat sz :: usize) = sz" using assms(2) lt by (simp add: unat_of_nat take_bit_nat_eq_self)
  have en: "unat (off + of_nat sz) = ?n" using o s assms(2) lt by (subst word_add_nat) simp_all
  have "verify_bounds c off (of_nat sz) = Inr ()"
    using o s en assms(1,2) lt by (simp add: verify_bounds_def checked_add_def word_le_nat_alt word_less_nat_alt)
  moreover have "?n < (?n - sz) * sz + sz"
  proof -
    define k where "k = ?n - sz"
    have k: "?n = k + sz" "0 < k" using assms(2) by (simp_all add: k_def)
    have "k * 2 \<le> k * sz" using assms(1) by simp
    with k show ?thesis unfolding k_def [symmetric] by linarith
  qed
  ultimately show ?thesis using assms(3,4) o by (auto simp: cap_read_def intro!: exI [of _ off])
qed

theorem cap_read_escapes_witness:
  "\<exists>off a. cap_read 8 (CapabilityPtr_new 4096 16 1) off = Inr a \<and> 4096 + 16 < a + 8"
  using cap_read_escapes [of 8 "CapabilityPtr_new 4096 16 1"]
  by (simp add: CapabilityPtr_new_def can_read_def perm_READ_def)

end
