(* ===== verification/ResourceMonitor.thy ===== *)
theory ResourceMonitor
  imports HashMaps
begin

text \<open>
  \<open>crates/core/src/security/capabilities.rs\<close>: the request counter per source address that
  flags high-frequency sources. The mutex may be poisoned by a panic while it is held (the
  counter overflow), after which every call returns an error.
\<close>

record RequestTracker =
  req_count :: u64
  first_request_at :: instant

record ResourceMonitor =
  requests :: "(IpAddr, RequestTracker) hmap"
  poisoned :: bool
  request_threshold :: u64
  time_window :: duration

definition ResourceMonitor_new :: "u64 \<Rightarrow> u64 \<Rightarrow> ResourceMonitor" where
  "ResourceMonitor_new threshold secs =
     \<lparr>requests = [], poisoned = False, request_threshold = threshold, time_window = from_secs (unat secs)\<rparr>"

definition ResourceMonitor_default :: ResourceMonitor where
  "ResourceMonitor_default = ResourceMonitor_new 100 60"

text \<open>The first component is the returned value, \<open>None\<close> for a panic.\<close>

definition check_and_record_request ::
  "instant \<Rightarrow> IpAddr \<Rightarrow> ResourceMonitor \<Rightarrow> (string, bool) rresult may_panic \<times> ResourceMonitor" where
  "check_and_record_request now ip m =
     (if poisoned m then (Some (Inl ''ResourceMonitor mutex poisoned''), m)
      else
        let kept = hm_retain (\<lambda>_ t. elapsed now (first_request_at t) < time_window m) (requests m);
            t = (case hm_get kept ip of
                   Some t \<Rightarrow> t | None \<Rightarrow> \<lparr>req_count = 0, first_request_at = now\<rparr>)
        in case checked_add (req_count t) 1 of
             None \<Rightarrow> (None, m\<lparr>requests := kept, poisoned := True\<rparr>)
           | Some n \<Rightarrow>
               let t1 = t\<lparr>req_count := n\<rparr>
               in (Some (Inr (request_threshold m < n \<and> elapsed now (first_request_at t1) < time_window m)),
                   m\<lparr>requests := hm_insert ip t1 kept\<rparr>))"

section \<open>What the table holds for one address\<close>

definition tracked :: "instant \<Rightarrow> IpAddr \<Rightarrow> ResourceMonitor \<Rightarrow> nat \<times> instant" where
  "tracked now ip m =
     (case hm_get (requests m) ip of
        None \<Rightarrow> (0, now)
      | Some t \<Rightarrow> if elapsed now (first_request_at t) < time_window m
                  then (unat (req_count t), first_request_at t) else (0, now))"

lemma check_and_record:
  assumes "hm_inv (requests m)" "\<not> poisoned m" "Suc (fst (tracked now ip m)) < 2 ^ 64"
  shows "\<exists>m1. check_and_record_request now ip m =
       (Some (Inr (unat (request_threshold m) \<le> fst (tracked now ip m)
                   \<and> elapsed now (snd (tracked now ip m)) < time_window m)), m1)
     \<and> hm_inv (requests m1) \<and> \<not> poisoned m1 \<and> request_threshold m1 = request_threshold m
     \<and> time_window m1 = time_window m
     \<and> (\<forall>later. tracked later ip m1 =
          (if elapsed later (snd (tracked now ip m)) < time_window m
           then (Suc (fst (tracked now ip m)), snd (tracked now ip m)) else (0, later)))"
proof -
  let ?k = "hm_retain (\<lambda>_ t. elapsed now (first_request_at t) < time_window m) (requests m)"
  define t where "t = (case hm_get ?k ip of Some t \<Rightarrow> t | None \<Rightarrow> \<lparr>req_count = 0, first_request_at = now\<rparr>)"
  have tr: "tracked now ip m = (unat (req_count t), first_request_at t)"
    using assms(1) by (auto simp: tracked_def t_def hm_get_retain split: option.splits)
  have n: "unat (req_count t + 1) = Suc (unat (req_count t))"
    using assms(3) tr by (intro unat_add_one) simp
  then have ca: "checked_add (req_count t) 1 = Some (req_count t + 1)"
    by (simp add: checked_add_Some_iff)
  have cmp: "request_threshold m < req_count t + 1 \<longleftrightarrow> unat (request_threshold m) \<le> unat (req_count t)"
    by (auto simp: word_less_nat_alt n)
  have e: "check_and_record_request now ip m =
      (Some (Inr (request_threshold m < req_count t + 1 \<and> elapsed now (first_request_at t) < time_window m)),
       m\<lparr>requests := hm_insert ip (t\<lparr>req_count := req_count t + 1\<rparr>) ?k\<rparr>)"
    using assms(2) ca by (simp add: check_and_record_request_def t_def Let_def)
  show ?thesis
    using assms(1,2) unfolding e tr cmp
    by (simp add: hm.inv_insert hm_inv_retain tracked_def hm.get_insert n)
qed

fun rm_run :: "IpAddr \<Rightarrow> instant list \<Rightarrow> ResourceMonitor \<Rightarrow> (string, bool) rresult may_panic list \<times> ResourceMonitor" where
  "rm_run ip [] m = ([], m)"
| "rm_run ip (now # ts) m =
     (let (r, m1) = check_and_record_request now ip m; (rs, m2) = rm_run ip ts m1 in (r # rs, m2))"

lemma rm_run_window:
  assumes "\<forall>t \<in> set ts. start \<le> t \<and> t - start < w"
  shows "hm_inv (requests m) \<Longrightarrow> \<not> poisoned m \<Longrightarrow> time_window m = w \<Longrightarrow>
     (\<forall>t. start \<le> t \<and> t - start < w \<longrightarrow> tracked t ip m = (k, start)) \<Longrightarrow> k + length ts < 2 ^ 64 \<Longrightarrow>
     \<exists>m2. rm_run ip ts m =
         (map (\<lambda>i. Some (Inr (unat (request_threshold m) \<le> k + i))) [0..<length ts], m2)
       \<and> hm_inv (requests m2) \<and> \<not> poisoned m2 \<and> time_window m2 = w
       \<and> request_threshold m2 = request_threshold m
       \<and> (ts \<noteq> [] \<longrightarrow> (\<forall>later. tracked later ip m2 =
            (if elapsed later start < w then (k + length ts, start) else (0, later))))"
  using assms
proof (induction ts arbitrary: m k)
  case (Cons now ts)
  have tr: "tracked now ip m = (k, start)" and el: "elapsed now start < w"
    using Cons.prems(4,6) by (auto simp: elapsed_def)
  have "Suc (fst (tracked now ip m)) < 2 ^ 64" using tr Cons.prems(5) by simp
  from check_and_record [OF Cons.prems(1,2) this] obtain m1 where
    m1: "check_and_record_request now ip m = (Some (Inr (unat (request_threshold m) \<le> k)), m1)"
      "hm_inv (requests m1)" "\<not> poisoned m1" "request_threshold m1 = request_threshold m" "time_window m1 = w"
      "\<forall>later. tracked later ip m1 = (if elapsed later start < w then (Suc k, start) else (0, later))"
    using el Cons.prems(3) unfolding tr by auto
  have "\<forall>t. start \<le> t \<and> t - start < w \<longrightarrow> tracked t ip m1 = (Suc k, start)"
    using m1(6) by (simp add: elapsed_def)
  from Cons.IH [OF m1(2,3,5) this] Cons.prems(5,6) obtain m2 where
    m2: "rm_run ip ts m1 = (map (\<lambda>i. Some (Inr (unat (request_threshold m) \<le> Suc k + i))) [0..<length ts], m2)"
      "hm_inv (requests m2)" "\<not> poisoned m2" "time_window m2 = w" "request_threshold m2 = request_threshold m"
      "ts \<noteq> [] \<longrightarrow> (\<forall>later. tracked later ip m2 =
            (if elapsed later start < w then (Suc k + length ts, start) else (0, later)))"
    unfolding m1(4) by auto
  have up: "[0..<length (now # ts)] = 0 # map Suc [0..<length ts]"
    by (simp add: upt_conv_Cons map_Suc_upt del: upt_Suc)
  have last: "tracked later ip m2 =
      (if elapsed later start < w then (k + length (now # ts), start) else (0, later))" for later
    using m2(1,6) m1(6) by (cases ts) auto
  show ?case
    unfolding up using m1(1) m2 last by (simp add: comp_def)
qed simp

section \<open>Properties\<close>

text \<open>
  Within a window the flag is exact. For a source not seen before, the requests it makes
  within one window of its first are answered without a panic, and the request number
  \<open>i\<close> (from 0) is flagged exactly when \<open>i\<close> has reached the threshold.
\<close>

theorem threshold_exact_in_window:
  assumes "0 < unat secs" "\<forall>t \<in> set ts. start \<le> t \<and> t - start < from_secs (unat secs)"
    and "Suc (length ts) < 2 ^ 64"
  shows "fst (rm_run ip (start # ts) (ResourceMonitor_new threshold secs)) =
     map (\<lambda>i. Some (Inr (unat threshold \<le> i))) [0..<Suc (length ts)]"
proof -
  let ?m = "ResourceMonitor_new threshold secs"
  have m: "hm_inv (requests ?m)" "\<not> poisoned ?m" "time_window ?m = from_secs (unat secs)"
      "request_threshold ?m = threshold" "\<And>t. tracked t ip ?m = (0, t)"
    by (simp_all add: ResourceMonitor_new_def tracked_def hm.inv_empty hm.get_empty)
  have w: "elapsed start start < from_secs (unat secs)" using assms(1) by (simp add: elapsed_def from_secs_def)
  from check_and_record [OF m(1,2), of start ip] obtain m1 where
    m1: "check_and_record_request start ip ?m = (Some (Inr (unat threshold \<le> 0)), m1)"
      "hm_inv (requests m1)" "\<not> poisoned m1" "request_threshold m1 = threshold"
      "time_window m1 = from_secs (unat secs)"
      "\<forall>later. tracked later ip m1 =
         (if elapsed later start < from_secs (unat secs) then (Suc 0, start) else (0, later))"
    using w unfolding m(3,4,5) by auto
  have "\<forall>t. start \<le> t \<and> t - start < from_secs (unat secs) \<longrightarrow> tracked t ip m1 = (Suc 0, start)"
    using m1(6) by (simp add: elapsed_def)
  from rm_run_window [OF assms(2) m1(2,3,5) this] assms(3) obtain m2 where
    "rm_run ip ts m1 = (map (\<lambda>i. Some (Inr (unat threshold \<le> Suc 0 + i))) [0..<length ts], m2)"
    unfolding m1(4) by auto
  moreover have "[0..<Suc (length ts)] = 0 # map Suc [0..<length ts]"
    by (simp add: upt_conv_Cons map_Suc_upt del: upt_Suc)
  ultimately show ?thesis using m1(1) by (simp add: comp_def)
qed

theorem threshold_exact_in_window_witness:
  "fst (rm_run (V4 7) [5, 6, 7] (ResourceMonitor_new 2 60)) =
     [Some (Inr False), Some (Inr False), Some (Inr True)]"
proof -
  have "fst (rm_run (V4 7) (5 # [6, 7]) (ResourceMonitor_new 2 60)) =
      map (\<lambda>i. Some (Inr (unat (2 :: u64) \<le> i))) [0..<Suc (length [6, 7 :: nat])]"
    by (rule threshold_exact_in_window) (simp_all add: from_secs_def)
  also have "\<dots> = [Some (Inr False), Some (Inr False), Some (Inr True)]"
    by (simp add: upt_rec)
  finally show ?thesis .
qed

end
