(* ===== verification/EgressGuard.thy ===== *)
theory EgressGuard
  imports Text Prelude
begin

text \<open>
  \<open>crates/llm-router/src/egress_guard.rs\<close>: the allowlist, the reserved address ranges
  and the guarded API calls. URL parsing, DNS and HTTP are outside the program: they are the
  fields of the record \<open>net\<close>. A call records the request it sends, if any.
\<close>

section \<open>Reserved addresses\<close>

definition RESERVED_IPV4_PREFIXES :: "(u32 \<times> nat) list" where
  "RESERVED_IPV4_PREFIXES =
     [(0x00000000, 8), (0x0a000000, 8), (0x64400000, 10), (0x7f000000, 8),
      (0xa9fe0000, 16), (0xac100000, 12), (0xc0a80000, 16), (0xc6120000, 15)]"

definition is_reserved_ipv4 :: "u32 \<Rightarrow> bool" where
  "is_reserved_ipv4 addr =
     list_ex (\<lambda>(prefix, mask_len).
        let mask = (if mask_len = 0 then 0 else push_bit (32 - mask_len) (- 1 :: u32))
        in (addr XOR prefix) AND mask = 0) RESERVED_IPV4_PREFIXES"

text \<open>
  The first two 16-bit segments of a V6 address are its upper 32 bits. \<open>to_ipv4_mapped\<close>
  recognises \<open>::ffff:a.b.c.d\<close>.
\<close>

definition high_bytes :: "128 word \<Rightarrow> u32" where
  "high_bytes a = ucast (drop_bit 96 a)"

definition to_ipv4_mapped :: "128 word \<Rightarrow> u32 option" where
  "to_ipv4_mapped a = (if drop_bit 32 a = 0xffff then Some (ucast a) else None)"

fun is_reserved_ip :: "IpAddr \<Rightarrow> bool" where
  "is_reserved_ip (V4 a) = is_reserved_ipv4 a"
| "is_reserved_ip (V6 a) =
     (if a = 1 \<or> a = 0 then True
      else if high_bytes a AND 0xfe000000 = 0xfc000000 then True
      else if high_bytes a AND 0xffc00000 = 0xfe800000 then True
      else case to_ipv4_mapped a of
             Some v4 \<Rightarrow> is_reserved_ipv4 v4
           | None \<Rightarrow> False)"

section \<open>Endpoints\<close>

definition get_allowlist :: "string list" where
  "get_allowlist =
     [''api.deepseek.com'', ''api.anthropic.com'', ''api.openai.com'',
      ''generativelanguage.googleapis.com'', ''cdn.openai.com'', ''storage.googleapis.com'',
      ''api.groq.com'']"

datatype SecurityError =
    EgressViolation string
  | SsrfDetected IpAddr
  | InvalidEndpoint string
  | TransportFailure string

record url =
  host_str :: "string option"
  url_port :: "u16 option"

record http_request =
  req_endpoint :: string
  req_headers :: "(string \<times> string) list"
  req_body :: string

datatype http_reply = SendFailed string | BodyFailed u16 string | Replied u16 string

record net =
  url_parse :: "string \<Rightarrow> (string, url) rresult"
  lookup_host :: "string \<Rightarrow> u16 \<Rightarrow> (string, IpAddr list) rresult"
  http_send :: "http_request \<Rightarrow> http_reply"
  show_status :: "u16 \<Rightarrow> string"

definition validate_endpoint :: "net \<Rightarrow> string \<Rightarrow> (SecurityError, unit) rresult" where
  "validate_endpoint n endpoint =
     (case url_parse n endpoint of
        Inl e \<Rightarrow> Inl (InvalidEndpoint e)
      | Inr u \<Rightarrow>
          (case host_str u of
             None \<Rightarrow> Inl (InvalidEndpoint ''URL has no host component'')
           | Some host \<Rightarrow>
               if host \<notin> set get_allowlist then Inl (EgressViolation endpoint) else Inr ()))"

section \<open>Guarded calls\<close>

text \<open>
  The checks before the request: the endpoint, then one DNS lookup whose addresses must all be
  outside the reserved ranges.
\<close>

definition resolve_checked :: "net \<Rightarrow> string \<Rightarrow> (SecurityError, unit) rresult" where
  "resolve_checked n endpoint =
     (case validate_endpoint n endpoint of
        Inl e \<Rightarrow> Inl e
      | Inr _ \<Rightarrow>
          (case url_parse n endpoint of
             Inl e \<Rightarrow> Inl (InvalidEndpoint e)
           | Inr u \<Rightarrow>
               let host = (case host_str u of Some h \<Rightarrow> h | None \<Rightarrow> []);
                   port = (case url_port u of Some p \<Rightarrow> p | None \<Rightarrow> 443)
               in case lookup_host n host port of
                    Inl e \<Rightarrow> Inl (TransportFailure e)
                  | Inr addrs \<Rightarrow>
                      (case find is_reserved_ip addrs of
                         Some ip \<Rightarrow> Inl (SsrfDetected ip)
                       | None \<Rightarrow> Inr ())))"

definition is_success :: "u16 \<Rightarrow> bool" where
  "is_success s \<longleftrightarrow> 200 \<le> s \<and> s < 300"

definition finish_call :: "net \<Rightarrow> http_reply \<Rightarrow> (SecurityError, string) rresult" where
  "finish_call n r =
     (case r of
        SendFailed e \<Rightarrow> Inl (TransportFailure e)
      | BodyFailed s e \<Rightarrow> Inl (TransportFailure e)
      | Replied s body \<Rightarrow>
          if \<not> is_success s then Inl (TransportFailure (''remote server returned status '' @ show_status n s)) else Inr body)"

definition secure_cloud_api_call ::
  "net \<Rightarrow> string \<Rightarrow> string \<Rightarrow> (SecurityError, string) rresult \<times> http_request option" where
  "secure_cloud_api_call n endpoint payload =
     (case resolve_checked n endpoint of
        Inl e \<Rightarrow> (Inl e, None)
      | Inr _ \<Rightarrow>
          let req = \<lparr>req_endpoint = endpoint,
                     req_headers = [(''Content-Type'', ''application/json''), (''Cache-Control'', ''ephemeral'')],
                     req_body = payload\<rparr>
          in (finish_call n (http_send n req), Some req))"

definition with_default_headers :: "(string \<times> string) list \<Rightarrow> (string \<times> string) list" where
  "with_default_headers extra =
     extra
     @ (if list_ex (\<lambda>(k, _). eq_ignore_ascii_case k ''content-type'') extra then []
        else [(''Content-Type'', ''application/json'')])
     @ (if list_ex (\<lambda>(k, _). eq_ignore_ascii_case k ''cache-control'') extra then []
        else [(''Cache-Control'', ''ephemeral'')])"

definition secure_cloud_api_call_with_headers ::
  "net \<Rightarrow> string \<Rightarrow> string \<Rightarrow> (string \<times> string) list
     \<Rightarrow> (SecurityError, string) rresult \<times> http_request option" where
  "secure_cloud_api_call_with_headers n endpoint payload extra_headers =
     (case resolve_checked n endpoint of
        Inl e \<Rightarrow> (Inl e, None)
      | Inr _ \<Rightarrow>
          let req = \<lparr>req_endpoint = endpoint, req_headers = with_default_headers extra_headers,
                     req_body = payload\<rparr>
          in (finish_call n (http_send n req), Some req))"

section \<open>Masks and ranges\<close>

text \<open>A masked comparison of the upper bits is equality of the quotients.\<close>

lemma masked_zero_iff: "x AND push_bit k (- 1) = 0 \<longleftrightarrow> drop_bit k x = 0" for x :: u32
proof
  assume a: "x AND push_bit k (- 1) = 0"
  show "drop_bit k x = 0"
  proof (rule bit_word_eqI)
    fix n assume "n < LENGTH(32)"
    have "\<not> bit (x AND push_bit k (- 1)) (k + n)" using a by simp
    then show "bit (drop_bit k x) n = bit (0 :: u32) n" by (auto simp: bit_simps dest: bit_imp_le_length)
  qed
next
  assume a: "drop_bit k x = 0"
  show "x AND push_bit k (- 1) = 0"
  proof (rule bit_word_eqI)
    fix n assume "n < LENGTH(32)"
    have "\<not> bit (drop_bit k x) (n - k)" using a by simp
    then show "bit (x AND push_bit k (- 1)) n = bit (0 :: u32) n"
      by (cases "k \<le> n") (auto simp: bit_simps)
  qed
qed

lemma masked_eq_iff:
  "(a XOR p) AND push_bit k (- 1) = 0 \<longleftrightarrow> unat a div 2 ^ k = unat p div 2 ^ k" for a p :: u32
proof -
  have "(a XOR p) AND push_bit k (- 1) = 0 \<longleftrightarrow> drop_bit k (a XOR p) = 0" by (rule masked_zero_iff)
  also have "drop_bit k (a XOR p) = drop_bit k a XOR drop_bit k p" by (rule drop_bit_xor)
  also have "drop_bit k a XOR drop_bit k p = 0 \<longleftrightarrow> drop_bit k a = drop_bit k p"
    by (auto simp: bit_eq_iff bit_simps)
  also have "\<dots> \<longleftrightarrow> unat (drop_bit k a) = unat (drop_bit k p)" by (rule word_unat_eq_iff)
  also have "\<dots> \<longleftrightarrow> drop_bit k (unat a) = drop_bit k (unat p)"
    by (simp only: unsigned_drop_bit_eq take_bit_nat_eq_self unsigned_less)
  also have "\<dots> \<longleftrightarrow> unat a div 2 ^ k = unat p div 2 ^ k" by (simp only: drop_bit_eq_div)
  finally show ?thesis .
qed

definition octets :: "nat \<Rightarrow> nat \<Rightarrow> nat \<Rightarrow> nat \<Rightarrow> nat" where
  "octets a b c d = ((a * 256 + b) * 256 + c) * 256 + d"

lemma div_interval: "x div (2 :: nat) ^ k = q \<longleftrightarrow> x \<in> {q * 2 ^ k .. q * 2 ^ k + (2 ^ k - 1)}"
proof -
  have p: "0 < (2 :: nat) ^ k" by simp
  have "x div 2 ^ k = q \<longleftrightarrow> q * 2 ^ k \<le> x \<and> x < Suc q * 2 ^ k"
    using p by (metis div_nat_eqI dividend_less_times_div div_times_less_eq_dividend mult.commute mult_Suc_right add.commute mult_Suc)
  also have "\<dots> \<longleftrightarrow> x \<in> {q * 2 ^ k .. q * 2 ^ k + (2 ^ k - 1)}" using p by (simp only: atLeastAtMost_iff mult_Suc) arith
  finally show ?thesis .
qed

lemma reserved_ipv4_div:
  "is_reserved_ipv4 x =
     list_ex (\<lambda>(p, m). unat x div 2 ^ (32 - m) = unat p div 2 ^ (32 - m)) RESERVED_IPV4_PREFIXES"
proof -
  have z: "unat y div 2 ^ 32 = 0" for y :: u32 using unat_u32_lt [of y] by simp
  have "(let mask = (if m = 0 then 0 else push_bit (32 - m) (- 1 :: u32)) in (x XOR p) AND mask = 0) =
      (unat x div 2 ^ (32 - m) = unat p div 2 ^ (32 - m))" for p m
  proof (cases "m = 0")
    case False
    then show ?thesis by (simp only: Let_def if_False masked_eq_iff)
  qed (use z [of x] z [of p] in simp)
  then show ?thesis unfolding is_reserved_ipv4_def by presburger
qed

lemma reserved_ipv4_ranges:
  "is_reserved_ipv4 x \<longleftrightarrow>
     unat x \<in> {octets 0 0 0 0 .. octets 0 255 255 255} \<or> unat x \<in> {octets 10 0 0 0 .. octets 10 255 255 255}
   \<or> unat x \<in> {octets 100 64 0 0 .. octets 100 127 255 255} \<or> unat x \<in> {octets 127 0 0 0 .. octets 127 255 255 255}
   \<or> unat x \<in> {octets 169 254 0 0 .. octets 169 254 255 255} \<or> unat x \<in> {octets 172 16 0 0 .. octets 172 31 255 255}
   \<or> unat x \<in> {octets 192 168 0 0 .. octets 192 168 255 255} \<or> unat x \<in> {octets 198 18 0 0 .. octets 198 19 255 255}"
  unfolding reserved_ipv4_div RESERVED_IPV4_PREFIXES_def octets_def
  by (simp add: div_interval)

lemma resolve_checked_Ok:
  assumes "resolve_checked n endpoint = Inr ()"
  shows "\<exists>u h addrs. url_parse n endpoint = Inr u \<and> host_str u = Some h \<and> h \<in> set get_allowlist
       \<and> lookup_host n h (case url_port u of Some p \<Rightarrow> p | None \<Rightarrow> 443) = Inr addrs
       \<and> (\<forall>ip \<in> set addrs. \<not> is_reserved_ip ip)"
  using assms
  by (auto simp: resolve_checked_def validate_endpoint_def Let_def find_None_iff
      split: sum.splits option.splits if_splits)

section \<open>Properties\<close>

text \<open>
  The bit masks implement the address ranges. An IPv4 address is reserved exactly when its
  number lies in one of the ranges 0/8, 10/8, 100.64/10, 127/8, 169.254/16, 172.16/12,
  192.168/16 and 198.18/15.
\<close>

theorem reserved_ipv4_iff:
  "is_reserved_ipv4 x \<longleftrightarrow>
     unat x \<in> {octets 0 0 0 0 .. octets 0 255 255 255} \<union> {octets 10 0 0 0 .. octets 10 255 255 255}
       \<union> {octets 100 64 0 0 .. octets 100 127 255 255} \<union> {octets 127 0 0 0 .. octets 127 255 255 255}
       \<union> {octets 169 254 0 0 .. octets 169 254 255 255} \<union> {octets 172 16 0 0 .. octets 172 31 255 255}
       \<union> {octets 192 168 0 0 .. octets 192 168 255 255} \<union> {octets 198 18 0 0 .. octets 198 19 255 255}"
  unfolding reserved_ipv4_ranges Un_iff by blast

text \<open>
  C20: Nothing leaves without passing the firewall. If a guarded call, with or without extra
  headers, sends a request, then the request goes to the given endpoint, whose host is on the
  allowlist, and every address the guard resolved for it is outside the reserved ranges; if the
  host is not on the allowlist no request is sent and the call is an error.
\<close>

theorem egress_only_allowlisted:
  assumes "snd (secure_cloud_api_call n endpoint body) = Some req
         \<or> snd (secure_cloud_api_call_with_headers n endpoint body hs) = Some req"
  shows "req_endpoint req = endpoint \<and>
       (\<exists>u h addrs. url_parse n endpoint = Inr u \<and> host_str u = Some h \<and> h \<in> set get_allowlist
          \<and> lookup_host n h (case url_port u of Some p \<Rightarrow> p | None \<Rightarrow> 443) = Inr addrs
          \<and> (\<forall>ip \<in> set addrs. \<not> is_reserved_ip ip))"
proof -
  have "resolve_checked n endpoint = Inr () \<and> req_endpoint req = endpoint"
    using assms
    by (auto simp: secure_cloud_api_call_def secure_cloud_api_call_with_headers_def Let_def
        split: sum.splits)
  with resolve_checked_Ok show ?thesis by blast
qed

definition example_net :: net where
  "example_net =
     \<lparr>url_parse = (\<lambda>s. Inr \<lparr>host_str = Some ''api.groq.com'', url_port = None\<rparr>),
      lookup_host = (\<lambda>h p. Inr [V4 0x08080808]),
      http_send = (\<lambda>r. Replied 200 ''ok''), show_status = (\<lambda>s. dec (unat s))\<rparr>"

theorem egress_only_allowlisted_witness:
  "\<exists>req. snd (secure_cloud_api_call example_net ''https://api.groq.com/v1'' ''{}'') = Some req
     \<and> req_endpoint req = ''https://api.groq.com/v1''"
proof -
  have "resolve_checked example_net ''https://api.groq.com/v1'' = Inr ()"
    by (simp add: resolve_checked_def validate_endpoint_def example_net_def get_allowlist_def
        reserved_ipv4_ranges octets_def)
  then have "\<exists>req. snd (secure_cloud_api_call example_net ''https://api.groq.com/v1'' ''{}'') = Some req"
    by (simp add: secure_cloud_api_call_def Let_def)
  then show ?thesis using egress_only_allowlisted by blast
qed

end
