(* ===== verification/WriteGate.thy ===== *)
theory WriteGate
  imports Json
begin

text \<open>
  \<open>crates/llm-router/src/write_discipline.rs\<close>: the gate that commits data only for task
  states that allow it, its audit trail and the retrying write. The fingerprint (a SHA-256 of
  the printed value) and the identifier of an attempt (task and clock) are arguments; the
  status source is the sequence of its successive answers, and the jitter the sequence of
  draws of \<open>gen_range\<close>, each at most its bound.
\<close>

datatype TaskStatus =
    Pending | InProgress | VerifiedSuccess | VerifiedFailure | PartialSuccess
  | RetryableError | NonRetryableError | Cancelled

fun allows_commit :: "TaskStatus \<Rightarrow> bool" where
  "allows_commit VerifiedSuccess = True"
| "allows_commit PartialSuccess = True"
| "allows_commit _ = False"

fun allows_retry :: "TaskStatus \<Rightarrow> bool" where
  "allows_retry RetryableError = True"
| "allows_retry InProgress = True"
| "allows_retry Pending = True"
| "allows_retry _ = False"

datatype WriteDisciplineError =
    CommitRejected TaskStatus
  | IntegrityCheckFailed string
  | MaxRetriesExhausted u32
  | SerializationError string

datatype WriteOutcome = Committed | Rejected | Retried | FailedPermanent

record WriteAttempt =
  attempt_id :: string
  wa_timestamp :: instant
  task_status :: TaskStatus
  outcome :: WriteOutcome
  data_fingerprint :: string
  error_status :: "TaskStatus option"

record WriteGate =
  audit_trail :: "WriteAttempt list"
  wg_max_retries :: u32

definition WriteGate_new :: "u32 \<Rightarrow> WriteGate" where
  "WriteGate_new n = \<lparr>audit_trail = [], wg_max_retries = n\<rparr>"

definition record_attempt :: "WriteAttempt \<Rightarrow> WriteGate \<Rightarrow> WriteGate" where
  "record_attempt a g = g\<lparr>audit_trail := audit_trail g @ [a]\<rparr>"

definition validate_integrity :: "json \<Rightarrow> (WriteDisciplineError, unit) rresult" where
  "validate_integrity d = (if d = JNull then Inl (IntegrityCheckFailed ''Data is null'') else Inr ())"

text \<open>The recorded error message is determined by the status it prints.\<close>

definition commit ::
  "(json \<Rightarrow> string) \<Rightarrow> instant \<Rightarrow> string \<Rightarrow> TaskStatus \<Rightarrow> json \<Rightarrow> WriteGate
     \<Rightarrow> (WriteDisciplineError, unit) rresult \<times> WriteGate" where
  "commit fingerprint now ident status d g =
     (if \<not> allows_commit status
      then (Inl (CommitRejected status),
            record_attempt \<lparr>attempt_id = ident, wa_timestamp = now, task_status = status, outcome = Rejected,
                            data_fingerprint = fingerprint d, error_status = Some status\<rparr> g)
      else case validate_integrity d of
             Inl e \<Rightarrow> (Inl e, g)
           | Inr _ \<Rightarrow>
               (Inr (),
                record_attempt \<lparr>attempt_id = ident, wa_timestamp = now, task_status = status,
                                outcome = Committed, data_fingerprint = fingerprint d, error_status = None\<rparr> g))"

definition saturating_pow2 :: "u32 \<Rightarrow> u64" where
  "saturating_pow2 n = (if unat n < 64 then push_bit (unat n) 1 else - 1)"

definition jittered_backoff :: "u64 \<Rightarrow> u32 \<Rightarrow> u64" where
  "jittered_backoff draw attempt =
     (let capped = min (saturating_mul 100 (saturating_pow2 attempt)) 5000
      in saturating_add capped (min draw (capped div 2)))"

text \<open>
  The loop over \<open>0..=max_retries\<close>: \<open>statuses\<close> are the answers still to come of
  \<open>compute_status\<close>; the clock readings are the attempt numbers' times \<open>clock\<close>.
\<close>

fun write_loop ::
  "(json \<Rightarrow> string) \<Rightarrow> (nat \<Rightarrow> instant) \<Rightarrow> (nat \<Rightarrow> string) \<Rightarrow> json \<Rightarrow> (nat \<Rightarrow> TaskStatus) \<Rightarrow> nat list
     \<Rightarrow> TaskStatus \<Rightarrow> WriteGate \<Rightarrow> (WriteDisciplineError, unit) rresult \<times> WriteGate" where
  "write_loop fp clock ident d compute [] status g = (Inl (MaxRetriesExhausted (wg_max_retries g)), g)"
| "write_loop fp clock ident d compute (attempt # rest) status g =
     (case commit fp (clock attempt) (ident attempt) status d g of
        (Inr _, g1) \<Rightarrow> (Inr (), g1)
      | (Inl (CommitRejected s), g1) \<Rightarrow>
          if allows_retry status then write_loop fp clock ident d compute rest (compute attempt) g1
          else (Inl (CommitRejected s), g1)
      | (Inl e, g1) \<Rightarrow> (Inl e, g1))"

definition self_healing_write ::
  "(json \<Rightarrow> string) \<Rightarrow> (nat \<Rightarrow> instant) \<Rightarrow> (nat \<Rightarrow> string) \<Rightarrow> TaskStatus \<Rightarrow> json \<Rightarrow> (nat \<Rightarrow> TaskStatus)
     \<Rightarrow> WriteGate \<Rightarrow> (WriteDisciplineError, unit) rresult \<times> WriteGate" where
  "self_healing_write fp clock ident initial_status d compute g =
     write_loop fp clock ident d compute [0..<Suc (unat (wg_max_retries g))] initial_status g"

section \<open>The sequence of statuses\<close>

definition status_at :: "TaskStatus \<Rightarrow> (nat \<Rightarrow> TaskStatus) \<Rightarrow> nat \<Rightarrow> TaskStatus" where
  "status_at s compute i = (case i of 0 \<Rightarrow> s | Suc j \<Rightarrow> compute j)"

definition commits :: "WriteAttempt list \<Rightarrow> nat" where
  "commits as = length (filter (\<lambda>a. outcome a = Committed) as)"

lemma commit_or_retry: "allows_commit s \<Longrightarrow> \<not> allows_retry s"
  by (cases s) simp_all

lemma commit_gate [simp]: "wg_max_retries (snd (commit fp now ident s d g)) = wg_max_retries g"
  by (simp add: commit_def record_attempt_def validate_integrity_def)

lemma commits_commit:
  "commits (audit_trail (snd (commit fp now ident s d g))) =
     commits (audit_trail g) + (if allows_commit s \<and> d \<noteq> JNull then 1 else 0)"
  by (simp add: commit_def record_attempt_def validate_integrity_def commits_def)

definition final_result :: "u32 \<Rightarrow> json \<Rightarrow> TaskStatus \<Rightarrow> (WriteDisciplineError, unit) rresult" where
  "final_result n d s =
     (if allows_retry s then Inl (MaxRetriesExhausted n)
      else if \<not> allows_commit s then Inl (CommitRejected s)
      else if d = JNull then Inl (IntegrityCheckFailed ''Data is null'')
      else Inr ())"

text \<open>
  Over the attempts \<open>i, i + 1, ..., i + m\<close> the loop stops at the first status that is not
  retryable, or at the last one.
\<close>

lemma write_loop_spec:
  assumes "\<forall>j < k. allows_retry (st (i + j))" "k \<le> m" "k < m \<Longrightarrow> \<not> allows_retry (st (i + k))"
    and "\<And>j. compute j = st (Suc j)"
  shows "fst (write_loop fp clock ident d compute [i..<Suc (i + m)] (st i) g)
           = final_result (wg_max_retries g) d (st (i + k))
       \<and> commits (audit_trail (snd (write_loop fp clock ident d compute [i..<Suc (i + m)] (st i) g)))
           = commits (audit_trail g) + (if allows_commit (st (i + k)) \<and> d \<noteq> JNull then 1 else 0)"
  using assms(1-3)
proof (induction k arbitrary: i m g)
  case 0
  have up: "[i..<Suc (i + m)] = i # [Suc i..<Suc (i + m)]" by (simp add: upt_conv_Cons del: upt_Suc)
  have m: "allows_retry (st i) \<Longrightarrow> m = 0" using 0(3) by (cases m) auto
  show ?case
    unfolding up using m commit_or_retry [of "st i"]
    by (cases "allows_commit (st i)")
      (auto simp: commit_def validate_integrity_def final_result_def record_attempt_def commits_def
        simp del: upt_Suc)
next
  case (Suc k)
  obtain m' where m': "m = Suc m'" using Suc.prems(2) by (cases m) auto
  have up: "[i..<Suc (i + m)] = i # [Suc i..<Suc (Suc i + m')]"
    using m' by (simp add: upt_conv_Cons del: upt_Suc)
  have r: "allows_retry (st i)" using Suc.prems(1) by (metis add.right_neutral zero_less_Suc)
  then have nc: "\<not> allows_commit (st i)" using commit_or_retry by blast
  let ?g = "snd (commit fp (clock i) (ident i) (st i) d g)"
  have "write_loop fp clock ident d compute [i..<Suc (i + m)] (st i) g =
      write_loop fp clock ident d compute [Suc i..<Suc (Suc i + m')] (st (Suc i)) ?g"
    unfolding up using r nc by (simp add: commit_def assms(4) del: upt_Suc)
  moreover have "\<forall>j < k. allows_retry (st (Suc i + j))" using Suc.prems(1) by auto
  moreover have "k \<le> m'" "k < m' \<Longrightarrow> \<not> allows_retry (st (Suc i + k))" using Suc.prems(2,3) m' by auto
  ultimately show ?case
    using Suc.IH [of "Suc i" m' ?g] nc by (simp add: commits_commit del: upt_Suc)
qed

section \<open>Properties\<close>

text \<open>
  The retrying write commits at most once and only for a status that allows it. If the
  first \<open>k\<close> statuses (the initial one, then the answers of the status source) are retryable
  and either the next one is not or the attempts are used up, the result and the number of
  commits recorded in the audit trail are determined by that status and by the data alone;
  in particular a retryable status at the last attempt ends in \<open>MaxRetriesExhausted\<close>
  whatever the status source answers next.
\<close>

theorem self_healing_write_spec:
  assumes "\<forall>j < k. allows_retry (status_at s compute j)" "k \<le> unat (wg_max_retries g)"
    and "k < unat (wg_max_retries g) \<Longrightarrow> \<not> allows_retry (status_at s compute k)"
  shows "fst (self_healing_write fp clock ident s d compute g)
           = final_result (wg_max_retries g) d (status_at s compute k)
       \<and> commits (audit_trail (snd (self_healing_write fp clock ident s d compute g)))
           = commits (audit_trail g) + (if allows_commit (status_at s compute k) \<and> d \<noteq> JNull then 1 else 0)"
proof -
  have "compute j = status_at s compute (Suc j)" for j by (simp add: status_at_def)
  from write_loop_spec [of k "status_at s compute" 0 "unat (wg_max_retries g)" compute, OF _ assms(2) _ this]
    assms(1,3)
  show ?thesis by (simp add: self_healing_write_def status_at_def [of s compute 0] del: upt_Suc)
qed

theorem self_healing_write_spec_witness:
  "fst (self_healing_write (\<lambda>_. []) (\<lambda>_. 0) (\<lambda>_. []) InProgress (JBool True)
     (\<lambda>i. if i = 0 then Pending else VerifiedSuccess) (WriteGate_new 3)) = Inr ()"
proof -
  let ?c = "\<lambda>i :: nat. if i = 0 then Pending else VerifiedSuccess"
  have "\<forall>j < 2. allows_retry (status_at InProgress ?c j)"
    by (auto simp: status_at_def less_2_cases_iff)
  moreover have "status_at InProgress ?c 2 = VerifiedSuccess" by (simp add: status_at_def split: nat.split)
  ultimately show ?thesis
    using self_healing_write_spec [of 2 InProgress ?c "WriteGate_new 3" "\<lambda>_. []" "\<lambda>_. 0" "\<lambda>_. []" "JBool True"]
    by (simp add: WriteGate_new_def final_result_def)
qed

end
