(* ===== verification/Payload.thy ===== *)
theory Payload
  imports Text F64
begin

text \<open>
  The canonical payload of \<open>crates/interfaces/src/lib.rs\<close> (\<open>IntermediatePayload\<close>,
  \<open>canonical_key\<close>) and the request key of \<open>crates/llm-router/src/coordinator.rs\<close>
  (\<open>compute_request_canonical_key\<close>). Deserialization (\<open>from_llm_output\<close>, with its
  regular expression and two JSON parsers) and SHA-256 are arguments. Texts are ASCII.
\<close>

section \<open>Payloads and keys\<close>

record IntermediatePayload =
  network_id :: string
  task_type :: string
  max_gas_limit :: u32
  confidence_score :: f64
  source_url :: string

definition canonical_key :: "IntermediatePayload \<Rightarrow> string" where
  "canonical_key p =
     ''NETWORK:'' @ trim (to_lowercase (network_id p)) @ '':TASK:'' @ trim (to_lowercase (task_type p))
     @ '':GAS:'' @ dec (unat (max_gas_limit p))"

definition compute_request_canonical_key ::
  "(string \<Rightarrow> IntermediatePayload option) \<Rightarrow> (string \<Rightarrow> string) \<Rightarrow> string \<Rightarrow> string \<Rightarrow> string" where
  "compute_request_canonical_key from_llm_output sha256 tenant prompt =
     (let tenant_prefix = ''tenant:'' @ tenant @ '':''
      in case from_llm_output prompt of
           Some p \<Rightarrow> tenant_prefix @ canonical_key p
         | None \<Rightarrow> tenant_prefix @ ''sha256:'' @ sha256 prompt)"

text \<open>What the hexadecimal SHA-256 digest looks like: 64 characters, none of them \<open>N\<close> or a colon.\<close>

definition hex_digest :: "(string \<Rightarrow> string) \<Rightarrow> bool" where
  "hex_digest sha \<longleftrightarrow> (\<forall>s. length (sha s) = 64 \<and> set (sha s) \<subseteq> set ''0123456789abcdef'')"

section \<open>Characters of keys\<close>

lemma lower_not_N: "lower c \<noteq> CHR ''N''"
proof (cases "65 \<le> (of_char c :: nat) \<and> (of_char c :: nat) \<le> 90")
  case True
  then have l: "lower c = char_of ((of_char c :: nat) + 32)" by (simp add: lower_def Let_def)
  have "(of_char (lower c) :: nat) = of_char c + 32"
    using True unfolding l by (simp add: of_char_of)
  moreover have "(of_char (CHR ''N'') :: nat) = 78" by simp
  ultimately show ?thesis using True by auto
next
  case False
  then have "lower c = c" by (auto simp: lower_def Let_def)
  moreover have "(of_char (CHR ''N'') :: nat) = 78" by simp
  ultimately show ?thesis using False by auto
qed

lemma no_N_lower: "CHR ''N'' \<notin> set (trim (to_lowercase s))"
proof
  assume "CHR ''N'' \<in> set (trim (to_lowercase s))"
  then have "CHR ''N'' \<in> lower ` set s" using set_trim [of "to_lowercase s"] by (auto simp: to_lowercase_def)
  then show False by (metis imageE lower_not_N)
qed

lemma length_dec: "n < 10 ^ k \<Longrightarrow> 0 < k \<Longrightarrow> length (dec n) \<le> k"
proof (induction k arbitrary: n)
  case (Suc k)
  show ?case
  proof (cases "n < 10")
    case True
    then show ?thesis by (subst dec.simps) simp
  next
    case False
    then have "0 < k" using Suc.prems(1) by (cases k) auto
    moreover have "n div 10 < 10 ^ k" using Suc.prems(1) by (simp add: less_mult_imp_div_less mult.commute)
    ultimately show ?thesis using Suc.IH [of "n div 10"] False by (subst dec.simps) simp
  qed
qed simp

lemma length_dec_u32: "length (dec (unat (g :: u32))) \<le> 10"
  using unat_u32_lt [of g] by (intro length_dec) simp_all

definition key_suffix :: "(string \<Rightarrow> IntermediatePayload option) \<Rightarrow> (string \<Rightarrow> string) \<Rightarrow> string \<Rightarrow> string" where
  "key_suffix from_llm sha prompt =
     (case from_llm prompt of Some p \<Rightarrow> canonical_key p | None \<Rightarrow> ''sha256:'' @ sha prompt)"

lemma request_key_eq:
  "compute_request_canonical_key f sha t p = ''tenant:'' @ t @ '':'' @ key_suffix f sha p"
  by (simp add: compute_request_canonical_key_def key_suffix_def split: option.split)

text \<open>
  No key suffix is a proper suffix of another: the letter \<open>N\<close> occurs only at the head of a
  structured one, and the last colon is within 11 characters of its end but 65 from the end of
  a hashed one.
\<close>

lemma canonical_key_tail_no_N: "CHR ''N'' \<notin> set (tl (canonical_key p))"
proof -
  have "CHR ''N'' \<notin> set (dec (unat (max_gas_limit p)))" using set_dec by fastforce
  then show ?thesis using no_N_lower by (simp add: canonical_key_def)
qed

lemma key_suffix_not_proper:
  assumes "hex_digest sha"
  shows "\<not> (\<exists>u. u \<noteq> [] \<and> key_suffix f sha p = u @ key_suffix f sha q)"
proof
  assume "\<exists>u. u \<noteq> [] \<and> key_suffix f sha p = u @ key_suffix f sha q"
  then obtain c u where e: "key_suffix f sha p = (c # u) @ key_suffix f sha q" by (metis neq_Nil_conv)
  have h: "length (sha s) = 64" "set (sha s) \<subseteq> set ''0123456789abcdef''" for s
    using assms unfolding hex_digest_def by blast+
  have noN: "CHR ''N'' \<notin> set (tl (key_suffix f sha p))"
    using canonical_key_tail_no_N h(2) [of p] by (auto simp: key_suffix_def split: option.split)
  show False
  proof (cases "f q")
    case (Some y)
    then have "CHR ''N'' \<in> set (key_suffix f sha q)" by (simp add: key_suffix_def canonical_key_def)
    with e noN show False by simp
  next
    case None
    then have q: "key_suffix f sha q = ''sha256:'' @ sha q" by (simp add: key_suffix_def)
    show False
    proof (cases "f p")
      case None
      then have "length (key_suffix f sha p) = 71" "length (key_suffix f sha q) = 71"
        using h(1) q by (simp_all add: key_suffix_def)
      with e show False by simp
    next
      case (Some y)
      let ?d = "dec (unat (max_gas_limit y))"
      obtain v where v: "key_suffix f sha p = v @ CHR '':'' # ?d"
        using Some by (simp add: key_suffix_def canonical_key_def)
      have "rev (sha q) = take 64 (rev (key_suffix f sha p))" using e q h(1) [of q] by simp
      also have "\<dots> = take 64 (rev ?d @ CHR '':'' # rev v)" using v by simp
      finally have "CHR '':'' \<in> set (rev (sha q))"
        using length_dec_u32 [of "max_gas_limit y"] by (simp add: take_Cons' )
      with h(2) [of q] show False by auto
    qed
  qed
qed

lemma request_key_tenant:
  assumes "hex_digest sha"
    and "compute_request_canonical_key f sha t1 p1 = compute_request_canonical_key f sha t2 p2"
  shows "t1 = t2"
proof (rule ccontr)
  assume ne: "t1 \<noteq> t2"
  have eq: "t1 @ CHR '':'' # key_suffix f sha p1 = t2 @ CHR '':'' # key_suffix f sha p2"
    using assms(2) by (simp add: request_key_eq)
  from eq obtain w where "t1 = t2 @ w \<and> w @ CHR '':'' # key_suffix f sha p1 = CHR '':'' # key_suffix f sha p2
      \<or> t1 @ w = t2 \<and> CHR '':'' # key_suffix f sha p1 = w @ CHR '':'' # key_suffix f sha p2"
    by (auto simp: append_eq_append_conv2)
  then consider (left) "w \<noteq> []" "w @ CHR '':'' # key_suffix f sha p1 = CHR '':'' # key_suffix f sha p2"
    | (right) "w \<noteq> []" "CHR '':'' # key_suffix f sha p1 = w @ CHR '':'' # key_suffix f sha p2"
    using ne by auto
  then show False
  proof cases
    case left
    then have "key_suffix f sha p2 = (tl w @ '':'') @ key_suffix f sha p1" by (cases w) auto
    with key_suffix_not_proper [OF assms(1), of f p2 p1] show False by blast
  next
    case right
    then have "key_suffix f sha p1 = (tl w @ '':'') @ key_suffix f sha p2" by (cases w) auto
    with key_suffix_not_proper [OF assms(1), of f p1 p2] show False by blast
  qed
qed

section \<open>Properties\<close>

text \<open>
  Request keys isolate tenants. Two requests with the same cache and single-flight key come
  from the same tenant, whatever the tenants' names and the prompts are, colons included.
\<close>

theorem request_key_tenant_isolation:
  assumes "hex_digest sha"
    and "compute_request_canonical_key f sha t1 p1 = compute_request_canonical_key f sha t2 p2"
  shows "t1 = t2"
  using assms by (rule request_key_tenant)

theorem request_key_tenant_isolation_witness:
  "compute_request_canonical_key (\<lambda>_. None) (\<lambda>_. replicate 64 (CHR ''0'')) ''a'' ''hi''
     \<noteq> compute_request_canonical_key (\<lambda>_. None) (\<lambda>_. replicate 64 (CHR ''0'')) ''a:b'' ''hi''"
proof -
  have "hex_digest (\<lambda>_. replicate 64 (CHR ''0''))" by (simp add: hex_digest_def)
  from request_key_tenant_isolation [OF this, of "\<lambda>_. None" "''a''" "''hi''" "''a:b''" "''hi''"]
  show ?thesis by auto
qed

end
