(* ===== verification/Orchestrator.thy ===== *)
theory Orchestrator
  imports CircuitBreaker Consensus FinOps Payload
begin

text \<open>
  The orchestrator of \<open>crates/llm-router/src/coordinator.rs\<close>: dispatch of a request to the
  providers behind their circuit breakers, adjudication by the consensus engine, the local
  fallback node, refunds, and what is cached and billed.

  The providers' answers are an argument (\<open>call\<close>: the times the breaker is asked and told,
  and the answer), as are deserialization, PII masking, the order in which the calls complete
  (\<open>done_order\<close>), the iteration order of the vote table and Redis. The temperature jitter
  only changes the request a provider sees. Spawned tasks are the lists \<open>cache_writes\<close>,
  \<open>proofs\<close> and \<open>billed\<close> of the state. The fallback node is the build without the
  \<open>wasi-nn\<close> feature, which answers with a constant.
\<close>

section \<open>Node results\<close>

definition TMR_MIN_AGREEMENT :: nat where
  "TMR_MIN_AGREEMENT = 2"

datatype TmrNodeError =
    HttpForbidden | HttpRateLimited | NodeTimeout | CircuitBreakerOpen
  | NodeServerError u16 | ParseError string | NodeNetworkError string

fun should_trigger_fallback :: "TmrNodeError \<Rightarrow> bool" where
  "should_trigger_fallback HttpForbidden = True"
| "should_trigger_fallback HttpRateLimited = True"
| "should_trigger_fallback NodeTimeout = True"
| "should_trigger_fallback CircuitBreakerOpen = True"
| "should_trigger_fallback _ = False"

definition from_http_status :: "u16 \<Rightarrow> TmrNodeError option" where
  "from_http_status s =
     (if s = 403 then Some HttpForbidden else if s = 429 then Some HttpRateLimited
      else if 500 \<le> s \<and> s \<le> 599 then Some (NodeServerError s) else None)"

record TmrNodeResult =
  nr_provider_id :: string
  nr_provider_name :: string
  nr_output :: "string option"
  nr_error :: "TmrNodeError option"
  nr_duration_ms :: u64
  nr_fallback_triggered :: bool

record FallbackNodeResult =
  fb_output :: "string option"
  fb_error :: "string option"
  fb_duration_ms :: u64
  fb_model_id :: string

record TmrConsensusResult =
  majority_output :: "string option"
  agreement_count :: nat
  total_nodes :: nat
  fallback_activated :: bool
  node_results :: "TmrNodeResult list"
  fallback_result :: "FallbackNodeResult option"
  consensus_achieved :: bool
  total_duration_ms :: u64
  cache_hit :: bool

section \<open>The fallback node\<close>

datatype SlmExecutionMode = SlmActive | SlmLazy

definition SlmExecutionMode_from_str_lossy :: "string \<Rightarrow> SlmExecutionMode" where
  "SlmExecutionMode_from_str_lossy s = (if to_lowercase s = ''lazy'' then SlmLazy else SlmActive)"

record WasiNnEndpoint =
  ep_model_id :: string
  ep_model_path :: string
  ep_encoding :: string
  inference_timeout_ms :: u64
  max_input_tokens :: usize
  max_output_tokens :: usize
  ep_enabled :: bool

definition WasiNnEndpoint_new :: "string \<Rightarrow> string \<Rightarrow> WasiNnEndpoint" where
  "WasiNnEndpoint_new mid path =
     \<lparr>ep_model_id = mid, ep_model_path = path, ep_encoding = ''Ggml'', inference_timeout_ms = 30000,
      max_input_tokens = 4096, max_output_tokens = 2048, ep_enabled = True\<rparr>"

definition ep_disabled :: "WasiNnEndpoint \<Rightarrow> WasiNnEndpoint" where
  "ep_disabled e = e\<lparr>ep_enabled := False\<rparr>"

record SlmNodeConfig =
  slm_model_id :: string
  slm_model_path :: string
  execution_mode :: SlmExecutionMode

definition to_wasi_nn_endpoint :: "SlmNodeConfig \<Rightarrow> WasiNnEndpoint" where
  "to_wasi_nn_endpoint c =
     (let e = WasiNnEndpoint_new (slm_model_id c) (slm_model_path c)
      in if execution_mode c \<noteq> SlmActive then ep_disabled e else e)"

record PhysicalFallbackNode =
  fn_endpoint :: WasiNnEndpoint
  fn_invocation_count :: u64
  fn_error_count :: u64
  fn_last_invocation :: "instant option"
  fn_force_disabled :: bool

definition PhysicalFallbackNode_new :: "WasiNnEndpoint \<Rightarrow> PhysicalFallbackNode" where
  "PhysicalFallbackNode_new e =
     \<lparr>fn_endpoint = e, fn_invocation_count = 0, fn_error_count = 0, fn_last_invocation = None,
      fn_force_disabled = False\<rparr>"

definition fn_is_available :: "PhysicalFallbackNode \<Rightarrow> bool" where
  "fn_is_available n \<longleftrightarrow> ep_enabled (fn_endpoint n) \<and> \<not> fn_force_disabled n"

definition fn_disable :: "PhysicalFallbackNode \<Rightarrow> PhysicalFallbackNode" where
  "fn_disable n = n\<lparr>fn_force_disabled := True\<rparr>"

definition fn_enable :: "PhysicalFallbackNode \<Rightarrow> PhysicalFallbackNode" where
  "fn_enable n = n\<lparr>fn_force_disabled := False\<rparr>"

datatype permit = Granted | SemaphoreClosed | WaitTimedOut

definition mock_output :: string where
  "mock_output = ''{\"networkId\":\"FALLBACK\",\"taskType\":\"Unknown\",\"maxGasLimit\":0,\"confidenceScore\":0.50,\"sourceUrl\":\"local://wasi-nn-slm\"}''"

definition fn_failure :: "PhysicalFallbackNode \<Rightarrow> u64 \<Rightarrow> string \<Rightarrow> FallbackNodeResult" where
  "fn_failure n ms msg =
     \<lparr>fb_output = None, fb_error = Some msg, fb_duration_ms = ms, fb_model_id = ep_model_id (fn_endpoint n)\<rparr>"

text \<open>\<open>None\<close> is the overflow panic of \<open>max_input_tokens * 4\<close>.\<close>

definition fn_invoke ::
  "permit \<Rightarrow> instant \<Rightarrow> u64 \<Rightarrow> string \<Rightarrow> PhysicalFallbackNode
     \<Rightarrow> (FallbackNodeResult \<times> PhysicalFallbackNode) may_panic" where
  "fn_invoke pm now ms prompt n =
     (case pm of
        SemaphoreClosed \<Rightarrow> Some (fn_failure n 0 ''Node D semaphore closed'', n)
      | WaitTimedOut \<Rightarrow>
          Some (fn_failure n 0 ''Node D overloaded: Concurrency limit reached after bounded wait'', n)
      | Granted \<Rightarrow>
          let n1 = n\<lparr>fn_invocation_count := fn_invocation_count n + 1, fn_last_invocation := Some now\<rparr>;
              n2 = n1\<lparr>fn_error_count := fn_error_count n1 + 1\<rparr>
          in if \<not> ep_enabled (fn_endpoint n)
             then Some (fn_failure n ms ''Physical fallback node is disabled'', n2)
             else case checked_mul (max_input_tokens (fn_endpoint n)) 4 of
                    None \<Rightarrow> None
                  | Some max_chars \<Rightarrow>
                      if unat max_chars < length prompt
                      then Some (fn_failure n ms (''Prompt exceeds max input tokens: '' @ dec (length prompt) @ '' chars (max ''
                                 @ dec (unat (max_input_tokens (fn_endpoint n))) @ '' tokens)''), n2)
                      else Some (\<lparr>fb_output = Some mock_output, fb_error = None, fb_duration_ms = ms,
                                  fb_model_id = ep_model_id (fn_endpoint n)\<rparr>, n1))"

section \<open>Calls to the providers\<close>

record ProviderAdapter =
  ad_node :: ProviderNode
  ad_id :: string
  ad_name :: string
  ad_timeout_ms :: u64
  ad_breaker :: CircuitBreaker

datatype answer = Answered string | AnswerError TmrNodeError | NoAnswer

record call =
  asked_at :: instant
  told_at :: instant
  call_answer :: answer
  call_ms :: u64

definition semantic_key_of :: "(string \<Rightarrow> IntermediatePayload option) \<Rightarrow> string \<Rightarrow> string" where
  "semantic_key_of from_llm content =
     (case from_llm content of Some p \<Rightarrow> canonical_key p | None \<Rightarrow> [])"

fun node_error_status :: "TmrNodeError \<Rightarrow> ResponseStatus" where
  "node_error_status HttpRateLimited = RateLimited"
| "node_error_status (NodeServerError _) = ServerError"
| "node_error_status (NodeNetworkError _) = NetworkError"
| "node_error_status NodeTimeout = Timeout"
| "node_error_status _ = ServerError"

fun node_http_status :: "TmrNodeError \<Rightarrow> u16 option" where
  "node_http_status HttpForbidden = Some 403"
| "node_http_status HttpRateLimited = Some 429"
| "node_http_status (NodeServerError c) = Some c"
| "node_http_status _ = None"

definition node_failed :: "ProviderAdapter \<Rightarrow> TmrNodeError \<Rightarrow> u64 \<Rightarrow> bool \<Rightarrow> TmrNodeResult" where
  "node_failed a e ms fb =
     \<lparr>nr_provider_id = ad_id a, nr_provider_name = ad_name a, nr_output = None, nr_error = Some e,
      nr_duration_ms = ms, nr_fallback_triggered = fb\<rparr>"

definition empty_response :: "ProviderAdapter \<Rightarrow> u64 \<Rightarrow> ResponseStatus \<Rightarrow> ProviderResponse" where
  "empty_response a ms st =
     \<lparr>pr_provider = ad_node a, pr_content = [], semantic_key = [], latency_ms = ms, tokens_used = 0,
      pr_status = st\<rparr>"

definition dispatch_one ::
  "(string \<Rightarrow> IntermediatePayload option) \<Rightarrow> ProviderAdapter \<Rightarrow> call
     \<Rightarrow> (ProviderAdapter \<times> TmrNodeResult \<times> ProviderResponse) may_panic" where
  "dispatch_one from_llm a c =
     (case allow_request (asked_at c) (ad_breaker a) of
        (Inl e, b) \<Rightarrow>
          Some (a\<lparr>ad_breaker := b\<rparr>, node_failed a CircuitBreakerOpen 0 True, empty_response a 0 ServerError)
      | (Inr _, b) \<Rightarrow>
          (case call_answer c of
             Answered content \<Rightarrow>
               Some (a\<lparr>ad_breaker := record_success b\<rparr>,
                     \<lparr>nr_provider_id = ad_id a, nr_provider_name = ad_name a, nr_output = Some content,
                      nr_error = None, nr_duration_ms = call_ms c, nr_fallback_triggered = False\<rparr>,
                     \<lparr>pr_provider = ad_node a, pr_content = content,
                      semantic_key = semantic_key_of from_llm content, latency_ms = call_ms c,
                      tokens_used = 0, pr_status = Success\<rparr>)
           | AnswerError e \<Rightarrow>
               (case record_failure (told_at c) (node_http_status e) b of
                  None \<Rightarrow> None
                | Some b1 \<Rightarrow>
                    Some (a\<lparr>ad_breaker := b1\<rparr>, node_failed a e (call_ms c) (should_trigger_fallback e),
                          empty_response a (call_ms c) (node_error_status e)))
           | NoAnswer \<Rightarrow>
               (case record_failure (told_at c) (Some 408) b of
                  None \<Rightarrow> None
                | Some b1 \<Rightarrow>
                    Some (a\<lparr>ad_breaker := b1\<rparr>, node_failed a NodeTimeout (ad_timeout_ms a) True,
                          empty_response a (ad_timeout_ms a) Timeout))))"

fun dispatch_all ::
  "(string \<Rightarrow> IntermediatePayload option) \<Rightarrow> (ProviderAdapter \<times> call) list
     \<Rightarrow> (ProviderAdapter list \<times> TmrNodeResult list \<times> ProviderResponse list) may_panic" where
  "dispatch_all f [] = Some ([], [], [])"
| "dispatch_all f ((a, c) # acs) =
     (case dispatch_one f a c of
        None \<Rightarrow> None
      | Some (a1, nr, r) \<Rightarrow>
          (case dispatch_all f acs of
             None \<Rightarrow> None
           | Some (as, nrs, rs) \<Rightarrow> Some (a1 # as, nr # nrs, r # rs)))"

section \<open>The orchestrator\<close>

record ProviderRequest =
  rq_prompt :: string
  rq_tenant_id :: string
  rq_images :: "string list option"
  rq_temperature :: f64

record ('s, 'm) TmrOrchestrator =
  fallback_node :: PhysicalFallbackNode
  fallback_trigger_count :: u64
  adapters :: "ProviderAdapter list"
  tmr_engine :: TmrConsensusEngine
  or_min_agreement :: nat
  has_cache :: bool
  masking_maps :: "(string, 'm) hmap"
  has_finops :: bool
  or_store :: 's
  cache_writes :: "(string \<times> TmrConsensusResult) list"
  proofs :: "(string \<times> nat) list"
  billed :: "(string \<times> u64) list"

record ('s, 'm) env =
  from_llm_output :: "string \<Rightarrow> IntermediatePayload option"
  pii_mask :: "string \<Rightarrow> string \<times> 'm"
  pii_restore :: "string \<Rightarrow> 'm \<Rightarrow> string"
  vote_order :: "votes \<Rightarrow> votes"
  done_order :: "TmrNodeResult list \<Rightarrow> TmrNodeResult list"
  store_ops :: "'s redis"
  refund_fate :: fate
  fb_permit :: permit
  fb_ms :: u64
  clock_end :: instant
  total_ms :: u64

definition handle_consensus_success ::
  "u64 \<Rightarrow> ConsensusResult \<Rightarrow> TmrNodeResult list \<Rightarrow> ('s, 'm) TmrOrchestrator \<Rightarrow> TmrConsensusResult" where
  "handle_consensus_success ms r nrs o1 =
     \<lparr>majority_output = Some (cr_content r), agreement_count = length (winning_providers r),
      total_nodes = length (adapters o1), fallback_activated = False, node_results = nrs,
      fallback_result = None, consensus_achieved = True, total_duration_ms = ms, cache_hit = False\<rparr>"

definition handle_consensus_failure_stasis ::
  "('s, 'm) env \<Rightarrow> string \<Rightarrow> TmrNodeResult list \<Rightarrow> ('s, 'm) TmrOrchestrator
     \<Rightarrow> (TmrConsensusResult \<times> ('s, 'm) TmrOrchestrator) may_panic" where
  "handle_consensus_failure_stasis ev prompt nrs o1 =
     (case fn_invoke (fb_permit ev) (clock_end ev) (fb_ms ev) prompt (fallback_node o1) of
        None \<Rightarrow> None
      | Some (fr, fnode) \<Rightarrow>
          let o2 = o1\<lparr>fallback_trigger_count := fallback_trigger_count o1 + 1, fallback_node := fnode\<rparr>
          in (case fb_output fr of
                Some out \<Rightarrow>
                  Some (\<lparr>majority_output = Some out, agreement_count = 1,
                         total_nodes = length (adapters o1) + 1, fallback_activated = True,
                         node_results = nrs, fallback_result = Some fr, consensus_achieved = True,
                         total_duration_ms = total_ms ev, cache_hit = False\<rparr>, o2)
              | None \<Rightarrow>
                  Some (\<lparr>majority_output = None, agreement_count = 0,
                         total_nodes = length (adapters o1), fallback_activated = True,
                         node_results = nrs, fallback_result = Some fr, consensus_achieved = False,
                         total_duration_ms = total_ms ev, cache_hit = False\<rparr>, o2)))"

fun sum_durations :: "TmrNodeResult list \<Rightarrow> u64 \<Rightarrow> u64 may_panic" where
  "sum_durations [] t = Some t"
| "sum_durations (r # rs) t =
     (case checked_add t (nr_duration_ms r) of None \<Rightarrow> None | Some t1 \<Rightarrow> sum_durations rs t1)"

text \<open>What both branches do with their result: refund, restore masked data, cache, bill.\<close>

definition finish_dispatch ::
  "('s, 'm) env \<Rightarrow> ProviderRequest \<Rightarrow> string \<Rightarrow> TmrConsensusResult \<Rightarrow> ('s, 'm) TmrOrchestrator
     \<Rightarrow> (TmrConsensusResult \<times> ('s, 'm) TmrOrchestrator) may_panic" where
  "finish_dispatch ev req key res o1 =
     (let o2 = (if \<not> consensus_achieved res \<and> has_finops o1
                then o1\<lparr>or_store := snd (refund_tokens (store_ops ev) (refund_fate ev) (rq_tenant_id req)
                                          (int (length (adapters o1))) key (or_store o1))\<rparr>
                else o1);
          res1 = (case hm_get (masking_maps o2) key of
                    None \<Rightarrow> res
                  | Some m \<Rightarrow>
                      (case majority_output res of
                         None \<Rightarrow> res
                       | Some out \<Rightarrow> res\<lparr>majority_output := Some (pii_restore ev out m)\<rparr>));
          o3 = o2\<lparr>masking_maps := hm_remove key (masking_maps o2)\<rparr>;
          res2 = res1\<lparr>cache_hit := False\<rparr>;
          o4 = (if has_cache o3 \<and> consensus_achieved res2 \<and> majority_output res2 \<noteq> None
                then o3\<lparr>cache_writes := cache_writes o3 @ [(key, res2)]\<rparr> else o3)
      in if consensus_achieved res2
         then case majority_output res2 of
                None \<Rightarrow> Some (res2, o4)
              | Some out \<Rightarrow>
                  (case sum_durations (node_results res2) 0 of
                     None \<Rightarrow> None
                   | Some ms \<Rightarrow>
                       Some (res2, o4\<lparr>proofs := proofs o4 @ [(out, agreement_count res2)],
                                      billed := billed o4 @ [(rq_tenant_id req, ms div 100)]\<rparr>))
         else Some (res2, o4))"

definition successful :: "ProviderResponse list \<Rightarrow> ProviderResponse list" where
  "successful rs = filter (\<lambda>r. pr_status r = Success \<and> pr_content r \<noteq> []) rs"

definition adjudicate ::
  "('s, 'm) env \<Rightarrow> ProviderRequest \<Rightarrow> TmrNodeResult list \<Rightarrow> ProviderResponse list \<Rightarrow> ('s, 'm) TmrOrchestrator
     \<Rightarrow> (TmrConsensusResult \<times> ('s, 'm) TmrOrchestrator) may_panic" where
  "adjudicate ev req nrs rs o1 =
     (if length (successful rs) < or_min_agreement o1
      then handle_consensus_failure_stasis ev (rq_prompt req) nrs o1
      else case evaluate (vote_order ev) (tmr_engine o1) rs of
             None \<Rightarrow> None
           | Some (Inr c) \<Rightarrow> Some (handle_consensus_success (total_ms ev) c nrs o1, o1)
           | Some (Inl _) \<Rightarrow> handle_consensus_failure_stasis ev (rq_prompt req) nrs o1)"

definition dispatch_consensus_inner ::
  "('s, 'm) env \<Rightarrow> call list \<Rightarrow> ProviderRequest \<Rightarrow> string \<Rightarrow> ('s, 'm) TmrOrchestrator
     \<Rightarrow> (TmrConsensusResult \<times> ('s, 'm) TmrOrchestrator) may_panic" where
  "dispatch_consensus_inner ev calls req key o0 =
     (let o1 = o0\<lparr>masking_maps := hm_insert key (snd (pii_mask ev (rq_prompt req))) (masking_maps o0)\<rparr>
      in case dispatch_all (from_llm_output ev) (zip (adapters o1) calls) of
           None \<Rightarrow> None
         | Some (as, nrs, rs) \<Rightarrow>
             let o2 = o1\<lparr>adapters := as\<rparr>
             in (case adjudicate ev req (done_order ev nrs) rs o2 of
                   None \<Rightarrow> None
                 | Some (res, o3) \<Rightarrow> finish_dispatch ev req key res o3))"

section \<open>What the parts keep\<close>

lemma node_error_not_success: "node_error_status e \<noteq> Success"
  by (cases e) simp_all

lemma dispatch_one_response:
  assumes "dispatch_one f a c = Some (a1, nr, r)"
  shows "pr_provider r = ad_node a \<and> tokens_used r = 0 \<and> ad_node a1 = ad_node a
       \<and> (pr_status r = Success \<longrightarrow> semantic_key r = semantic_key_of f (pr_content r))
       \<and> (pr_status r \<noteq> Success \<longrightarrow> semantic_key r = [])"
  using assms
  by (auto simp: dispatch_one_def empty_response_def node_error_not_success
      split: sum.splits answer.splits option.splits prod.splits)

lemma dispatch_all_responses:
  "dispatch_all f acs = Some (as, nrs, rs) \<Longrightarrow>
     length as = length acs \<and> length rs = length acs \<and> length nrs = length acs
     \<and> map pr_provider rs = map (ad_node \<circ> fst) acs
     \<and> (\<forall>r \<in> set rs. tokens_used r = 0
          \<and> (pr_status r = Success \<longrightarrow> semantic_key r = semantic_key_of f (pr_content r)))"
proof (induction f acs arbitrary: as nrs rs rule: dispatch_all.induct)
  case (2 f a c acs)
  from "2.prems" obtain a1 nr r as' nrs' rs' where
    d: "dispatch_one f a c = Some (a1, nr, r)" "dispatch_all f acs = Some (as', nrs', rs')"
      "as = a1 # as'" "nrs = nr # nrs'" "rs = r # rs'" by (auto split: option.splits)
  from "2.IH" [OF d(1) refl refl d(2)] dispatch_one_response [OF d(1)] d(3-5) show ?case by auto
qed simp

lemma no_tokens: "\<forall>r \<in> set rs. tokens_used r = 0 \<Longrightarrow> token_sum rs = 0"
  by (simp add: token_sum_def sum_list_eq_0_iff)

lemma stasis_fields:
  assumes "handle_consensus_failure_stasis ev p nrs o1 = Some (res, o2)"
  shows "fallback_activated res" "adapters o2 = adapters o1" "or_store o2 = or_store o1"
    "has_finops o2 = has_finops o1" "cache_writes o2 = cache_writes o1" "has_cache o2 = has_cache o1"
    "masking_maps o2 = masking_maps o1"
    "consensus_achieved res \<longleftrightarrow> majority_output res \<noteq> None"
    "consensus_achieved res \<Longrightarrow> agreement_count res = 1"
  using assms
  by (auto simp: handle_consensus_failure_stasis_def Let_def split: option.splits)

lemma finish_result:
  assumes "finish_dispatch ev req key res o1 = Some (res', o2)"
  shows "agreement_count res' = agreement_count res" "consensus_achieved res' = consensus_achieved res"
    "fallback_activated res' = fallback_activated res" "node_results res' = node_results res"
    "majority_output res' = None \<longleftrightarrow> majority_output res = None"
    "or_store o2 = (if \<not> consensus_achieved res \<and> has_finops o1
       then snd (refund_tokens (store_ops ev) (refund_fate ev) (rq_tenant_id req)
              (int (length (adapters o1))) key (or_store o1)) else or_store o1)"
    "cache_writes o2 = cache_writes o1 @
       (if has_cache o1 \<and> consensus_achieved res \<and> majority_output res \<noteq> None then [(key, res')] else [])"
    "hm_get (masking_maps o2) key = None"
  using assms
  by (auto simp: finish_dispatch_def Let_def hm.get_remove split: option.splits if_splits)


text \<open>A completed dispatch, taken apart.\<close>

lemma dispatch_cases:
  assumes "dispatch_consensus_inner ev calls req key o0 = Some (res, o2)"
  obtains as nrs rs res1 o1 o3 where
    "dispatch_all (from_llm_output ev) (zip (adapters o0) calls) = Some (as, nrs, rs)"
    "adjudicate ev req (done_order ev nrs) rs o1 = Some (res1, o3)"
    "finish_dispatch ev req key res1 o3 = Some (res, o2)"
    "tmr_engine o1 = tmr_engine o0" "or_min_agreement o1 = or_min_agreement o0" "adapters o1 = as"
    "or_store o3 = or_store o0" "has_finops o3 = has_finops o0" "has_cache o3 = has_cache o0"
    "cache_writes o3 = cache_writes o0" "adapters o3 = as" "fallback_node o1 = fallback_node o0"
proof -
  let ?o = "o0\<lparr>masking_maps := hm_insert key (snd (pii_mask ev (rq_prompt req))) (masking_maps o0)\<rparr>"
  from assms obtain as nrs rs res1 o3 where d:
    "dispatch_all (from_llm_output ev) (zip (adapters o0) calls) = Some (as, nrs, rs)"
    "adjudicate ev req (done_order ev nrs) rs (?o\<lparr>adapters := as\<rparr>) = Some (res1, o3)"
    "finish_dispatch ev req key res1 o3 = Some (res, o2)"
    by (auto simp: dispatch_consensus_inner_def Let_def split: option.splits)
  have "adapters o3 = as \<and> or_store o3 = or_store o0 \<and> has_finops o3 = has_finops o0
      \<and> has_cache o3 = has_cache o0 \<and> cache_writes o3 = cache_writes o0"
  proof (cases "handle_consensus_failure_stasis ev (rq_prompt req) (done_order ev nrs) (?o\<lparr>adapters := as\<rparr>)
      = Some (res1, o3)")
    case True
    from stasis_fields [OF True] show ?thesis by simp
  next
    case False
    with d(2) show ?thesis by (auto simp: adjudicate_def split: if_splits option.splits sum.splits)
  qed
  with d show ?thesis by (intro that [OF d(1) d(2) d(3)]) simp_all
qed

lemma adjudicate_engine:
  assumes "adjudicate ev req nrs rs o1 = Some (res, o2)" "\<not> fallback_activated res"
  shows "\<exists>c. evaluate (vote_order ev) (tmr_engine o1) rs = Some (Inr c)
       \<and> majority_output res = Some (cr_content c) \<and> agreement_count res = length (winning_providers c)"
  using assms
  by (auto simp: adjudicate_def handle_consensus_success_def dest: stasis_fields(1)
      split: if_splits option.splits sum.splits)

section \<open>Properties\<close>


text \<open>
  C13: What a dispatch leaves behind. Whatever the providers do, a completed dispatch removes
  the masking map of its request; refunds the cost of all providers exactly when it reports no
  consensus and a budget manager is attached, and otherwise leaves the store alone; and writes
  its result to the cache exactly when it reports consensus and a cache is attached.
\<close>

theorem dispatch_effects:
  assumes "dispatch_consensus_inner ev calls req key o0 = Some (res, o2)"
    and "length calls = length (adapters o0)"
  shows "hm_get (masking_maps o2) key = None
       \<and> or_store o2 = (if \<not> consensus_achieved res \<and> has_finops o0
            then snd (refund_tokens (store_ops ev) (refund_fate ev) (rq_tenant_id req)
                   (int (length (adapters o0))) key (or_store o0)) else or_store o0)
       \<and> cache_writes o2 = cache_writes o0 @ (if has_cache o0 \<and> consensus_achieved res then [(key, res)] else [])"
proof -
  from assms(1) obtain as nrs rs res1 o1 o3 where d:
      "dispatch_all (from_llm_output ev) (zip (adapters o0) calls) = Some (as, nrs, rs)"
      "adjudicate ev req (done_order ev nrs) rs o1 = Some (res1, o3)"
      "finish_dispatch ev req key res1 o3 = Some (res, o2)"
      "or_store o3 = or_store o0" "has_finops o3 = has_finops o0" "has_cache o3 = has_cache o0"
      "cache_writes o3 = cache_writes o0" "adapters o3 = as"
    by (rule dispatch_cases)
  note fin = finish_result [OF d(3)]
  have out: "consensus_achieved res1 \<Longrightarrow> majority_output res1 \<noteq> None"
  proof (cases "fallback_activated res1")
    case True
    with d(2) show "consensus_achieved res1 \<Longrightarrow> majority_output res1 \<noteq> None"
      by (auto simp: adjudicate_def handle_consensus_success_def dest: stasis_fields(8)
          split: if_splits option.splits sum.splits)
  qed (use adjudicate_engine [OF d(2)] in auto)
  have "length as = length (adapters o0)" using dispatch_all_responses [OF d(1)] assms(2) by simp
  with fin d(4-8) out show ?thesis by auto
qed

text \<open>
  One local vote counts as consensus. When the fallback node is activated and answers, the
  dispatch reports consensus with an agreement of one, no refund is made and the constant
  answer is cached under the request's key, whatever agreement was configured.
\<close>

theorem fallback_counts_as_consensus:
  assumes "dispatch_consensus_inner ev calls req key o0 = Some (res, o2)"
    and "fallback_activated res" "majority_output res \<noteq> None" "has_cache o0"
  shows "consensus_achieved res \<and> agreement_count res = 1
       \<and> or_store o2 = or_store o0 \<and> (key, res) \<in> set (cache_writes o2)"
proof -
  from assms(1) obtain as nrs rs res1 o1 o3 where d:
      "adjudicate ev req (done_order ev nrs) rs o1 = Some (res1, o3)"
      "finish_dispatch ev req key res1 o3 = Some (res, o2)"
      "or_store o3 = or_store o0" "has_cache o3 = has_cache o0" "cache_writes o3 = cache_writes o0"
    by (rule dispatch_cases)
  note fin = finish_result [OF d(2)]
  have st: "handle_consensus_failure_stasis ev (rq_prompt req) (done_order ev nrs) o1 = Some (res1, o3)"
    using d(1) assms(2) fin(3)
    by (auto simp: adjudicate_def handle_consensus_success_def split: if_splits option.splits sum.splits)
  have "consensus_achieved res1" using stasis_fields(8) [OF st] assms(3) fin(5) by simp
  then have "consensus_achieved res1 \<and> agreement_count res1 = 1" using stasis_fields(9) [OF st] by simp
  with fin d(3-5) assms(3,4) show ?thesis by auto
qed

section \<open>A concrete dispatch\<close>

definition example_payload :: "string \<Rightarrow> IntermediatePayload option" where
  "example_payload s = Some \<lparr>network_id = s, task_type = ''t'', max_gas_limit = 1, confidence_score = Fin 1,
                              source_url = []\<rparr>"

definition example_env :: "((string \<Rightarrow> int option), unit) env" where
  "example_env =
     \<lparr>from_llm_output = example_payload, pii_mask = (\<lambda>s. (s, ())), pii_restore = (\<lambda>s _. s),
      vote_order = id, done_order = id, store_ops = map_redis, refund_fate = fate.Replied,
      fb_permit = Granted, fb_ms = 50, clock_end = 9, total_ms = 60\<rparr>"

definition example_adapter :: "string \<Rightarrow> ProviderAdapter" where
  "example_adapter i =
     \<lparr>ad_node = Custom i, ad_id = i, ad_name = i, ad_timeout_ms = 100,
      ad_breaker = CircuitBreaker_new i CircuitBreakerConfig_default\<rparr>"

definition example_orch :: "string list \<Rightarrow> ((string \<Rightarrow> int option), unit) TmrOrchestrator" where
  "example_orch ids =
     \<lparr>fallback_node = PhysicalFallbackNode_new (WasiNnEndpoint_new ''m'' ''p''), fallback_trigger_count = 0,
      adapters = map example_adapter ids,
      tmr_engine = with_config_and_nodes TmrConfig_default (map Custom ids),
      or_min_agreement = 2, has_cache = True, masking_maps = [], has_finops = True,
      or_store = Map.empty, cache_writes = [], proofs = [], billed = []\<rparr>"

definition example_call :: "string \<Rightarrow> call" where
  "example_call s = \<lparr>asked_at = 1, told_at = 2, call_answer = Answered s, call_ms = 3\<rparr>"

definition example_req :: ProviderRequest where
  "example_req = \<lparr>rq_prompt = ''hi'', rq_tenant_id = ''t'', rq_images = None, rq_temperature = Fin 0\<rparr>"

lemmas example_defs =
  example_env_def example_adapter_def example_orch_def example_call_def example_req_def example_payload_def


lemma canonical_key_nonempty: "canonical_key p \<noteq> []"
  by (simp add: canonical_key_def)

lemma example_answer:
  "dispatch_one example_payload (example_adapter i) (example_call ''x'') =
     Some (example_adapter i\<lparr>ad_breaker := record_success (ad_breaker (example_adapter i))\<rparr>,
           \<lparr>nr_provider_id = i, nr_provider_name = i, nr_output = Some ''x'', nr_error = None,
            nr_duration_ms = 3, nr_fallback_triggered = False\<rparr>,
           \<lparr>pr_provider = Custom i, pr_content = ''x'',
            semantic_key = canonical_key (the (example_payload ''x'')), latency_ms = 3, tokens_used = 0,
            pr_status = Success\<rparr>)"
  by (simp add: dispatch_one_def example_defs allow_request_def CircuitBreaker_new_def cb_state_def
      CircuitStatus_new_def semantic_key_of_def)

lemma example_consensus:
  "\<exists>res o2. dispatch_consensus_inner example_env [example_call ''x'', example_call ''x''] example_req ''k''
      (example_orch [''a'', ''b'']) = Some (res, o2) \<and> \<not> fallback_activated res \<and> agreement_count res = 2"
proof -
  have e: "from_llm_output example_env = example_payload" "vote_order example_env = id"
    "done_order example_env = id" by (simp_all add: example_env_def)
  have a: "adapters (example_orch [''a'', ''b'']) = [example_adapter ''a'', example_adapter ''b'']"
    "or_min_agreement (example_orch [''a'', ''b'']) = 2"
    "tmr_engine (example_orch [''a'', ''b'']) = \<lparr>tmr_config = TmrConfig_default,
        node_health = [(Custom ''a'', Healthy), (Custom ''b'', Healthy)]\<rparr>"
    "masking_maps (example_orch [''a'', ''b'']) = []" "has_cache (example_orch [''a'', ''b''])"
    by (simp_all add: example_orch_def with_config_and_nodes_def hm_insert_def)
  show ?thesis
    by (simp add: dispatch_consensus_inner_def e a example_answer adjudicate_def successful_def evaluate_def
        healthy_nodes_def checked_add_def add_vote_def counts_def canonical_key_nonempty hm_get_def hm_insert_def
        required_votes_def TmrConfig_default_def handle_consensus_success_def finish_dispatch_def Let_def)
qed

lemma example_fallback:
  "\<exists>res o2. dispatch_consensus_inner example_env [] example_req ''k'' (example_orch []) = Some (res, o2)
     \<and> fallback_activated res \<and> majority_output res = Some mock_output"
  by (simp add: dispatch_consensus_inner_def example_defs adjudicate_def successful_def
      handle_consensus_failure_stasis_def fn_invoke_def PhysicalFallbackNode_new_def WasiNnEndpoint_new_def
      checked_mul_def finish_dispatch_def hm_get_def hm_insert_def hm_remove_def Let_def)


theorem dispatch_effects_witness:
  "\<exists>res o2. dispatch_consensus_inner example_env [] example_req ''k'' (example_orch []) = Some (res, o2)
     \<and> hm_get (masking_maps o2) ''k'' = None \<and> cache_writes o2 = [(''k'', res)]"
proof -
  obtain res o2 where d: "dispatch_consensus_inner example_env [] example_req ''k'' (example_orch []) = Some (res, o2)"
      "fallback_activated res" "majority_output res = Some mock_output" using example_fallback by blast
  have "dispatch_consensus_inner example_env [] example_req ''k'' (example_orch []) = Some (res, o2) \<Longrightarrow> consensus_achieved res"
    by (auto simp: dispatch_consensus_inner_def example_defs adjudicate_def successful_def
      handle_consensus_failure_stasis_def fn_invoke_def PhysicalFallbackNode_new_def WasiNnEndpoint_new_def
      checked_mul_def finish_dispatch_def hm_get_def hm_insert_def hm_remove_def Let_def)
  with d(1) dispatch_effects [OF d(1)] show ?thesis by (simp add: example_orch_def)
qed

theorem fallback_counts_as_consensus_witness:
  "\<exists>res o2. dispatch_consensus_inner example_env [] example_req ''k'' (example_orch []) = Some (res, o2)
     \<and> consensus_achieved res \<and> agreement_count res = 1"
proof -
  obtain res o2 where d: "dispatch_consensus_inner example_env [] example_req ''k'' (example_orch []) = Some (res, o2)"
      "fallback_activated res" "majority_output res = Some mock_output" using example_fallback by blast
  have "has_cache (example_orch [])" by (simp add: example_orch_def)
  with fallback_counts_as_consensus [OF d(1,2)] d show ?thesis by auto
qed

end
