(* ===== verification/SingleFlight.thy ===== *)
theory SingleFlight
  imports Orchestrator
begin

text \<open>
  The single-flight map of \<open>crates/llm-router/src/coordinator.rs\<close>
  (\<open>CacheSingleFlight::dedup\<close>, \<open>SingleFlightEntry\<close>, \<open>SingleFlightGuard\<close>).

  Every concurrent call of \<open>dedup\<close> is a task with a program counter. A step of a task is
  what it does while it holds one of the locks, or between two of them, so the runs of
  \<open>sf_step\<close> are the interleavings a runtime with several threads can produce. Entries are
  shared through \<open>Arc\<close>: they are addresses into the list \<open>sf_entries\<close>. The
  \<open>Notify\<close> of an entry is the set of tasks that wait on it: tokio documents that
  \<open>notify_waiters\<close> wakes the futures \<open>notified()\<close> created before the call and keeps no
  permit for later ones. Time is not modelled: a waiting task may time out at any point. A
  future may be dropped where it awaits.
\<close>

section \<open>Entries, tasks and locks\<close>

record SingleFlightEntry =
  sf_result :: "TmrConsensusResult option"
  sf_cancelled :: bool

datatype pc =
    Entering
  | Missed
  | Holding nat
  | Rechecking nat
  | Subscribing nat
  | Waiting nat
  | Woken nat
  | Leading nat
  | Published nat TmrConsensusResult
  | Returned TmrConsensusResult
  | Abandoned

record CacheSingleFlight =
  inflight :: "(string, nat) hmap"
  sf_entries :: "SingleFlightEntry list"
  sf_tasks :: "(string \<times> pc) list"

datatype act = Proceed | Complete TmrConsensusResult | TimeOut | DropFuture

definition TmrConsensusResult_default :: TmrConsensusResult where
  "TmrConsensusResult_default =
     \<lparr>majority_output = None, agreement_count = 0, total_nodes = 0, fallback_activated = False,
      node_results = [], fallback_result = None, consensus_achieved = False, total_duration_ms = 0,
      cache_hit = False\<rparr>"

definition CacheSingleFlight_new :: "string list \<Rightarrow> CacheSingleFlight" where
  "CacheSingleFlight_new ks =
     \<lparr>inflight = [], sf_entries = [], sf_tasks = map (\<lambda>k. (k, Entering)) ks\<rparr>"

definition set_pc :: "nat \<Rightarrow> pc \<Rightarrow> CacheSingleFlight \<Rightarrow> CacheSingleFlight" where
  "set_pc t p s = s\<lparr>sf_tasks := (sf_tasks s)[t := (fst (sf_tasks s ! t), p)]\<rparr>"

definition wake :: "nat \<Rightarrow> pc \<Rightarrow> pc" where
  "wake e p = (if p = Waiting e then Woken e else p)"

definition notify_waiters :: "nat \<Rightarrow> CacheSingleFlight \<Rightarrow> CacheSingleFlight" where
  "notify_waiters e s = s\<lparr>sf_tasks := map (apsnd (wake e)) (sf_tasks s)\<rparr>"

text \<open>The test a watcher makes under the lock of the entry: an early result, or none.\<close>

definition early_result :: "SingleFlightEntry \<Rightarrow> TmrConsensusResult option" where
  "early_result en =
     (case sf_result en of
        Some r \<Rightarrow> Some r
      | None \<Rightarrow> if sf_cancelled en then Some TmrConsensusResult_default else None)"

definition awoken_result :: "SingleFlightEntry \<Rightarrow> TmrConsensusResult" where
  "awoken_result en =
     (if sf_cancelled en then TmrConsensusResult_default
      else case sf_result en of Some r \<Rightarrow> r | None \<Rightarrow> TmrConsensusResult_default)"

definition guard_drop :: "bool \<Rightarrow> string \<Rightarrow> CacheSingleFlight \<Rightarrow> CacheSingleFlight" where
  "guard_drop is_leader k s =
     (case hm_get (inflight s) k of
        None \<Rightarrow> s
      | Some e \<Rightarrow>
          let s1 = s\<lparr>inflight := hm_remove k (inflight s)\<rparr>; en = sf_entries s1 ! e
          in if is_leader \<and> sf_result en = None \<and> \<not> sf_cancelled en
             then notify_waiters e (s1\<lparr>sf_entries := (sf_entries s1)[e := en\<lparr>sf_cancelled := True\<rparr>]\<rparr>)
             else s1)"

definition sf_insert :: "string \<Rightarrow> CacheSingleFlight \<Rightarrow> CacheSingleFlight" where
  "sf_insert k s =
     s\<lparr>sf_entries := sf_entries s @ [\<lparr>sf_result = None, sf_cancelled = False\<rparr>],
       inflight := hm_insert k (length (sf_entries s)) (inflight s)\<rparr>"

definition sf_publish :: "nat \<Rightarrow> TmrConsensusResult \<Rightarrow> CacheSingleFlight \<Rightarrow> CacheSingleFlight" where
  "sf_publish e r s =
     notify_waiters e (s\<lparr>sf_entries := (sf_entries s)[e := (sf_entries s ! e)\<lparr>sf_result := Some r\<rparr>]\<rparr>)"

section \<open>Steps of a call of dedup\<close>

fun dedup_proceed :: "nat \<Rightarrow> string \<Rightarrow> pc \<Rightarrow> CacheSingleFlight \<Rightarrow> CacheSingleFlight option" where
  "dedup_proceed t k Entering s =
     Some (set_pc t (case hm_get (inflight s) k of Some e \<Rightarrow> Holding e | None \<Rightarrow> Missed) s)"
| "dedup_proceed t k (Holding e) s =
     Some (set_pc t (case early_result (sf_entries s ! e) of Some r \<Rightarrow> Returned r | None \<Rightarrow> Rechecking e) s)"
| "dedup_proceed t k (Rechecking e) s =
     Some (set_pc t (case early_result (sf_entries s ! e) of Some r \<Rightarrow> Returned r | None \<Rightarrow> Subscribing e) s)"
| "dedup_proceed t k (Subscribing e) s = Some (set_pc t (Waiting e) s)"
| "dedup_proceed t k (Woken e) s = Some (set_pc t (Returned (awoken_result (sf_entries s ! e))) s)"
| "dedup_proceed t k Missed s = Some (set_pc t (Leading (length (sf_entries s))) (sf_insert k s))"
| "dedup_proceed t k (Published e r) s = Some (set_pc t (Returned r) (guard_drop True k s))"
| "dedup_proceed t k (Waiting e) s = None"
| "dedup_proceed t k (Leading e) s = None"
| "dedup_proceed t k (Returned r) s = None"
| "dedup_proceed t k Abandoned s = None"

fun dedup_drop :: "nat \<Rightarrow> string \<Rightarrow> pc \<Rightarrow> CacheSingleFlight \<Rightarrow> CacheSingleFlight option" where
  "dedup_drop t k (Leading e) s = Some (set_pc t Abandoned (guard_drop True k s))"
| "dedup_drop t k (Waiting e) s = Some (set_pc t Abandoned s)"
| "dedup_drop t k (Woken e) s = Some (set_pc t Abandoned s)"
| "dedup_drop t k _ s = None"

definition dedup_step :: "nat \<Rightarrow> act \<Rightarrow> string \<Rightarrow> pc \<Rightarrow> CacheSingleFlight \<Rightarrow> CacheSingleFlight option" where
  "dedup_step t a k p s =
     (case a of
        Proceed \<Rightarrow> dedup_proceed t k p s
      | Complete r \<Rightarrow> (case p of Leading e \<Rightarrow> Some (set_pc t (Published e r) (sf_publish e r s)) | _ \<Rightarrow> None)
      | TimeOut \<Rightarrow> (case p of Waiting e \<Rightarrow> Some (set_pc t (Returned TmrConsensusResult_default) s) | _ \<Rightarrow> None)
      | DropFuture \<Rightarrow> dedup_drop t k p s)"

fun sf_step :: "nat \<times> act \<Rightarrow> CacheSingleFlight \<Rightarrow> CacheSingleFlight option" where
  "sf_step (t, a) s =
     (if t < length (sf_tasks s)
      then case sf_tasks s ! t of (k, p) \<Rightarrow> dedup_step t a k p s else None)"

inductive sf_reach :: "string list \<Rightarrow> (nat \<times> act) list \<Rightarrow> CacheSingleFlight \<Rightarrow> bool" for ks where
  start: "sf_reach ks [] (CacheSingleFlight_new ks)"
| step: "sf_reach ks xs s \<Longrightarrow> sf_step x s = Some s' \<Longrightarrow> sf_reach ks (xs @ [x]) s'"

lemma run_snoc:
  "run f (xs @ [x]) s = Some u \<longleftrightarrow> (\<exists>v. run f xs s = Some v \<and> f x v = Some u)"
  by (auto simp: run_append split: option.splits)

lemma sf_reach_run:
  "run sf_step xs (CacheSingleFlight_new ks) = Some s \<Longrightarrow> sf_reach ks xs s"
proof (induction xs arbitrary: s rule: rev_induct)
  case (snoc x xs)
  then show ?case by (auto simp: run_snoc intro: sf_reach.step)
qed (simp add: sf_reach.start)

section \<open>Frames of the updates\<close>

lemma list_update_nth: "xs[i := v] ! j = (if i = j \<and> i < length xs then v else xs ! j)"
  by (cases "i < length xs") (auto simp: nth_list_update list_update_beyond not_less)

lemma map_fst_update: "map fst (xs[t := (fst (xs ! t), p)]) = map fst xs"
  by (cases "t < length xs") (simp_all add: map_update list_update_same_conv list_update_beyond not_less)

lemma set_pc_frame [simp]:
  "inflight (set_pc t p s) = inflight s" "sf_entries (set_pc t p s) = sf_entries s"
  "length (sf_tasks (set_pc t p s)) = length (sf_tasks s)"
  "map fst (sf_tasks (set_pc t p s)) = map fst (sf_tasks s)"
  by (simp_all add: set_pc_def map_fst_update)

lemma set_pc_nth:
  "j < length (sf_tasks s) \<Longrightarrow>
     sf_tasks (set_pc t p s) ! j = (fst (sf_tasks s ! j), if j = t then p else snd (sf_tasks s ! j))"
  by (auto simp: set_pc_def nth_list_update)

lemma notify_waiters_frame [simp]:
  "inflight (notify_waiters e s) = inflight s" "sf_entries (notify_waiters e s) = sf_entries s"
  "length (sf_tasks (notify_waiters e s)) = length (sf_tasks s)"
  "map fst (sf_tasks (notify_waiters e s)) = map fst (sf_tasks s)"
  by (simp_all add: notify_waiters_def)

lemma notify_waiters_nth:
  "j < length (sf_tasks s) \<Longrightarrow>
     sf_tasks (notify_waiters e s) ! j = (fst (sf_tasks s ! j), wake e (snd (sf_tasks s ! j)))"
  by (simp add: notify_waiters_def apsnd_def prod.case_eq_if map_prod_def)

lemma sf_insert_frame [simp]:
  "sf_tasks (sf_insert k s) = sf_tasks s"
  "inflight (sf_insert k s) = hm_insert k (length (sf_entries s)) (inflight s)"
  "sf_entries (sf_insert k s) = sf_entries s @ [\<lparr>sf_result = None, sf_cancelled = False\<rparr>]"
  by (simp_all add: sf_insert_def)

lemma guard_drop_frame [simp]:
  "length (sf_tasks (guard_drop l k s)) = length (sf_tasks s)"
  "map fst (sf_tasks (guard_drop l k s)) = map fst (sf_tasks s)"
  "length (sf_entries (guard_drop l k s)) = length (sf_entries s)"
  by (simp_all add: guard_drop_def Let_def split: option.splits)

lemma guard_drop_inflight: 
  "hm_get (inflight (guard_drop l k s)) j = (if j = k then None else hm_get (inflight s) j)"
  by (auto simp: guard_drop_def Let_def hm.get_remove split: option.splits)

lemma sf_publish_frame [simp]:
  "inflight (sf_publish e r s) = inflight s"
  "length (sf_tasks (sf_publish e r s)) = length (sf_tasks s)"
  "map fst (sf_tasks (sf_publish e r s)) = map fst (sf_tasks s)"
  "sf_entries (sf_publish e r s) = (sf_entries s)[e := (sf_entries s ! e)\<lparr>sf_result := Some r\<rparr>]"
  by (simp_all add: sf_publish_def notify_waiters_def)

section \<open>Results stay with their key\<close>

definition produced :: "string list \<Rightarrow> (nat \<times> act) list \<Rightarrow> string \<Rightarrow> TmrConsensusResult \<Rightarrow> bool" where
  "produced ks xs k r \<longleftrightarrow> (\<exists>t < length ks. (t, Complete r) \<in> set xs \<and> ks ! t = k)"

fun pc_entry :: "pc \<Rightarrow> nat option" where
  "pc_entry (Holding e) = Some e"
| "pc_entry (Rechecking e) = Some e"
| "pc_entry (Subscribing e) = Some e"
| "pc_entry (Waiting e) = Some e"
| "pc_entry (Woken e) = Some e"
| "pc_entry (Leading e) = Some e"
| "pc_entry (Published e r) = Some e"
| "pc_entry _ = None"

fun pc_result :: "pc \<Rightarrow> TmrConsensusResult option" where
  "pc_result (Published e r) = Some r"
| "pc_result (Returned r) = Some r"
| "pc_result _ = None"

lemma wake_simps [simp]:
  "pc_entry (wake e p) = pc_entry p" "pc_result (wake e p) = pc_result p"
  by (auto simp: wake_def)

text \<open>\<open>ek\<close> gives the key an entry was created for.\<close>

definition pc_ok :: "(string \<Rightarrow> TmrConsensusResult \<Rightarrow> bool) \<Rightarrow> (nat \<Rightarrow> string) \<Rightarrow> nat \<Rightarrow> string \<Rightarrow> pc \<Rightarrow> bool" where
  "pc_ok P ek n k p \<longleftrightarrow>
     (\<forall>e. pc_entry p = Some e \<longrightarrow> e < n \<and> ek e = k)
   \<and> (\<forall>r. pc_result p = Some r \<longrightarrow> r = TmrConsensusResult_default \<or> P k r)"

definition sf_ok :: "(string \<Rightarrow> TmrConsensusResult \<Rightarrow> bool) \<Rightarrow> (nat \<Rightarrow> string) \<Rightarrow> CacheSingleFlight \<Rightarrow> bool" where
  "sf_ok P ek s \<longleftrightarrow>
     (\<forall>k e. hm_get (inflight s) k = Some e \<longrightarrow> e < length (sf_entries s) \<and> ek e = k)
   \<and> (\<forall>e < length (sf_entries s). \<forall>r. sf_result (sf_entries s ! e) = Some r \<longrightarrow> P (ek e) r)
   \<and> (\<forall>j < length (sf_tasks s).
        pc_ok P ek (length (sf_entries s)) (fst (sf_tasks s ! j)) (snd (sf_tasks s ! j)))"

lemma sf_ok_mono: "sf_ok P ek s \<Longrightarrow> (\<And>k r. P k r \<Longrightarrow> Q k r) \<Longrightarrow> sf_ok Q ek s"
  unfolding sf_ok_def pc_ok_def by blast

lemma sf_ok_set_pc:
  "sf_ok P ek s \<Longrightarrow> t < length (sf_tasks s) \<Longrightarrow>
     pc_ok P ek (length (sf_entries s)) (fst (sf_tasks s ! t)) p \<Longrightarrow> sf_ok P ek (set_pc t p s)"
  by (auto simp: sf_ok_def set_pc_nth)

lemma sf_ok_notify: "sf_ok P ek s \<Longrightarrow> sf_ok P ek (notify_waiters e s)"
  by (auto simp: sf_ok_def notify_waiters_nth pc_ok_def)

lemma sf_ok_cancel:
  "sf_ok P ek s \<Longrightarrow>
     sf_ok P ek (s\<lparr>inflight := hm_remove k (inflight s),
                    sf_entries := (sf_entries s)[e := (sf_entries s ! e)\<lparr>sf_cancelled := True\<rparr>]\<rparr>)"
  by (auto simp: sf_ok_def hm.get_remove list_update_nth split: if_splits)

lemma sf_ok_remove: "sf_ok P ek s \<Longrightarrow> sf_ok P ek (s\<lparr>inflight := hm_remove k (inflight s)\<rparr>)"
  by (auto simp: sf_ok_def hm.get_remove)

lemma sf_ok_guard_drop: "sf_ok P ek s \<Longrightarrow> sf_ok P ek (guard_drop l k s)"
  using sf_ok_notify [OF sf_ok_cancel] sf_ok_remove
  by (auto simp: guard_drop_def Let_def split: option.splits)

lemma sf_ok_insert:
  "sf_ok P ek s \<Longrightarrow> sf_ok P (ek(length (sf_entries s) := k)) (sf_insert k s)"
  unfolding sf_ok_def
  by (auto simp: hm.get_insert nth_append pc_ok_def less_Suc_eq split: if_splits)

lemma sf_ok_publish:
  "sf_ok P ek s \<Longrightarrow> P (ek e) r \<Longrightarrow> sf_ok P ek (sf_publish e r s)"
  unfolding sf_publish_def by (rule sf_ok_notify) (auto simp: sf_ok_def list_update_nth split: if_splits)

text \<open>The steps of a task, one case per transition of its program counter.\<close>

lemma sf_step_cases [consumes 1, case_names lookup check recheck subscribe woken insert drop
    complete timeout cancel leave]:
  assumes "sf_step (t, a) s = Some s'"
  obtains
    (lookup) k where "t < length (sf_tasks s)" "sf_tasks s ! t = (k, Entering)" "a = Proceed"
      "s' = set_pc t (case hm_get (inflight s) k of Some e \<Rightarrow> Holding e | None \<Rightarrow> Missed) s"
  | (check) k e where "t < length (sf_tasks s)" "sf_tasks s ! t = (k, Holding e)" "a = Proceed"
      "s' = set_pc t (case early_result (sf_entries s ! e) of Some r \<Rightarrow> Returned r | None \<Rightarrow> Rechecking e) s"
  | (recheck) k e where "t < length (sf_tasks s)" "sf_tasks s ! t = (k, Rechecking e)" "a = Proceed"
      "s' = set_pc t (case early_result (sf_entries s ! e) of Some r \<Rightarrow> Returned r | None \<Rightarrow> Subscribing e) s"
  | (subscribe) k e where "t < length (sf_tasks s)" "sf_tasks s ! t = (k, Subscribing e)" "a = Proceed"
      "s' = set_pc t (Waiting e) s"
  | (woken) k e where "t < length (sf_tasks s)" "sf_tasks s ! t = (k, Woken e)" "a = Proceed"
      "s' = set_pc t (Returned (awoken_result (sf_entries s ! e))) s"
  | (insert) k where "t < length (sf_tasks s)" "sf_tasks s ! t = (k, Missed)" "a = Proceed"
      "s' = set_pc t (Leading (length (sf_entries s))) (sf_insert k s)"
  | (drop) k e r where "t < length (sf_tasks s)" "sf_tasks s ! t = (k, Published e r)" "a = Proceed"
      "s' = set_pc t (Returned r) (guard_drop True k s)"
  | (complete) k e r where "t < length (sf_tasks s)" "sf_tasks s ! t = (k, Leading e)" "a = Complete r"
      "s' = set_pc t (Published e r) (sf_publish e r s)"
  | (timeout) k e where "t < length (sf_tasks s)" "sf_tasks s ! t = (k, Waiting e)" "a = TimeOut"
      "s' = set_pc t (Returned TmrConsensusResult_default) s"
  | (cancel) k e where "t < length (sf_tasks s)" "sf_tasks s ! t = (k, Leading e)" "a = DropFuture"
      "s' = set_pc t Abandoned (guard_drop True k s)"
  | (leave) k e where "t < length (sf_tasks s)" "sf_tasks s ! t = (k, Waiting e) \<or> sf_tasks s ! t = (k, Woken e)"
      "a = DropFuture" "s' = set_pc t Abandoned s"
proof -
  obtain k p where p: "sf_tasks s ! t = (k, p)" by (cases "sf_tasks s ! t")
  from assms p have t: "t < length (sf_tasks s)" and st: "dedup_step t a k p s = Some s'"
    by (simp_all split: if_splits)
  show thesis
  proof (cases a)
    case Proceed
    with st have st': "dedup_proceed t k p s = Some s'" by (simp add: dedup_step_def)
    show thesis
    proof (cases p)
      case Entering
      from lookup t p st' Proceed Entering show thesis by simp
    next
      case Missed
      from insert t p st' Proceed Missed show thesis by simp
    next
      case (Holding e)
      from check t p st' Proceed Holding show thesis by simp
    next
      case (Rechecking e)
      from recheck t p st' Proceed Rechecking show thesis by simp
    next
      case (Subscribing e)
      from subscribe t p st' Proceed Subscribing show thesis by simp
    next
      case (Woken e)
      from woken t p st' Proceed Woken show thesis by simp
    next
      case (Published e r)
      from drop t p st' Proceed Published show thesis by simp
    qed (use st' in simp_all)
  next
    case (Complete r)
    with st obtain e where "p = Leading e" by (auto simp: dedup_step_def split: pc.splits)
    with complete t p st Complete show thesis by (simp add: dedup_step_def)
  next
    case TimeOut
    with st obtain e where "p = Waiting e" by (auto simp: dedup_step_def split: pc.splits)
    with timeout t p st TimeOut show thesis by (simp add: dedup_step_def)
  next
    case DropFuture
    with st have st': "dedup_drop t k p s = Some s'" by (simp add: dedup_step_def)
    then consider e where "p = Leading e" | e where "p = Waiting e" | e where "p = Woken e"
      by (cases p) simp_all
    then show thesis
    proof cases
      case 1
      from cancel t p st' DropFuture 1 show thesis by simp
    next
      case 2
      from leave t p st' DropFuture 2 show thesis by simp
    next
      case 3
      from leave t p st' DropFuture 3 show thesis by simp
    qed
  qed
qed

lemma sf_okD:
  assumes "sf_ok P ek s"
  shows "hm_get (inflight s) k = Some e \<Longrightarrow> e < length (sf_entries s) \<and> ek e = k"
    and "e < length (sf_entries s) \<Longrightarrow> sf_result (sf_entries s ! e) = Some r \<Longrightarrow> P (ek e) r"
    and "j < length (sf_tasks s) \<Longrightarrow> sf_tasks s ! j = (k, p) \<Longrightarrow> pc_ok P ek (length (sf_entries s)) k p"
  using assms unfolding sf_ok_def by (simp_all add: all_conj_distrib) (metis fst_conv snd_conv)

lemma guard_drop_fst: "t < length (sf_tasks s) \<Longrightarrow> fst (sf_tasks (guard_drop l k s) ! t) = fst (sf_tasks s ! t)"
  by (metis guard_drop_frame(1,2) nth_map)

lemma sf_publish_fst: "t < length (sf_tasks s) \<Longrightarrow> fst (sf_tasks (sf_publish e r s) ! t) = fst (sf_tasks s ! t)"
  by (metis sf_publish_frame(2,3) nth_map)

lemma pc_ok_early:
  assumes "sf_ok P ek s" "pc_ok P ek (length (sf_entries s)) k p" "pc_entry p = Some e"
    "early_result (sf_entries s ! e) = Some r"
  shows "pc_ok P ek (length (sf_entries s)) k (Returned r)"
  using assms sf_okD(2) [OF assms(1), of e]
  by (auto simp: pc_ok_def early_result_def split: option.splits if_splits)

lemma pc_ok_awoken:
  assumes "sf_ok P ek s" "pc_ok P ek (length (sf_entries s)) k (Woken e)"
  shows "pc_ok P ek (length (sf_entries s)) k (Returned (awoken_result (sf_entries s ! e)))"
  using assms sf_okD(2) [OF assms(1), of e]
  by (auto simp: pc_ok_def awoken_result_def split: option.splits if_splits)

lemma sf_ok_step:
  assumes ok': "sf_ok P ek s" and st: "sf_step (t, a) s = Some s'"
    and fresh: "\<And>r. a = Complete r \<Longrightarrow> P (fst (sf_tasks s ! t)) r"
  shows "\<exists>ek'. sf_ok P ek' s'"
proof -
  note own = sf_okD(3) [OF ok'] and inf = sf_okD(1) [OF ok']
  from st show ?thesis
  proof (cases rule: sf_step_cases)
    case (lookup k)
    with inf show ?thesis
      by (auto intro!: exI [of _ ek] sf_ok_set_pc [OF ok'] simp: pc_ok_def split: option.split)
  next
    case (check k e)
    with own [OF check(1,2)] pc_ok_early [OF ok', of k "Holding e" e] show ?thesis
      by (auto intro!: exI [of _ ek] sf_ok_set_pc [OF ok'] simp: pc_ok_def split: option.split)
  next
    case (recheck k e)
    with own [OF recheck(1,2)] pc_ok_early [OF ok', of k "Rechecking e" e] show ?thesis
      by (auto intro!: exI [of _ ek] sf_ok_set_pc [OF ok'] simp: pc_ok_def split: option.split)
  next
    case (subscribe k e)
    with own [OF subscribe(1,2)] show ?thesis
      by (auto intro!: exI [of _ ek] sf_ok_set_pc [OF ok'] simp: pc_ok_def)
  next
    case (woken k e)
    with pc_ok_awoken [OF ok' own [OF woken(1,2)]] show ?thesis
      by (auto intro!: exI [of _ ek] sf_ok_set_pc [OF ok'])
  next
    case (insert k)
    then show ?thesis
      by (auto intro!: exI [of _ "ek(length (sf_entries s) := k)"] sf_ok_set_pc [OF sf_ok_insert [OF ok']]
          simp: pc_ok_def)
  next
    case (drop k e r)
    with own [OF drop(1,2)] show ?thesis
      by (auto intro!: exI [of _ ek] sf_ok_set_pc [OF sf_ok_guard_drop [OF ok']]
          simp: pc_ok_def guard_drop_fst)
  next
    case (complete k e r)
    have "P k r" using fresh complete(2,3) by simp
    with own [OF complete(1,2)] complete show ?thesis
      by (auto intro!: exI [of _ ek] sf_ok_set_pc [OF sf_ok_publish [OF ok']]
          simp: pc_ok_def sf_publish_fst)
  next
    case (cancel k e)
    then show ?thesis
      by (auto intro!: exI [of _ ek] sf_ok_set_pc [OF sf_ok_guard_drop [OF ok']] simp: pc_ok_def)
  qed (auto intro!: exI [of _ ek] sf_ok_set_pc [OF ok'] simp: pc_ok_def)
qed

lemma sf_step_keys:
  assumes "sf_step (t, a) s = Some s'"
  shows "map fst (sf_tasks s') = map fst (sf_tasks s)"
  using assms by (cases rule: sf_step_cases) simp_all

lemma sf_reach_ok: "sf_reach ks xs s \<Longrightarrow> \<exists>ek. sf_ok (produced ks xs) ek s \<and> map fst (sf_tasks s) = ks"
proof (induction rule: sf_reach.induct)
  case start
  have "sf_ok (produced ks []) (\<lambda>_. []) (CacheSingleFlight_new ks)"
    by (auto simp: sf_ok_def CacheSingleFlight_new_def pc_ok_def hm.get_empty)
  then show ?case by (auto simp: CacheSingleFlight_new_def comp_def)
next
  case (step xs s x s')
  obtain t a where x: "x = (t, a)" by (cases x)
  from step.IH obtain ek where ok: "sf_ok (produced ks xs) ek s" "map fst (sf_tasks s) = ks" by blast
  have "t < length (sf_tasks s)" using step.hyps(2) x by (auto split: if_splits)
  with ok(2) have t: "t < length ks" "fst (sf_tasks s ! t) = ks ! t" by auto
  have "sf_ok (produced ks (xs @ [x])) ek s" using ok(1) by (rule sf_ok_mono) (auto simp: produced_def)
  moreover have "produced ks (xs @ [x]) (fst (sf_tasks s ! t)) r" if "a = Complete r" for r
    using that t x by (auto simp: produced_def)
  ultimately show ?case
    using sf_ok_step [of "produced ks (xs @ [x])" ek s t a s'] step.hyps(2) x ok(2)
      sf_step_keys [of t a s s'] by auto
qed

section \<open>Entries are removed\<close>

definition holds_entry :: "nat \<Rightarrow> pc \<Rightarrow> bool" where
  "holds_entry e p \<longleftrightarrow> p = Leading e \<or> (\<exists>r. p = Published e r)"

definition sf_held :: "CacheSingleFlight \<Rightarrow> bool" where
  "sf_held s \<longleftrightarrow>
     (\<forall>k e. hm_get (inflight s) k = Some e \<longrightarrow>
        (\<exists>j < length (sf_tasks s). fst (sf_tasks s ! j) = k \<and> holds_entry e (snd (sf_tasks s ! j))))"

lemma holds_entry_wake [simp]: "holds_entry e (wake i p) = holds_entry e p"
  by (auto simp: holds_entry_def wake_def)

lemma guard_drop_nth:
  "j < length (sf_tasks s) \<Longrightarrow>
     \<exists>w. sf_tasks (guard_drop l k s) ! j = (fst (sf_tasks s ! j), w (snd (sf_tasks s ! j)))
       \<and> (w = id \<or> (\<exists>e. w = wake e \<and> hm_get (inflight s) k = Some e \<and> sf_result (sf_entries s ! e) = None))"
  by (auto simp: guard_drop_def Let_def notify_waiters_nth intro: exI [of _ id] split: option.splits)

lemma sf_publish_nth:
  "j < length (sf_tasks s) \<Longrightarrow>
     sf_tasks (sf_publish e r s) ! j = (fst (sf_tasks s ! j), wake e (snd (sf_tasks s ! j)))"
  by (simp add: sf_publish_def notify_waiters_nth)

lemma holds_entry_guard_drop:
  "j < length (sf_tasks s) \<Longrightarrow>
     holds_entry e (snd (sf_tasks (guard_drop l k s) ! j)) = holds_entry e (snd (sf_tasks s ! j))"
  by (drule guard_drop_nth [of _ _ l k]) auto

lemma sf_held_set_pc:
  assumes "sf_held s" "t < length (sf_tasks s)"
    "\<And>e. hm_get (inflight s) (fst (sf_tasks s ! t)) = Some e \<Longrightarrow> holds_entry e (snd (sf_tasks s ! t))
       \<Longrightarrow> holds_entry e p"
  shows "sf_held (set_pc t p s)"
  unfolding sf_held_def
proof (intro allI impI)
  fix k e
  assume g: "hm_get (inflight (set_pc t p s)) k = Some e"
  with assms(1) obtain j where "j < length (sf_tasks s)" "fst (sf_tasks s ! j) = k"
    "holds_entry e (snd (sf_tasks s ! j))" by (auto simp: sf_held_def)
  with g assms(2,3) show "\<exists>j < length (sf_tasks (set_pc t p s)). fst (sf_tasks (set_pc t p s) ! j) = k
      \<and> holds_entry e (snd (sf_tasks (set_pc t p s) ! j))"
    by (intro exI [of _ j]) (auto simp: set_pc_nth)
qed

lemma sf_held_guard_drop: "sf_held s \<Longrightarrow> sf_held (guard_drop l k s)"
  unfolding sf_held_def
  by (metis guard_drop_frame(1) guard_drop_fst guard_drop_inflight holds_entry_guard_drop option.distinct(1))

lemma sf_held_publish: "sf_held s \<Longrightarrow> sf_held (sf_publish e r s)"
  by (simp add: sf_held_def) (metis fst_conv holds_entry_wake sf_publish_nth snd_conv)

lemma sf_held_step:
  assumes "sf_held s" "sf_step (t, a) s = Some s'"
  shows "sf_held s'"
  using assms(2)
proof (cases rule: sf_step_cases)
  case (insert k)
  show ?thesis
    unfolding sf_held_def
  proof (intro allI impI)
    fix k' e
    assume g: "hm_get (inflight s') k' = Some e"
    show "\<exists>j < length (sf_tasks s'). fst (sf_tasks s' ! j) = k' \<and> holds_entry e (snd (sf_tasks s' ! j))"
    proof (cases "k' = k")
      case True
      with g insert show ?thesis
        by (intro exI [of _ t]) (auto simp: set_pc_nth hm.get_insert holds_entry_def)
    next
      case False
      with g insert have "hm_get (inflight s) k' = Some e" by (simp add: hm.get_insert)
      with assms(1) obtain j where "j < length (sf_tasks s)" "fst (sf_tasks s ! j) = k'"
        "holds_entry e (snd (sf_tasks s ! j))" by (auto simp: sf_held_def)
      with False insert show ?thesis by (intro exI [of _ j]) (auto simp: set_pc_nth)
    qed
  qed
qed (auto intro!: sf_held_set_pc assms(1) sf_held_guard_drop sf_held_publish
    simp: holds_entry_def guard_drop_inflight guard_drop_fst sf_publish_nth wake_def)

lemma sf_reach_held: "sf_reach ks xs s \<Longrightarrow> sf_held s"
proof (induction rule: sf_reach.induct)
  case start
  then show ?case by (simp add: sf_held_def CacheSingleFlight_new_def hm.get_empty)
next
  case (step xs s x s')
  then show ?case using sf_held_step by (cases x) blast
qed

section \<open>Runs end\<close>

fun finished :: "pc \<Rightarrow> bool" where
  "finished (Returned r) = True"
| "finished Abandoned = True"
| "finished _ = False"

fun rank :: "pc \<Rightarrow> nat" where
  "rank Entering = 6"
| "rank (Holding e) = 5"
| "rank (Rechecking e) = 4"
| "rank (Subscribing e) = 3"
| "rank (Waiting e) = 2"
| "rank (Woken e) = 1"
| "rank Missed = 5"
| "rank (Leading e) = 4"
| "rank (Published e r) = 3"
| "rank (Returned r) = 0"
| "rank Abandoned = 0"

definition sf_rank :: "CacheSingleFlight \<Rightarrow> nat" where
  "sf_rank s = (\<Sum>kp \<leftarrow> sf_tasks s. rank (snd kp))"

lemma rank_wake: "rank (wake e p) \<le> rank p"
  by (simp add: wake_def)

lemma sf_rank_set_pc:
  assumes "t < length (sf_tasks s)" "rank p < rank (snd (sf_tasks s ! t))"
  shows "sf_rank (set_pc t p s) < sf_rank s"
proof -
  have "rank (snd (sf_tasks s ! t)) \<le> (\<Sum>kp \<leftarrow> sf_tasks s. rank (snd kp))"
    using assms(1) elem_le_sum_list [of t "map (\<lambda>kp. rank (snd kp)) (sf_tasks s)"] by simp
  with assms show ?thesis by (simp add: sf_rank_def set_pc_def map_update sum_list_update)
qed

lemma sf_rank_notify: "sf_rank (notify_waiters e s) \<le> sf_rank s"
  by (simp add: sf_rank_def notify_waiters_def comp_def sum_list_mono rank_wake)

lemma sf_rank_guard_drop: "sf_rank (guard_drop l k s) \<le> sf_rank s"
proof -
  have "sf_rank (s\<lparr>inflight := m, sf_entries := es\<rparr>) = sf_rank s"
    "sf_rank (s\<lparr>inflight := m\<rparr>) = sf_rank s" for m es
    by (simp_all add: sf_rank_def)
  then show ?thesis
    by (auto simp: guard_drop_def Let_def split: option.split intro: order_trans [OF sf_rank_notify])
qed

lemma sf_rank_publish: "sf_rank (sf_publish e r s) \<le> sf_rank s"
  unfolding sf_publish_def by (rule order_trans [OF sf_rank_notify]) (simp add: sf_rank_def)

lemma guard_drop_leader:
  assumes "t < length (sf_tasks s)" "snd (sf_tasks s ! t) = p" "\<And>e. p \<noteq> Waiting e"
  shows "snd (sf_tasks (guard_drop l k s) ! t) = p"
  using guard_drop_nth [OF assms(1), of l k] assms(2,3) by (auto simp: wake_def)

lemma sf_rank_step:
  assumes "sf_step (t, a) s = Some s'"
  shows "sf_rank s' < sf_rank s"
  using assms
proof (cases rule: sf_step_cases)
  case (insert k)
  then show ?thesis
    using sf_rank_set_pc [of t "sf_insert k s" "Leading (length (sf_entries s))"]
    by (simp add: sf_rank_def)
next
  case (drop k e r)
  then have "sf_rank s' < sf_rank (guard_drop True k s)"
    by (auto intro: sf_rank_set_pc simp: guard_drop_leader)
  then show ?thesis using sf_rank_guard_drop by (rule order_less_le_trans)
next
  case (complete k e r)
  then have "sf_rank s' < sf_rank (sf_publish e r s)"
    by (auto intro!: sf_rank_set_pc simp: sf_publish_nth wake_def)
  then show ?thesis using sf_rank_publish by (rule order_less_le_trans)
next
  case (cancel k e)
  then have "sf_rank s' < sf_rank (guard_drop True k s)"
    by (auto intro: sf_rank_set_pc simp: guard_drop_leader)
  then show ?thesis using sf_rank_guard_drop by (rule order_less_le_trans)
qed (auto intro!: sf_rank_set_pc split: option.split)

lemma sf_run_length: "run sf_step xs s = Some s' \<Longrightarrow> length xs + sf_rank s' \<le> sf_rank s"
proof (induction xs arbitrary: s)
  case (Cons x xs)
  then obtain s1 where "sf_step x s = Some s1" "run sf_step xs s1 = Some s'"
    by (auto split: option.splits)
  with Cons.IH [of s1] sf_rank_step [of "fst x" "snd x" s s1] show ?case by simp
qed simp

lemma sf_progress:
  assumes "(k, p) \<in> set (sf_tasks s)" "\<not> finished p"
  shows "\<exists>x. sf_step x s \<noteq> None"
proof -
  from assms(1) obtain t where t: "t < length (sf_tasks s)" "sf_tasks s ! t = (k, p)"
    by (auto simp: in_set_conv_nth)
  obtain a where "dedup_step t a k p s \<noteq> None"
    using assms(2)
    by (cases p) (fastforce simp: dedup_step_def intro: that [of Proceed] that [of TimeOut] that [of DropFuture])+
  with t have "sf_step (t, a) s \<noteq> None" by simp
  then show ?thesis ..
qed

section \<open>Missed wake-ups\<close>

definition leads :: "nat \<Rightarrow> nat \<Rightarrow> CacheSingleFlight \<Rightarrow> bool" where
  "leads i e s \<longleftrightarrow> i < length (sf_tasks s) \<and> snd (sf_tasks s ! i) = Leading e"

definition sf_lead :: "CacheSingleFlight \<Rightarrow> bool" where
  "sf_lead s \<longleftrightarrow>
     (\<forall>i e. leads i e s \<longrightarrow> e < length (sf_entries s) \<and> sf_result (sf_entries s ! e) = None)
   \<and> (\<forall>i j e. leads i e s \<longrightarrow> leads j e s \<longrightarrow> i = j)"

lemma wake_eq_Leading [simp]: "wake i p = Leading e \<longleftrightarrow> p = Leading e"
  by (auto simp: wake_def)

lemma guard_drop_eq_Leading:
  "j < length (sf_tasks s) \<Longrightarrow>
     snd (sf_tasks (guard_drop l k s) ! j) = Leading e \<longleftrightarrow> snd (sf_tasks s ! j) = Leading e"
  by (drule guard_drop_nth [of _ _ l k]) auto

lemma guard_drop_result:
  "sf_result (sf_entries (guard_drop l k s) ! e) = sf_result (sf_entries s ! e)"
  by (auto simp: guard_drop_def Let_def list_update_nth split: option.split)

lemma leads_updates [simp]:
  "leads j e (set_pc t p s) \<longleftrightarrow> (if j = t then t < length (sf_tasks s) \<and> p = Leading e else leads j e s)"
  "leads j e (guard_drop l k s) \<longleftrightarrow> leads j e s"
  "leads j e (sf_publish i r s) \<longleftrightarrow> leads j e s"
  "leads j e (sf_insert k s) \<longleftrightarrow> leads j e s"
  by (auto simp: leads_def set_pc_nth guard_drop_eq_Leading sf_publish_nth)

lemma sf_lead_guard_drop: "sf_lead s \<Longrightarrow> sf_lead (guard_drop l k s)"
  by (simp add: sf_lead_def guard_drop_result)

lemma sf_lead_set_pc: "sf_lead s \<Longrightarrow> (\<And>e. p \<noteq> Leading e) \<Longrightarrow> sf_lead (set_pc t p s)"
  unfolding sf_lead_def by simp

lemma sf_lead_insert:
  assumes "sf_lead s"
  shows "sf_lead (set_pc t (Leading (length (sf_entries s))) (sf_insert k s))"
proof -
  have "\<not> leads i (length (sf_entries s)) s" for i
    using assms unfolding sf_lead_def by (metis less_irrefl)
  moreover have "leads i e s \<Longrightarrow> e < length (sf_entries s) \<and> sf_result (sf_entries s ! e) = None" for i e
    using assms unfolding sf_lead_def by blast
  moreover have "leads i e s \<Longrightarrow> leads j e s \<Longrightarrow> i = j" for i j e
    using assms unfolding sf_lead_def by blast
  ultimately show ?thesis
    unfolding sf_lead_def by (simp add: nth_append less_Suc_eq) metis
qed

lemma sf_lead_complete:
  assumes "sf_lead s" "leads t e s"
  shows "sf_lead (set_pc t (Published e r) (sf_publish e r s))"
  using assms unfolding sf_lead_def by (simp add: list_update_nth) metis

lemma sf_lead_step:
  assumes "sf_lead s" "sf_step (t, a) s = Some s'"
  shows "sf_lead s'"
  using assms(2)
proof (cases rule: sf_step_cases)
  case (complete k e r)
  then have "leads t e s" by (simp add: leads_def)
  with complete assms(1) show ?thesis by (simp add: sf_lead_complete)
qed (auto intro!: sf_lead_set_pc assms(1) sf_lead_guard_drop sf_lead_insert split: option.split)

lemma sf_reach_lead: "sf_reach ks xs s \<Longrightarrow> sf_lead s"
proof (induction rule: sf_reach.induct)
  case start
  then show ?case by (auto simp: sf_lead_def leads_def CacheSingleFlight_new_def)
next
  case (step xs s x s')
  then show ?case using sf_lead_step by (cases x) blast
qed

text \<open>A watcher that has not subscribed when its entry is published can only time out.\<close>

definition out_of_luck :: "nat \<Rightarrow> nat \<Rightarrow> CacheSingleFlight \<Rightarrow> bool" where
  "out_of_luck t e s \<longleftrightarrow>
     t < length (sf_tasks s) \<and> e < length (sf_entries s) \<and> sf_result (sf_entries s ! e) \<noteq> None
   \<and> (\<forall>j < length (sf_tasks s). snd (sf_tasks s ! j) \<noteq> Leading e)
   \<and> snd (sf_tasks s ! t) \<in> {Subscribing e, Waiting e, Returned TmrConsensusResult_default, Abandoned}"

lemma out_of_luck_set_pc:
  "out_of_luck t e s \<Longrightarrow> i < length (sf_tasks s) \<Longrightarrow> p \<noteq> Leading e \<Longrightarrow>
     (i = t \<Longrightarrow> p \<in> {Subscribing e, Waiting e, Returned TmrConsensusResult_default, Abandoned}) \<Longrightarrow>
     out_of_luck t e (set_pc i p s)"
  by (auto simp: out_of_luck_def set_pc_nth)

lemma out_of_luck_guard_drop:
  assumes "out_of_luck t e s"
  shows "out_of_luck t e (guard_drop l k s)"
proof -
  from assms have t: "t < length (sf_tasks s)" by (simp add: out_of_luck_def)
  from guard_drop_nth [OF t, of l k] assms
  have "snd (sf_tasks (guard_drop l k s) ! t) = snd (sf_tasks s ! t)"
    by (auto simp: out_of_luck_def wake_def)
  with assms show ?thesis by (simp add: out_of_luck_def guard_drop_eq_Leading guard_drop_result)
qed

lemma out_of_luck_step:
  assumes luck: "out_of_luck t e s" and st: "sf_step (i, a) s = Some s'"
  shows "out_of_luck t e s'"
proof -
  have own: "i = t \<Longrightarrow> snd (sf_tasks s ! i) \<in> {Subscribing e, Waiting e, Returned TmrConsensusResult_default, Abandoned}"
    using luck by (simp add: out_of_luck_def)
  from st show ?thesis
  proof (cases rule: sf_step_cases)
    case (insert k)
    with luck show ?thesis by (auto simp: out_of_luck_def set_pc_nth nth_append)
  next
    case (complete k e' r)
    with luck have "e' \<noteq> e" by (auto simp: out_of_luck_def)
    with luck have "out_of_luck t e (sf_publish e' r s)"
      by (auto simp: out_of_luck_def sf_publish_nth list_update_nth wake_def)
    with complete own show ?thesis
      unfolding complete(4) by (intro out_of_luck_set_pc) auto
  qed (use own in \<open>auto intro!: out_of_luck_set_pc luck out_of_luck_guard_drop split: option.split\<close>)
qed

interpretation sfm: invariant_machine sf_step "out_of_luck t e" for t e
  by unfold_locales (metis out_of_luck_step surj_pair)

section \<open>Steps between two awaits\<close>

text \<open>
  What the calls do when the code between two awaits is not interleaved, as on a runtime with
  one thread: a task that is scheduled proceeds until it awaits or returns.
\<close>

fun settled :: "pc \<Rightarrow> bool" where
  "settled Missed = False"
| "settled (Holding e) = False"
| "settled (Rechecking e) = False"
| "settled (Subscribing e) = False"
| "settled (Published e r) = False"
| "settled _ = True"

fun settle :: "nat \<Rightarrow> nat \<Rightarrow> CacheSingleFlight \<Rightarrow> CacheSingleFlight option" where
  "settle 0 t s = Some s"
| "settle (Suc n) t s =
     (if settled (snd (sf_tasks s ! t)) then Some s
      else case sf_step (t, Proceed) s of None \<Rightarrow> None | Some s' \<Rightarrow> settle n t s')"

definition coop_step :: "nat \<times> act \<Rightarrow> CacheSingleFlight \<Rightarrow> CacheSingleFlight option" where
  "coop_step x s = (case sf_step x s of None \<Rightarrow> None | Some s' \<Rightarrow> settle 3 (fst x) s')"

lemma settle_run: "settle n t s = Some s' \<Longrightarrow> \<exists>ys. run sf_step ys s = Some s'"
proof (induction n arbitrary: s)
  case 0
  then show ?case by (auto intro: exI [of _ "[]"])
next
  case (Suc n)
  show ?case
  proof (cases "settled (snd (sf_tasks s ! t))")
    case True
    with Suc.prems show ?thesis by (auto intro: exI [of _ "[]"])
  next
    case False
    with Suc.prems obtain s1 where "sf_step (t, Proceed) s = Some s1" "settle n t s1 = Some s'"
      by (auto simp del: sf_step.simps split: option.splits)
    moreover from Suc.IH [OF this(2)] obtain ys where "run sf_step ys s1 = Some s'" by blast
    ultimately have "run sf_step ((t, Proceed) # ys) s = Some s'" by simp
    then show ?thesis by blast
  qed
qed

lemma coop_step_run: "coop_step x s = Some s' \<Longrightarrow> \<exists>ys. run sf_step ys s = Some s'"
proof -
  assume "coop_step x s = Some s'"
  then obtain s1 where "sf_step x s = Some s1" "settle 3 (fst x) s1 = Some s'"
    by (auto simp: coop_step_def split: option.splits)
  moreover from settle_run [OF this(2)] obtain ys where "run sf_step ys s1 = Some s'" by blast
  ultimately have "run sf_step (x # ys) s = Some s'" by simp
  then show ?thesis by blast
qed

definition dropped :: "string list \<Rightarrow> (nat \<times> act) list \<Rightarrow> string \<Rightarrow> bool" where
  "dropped ks xs k \<longleftrightarrow> (\<exists>t < length ks. (t, DropFuture) \<in> set xs \<and> ks ! t = k)"

fun coop_pc :: "(string \<Rightarrow> TmrConsensusResult \<Rightarrow> bool) \<Rightarrow> (string \<Rightarrow> bool) \<Rightarrow> bool \<Rightarrow> CacheSingleFlight \<Rightarrow> string \<Rightarrow> pc \<Rightarrow> bool" where
  "coop_pc P D T s k (Leading e) \<longleftrightarrow> hm_get (inflight s) k = Some e"
| "coop_pc P D T s k (Waiting e) \<longleftrightarrow> hm_get (inflight s) k = Some e"
| "coop_pc P D T s k (Woken e) \<longleftrightarrow>
     e < length (sf_entries s)
     \<and> (D k \<or> (\<exists>r. sf_entries s ! e = \<lparr>sf_result = Some r, sf_cancelled = False\<rparr> \<and> P k r))"
| "coop_pc P D T s k (Returned r) \<longleftrightarrow> P k r \<or> D k \<or> T"
| "coop_pc P D T s k p \<longleftrightarrow> settled p"

definition coop_inv :: "(string \<Rightarrow> TmrConsensusResult \<Rightarrow> bool) \<Rightarrow> (string \<Rightarrow> bool) \<Rightarrow> (nat \<Rightarrow> bool) \<Rightarrow> CacheSingleFlight \<Rightarrow> bool" where
  "coop_inv P D T s \<longleftrightarrow>
     (\<forall>j < length (sf_tasks s). coop_pc P D (T j) s (fst (sf_tasks s ! j)) (snd (sf_tasks s ! j)))
   \<and> (\<forall>i j e. leads i e s \<longrightarrow> leads j e s \<longrightarrow> i = j)
   \<and> (\<forall>k e. hm_get (inflight s) k = Some e \<longrightarrow>
        e < length (sf_entries s) \<and> sf_entries s ! e = \<lparr>sf_result = None, sf_cancelled = False\<rparr>
      \<and> (\<exists>j. leads j e s \<and> fst (sf_tasks s ! j) = k))"

lemma coop_pc_cong:
  "inflight s = inflight s' \<Longrightarrow> sf_entries s = sf_entries s' \<Longrightarrow> coop_pc P D T s k p = coop_pc P D T s' k p"
  by (cases p) simp_all

lemma coop_pc_mono:
  "coop_pc P D T s k p \<Longrightarrow> (\<And>k r. P k r \<Longrightarrow> P' k r) \<Longrightarrow> (\<And>k. D k \<Longrightarrow> D' k) \<Longrightarrow> (T \<Longrightarrow> T')
     \<Longrightarrow> coop_pc P' D' T' s k p"
  by (cases p) auto

lemma coop_inv_mono:
  assumes "coop_inv P D T s" "\<And>k r. P k r \<Longrightarrow> P' k r" "\<And>k. D k \<Longrightarrow> D' k" "\<And>j. T j \<Longrightarrow> T' j"
  shows "coop_inv P' D' T' s"
proof -
  have "coop_pc P' D' (T' j) s k p" if "coop_pc P D (T j) s k p" for j k p
    using that by (rule coop_pc_mono) (auto intro: assms(2-4))
  with assms(1) show ?thesis unfolding coop_inv_def by blast
qed

lemma coop_invD:
  assumes "coop_inv P D T s"
  shows "j < length (sf_tasks s) \<Longrightarrow> sf_tasks s ! j = (k, p) \<Longrightarrow> coop_pc P D (T j) s k p"
    and "leads i e s \<Longrightarrow> leads j e s \<Longrightarrow> i = j"
    and "hm_get (inflight s) k = Some e \<Longrightarrow> e < length (sf_entries s)"
    and "hm_get (inflight s) k = Some e \<Longrightarrow> sf_entries s ! e = \<lparr>sf_result = None, sf_cancelled = False\<rparr>"
    and "hm_get (inflight s) k = Some e \<Longrightarrow> \<exists>j. leads j e s \<and> fst (sf_tasks s ! j) = k"
    and "leads j e s \<Longrightarrow> hm_get (inflight s) (fst (sf_tasks s ! j)) = Some e"
proof -
  show pcs: "j < length (sf_tasks s) \<Longrightarrow> sf_tasks s ! j = (k, p) \<Longrightarrow> coop_pc P D (T j) s k p" for j k p
    using assms unfolding coop_inv_def by (metis fst_conv snd_conv)
  show "leads j e s \<Longrightarrow> hm_get (inflight s) (fst (sf_tasks s ! j)) = Some e"
    using pcs [of j "fst (sf_tasks s ! j)" "Leading e"] by (simp add: leads_def prod_eq_iff)
qed (use assms in \<open>auto simp: coop_inv_def\<close>)

lemma coop_inv_set_pc:
  assumes "coop_inv P D T s" "t < length (sf_tasks s)" "\<not> (\<exists>e. leads t e s)" "\<And>e. p \<noteq> Leading e"
    "coop_pc P D (T t) s (fst (sf_tasks s ! t)) p"
  shows "coop_inv P D T (set_pc t p s)"
proof -
  have "coop_pc P D (T j) (set_pc t p s) k q = coop_pc P D (T j) s k q" for j k q
    by (rule coop_pc_cong) simp_all
  moreover have "leads j e (set_pc t p s) \<longleftrightarrow> leads j e s" for j e
    using assms(3,4) by auto
  moreover have "fst (sf_tasks (set_pc t p s) ! j) = fst (sf_tasks s ! j)" for j
    by (simp add: set_pc_def list_update_nth)
  ultimately show ?thesis
    using assms(1,2,5) unfolding coop_inv_def by (auto simp del: leads_updates simp: set_pc_nth)
qed

lemma coop_inv_insert:
  assumes inv: "coop_inv P D T s" and t: "t < length (sf_tasks s)" "fst (sf_tasks s ! t) = k"
    and none: "hm_get (inflight s) k = None"
  shows "coop_inv P D T (set_pc t (Leading (length (sf_entries s))) (sf_insert k s))"
proof -
  define s' where "s' = set_pc t (Leading (length (sf_entries s))) (sf_insert k s)"
  have frame: "inflight s' = hm_insert k (length (sf_entries s)) (inflight s)"
    "sf_entries s' = sf_entries s @ [\<lparr>sf_result = None, sf_cancelled = False\<rparr>]"
    "length (sf_tasks s') = length (sf_tasks s)" by (simp_all add: s'_def)
  have nth: "sf_tasks s' ! j = (fst (sf_tasks s ! j), if j = t then Leading (length (sf_entries s)) else snd (sf_tasks s ! j))"
    if "j < length (sf_tasks s)" for j
    using that by (simp add: set_pc_nth s'_def)
  have ld: "leads j e s' \<longleftrightarrow> (if j = t then e = length (sf_entries s) else leads j e s)" for j e
    using t by (auto simp: s'_def)
  have lt: "leads j e s \<Longrightarrow> e < length (sf_entries s)" for j e
    using coop_invD(3,6) [OF inv] by blast
  have ne: "leads j e s \<Longrightarrow> j \<noteq> t" for j e
    using coop_invD(6) [OF inv] t none by force
  have "coop_pc P D (T j) s' (fst (sf_tasks s' ! j)) (snd (sf_tasks s' ! j))"
    if j: "j < length (sf_tasks s)" for j
  proof (cases "j = t")
    case True
    with t show ?thesis by (simp add: nth frame hm.get_insert)
  next
    case False
    obtain kj pj where kp: "sf_tasks s ! j = (kj, pj)" by (cases "sf_tasks s ! j")
    with coop_invD(1) [OF inv j] have "coop_pc P D (T j) s kj pj" by blast
    with none have "coop_pc P D (T j) s' kj pj"
      by (cases pj) (auto simp: frame hm.get_insert nth_append)
    with False kp j show ?thesis by (simp add: nth)
  qed
  moreover have "leads i e s' \<Longrightarrow> leads j e s' \<Longrightarrow> i = j" for i j e
    using lt coop_invD(2) [OF inv, of i e j] by (auto simp: ld split: if_splits)
  moreover have "e < length (sf_entries s') \<and> sf_entries s' ! e = \<lparr>sf_result = None, sf_cancelled = False\<rparr>
      \<and> (\<exists>j. leads j e s' \<and> fst (sf_tasks s' ! j) = k')"
    if g: "hm_get (inflight s') k' = Some e" for k' e
  proof (cases "k' = k")
    case True
    with g t show ?thesis by (auto simp: frame hm.get_insert nth ld intro!: exI [of _ t])
  next
    case False
    with g have g': "hm_get (inflight s) k' = Some e" by (simp add: frame hm.get_insert)
    from coop_invD(5) [OF inv g'] obtain j where "leads j e s" "fst (sf_tasks s ! j) = k'" by blast
    with ne have "leads j e s' \<and> fst (sf_tasks s' ! j) = k'" by (simp add: ld) (auto simp: nth leads_def)
    with coop_invD(3,4) [OF inv g'] show ?thesis by (auto simp: frame nth_append)
  qed
  ultimately have "coop_inv P D T s'" unfolding coop_inv_def frame(3) by blast
  then show ?thesis by (simp add: s'_def)
qed

lemma coop_inv_release:
  assumes inv: "coop_inv P D T s" and lead: "leads t e s" "fst (sf_tasks s ! t) = k"
    and en: "D k \<or> (\<exists>r. en = \<lparr>sf_result = Some r, sf_cancelled = False\<rparr> \<and> P k r)"
    and p: "p = Abandoned \<or> (\<exists>r. p = Returned r \<and> P k r)"
  shows "coop_inv P D T (set_pc t p (notify_waiters e
           (s\<lparr>inflight := hm_remove k (inflight s), sf_entries := (sf_entries s)[e := en]\<rparr>)))"
proof -
  define s' where "s' = set_pc t p (notify_waiters e
           (s\<lparr>inflight := hm_remove k (inflight s), sf_entries := (sf_entries s)[e := en]\<rparr>))"
  have ke: "hm_get (inflight s) k = Some e" using coop_invD(6) [OF inv lead(1)] lead(2) by simp
  have e: "e < length (sf_entries s)" "sf_result (sf_entries s ! e) = None"
    using coop_invD(3,4) [OF inv ke] by simp_all
  have uniq: "k' = k" if "hm_get (inflight s) k' = Some e" for k'
    using coop_invD(5) [OF inv that] coop_invD(2) [OF inv lead(1)] lead(2) by blast
  have t: "t < length (sf_tasks s)" using lead(1) by (simp add: leads_def)
  have frame: "inflight s' = hm_remove k (inflight s)" "sf_entries s' = (sf_entries s)[e := en]"
    "length (sf_tasks s') = length (sf_tasks s)" by (simp_all add: s'_def)
  have nth: "sf_tasks s' ! j = (fst (sf_tasks s ! j), if j = t then p else wake e (snd (sf_tasks s ! j)))"
    if "j < length (sf_tasks s)" for j
    using that by (simp add: set_pc_nth notify_waiters_nth s'_def)
  have ld: "leads j i s' \<longleftrightarrow> j \<noteq> t \<and> leads j i s" for i j
    using p by (auto simp: leads_def nth frame split: if_splits)
  have "coop_pc P D (T j) s' (fst (sf_tasks s' ! j)) (snd (sf_tasks s' ! j))"
    if j: "j < length (sf_tasks s)" for j
  proof (cases "j = t")
    case True
    with p nth [OF j] lead(2) show ?thesis by auto
  next
    case False
    obtain kj pj where kp: "sf_tasks s ! j = (kj, pj)" by (cases "sf_tasks s ! j")
    with coop_invD(1) [OF inv j] have c: "coop_pc P D (T j) s kj pj" by blast
    have "coop_pc P D (T j) s' kj (wake e pj)"
    proof (cases pj)
      case (Waiting i)
      with c uniq [of kj] en e ke show ?thesis
        by (auto simp: wake_def hm.get_remove frame)
    next
      case (Leading i)
      with kp j have "leads j i s" by (simp add: leads_def)
      with coop_invD(2) [OF inv lead(1), of j] False have "i \<noteq> e" by blast
      with c Leading ke show ?thesis by (auto simp: hm.get_remove frame wake_def)
    next
      case (Woken i)
      with c e show ?thesis by (auto simp: wake_def frame list_update_nth)
    qed (use c in \<open>simp_all add: wake_def\<close>)
    with False kp nth [OF j] show ?thesis by simp
  qed
  moreover have "leads i e' s' \<Longrightarrow> leads j e' s' \<Longrightarrow> i = j" for i j e'
    unfolding ld using coop_invD(2) [OF inv] by blast
  moreover have "e' < length (sf_entries s') \<and> sf_entries s' ! e' = \<lparr>sf_result = None, sf_cancelled = False\<rparr>
      \<and> (\<exists>j. leads j e' s' \<and> fst (sf_tasks s' ! j) = k')"
    if g: "hm_get (inflight s') k' = Some e'" for k' e'
  proof -
    from g have g': "hm_get (inflight s) k' = Some e'" "k' \<noteq> k"
      by (auto simp: frame hm.get_remove split: if_splits)
    with uniq have "e' \<noteq> e" by blast
    from coop_invD(5) [OF inv g'(1)] obtain j where "leads j e' s" "fst (sf_tasks s ! j) = k'" by blast
    with g'(2) lead(2) have "leads j e' s' \<and> fst (sf_tasks s' ! j) = k'"
      unfolding ld by (auto simp: nth leads_def)
    with coop_invD(3,4) [OF inv g'(1)] \<open>e' \<noteq> e\<close> show ?thesis unfolding frame by (auto simp: list_update_nth)
  qed
  ultimately have "coop_inv P D T s'" unfolding coop_inv_def frame(3) by blast
  then show ?thesis by (simp add: s'_def)
qed

lemma set_pc_set_pc [simp]: "set_pc t p (set_pc t q s) = set_pc t p s"
  by (cases "t < length (sf_tasks s)") (simp_all add: set_pc_def list_update_beyond not_less)

lemma set_pc_self [simp]:
  "t < length (sf_tasks s) \<Longrightarrow> sf_tasks (set_pc t p s) ! t = (fst (sf_tasks s ! t), p)"
  by (simp add: set_pc_nth)

lemma sf_insert_set_pc: "sf_insert k (set_pc t p s) = set_pc t p (sf_insert k s)"
  by (simp add: sf_insert_def set_pc_def)

text \<open>What one scheduling of a task amounts to in a state that satisfies the invariant.\<close>

lemma coop_enter:
  assumes inv: "coop_inv P D T s" and t: "t < length (sf_tasks s)" "sf_tasks s ! t = (k, Entering)"
  shows "coop_step (t, Proceed) s = Some
     (case hm_get (inflight s) k of
        None \<Rightarrow> set_pc t (Leading (length (sf_entries s))) (sf_insert k s)
      | Some e \<Rightarrow> set_pc t (Waiting e) s)"
proof (cases "hm_get (inflight s) k")
  case None
  with t show ?thesis
    by (simp add: coop_step_def dedup_step_def sf_insert_set_pc eval_nat_numeral)
next
  case (Some e)
  have "early_result (sf_entries s ! e) = None"
    using coop_invD(4) [OF inv Some] by (simp add: early_result_def)
  with Some t show ?thesis
    by (simp add: coop_step_def dedup_step_def eval_nat_numeral)
qed

lemma guard_drop_own:
  assumes "hm_get (inflight s) k = Some e" "e < length (sf_entries s)"
  shows "guard_drop True k (set_pc t p (sf_publish e r s)) =
     set_pc t p (notify_waiters e (s\<lparr>inflight := hm_remove k (inflight s),
        sf_entries := (sf_entries s)[e := (sf_entries s ! e)\<lparr>sf_result := Some r\<rparr>]\<rparr>))"
  using assms by (simp add: guard_drop_def Let_def) (simp add: set_pc_def sf_publish_def notify_waiters_def)

lemma coop_finish:
  assumes inv: "coop_inv P D T s" and t: "t < length (sf_tasks s)" "sf_tasks s ! t = (k, Leading e)"
  shows "coop_step (t, Complete r) s = Some (set_pc t (Returned r) (notify_waiters e
     (s\<lparr>inflight := hm_remove k (inflight s),
        sf_entries := (sf_entries s)[e := \<lparr>sf_result = Some r, sf_cancelled = False\<rparr>]\<rparr>)))"
proof -
  have g: "hm_get (inflight s) k = Some e" using coop_invD(1) [OF inv t] by simp
  have "(sf_entries s ! e)\<lparr>sf_result := Some r\<rparr> = \<lparr>sf_result = Some r, sf_cancelled = False\<rparr>"
    using coop_invD(4) [OF inv g] by simp
  with guard_drop_own [OF g coop_invD(3) [OF inv g], of t] t show ?thesis
    by (simp add: coop_step_def dedup_step_def eval_nat_numeral sf_publish_fst)
qed

lemma coop_leave:
  assumes inv: "coop_inv P D T s" and t: "t < length (sf_tasks s)" "sf_tasks s ! t = (k, Leading e)"
  shows "coop_step (t, DropFuture) s = Some (set_pc t Abandoned (notify_waiters e
     (s\<lparr>inflight := hm_remove k (inflight s),
        sf_entries := (sf_entries s)[e := \<lparr>sf_result = None, sf_cancelled = True\<rparr>]\<rparr>)))"
proof -
  have g: "hm_get (inflight s) k = Some e" using coop_invD(1) [OF inv t] by simp
  with t coop_invD(4) [OF inv g] show ?thesis
    by (simp add: coop_step_def dedup_step_def eval_nat_numeral guard_drop_def Let_def)
qed

lemma coop_inv_step:
  assumes inv: "coop_inv (produced ks xs) (dropped ks xs) (\<lambda>j. (j, TimeOut) \<in> set xs) s"
    and keys: "map fst (sf_tasks s) = ks" and st: "coop_step (t, a) s = Some s'"
  shows "coop_inv (produced ks (xs @ [(t, a)])) (dropped ks (xs @ [(t, a)]))
           (\<lambda>j. (j, TimeOut) \<in> set (xs @ [(t, a)])) s'"
proof -
  define P where "P = produced ks (xs @ [(t, a)])"
  define D where "D = dropped ks (xs @ [(t, a)])"
  define T where "T = (\<lambda>j. (j, TimeOut) \<in> set (xs @ [(t, a)]))"
  have inv': "coop_inv P D T s"
    using inv by (rule coop_inv_mono) (auto simp: P_def D_def T_def produced_def dropped_def)
  obtain s1 where st1: "sf_step (t, a) s = Some s1"
    using st by (auto simp: coop_step_def split: option.splits)
  then obtain k p where t: "t < length (sf_tasks s)" "sf_tasks s ! t = (k, p)"
    by (cases "sf_tasks s ! t") (auto split: if_splits)
  with keys have kt: "t < length ks" "ks ! t = k" by auto
  note pcs = coop_invD(1) [OF inv' t]
  have nolead: "\<not> (\<exists>e. leads t e s)" if "\<And>e. p \<noteq> Leading e" using t that by (simp add: leads_def)
  from st1 have "coop_inv P D T s'"
  proof (cases rule: sf_step_cases)
    case (lookup k')
    with t have p: "p = Entering" "k' = k" by simp_all
    with coop_enter [OF inv', of t k] t st lookup(3) show ?thesis
      by (auto split: option.splits intro!: coop_inv_insert [OF inv'] coop_inv_set_pc [OF inv'] nolead)
  next
    case (woken k' e)
    with t have p: "p = Woken e" by simp
    with st woken t have "s' = set_pc t (Returned (awoken_result (sf_entries s ! e))) s"
      by (simp add: coop_step_def dedup_step_def eval_nat_numeral)
    with t p pcs show ?thesis
      by (auto intro!: coop_inv_set_pc [OF inv'] nolead simp: awoken_result_def)
  next
    case (complete k' e r)
    with t have p: "p = Leading e" by simp
    have "P k r" using kt complete(3) by (auto simp: P_def produced_def)
    with coop_finish [OF inv', of t k e r] t p st complete(3) show ?thesis
      by (auto intro!: coop_inv_release [OF inv'] simp: leads_def)
  next
    case (timeout k' e)
    with t have p: "p = Waiting e" by simp
    with st timeout t have "s' = set_pc t (Returned TmrConsensusResult_default) s"
      by (simp add: coop_step_def dedup_step_def eval_nat_numeral)
    moreover have "T t" using timeout(3) by (simp add: T_def)
    ultimately show ?thesis using t p by (auto intro!: coop_inv_set_pc [OF inv'] nolead)
  next
    case (cancel k' e)
    with t have p: "p = Leading e" by simp
    have "D k" using kt cancel(3) by (auto simp: D_def dropped_def)
    with coop_leave [OF inv', of t k e] t p st cancel(3) show ?thesis
      by (auto intro!: coop_inv_release [OF inv'] simp: leads_def)
  next
    case (leave k' e)
    with t have p: "p = Waiting e \<or> p = Woken e" by auto
    with st leave t have "s' = set_pc t Abandoned s"
      by (auto simp: coop_step_def dedup_step_def eval_nat_numeral)
    with t p show ?thesis by (auto intro!: coop_inv_set_pc [OF inv'] nolead)
  qed (use t pcs in auto)
  then show ?thesis by (simp add: P_def D_def T_def)
qed

lemma sf_run_keys: "run sf_step ys s = Some s' \<Longrightarrow> map fst (sf_tasks s') = map fst (sf_tasks s)"
proof (induction ys arbitrary: s)
  case (Cons y ys)
  then obtain s1 where s1: "sf_step y s = Some s1" "run sf_step ys s1 = Some s'"
    by (auto split: option.splits)
  obtain t a where "y = (t, a)" by (cases y)
  with s1(1) have "sf_step (t, a) s = Some s1" by simp
  then have "map fst (sf_tasks s1) = map fst (sf_tasks s)" by (rule sf_step_keys)
  with Cons.IH [OF s1(2)] show ?case by simp
qed simp

lemma coop_run_inv:
  "run coop_step xs (CacheSingleFlight_new ks) = Some s \<Longrightarrow>
     coop_inv (produced ks xs) (dropped ks xs) (\<lambda>j. (j, TimeOut) \<in> set xs) s \<and> map fst (sf_tasks s) = ks"
proof (induction xs arbitrary: s rule: rev_induct)
  case Nil
  then show ?case
    by (auto simp: CacheSingleFlight_new_def coop_inv_def hm.get_empty leads_def comp_def)
next
  case (snoc x xs)
  then obtain v where v: "run coop_step xs (CacheSingleFlight_new ks) = Some v" "coop_step x v = Some s"
    by (auto simp: run_snoc)
  from snoc.IH [OF v(1)] coop_inv_step [of ks xs v "fst x" "snd x" s] v(2)
    coop_step_run [OF v(2)] sf_run_keys show ?case by force
qed

section \<open>Properties\<close>

named_theorems sf_eval "evaluation of concrete runs"

lemmas sf_eval_defs [sf_eval] =
  CacheSingleFlight_new_def dedup_step_def set_pc_def notify_waiters_def wake_def early_result_def
  awoken_result_def guard_drop_def sf_insert_def sf_publish_def coop_step_def
  hm_get_def hm_insert_def hm_remove_def Let_def eval_nat_numeral

text \<open>C14: Under every interleaving of the calls of \<open>dedup\<close>, a call returns either the empty
  result or a result that a call with the same key computed. Since the key carries the
  tenant, deduplication never hands the answer for one key to a caller of another.\<close>

theorem single_flight_same_key:
  assumes "run sf_step xs (CacheSingleFlight_new ks) = Some s" "t < length ks"
    "sf_tasks s ! t = (k, Returned r)"
  shows "k = ks ! t \<and>
     (r = TmrConsensusResult_default \<or> (\<exists>u < length ks. (u, Complete r) \<in> set xs \<and> ks ! u = k))"
proof -
  obtain ek where ok: "sf_ok (produced ks xs) ek s" "map fst (sf_tasks s) = ks"
    using sf_reach_ok [OF sf_reach_run [OF assms(1)]] by blast
  from ok(2) assms(2) have t: "t < length (sf_tasks s)" by auto
  from sf_okD(3) [OF ok(1) t assms(3)] have "r = TmrConsensusResult_default \<or> produced ks xs k r"
    by (simp add: pc_ok_def)
  moreover have "k = ks ! t" using ok(2) t assms(3) by auto
  ultimately show ?thesis by (auto simp: produced_def)
qed

theorem single_flight_same_key_witness:
  "\<exists>u < (2 :: nat). (u, Complete (TmrConsensusResult_default\<lparr>agreement_count := 2\<rparr>)) \<in>
       set [(0, Proceed), (0, Proceed), (1, Proceed), (1, Proceed), (1, Proceed), (1, Proceed),
            (0, Complete (TmrConsensusResult_default\<lparr>agreement_count := 2\<rparr>)), (1, Proceed)]
     \<and> [''k'', ''k''] ! u = ''k''"
proof -
  define r where "r = TmrConsensusResult_default\<lparr>agreement_count := 2\<rparr>"
  let ?xs = "[(0, Proceed), (0, Proceed), (1, Proceed), (1, Proceed), (1, Proceed), (1, Proceed),
            (0, Complete r), (1, Proceed)]"
  have ne: "r \<noteq> TmrConsensusResult_default" by (simp add: r_def TmrConsensusResult_default_def)
  have "run sf_step ?xs (CacheSingleFlight_new [''k'', ''k'']) =
     Some \<lparr>inflight = [(''k'', 0)], sf_entries = [\<lparr>sf_result = Some r, sf_cancelled = False\<rparr>],
           sf_tasks = [(''k'', Published 0 r), (''k'', Returned r)]\<rparr>"
    by (simp add: sf_eval)
  from single_flight_same_key [OF this, of 1 "''k''" r] ne
  have "\<exists>u < 2. (u, Complete r) \<in> set ?xs \<and> [''k'', ''k''] ! u = ''k''" by (simp add: numeral_2_eq_2)
  then show ?thesis by (simp only: r_def)
qed

text \<open>C15: Every run of concurrent calls has at most six steps per call, and a run that cannot be
  extended has all calls returned or dropped and no entry left in the map: no call of
  \<open>dedup\<close> waits forever and no entry leaks, whatever the order of the steps.\<close>

theorem single_flight_terminates:
  assumes "run sf_step xs (CacheSingleFlight_new ks) = Some s"
  shows "length xs \<le> 6 * length ks
     \<and> ((\<forall>x. sf_step x s = None) \<longrightarrow> (\<forall>(k, p) \<in> set (sf_tasks s). finished p) \<and> inflight s = [])"
proof (intro conjI impI)
  have "sf_rank (CacheSingleFlight_new ks) = 6 * length ks"
    by (simp add: sf_rank_def CacheSingleFlight_new_def comp_def sum_list_triv)
  with sf_run_length [OF assms] show "length xs \<le> 6 * length ks" by simp
  assume stuck: "\<forall>x. sf_step x s = None"
  show fin: "\<forall>(k, p) \<in> set (sf_tasks s). finished p"
  proof clarify
    fix k p
    assume "(k, p) \<in> set (sf_tasks s)"
    with sf_progress [of k p s] stuck show "finished p" by metis
  qed
  have held: "sf_held s" by (rule sf_reach_held [OF sf_reach_run [OF assms]])
  have "hm_get (inflight s) k = None" for k
  proof (rule ccontr)
    assume "hm_get (inflight s) k \<noteq> None"
    then obtain e j where j: "j < length (sf_tasks s)" "holds_entry e (snd (sf_tasks s ! j))"
      using held unfolding sf_held_def by blast
    from fin nth_mem [OF j(1)] have "finished (snd (sf_tasks s ! j))" by (auto simp: case_prod_beta)
    with j(2) show False by (auto simp: holds_entry_def)
  qed
  then have "\<forall>k. map_of (inflight s) k = None" by (simp add: hm_get_def)
  then show "inflight s = []" by (metis map_of_eq_None_iff list.set_intros(1) neq_Nil_conv image_eqI)
qed

theorem single_flight_terminates_witness:
  "\<exists>s. run sf_step [(0, Proceed), (0, Proceed), (0, Complete TmrConsensusResult_default), (0, Proceed)]
          (CacheSingleFlight_new [''k'']) = Some s \<and> 4 \<le> 6 * length [''k''] \<and> inflight s = []"
proof -
  define s where "s = \<lparr>inflight = [], sf_entries = [\<lparr>sf_result = Some TmrConsensusResult_default, sf_cancelled = False\<rparr>],
     sf_tasks = [(''k'', Returned TmrConsensusResult_default)]\<rparr>"
  have r: "run sf_step [(0, Proceed), (0, Proceed), (0, Complete TmrConsensusResult_default), (0, Proceed)]
      (CacheSingleFlight_new [''k'']) = Some s"
    by (simp add: sf_eval s_def)
  have "sf_step (t, a) s = None" for t a
    by (cases a) (simp_all add: s_def dedup_step_def)
  then have "\<forall>x. sf_step x s = None" by (metis surj_pair)
  with single_flight_terminates [OF r] r show ?thesis by simp
qed

text \<open>When the code between two awaits is not interleaved, single flight keeps its promise:
  at most one call per key leads at any time, and every call that returns has the result of a
  leader of its key, unless it timed out itself or a call of its key was dropped.\<close>

theorem coop_single_flight:
  assumes "run coop_step xs (CacheSingleFlight_new ks) = Some s"
  shows "(\<forall>i j e f. i < length ks \<longrightarrow> j < length ks \<longrightarrow> ks ! i = ks ! j \<longrightarrow>
            snd (sf_tasks s ! i) = Leading e \<longrightarrow> snd (sf_tasks s ! j) = Leading f \<longrightarrow> i = j)
     \<and> (\<forall>j r. j < length ks \<longrightarrow> snd (sf_tasks s ! j) = Returned r \<longrightarrow>
            (\<exists>u < length ks. (u, Complete r) \<in> set xs \<and> ks ! u = ks ! j)
          \<or> (j, TimeOut) \<in> set xs \<or> (\<exists>u < length ks. (u, DropFuture) \<in> set xs \<and> ks ! u = ks ! j))"
proof (intro conjI allI impI)
  from coop_run_inv [OF assms]
  have inv: "coop_inv (produced ks xs) (dropped ks xs) (\<lambda>j. (j, TimeOut) \<in> set xs) s"
    and keys: "map fst (sf_tasks s) = ks" by simp_all
  have len: "length (sf_tasks s) = length ks" using keys by auto
  have key: "fst (sf_tasks s ! j) = ks ! j" if "j < length ks" for j
    using that keys len by (metis nth_map)
  fix i j e f
  assume a: "i < length ks" "j < length ks" "ks ! i = ks ! j" "snd (sf_tasks s ! i) = Leading e"
    "snd (sf_tasks s ! j) = Leading f"
  then have l: "leads i e s" "leads j f s" by (simp_all add: leads_def len)
  with coop_invD(6) [OF inv] a key have "e = f" by (metis option.inject)
  with l coop_invD(2) [OF inv] show "i = j" by blast
next
  fix j r
  assume a: "j < length ks" "snd (sf_tasks s ! j) = Returned r"
  from coop_run_inv [OF assms]
  have inv: "coop_inv (produced ks xs) (dropped ks xs) (\<lambda>j. (j, TimeOut) \<in> set xs) s"
    and keys: "map fst (sf_tasks s) = ks" by simp_all
  from a keys have "j < length (sf_tasks s)" "sf_tasks s ! j = (ks ! j, Returned r)"
    by (auto simp: prod_eq_iff)
  from coop_invD(1) [OF inv this]
  show "(\<exists>u < length ks. (u, Complete r) \<in> set xs \<and> ks ! u = ks ! j)
          \<or> (j, TimeOut) \<in> set xs \<or> (\<exists>u < length ks. (u, DropFuture) \<in> set xs \<and> ks ! u = ks ! j)"
    by (auto simp: produced_def dropped_def)
qed

theorem coop_single_flight_witness:
  "\<exists>s. run coop_step [(0, Proceed), (1, Proceed), (0, Complete (TmrConsensusResult_default\<lparr>agreement_count := 3\<rparr>)), (1, Proceed)]
          (CacheSingleFlight_new [''k'', ''k'']) = Some s
     \<and> (\<exists>u < (2 :: nat). (u, Complete (TmrConsensusResult_default\<lparr>agreement_count := 3\<rparr>)) \<in>
          set [(0, Proceed), (1, Proceed), (0, Complete (TmrConsensusResult_default\<lparr>agreement_count := 3\<rparr>)), (1, Proceed)])"
proof -
  define r where "r = TmrConsensusResult_default\<lparr>agreement_count := 3\<rparr>"
  define s where "s = \<lparr>inflight = [], sf_entries = [\<lparr>sf_result = Some r, sf_cancelled = False\<rparr>],
     sf_tasks = [(''k'', Returned r), (''k'', Returned r)]\<rparr>"
  have e: "run coop_step [(0, Proceed), (1, Proceed), (0, Complete r), (1, Proceed)]
      (CacheSingleFlight_new [''k'', ''k'']) = Some s"
    by (simp add: sf_eval s_def)
  from coop_single_flight [OF e, THEN conjunct2, rule_format, of 1 r] e show ?thesis
    unfolding r_def [symmetric] by (auto simp: s_def numeral_2_eq_2)
qed

text \<open>With interleaving, a watcher that has made its second check but not yet created the
  \<open>notified()\<close> future when the leader publishes misses the wake-up: whatever happens
  later, it never gets the published result, it can only time out with the empty result or be
  dropped.\<close>

theorem watcher_misses_wakeup:
  assumes "run sf_step xs (CacheSingleFlight_new ks) = Some s" "t < length ks"
    "sf_tasks s ! t = (k, Subscribing e)" "sf_result (sf_entries s ! e) = Some r"
    "run sf_step ys s = Some s'"
  shows "snd (sf_tasks s' ! t) \<in> {Subscribing e, Waiting e, Returned TmrConsensusResult_default, Abandoned}"
proof -
  note reach = sf_reach_run [OF assms(1)]
  obtain ek where ok: "sf_ok (produced ks xs) ek s" "map fst (sf_tasks s) = ks"
    using sf_reach_ok [OF reach] by blast
  from ok(2) assms(2) have t: "t < length (sf_tasks s)" by auto
  from sf_okD(3) [OF ok(1) t assms(3)] have "e < length (sf_entries s)" by (simp add: pc_ok_def)
  moreover have "\<not> leads j e s" for j
    using sf_reach_lead [OF reach] assms(4) unfolding sf_lead_def by fastforce
  ultimately have "out_of_luck t e s"
    using t assms(3,4) by (simp add: out_of_luck_def leads_def)
  from sfm.run_inv [OF this assms(5)] show ?thesis by (simp add: out_of_luck_def)
qed

theorem watcher_misses_wakeup_witness:
  "\<exists>s s'. run sf_step [(0, Proceed), (0, Proceed), (1, Proceed), (1, Proceed), (1, Proceed),
              (0, Complete (TmrConsensusResult_default\<lparr>agreement_count := 3\<rparr>))]
            (CacheSingleFlight_new [''k'', ''k'']) = Some s
     \<and> run sf_step [(0, Proceed), (1, Proceed), (1, TimeOut)] s = Some s'
     \<and> snd (sf_tasks s' ! 1) \<in> {Subscribing 0, Waiting 0, Returned TmrConsensusResult_default, Abandoned}"
proof -
  define r where "r = TmrConsensusResult_default\<lparr>agreement_count := 3\<rparr>"
  define s where "s = \<lparr>inflight = [(''k'', 0)], sf_entries = [\<lparr>sf_result = Some r, sf_cancelled = False\<rparr>],
     sf_tasks = [(''k'', Published 0 r), (''k'', Subscribing 0)]\<rparr>"
  have e: "run sf_step [(0, Proceed), (0, Proceed), (1, Proceed), (1, Proceed), (1, Proceed), (0, Complete r)]
      (CacheSingleFlight_new [''k'', ''k'']) = Some s"
    by (simp add: sf_eval s_def)
  have f: "\<exists>s'. run sf_step [(0, Proceed), (1, Proceed), (1, TimeOut)] s = Some s'"
    by (simp add: sf_eval s_def)
  then obtain s' where s': "run sf_step [(0, Proceed), (1, Proceed), (1, TimeOut)] s = Some s'" ..
  from watcher_misses_wakeup [OF e _ _ _ s', of 1 "''k''" 0 r]
  have "snd (sf_tasks s' ! 1) \<in> {Subscribing 0, Waiting 0, Returned TmrConsensusResult_default, Abandoned}"
    by (simp add: s_def)
  with e s' show ?thesis unfolding r_def [symmetric] by blast
qed

text \<open>Lookup and insertion are two critical sections, so two calls with one key can both
  lead. The guard of the first then removes and cancels the entry of the second: a watcher of
  the second leader returns the empty result although no call failed or was dropped.\<close>

theorem two_leaders_one_key:
  "run sf_step
     [(0, Proceed), (1, Proceed), (0, Proceed), (1, Proceed),
      (2, Proceed), (2, Proceed), (2, Proceed), (2, Proceed),
      (0, Complete r0), (0, Proceed), (2, Proceed), (1, Complete r1), (1, Proceed)]
     (CacheSingleFlight_new [k, k, k]) =
   Some \<lparr>inflight = [],
         sf_entries = [\<lparr>sf_result = Some r0, sf_cancelled = False\<rparr>, \<lparr>sf_result = Some r1, sf_cancelled = True\<rparr>],
         sf_tasks = [(k, Returned r0), (k, Returned r1), (k, Returned TmrConsensusResult_default)]\<rparr>"
  by (simp add: sf_eval)

end
