(* ===== verification/Execute.thy ===== *)
theory Execute
  imports SingleFlight
begin

text \<open>
  The entry point of \<open>crates/llm-router/src/coordinator.rs\<close>: construction of the orchestrator
  from its providers and the environment (\<open>with_providers\<close>), the semantic cache
  (\<open>SemanticCache\<close>), and \<open>execute_consensus_providers\<close>, which asks the cache and then
  shares one dispatch per key through the single-flight map.

  Concurrent requests are a transition system over the orchestrator, the single-flight map and
  the cache. A dispatch is one step; the cache writes it spawns run later, in any order. Redis
  is a record of functions over server states with the documented behaviour
  \<open>cache_docs\<close>; serialization of results is a pair of functions. Environment variables are
  a function from names to optional values.
\<close>

section \<open>Construction\<close>

datatype TmrCanonicalStrategy = Strict | Fuzzy

definition TmrCanonicalStrategy_from_str_lossy :: "string \<Rightarrow> TmrCanonicalStrategy" where
  "TmrCanonicalStrategy_from_str_lossy s = (if to_lowercase s = ''fuzzy'' then Fuzzy else Strict)"

definition env_parse :: "(string \<Rightarrow> string option) \<Rightarrow> string \<Rightarrow> nat \<Rightarrow> nat" where
  "env_parse vars name d =
     (case Option.bind (vars name) (parse_unsigned 64) of Some n \<Rightarrow> n | None \<Rightarrow> d)"

definition TMR_CANONICAL_STRATEGY_DEFAULT :: string where
  "TMR_CANONICAL_STRATEGY_DEFAULT = ''strict''"

definition new_adapter :: "string \<times> string \<times> u64 \<Rightarrow> ProviderAdapter" where
  "new_adapter p =
     (case p of (i, nm, ms) \<Rightarrow>
        \<lparr>ad_node = Custom i, ad_id = i, ad_name = nm, ad_timeout_ms = ms,
         ad_breaker = CircuitBreaker_new (''provider-'' @ i) CircuitBreakerConfig_default\<rparr>)"

definition env_strategy :: "(string \<Rightarrow> string option) \<Rightarrow> TmrCanonicalStrategy" where
  "env_strategy vars =
     TmrCanonicalStrategy_from_str_lossy
       (case vars ''TMR_CANONICAL_STRATEGY'' of Some s \<Rightarrow> s | None \<Rightarrow> TMR_CANONICAL_STRATEGY_DEFAULT)"

definition env_config :: "(string \<Rightarrow> string option) \<Rightarrow> TmrConfig" where
  "env_config vars =
     \<lparr>strict_mode = (env_strategy vars = Strict),
      query_timeout_ms = of_nat (env_parse vars ''TMR_QUERY_TIMEOUT_MS'' 30000),
      consensus_timeout_ms = of_nat (env_parse vars ''TMR_CONSENSUS_TIMEOUT_MS'' 60000),
      min_agreement = max (env_parse vars ''TMR_MIN_AGREEMENT'' TMR_MIN_AGREEMENT) 2\<rparr>"

definition with_providers ::
  "(string \<Rightarrow> string option) \<Rightarrow> (string \<times> string \<times> u64) list \<Rightarrow> SlmNodeConfig \<Rightarrow> 's
     \<Rightarrow> ('s, 'm) TmrOrchestrator" where
  "with_providers vars providers slm st =
     \<lparr>fallback_node = PhysicalFallbackNode_new (to_wasi_nn_endpoint slm), fallback_trigger_count = 0,
      adapters = map new_adapter providers,
      tmr_engine = with_config_and_nodes (env_config vars) (map (Custom \<circ> fst) providers),
      or_min_agreement = min_agreement (env_config vars), has_cache = False, masking_maps = [],
      has_finops = False, or_store = st, cache_writes = [], proofs = [], billed = []\<rparr>"

definition with_cache :: "('s, 'm) TmrOrchestrator \<Rightarrow> ('s, 'm) TmrOrchestrator" where
  "with_cache o1 = o1\<lparr>has_cache := True\<rparr>"

definition with_finops :: "('s, 'm) TmrOrchestrator \<Rightarrow> ('s, 'm) TmrOrchestrator" where
  "with_finops o1 = o1\<lparr>has_finops := True\<rparr>"

definition SlmNodeConfig_from_env :: "(string \<Rightarrow> string option) \<Rightarrow> string + SlmNodeConfig" where
  "SlmNodeConfig_from_env vars =
     (let path = (case vars ''SLM_MODEL_PATH'' of Some p \<Rightarrow> p | None \<Rightarrow> ''./serein-models/fallback-slm.gguf'')
      in if path = []
         then Inl ''SLM_MODEL_PATH must not be empty - Physical Fallback Node requires a valid model path''
         else Inr \<lparr>slm_model_id = (case vars ''SLM_MODEL_ID'' of Some m \<Rightarrow> m | None \<Rightarrow> ''serein-slm-v1''),
                   slm_model_path = path,
                   execution_mode = SlmExecutionMode_from_str_lossy
                     (case vars ''SLM_EXECUTION_MODE'' of Some m \<Rightarrow> m | None \<Rightarrow> ''active'')\<rparr>)"

definition SlmNodeConfig_default :: "(string \<Rightarrow> string option) \<Rightarrow> SlmNodeConfig" where
  "SlmNodeConfig_default vars =
     (case SlmNodeConfig_from_env vars of
        Inr c \<Rightarrow> c
      | Inl _ \<Rightarrow> \<lparr>slm_model_id = ''serein-slm-v1'', slm_model_path = ''./serein-models/fallback-slm.gguf'',
                  execution_mode = SlmLazy\<rparr>)"

section \<open>The semantic cache\<close>

record 'c cache_ops =
  c_get :: "string \<Rightarrow> 'c \<Rightarrow> string option"
  c_set_ex :: "string \<Rightarrow> string \<Rightarrow> u64 \<Rightarrow> 'c \<Rightarrow> 'c"
  c_expire :: "string \<Rightarrow> 'c \<Rightarrow> 'c"

definition cache_docs :: "'c cache_ops \<Rightarrow> bool" where
  "cache_docs rd \<longleftrightarrow>
     (\<forall>k k' v t c. c_get rd k (c_set_ex rd k' v t c) = (if k = k' then Some v else c_get rd k c))
   \<and> (\<forall>k k' c. c_get rd k (c_expire rd k' c) = (if k = k' then None else c_get rd k c))"

lemma cache_docsD:
  assumes "cache_docs rd"
  shows "c_get rd k (c_set_ex rd k' v t c) = (if k = k' then Some v else c_get rd k c)"
    and "c_get rd k (c_expire rd k' c) = (if k = k' then None else c_get rd k c)"
  using assms unfolding cache_docs_def by blast+

definition CACHE_KEY_PREFIX :: string where
  "CACHE_KEY_PREFIX = ''serein:cache:ast''"

definition CACHE_TTL_SECS :: u64 where
  "CACHE_TTL_SECS = 3600"

datatype CacheLookup = Hit string | Miss

definition redis_key :: "string \<Rightarrow> string" where
  "redis_key key = CACHE_KEY_PREFIX @ '':'' @ key"

definition cache_get :: "'c cache_ops \<Rightarrow> fate \<Rightarrow> string \<Rightarrow> 'c \<Rightarrow> CacheLookup" where
  "cache_get rd f key c =
     (if f = Replied
      then case c_get rd (redis_key key) c of Some v \<Rightarrow> Hit v | None \<Rightarrow> Miss
      else Miss)"

definition cache_set :: "'c cache_ops \<Rightarrow> fate \<Rightarrow> string \<Rightarrow> string \<Rightarrow> 'c \<Rightarrow> 'c" where
  "cache_set rd f key v c = (if ran f then c_set_ex rd (redis_key key) v CACHE_TTL_SECS c else c)"

section \<open>Requests\<close>

record ('s, 'm, 'c) gateway =
  gw_orch :: "('s, 'm) TmrOrchestrator"
  gw_flight :: CacheSingleFlight
  gw_asked :: "bool list"
  gw_cache :: 'c

record ('c) codec =
  cd_redis :: "'c cache_ops"
  cd_to_json :: "TmrConsensusResult \<Rightarrow> string option"
  cd_from_json :: "string \<Rightarrow> TmrConsensusResult option"
  cd_key :: "ProviderRequest \<Rightarrow> string"

datatype ('s, 'm) gw_act =
    AskCache nat fate
  | Flight nat act
  | Dispatch nat "('s, 'm) env" "call list"
  | WriteBack nat fate
  | Expire string

text \<open>The answer the cache gives to a request, if any: a hit that parses.\<close>

definition cached_answer :: "'c codec \<Rightarrow> fate \<Rightarrow> ProviderRequest \<Rightarrow> ('s, 'm, 'c) gateway \<Rightarrow> TmrConsensusResult option" where
  "cached_answer cd f req g =
     (if has_cache (gw_orch g)
      then case cache_get (cd_redis cd) f (cd_key cd req) (gw_cache g) of
             Hit j \<Rightarrow> map_option (\<lambda>r. r\<lparr>cache_hit := True\<rparr>) (cd_from_json cd j)
           | Miss \<Rightarrow> None
      else None)"

definition ask_cache :: "'c codec \<Rightarrow> ProviderRequest list \<Rightarrow> nat \<Rightarrow> fate \<Rightarrow> ('s, 'm, 'c) gateway \<Rightarrow> ('s, 'm, 'c) gateway option" where
  "ask_cache cd reqs t f g =
     (if t < length reqs \<and> \<not> gw_asked g ! t
      then Some (g\<lparr>gw_asked := (gw_asked g)[t := True],
                   gw_flight := (case cached_answer cd f (reqs ! t) g of
                                   Some r \<Rightarrow> set_pc t (Returned r) (gw_flight g)
                                 | None \<Rightarrow> gw_flight g)\<rparr>)
      else None)"

definition dispatch_leader ::
  "'c codec \<Rightarrow> ProviderRequest list \<Rightarrow> nat \<Rightarrow> ('s, 'm) env \<Rightarrow> call list \<Rightarrow> ('s, 'm, 'c) gateway
     \<Rightarrow> ('s, 'm, 'c) gateway option" where
  "dispatch_leader cd reqs t ev calls g =
     (if t < length reqs \<and> gw_asked g ! t \<and> length calls = length (adapters (gw_orch g))
      then case dispatch_consensus_inner ev calls (reqs ! t) (cd_key cd (reqs ! t)) (gw_orch g) of
             None \<Rightarrow> None
           | Some (res, o2) \<Rightarrow>
               (case sf_step (t, Complete res) (gw_flight g) of
                  None \<Rightarrow> None
                | Some s \<Rightarrow> Some (g\<lparr>gw_orch := o2, gw_flight := s\<rparr>))
      else None)"

text \<open>A spawned cache write; serialization may fail, and then nothing is written.\<close>

definition write_back :: "'c codec \<Rightarrow> nat \<Rightarrow> fate \<Rightarrow> ('s, 'm, 'c) gateway \<Rightarrow> ('s, 'm, 'c) gateway option" where
  "write_back cd i f g =
     (let ws = cache_writes (gw_orch g)
      in if i < length ws
         then Some (g\<lparr>gw_orch := (gw_orch g)\<lparr>cache_writes := take i ws @ drop (Suc i) ws\<rparr>,
                      gw_cache := (case cd_to_json cd (snd (ws ! i)) of
                                     Some j \<Rightarrow> cache_set (cd_redis cd) f (fst (ws ! i)) j (gw_cache g)
                                   | None \<Rightarrow> gw_cache g)\<rparr>)
         else None)"

fun gw_step :: "'c codec \<Rightarrow> ProviderRequest list \<Rightarrow> ('s, 'm) gw_act \<Rightarrow> ('s, 'm, 'c) gateway \<Rightarrow> ('s, 'm, 'c) gateway option" where
  "gw_step cd reqs (AskCache t f) g = ask_cache cd reqs t f g"
| "gw_step cd reqs (Flight t a) g =
     (if t < length reqs \<and> gw_asked g ! t \<and> (case a of Complete r \<Rightarrow> False | _ \<Rightarrow> True)
      then map_option (\<lambda>s. g\<lparr>gw_flight := s\<rparr>) (sf_step (t, a) (gw_flight g)) else None)"
| "gw_step cd reqs (Dispatch t ev calls) g = dispatch_leader cd reqs t ev calls g"
| "gw_step cd reqs (WriteBack i f) g = write_back cd i f g"
| "gw_step cd reqs (Expire k) g = Some (g\<lparr>gw_cache := c_expire (cd_redis cd) k (gw_cache g)\<rparr>)"

definition gateway_new :: "'c codec \<Rightarrow> ProviderRequest list \<Rightarrow> ('s, 'm) TmrOrchestrator \<Rightarrow> 'c \<Rightarrow> ('s, 'm, 'c) gateway" where
  "gateway_new cd reqs o1 c =
     \<lparr>gw_orch = o1, gw_flight = CacheSingleFlight_new (map (cd_key cd) reqs),
      gw_asked = replicate (length reqs) False, gw_cache = c\<rparr>"

section \<open>Results stay with their key, cache included\<close>

text \<open>A result was dispatched for a request with key \<open>k\<close>, up to the cache flag.\<close>

definition dispatched ::
  "'c codec \<Rightarrow> ProviderRequest list \<Rightarrow> ('s, 'm) gw_act list \<Rightarrow> string \<Rightarrow> TmrConsensusResult \<Rightarrow> bool" where
  "dispatched cd reqs xs k r \<longleftrightarrow>
     (\<exists>u ev calls o1 res o2. u < length reqs \<and> cd_key cd (reqs ! u) = k \<and> Dispatch u ev calls \<in> set xs
        \<and> dispatch_consensus_inner ev calls (reqs ! u) k o1 = Some (res, o2)
        \<and> r\<lparr>cache_hit := False\<rparr> = res\<lparr>cache_hit := False\<rparr>)"

lemma dispatched_mono: "dispatched cd reqs xs k r \<Longrightarrow> dispatched cd reqs (xs @ [x]) k r"
  unfolding dispatched_def by fastforce

lemma dispatched_cache_hit: "dispatched cd reqs xs k (r\<lparr>cache_hit := b\<rparr>) = dispatched cd reqs xs k r"
  by (simp add: dispatched_def)

definition codec_docs :: "'c codec \<Rightarrow> bool" where
  "codec_docs cd \<longleftrightarrow> cache_docs (cd_redis cd)
     \<and> (\<forall>r j. cd_to_json cd r = Some j \<longrightarrow> cd_from_json cd j = Some r)"

definition gw_ok ::
  "'c codec \<Rightarrow> ProviderRequest list \<Rightarrow> (string \<Rightarrow> TmrConsensusResult \<Rightarrow> bool) \<Rightarrow> ('s, 'm, 'c) gateway \<Rightarrow> bool" where
  "gw_ok cd reqs P g \<longleftrightarrow>
     (\<exists>ek. sf_ok P ek (gw_flight g)) \<and> map fst (sf_tasks (gw_flight g)) = map (cd_key cd) reqs
   \<and> (\<forall>(k, r) \<in> set (cache_writes (gw_orch g)). P k r)
   \<and> (\<forall>k j r. c_get (cd_redis cd) (redis_key k) (gw_cache g) = Some j \<longrightarrow> cd_from_json cd j = Some r \<longrightarrow> P k r)"

lemma redis_key_inject [simp]: "redis_key k = redis_key k' \<longleftrightarrow> k = k'"
  by (simp add: redis_key_def)

lemma gw_ok_mono: "gw_ok cd reqs P g \<Longrightarrow> (\<And>k r. P k r \<Longrightarrow> Q k r) \<Longrightarrow> gw_ok cd reqs Q g"
  unfolding gw_ok_def using sf_ok_mono [of P _ "gw_flight g" Q] by blast

lemma dispatch_writes:
  assumes "dispatch_consensus_inner ev calls req key o1 = Some (res, o2)"
  shows "set (cache_writes o2) \<subseteq> insert (key, res) (set (cache_writes o1))"
  using assms
  by (rule dispatch_cases) (auto dest!: finish_result(7) split: if_splits)

lemma gw_key_nth:
  "gw_ok cd reqs P g \<Longrightarrow> t < length reqs \<Longrightarrow>
     t < length (sf_tasks (gw_flight g)) \<and> fst (sf_tasks (gw_flight g) ! t) = cd_key cd (reqs ! t)"
  unfolding gw_ok_def by (metis length_map nth_map)

lemma gw_ok_ask:
  assumes docs: "codec_docs cd" and ok: "gw_ok cd reqs P g"
    and flag: "\<And>k r b. P k (r\<lparr>cache_hit := b\<rparr>) = P k r" and st: "ask_cache cd reqs t f g = Some g'"
  shows "gw_ok cd reqs P g'"
proof (cases "cached_answer cd f (reqs ! t) g")
  case None
  with st ok show ?thesis by (auto simp: ask_cache_def gw_ok_def split: if_splits)
next
  case (Some r)
  have t: "t < length reqs" using st by (simp add: ask_cache_def split: if_splits)
  note k = gw_key_nth [OF ok t]
  from Some ok have "P (cd_key cd (reqs ! t)) r"
    by (auto simp: cached_answer_def cache_get_def flag gw_ok_def split: if_splits CacheLookup.splits option.splits)
  with k have pc: "pc_ok P ek n (fst (sf_tasks (gw_flight g) ! t)) (Returned r)" for ek n
    by (simp add: pc_ok_def)
  from ok obtain ek where "sf_ok P ek (gw_flight g)" by (auto simp: gw_ok_def)
  with k pc have "sf_ok P ek (set_pc t (Returned r) (gw_flight g))" by (blast intro: sf_ok_set_pc)
  with st Some ok show ?thesis by (auto simp: ask_cache_def gw_ok_def split: if_splits)
qed

lemma gw_ok_dispatch:
  assumes ok: "gw_ok cd reqs P g" and st: "dispatch_leader cd reqs t ev calls g = Some g'"
    and new: "\<And>res o2. dispatch_consensus_inner ev calls (reqs ! t) (cd_key cd (reqs ! t)) (gw_orch g) = Some (res, o2)
       \<Longrightarrow> P (cd_key cd (reqs ! t)) res"
  shows "gw_ok cd reqs P g'"
proof -
  from st obtain res o2 s where d: "t < length reqs"
      "dispatch_consensus_inner ev calls (reqs ! t) (cd_key cd (reqs ! t)) (gw_orch g) = Some (res, o2)"
      "sf_step (t, Complete res) (gw_flight g) = Some s" "g' = g\<lparr>gw_orch := o2, gw_flight := s\<rparr>"
    by (auto simp: dispatch_leader_def simp del: sf_step.simps split: if_splits option.splits)
  from ok obtain ek where "sf_ok P ek (gw_flight g)" by (auto simp: gw_ok_def)
  from sf_ok_step [OF this d(3)] gw_key_nth [OF ok d(1)] new [OF d(2)]
  have "\<exists>ek. sf_ok P ek s" by auto
  with d(4) ok sf_step_keys [OF d(3)] dispatch_writes [OF d(2)] new [OF d(2)] show ?thesis
    by (auto simp: gw_ok_def)
qed

lemma gw_ok_write:
  assumes docs: "codec_docs cd" and ok: "gw_ok cd reqs P g" and st: "write_back cd i f g = Some g'"
  shows "gw_ok cd reqs P g'"
proof -
  let ?ws = "cache_writes (gw_orch g)"
  have i: "i < length ?ws" using st by (simp add: write_back_def Let_def split: if_splits)
  then have "?ws ! i \<in> set ?ws" by simp
  with ok have P: "P (fst (?ws ! i)) (snd (?ws ! i))" unfolding gw_ok_def by (auto simp: case_prod_beta)
  have g': "g' = g\<lparr>gw_orch := (gw_orch g)\<lparr>cache_writes := take i ?ws @ drop (Suc i) ?ws\<rparr>,
      gw_cache := (case cd_to_json cd (snd (?ws ! i)) of
         Some j \<Rightarrow> cache_set (cd_redis cd) f (fst (?ws ! i)) j (gw_cache g) | None \<Rightarrow> gw_cache g)\<rparr>"
    using st i by (simp add: write_back_def Let_def)
  have "P k r" if "c_get (cd_redis cd) (redis_key k) (gw_cache g') = Some j" "cd_from_json cd j = Some r" for k j r
    using that P docs ok
    by (auto simp: g' cache_set_def codec_docs_def cache_docsD gw_ok_def split: option.splits if_splits)
  moreover have "set (cache_writes (gw_orch g')) \<subseteq> set ?ws"
    by (auto simp: g' dest: in_set_takeD in_set_dropD)
  ultimately show ?thesis using ok unfolding gw_ok_def by (auto simp: g')
qed

lemma gw_ok_step:
  assumes docs: "codec_docs cd" and ok: "gw_ok cd reqs (dispatched cd reqs xs) g"
    and st: "gw_step cd reqs x g = Some g'"
  shows "gw_ok cd reqs (dispatched cd reqs (xs @ [x])) g'"
proof -
  have ok': "gw_ok cd reqs (dispatched cd reqs (xs @ [x])) g"
    using ok by (rule gw_ok_mono) (rule dispatched_mono)
  show ?thesis
  proof (cases x)
    case (AskCache t f)
    then have "ask_cache cd reqs t f g = Some g'" using st by simp
    then show ?thesis by (rule gw_ok_ask [OF docs ok' dispatched_cache_hit])
  next
    case (Flight t a)
    with st obtain s where s: "sf_step (t, a) (gw_flight g) = Some s" "g' = g\<lparr>gw_flight := s\<rparr>"
        "\<And>r. a \<noteq> Complete r"
      by (auto simp del: sf_step.simps split: if_splits act.splits)
    from ok' obtain ek where "sf_ok (dispatched cd reqs (xs @ [x])) ek (gw_flight g)" by (auto simp: gw_ok_def)
    from sf_ok_step [OF this s(1)] s(3) have "\<exists>ek. sf_ok (dispatched cd reqs (xs @ [x])) ek s" by blast
    with ok' s(2) sf_step_keys [OF s(1)] show ?thesis by (simp add: gw_ok_def)
  next
    case (Dispatch t ev calls)
    then have st': "dispatch_leader cd reqs t ev calls g = Some g'" using st by simp
    have "dispatched cd reqs (xs @ [x]) (cd_key cd (reqs ! t)) res"
      if "dispatch_consensus_inner ev calls (reqs ! t) (cd_key cd (reqs ! t)) (gw_orch g) = Some (res, o2)" for res o2
      using that st' Dispatch unfolding dispatched_def dispatch_leader_def by (fastforce split: if_splits)
    then show ?thesis by (rule gw_ok_dispatch [OF ok' st'])
  next
    case (WriteBack i f)
    then have "write_back cd i f g = Some g'" using st by simp
    then show ?thesis by (rule gw_ok_write [OF docs ok'])
  next
    case (Expire k)
    with st ok' docs show ?thesis by (auto simp: gw_ok_def codec_docs_def cache_docsD split: if_splits)
  qed
qed

lemma gw_run_ok:
  assumes "codec_docs cd" "cache_writes o1 = []" "\<forall>k. c_get (cd_redis cd) k c = None"
  shows "run (gw_step cd reqs) xs (gateway_new cd reqs o1 c) = Some g \<Longrightarrow>
    gw_ok cd reqs (dispatched cd reqs xs) g"
proof (induction xs arbitrary: g rule: rev_induct)
  case Nil
  then show ?case
    using assms(2,3)
    by (auto simp: gw_ok_def gateway_new_def sf_ok_def CacheSingleFlight_new_def hm.get_empty pc_ok_def comp_def)
next
  case (snoc x xs)
  then show ?case by (auto simp: run_snoc intro: gw_ok_step [OF assms(1)])
qed

section \<open>The configuration is kept\<close>

definition orch_config :: "('s, 'm) TmrOrchestrator \<Rightarrow> TmrConsensusEngine \<times> nat \<times> ProviderNode list" where
  "orch_config o1 = (tmr_engine o1, or_min_agreement o1, map ad_node (adapters o1))"

lemma dispatch_all_nodes:
  "dispatch_all f acs = Some (as, nrs, rs) \<Longrightarrow> map ad_node as = map (ad_node \<circ> fst) acs"
proof (induction f acs arbitrary: as nrs rs rule: dispatch_all.induct)
  case (2 f a c acs)
  from "2.prems" obtain a1 nr r as' nrs' rs' where
    d: "dispatch_one f a c = Some (a1, nr, r)" "dispatch_all f acs = Some (as', nrs', rs')" "as = a1 # as'"
    by (auto split: option.splits)
  from "2.IH" [OF d(1) refl refl d(2)] dispatch_one_response [OF d(1)] d(3) show ?case by simp
qed simp

lemma stasis_config:
  "handle_consensus_failure_stasis ev p nrs o1 = Some (res, o2) \<Longrightarrow> orch_config o2 = orch_config o1"
  by (auto simp: handle_consensus_failure_stasis_def orch_config_def Let_def split: option.splits)

lemma adjudicate_config:
  "adjudicate ev req nrs rs o1 = Some (res, o2) \<Longrightarrow> orch_config o2 = orch_config o1"
  by (auto simp: adjudicate_def dest: stasis_config split: if_splits option.splits sum.splits)

lemma finish_config:
  "finish_dispatch ev req key res o1 = Some (res', o2) \<Longrightarrow> orch_config o2 = orch_config o1"
  by (auto simp: finish_dispatch_def orch_config_def Let_def split: if_splits option.splits)

lemma dispatch_config:
  assumes "dispatch_consensus_inner ev calls req key o0 = Some (res, o2)"
    and "length calls = length (adapters o0)"
  shows "orch_config o2 = orch_config o0"
  using assms(1)
proof (rule dispatch_cases)
  fix as nrs rs res1 and o1 o3 :: "('a, 'b) TmrOrchestrator"
  assume d: "dispatch_all (from_llm_output ev) (zip (adapters o0) calls) = Some (as, nrs, rs)"
    "adjudicate ev req (done_order ev nrs) rs o1 = Some (res1, o3)"
    "finish_dispatch ev req key res1 o3 = Some (res, o2)"
    "tmr_engine o1 = tmr_engine o0" "or_min_agreement o1 = or_min_agreement o0" "adapters o1 = as"
  have "map ad_node as = map ad_node (adapters o0)"
    using dispatch_all_nodes [OF d(1)] assms(2) by (simp flip: map_map)
  with d(4-6) have "orch_config o1 = orch_config o0" by (simp add: orch_config_def)
  with adjudicate_config [OF d(2)] finish_config [OF d(3)] show ?thesis by simp
qed

lemma gw_step_config:
  assumes "gw_step cd reqs x g = Some g'"
  shows "orch_config (gw_orch g') = orch_config (gw_orch g)"
proof (cases x)
  case (Dispatch t ev calls)
  with assms obtain res o2 where
      "dispatch_consensus_inner ev calls (reqs ! t) (cd_key cd (reqs ! t)) (gw_orch g) = Some (res, o2)"
      "length calls = length (adapters (gw_orch g))" "gw_orch g' = o2"
    by (auto simp: dispatch_leader_def simp del: sf_step.simps split: if_splits option.splits)
  then show ?thesis using dispatch_config by blast
next
  case (WriteBack i f)
  with assms show ?thesis by (auto simp: write_back_def Let_def orch_config_def split: if_splits)
qed (use assms in \<open>auto simp: ask_cache_def simp del: sf_step.simps split: if_splits\<close>)

interpretation gwm: invariant_machine "gw_step cd reqs" "\<lambda>g. orch_config (gw_orch g) = cfg" for cd reqs cfg
  by unfold_locales (simp add: gw_step_config)

lemma keys_fold_insert:
  fixes ns :: "ProviderNode list"
  shows "distinct ns \<Longrightarrow> foldl (\<lambda>m n. hm_insert n Healthy m) [] ns = map (\<lambda>n. (n, Healthy)) ns"
proof (induction ns rule: rev_induct)
  case (snoc n ns)
  have "n \<notin> fst ` set m \<Longrightarrow> AList.update n h m = m @ [(n, h)]" for h and m :: "(ProviderNode \<times> NodeHealth) list"
    by (induction m) auto
  with snoc show ?case by (auto simp: hm_insert_def image_image)
qed simp

lemma new_engine_nodes:
  "distinct (map fst providers) \<Longrightarrow>
     healthy_nodes (with_config_and_nodes cfg (map (Custom \<circ> fst) providers)) = map (Custom \<circ> fst) providers"
proof -
  assume "distinct (map fst providers)"
  then have "distinct (map (Custom \<circ> fst) providers)"
    by (simp add: distinct_map inj_on_def flip: map_map)
  then show ?thesis
    by (simp add: with_config_and_nodes_def keys_fold_insert healthy_nodes_def filter_map comp_def)
qed

lemma adjudicate_enough:
  assumes "adjudicate ev req nrs rs o1 = Some (res, o2)" "\<not> fallback_activated res"
  shows "or_min_agreement o1 \<le> length rs"
proof -
  have "\<not> length (successful rs) < or_min_agreement o1"
    using assms stasis_fields(1) [of ev "rq_prompt req" nrs o1 res o2] by (auto simp: adjudicate_def)
  moreover have "length (successful rs) \<le> length rs" by (simp add: successful_def)
  ultimately show ?thesis by linarith
qed

lemma distinct_votes: "distinct (map semantic_key rs) \<Longrightarrow> length (votes_for k rs) \<le> 1"
proof (induction rs)
  case (Cons r rs)
  have "votes_for (semantic_key r) rs = []"
    using Cons.prems by (auto simp: votes_for_def filter_empty_conv image_iff)
  with Cons show ?case by (auto simp: votes_for_def)
qed (simp add: votes_for_def)

section \<open>Properties\<close>

text \<open>C11: Answers stay with their tenant. Under every interleaving of concurrent requests,
  their cache lookups, dispatches, spawned cache writes and expiries, a request is answered
  with the empty result or with the result of a dispatch for a request of the same tenant.\<close>

theorem answers_stay_with_tenant:
  assumes docs: "codec_docs cd" and sha: "hex_digest sha"
    and key: "\<And>q. cd_key cd q = compute_request_canonical_key f sha (rq_tenant_id q) (rq_prompt q)"
    and init: "cache_writes o1 = []" "\<forall>k. c_get (cd_redis cd) k c = None"
    and run: "run (gw_step cd reqs) xs (gateway_new cd reqs o1 c) = Some g"
    and t: "t < length reqs" "snd (sf_tasks (gw_flight g) ! t) = Returned r"
  shows "r = TmrConsensusResult_default
     \<or> (\<exists>u ev calls o2 res o3. u < length reqs \<and> rq_tenant_id (reqs ! u) = rq_tenant_id (reqs ! t)
          \<and> Dispatch u ev calls \<in> set xs
          \<and> dispatch_consensus_inner ev calls (reqs ! u) (cd_key cd (reqs ! u)) o2 = Some (res, o3)
          \<and> r\<lparr>cache_hit := False\<rparr> = res\<lparr>cache_hit := False\<rparr>)"
proof -
  have ok: "gw_ok cd reqs (dispatched cd reqs xs) g" using gw_run_ok [OF docs init run] .
  note k = gw_key_nth [OF ok t(1)]
  then have "sf_tasks (gw_flight g) ! t = (cd_key cd (reqs ! t), Returned r)"
    using t(2) by (simp add: prod_eq_iff)
  with ok k have "r = TmrConsensusResult_default \<or> dispatched cd reqs xs (cd_key cd (reqs ! t)) r"
    using sf_okD(3) [of "dispatched cd reqs xs" _ "gw_flight g" t] by (fastforce simp: gw_ok_def pc_ok_def)
  moreover have "rq_tenant_id (reqs ! u) = rq_tenant_id (reqs ! t)"
    if "cd_key cd (reqs ! u) = cd_key cd (reqs ! t)" for u
    using that unfolding key by (rule request_key_tenant [OF sha])
  ultimately show ?thesis unfolding dispatched_def by metis
qed

text \<open>C12: A consensus result is found again. After a dispatch that reports consensus and the
  cache write it spawned, every request with the same key that reaches the cache before the
  entry expires is answered with that result, flagged as a cache hit, and without a dispatch.\<close>

theorem cached_after_consensus:
  assumes docs: "codec_docs cd" and cache: "has_cache (gw_orch g)" "cache_writes (gw_orch g) = []"
    and disp: "dispatch_leader cd reqs t ev calls g = Some g1"
    and res: "dispatch_consensus_inner ev calls (reqs ! t) (cd_key cd (reqs ! t)) (gw_orch g) = Some (res, o2)"
      "consensus_achieved res" "majority_output res \<noteq> None" "cd_to_json cd res = Some j"
    and "write_back cd 0 Replied g1 = Some g2"
    and u: "cd_key cd (reqs ! u) = cd_key cd (reqs ! t)" "u < length (sf_tasks (gw_flight g2))"
    and "ask_cache cd reqs u Replied g2 = Some g3"
  shows "snd (sf_tasks (gw_flight g3) ! u) = Returned (res\<lparr>cache_hit := True\<rparr>)
     \<and> sf_entries (gw_flight g3) = sf_entries (gw_flight g1)"
proof -
  from disp res(1) have g1: "gw_orch g1 = o2" "gw_cache g1 = gw_cache g"
    by (auto simp: dispatch_leader_def simp del: sf_step.simps split: if_splits option.splits)
  have o2: "cache_writes o2 = [(cd_key cd (reqs ! t), res)]" "has_cache o2"
  proof -
    from res(1) obtain as nrs rs res1 o1 o3 where d: "finish_dispatch ev (reqs ! t) (cd_key cd (reqs ! t)) res1 o3 = Some (res, o2)"
        "has_cache o3 = has_cache (gw_orch g)" "cache_writes o3 = cache_writes (gw_orch g)"
      by (rule dispatch_cases)
    from finish_result [OF d(1)] d(2,3) cache res(2,3)
    show "cache_writes o2 = [(cd_key cd (reqs ! t), res)]" by simp
    from d(1) have "has_cache o2 = has_cache o3"
      by (auto simp: finish_dispatch_def Let_def split: option.splits if_splits)
    with d(2) cache show "has_cache o2" by simp
  qed
  have g2: "g2 = g1\<lparr>gw_orch := o2\<lparr>cache_writes := []\<rparr>,
      gw_cache := c_set_ex (cd_redis cd) (redis_key (cd_key cd (reqs ! t))) j CACHE_TTL_SECS (gw_cache g)\<rparr>"
    using assms(9) g1 o2 res(4) by (simp add: write_back_def Let_def cache_set_def)
  have "cached_answer cd Replied (reqs ! u) g2 = Some (res\<lparr>cache_hit := True\<rparr>)"
    using docs res(4) u(1) o2(2) by (simp add: cached_answer_def cache_get_def g2 codec_docs_def cache_docsD)
  with assms(12) u(2) show ?thesis
    by (auto simp: ask_cache_def g2 split: if_splits)
qed

text \<open>With the strict strategy and distinct provider ids, whatever the other environment
  variables say, no consensus among the providers rests on one answer: in every state the
  requests can reach, a dispatch that does not fall back reports an agreement of at least two.\<close>

theorem strict_consensus_needs_two:
  assumes "env_strategy vars = Strict" "distinct (map fst providers)" "permutes_votes (vote_order ev)"
    and o1: "o1 = with_providers vars providers slm st \<or> o1 = with_cache (with_finops (with_providers vars providers slm st))"
    and "run (gw_step cd reqs) xs (gateway_new cd reqs o1 c) = Some g"
    and "length calls = length providers"
    and "dispatch_consensus_inner ev calls req key (gw_orch g) = Some (res, o2)" "\<not> fallback_activated res"
  shows "2 \<le> agreement_count res"
proof -
  let ?e = "with_config_and_nodes (env_config vars) (map (Custom \<circ> fst) providers)"
  have "orch_config (gw_orch (gateway_new cd reqs o1 c)) = orch_config o1" by (simp add: gateway_new_def)
  from gwm.run_inv [OF this assms(5)] o1
  have cfg: "tmr_engine (gw_orch g) = ?e" "or_min_agreement (gw_orch g) = min_agreement (env_config vars)"
    "length (adapters (gw_orch g)) = length providers"
    by (auto simp: orch_config_def with_providers_def with_cache_def with_finops_def dest!: map_eq_imp_length_eq)
  from assms(7) obtain as nrs rs res1 o4 o3 where d:
      "dispatch_all (from_llm_output ev) (zip (adapters (gw_orch g)) calls) = Some (as, nrs, rs)"
      "adjudicate ev req (done_order ev nrs) rs o4 = Some (res1, o3)"
      "finish_dispatch ev req key res1 o3 = Some (res, o2)" "tmr_engine o4 = tmr_engine (gw_orch g)"
      "or_min_agreement o4 = or_min_agreement (gw_orch g)"
    by (rule dispatch_cases)
  note fin = finish_result [OF d(3)]
  have nf: "\<not> fallback_activated res1" using assms(8) fin(3) by simp
  from adjudicate_engine [OF d(2) nf] obtain w where
    w: "evaluate (vote_order ev) ?e rs = Some (Inr w)" "agreement_count res1 = length (winning_providers w)"
    using d(4) cfg(1) by auto
  have n: "length rs = length providers"
    using dispatch_all_responses [OF d(1)] cfg(3) assms(6) by simp
  moreover have "2 \<le> min_agreement (env_config vars)" by (simp add: env_config_def)
  ultimately have two: "2 \<le> length providers"
    using adjudicate_enough [OF d(2) nf] d(5) cfg(2) by linarith
  have "quorum ?e rs \<le> length (winning_providers w)"
    using evaluate_Ok [OF assms(3) w(1)] by auto
  moreover have "2 \<le> quorum ?e rs"
  proof -
    have "node_total ?e rs = length providers"
      using two unfolding node_total_def new_engine_nodes [OF assms(2)] by auto
    moreover have "tmr_config ?e = env_config vars"
      by (simp add: with_config_and_nodes_def)
    ultimately show ?thesis
      using two assms(1) by (simp add: quorum_def required_votes_def env_config_def)
  qed
  ultimately show ?thesis using w(2) fin(1) by simp
qed

text \<open>With the fuzzy strategy a single vote is consensus. When every provider answers and no
  two answers have the same key, adjudication still reports consensus, with an agreement of one,
  although a minimum agreement of at least two is configured.\<close>

theorem fuzzy_accepts_single_vote:
  assumes "env_strategy vars = Fuzzy" "permutes_votes (vote_order ev)"
    and cfg: "tmr_config (tmr_engine o1) = env_config vars" "or_min_agreement o1 = min_agreement (env_config vars)"
    and rs: "distinct (map semantic_key rs)" "\<forall>r \<in> set rs. counts r \<and> pr_content r \<noteq> [] \<and> tokens_used r = 0"
      "or_min_agreement o1 \<le> length rs"
  shows "\<exists>res. adjudicate ev req nrs rs o1 = Some (res, o1) \<and> consensus_achieved res
     \<and> agreement_count res = 1 \<and> \<not> fallback_activated res"
proof -
  have m: "2 \<le> or_min_agreement o1" using cfg(2) by (simp add: env_config_def)
  with rs(3) obtain r rs' where r: "rs = r # rs'" by (cases rs) auto
  have q: "quorum (tmr_engine o1) rs = 1"
    using assms(1) cfg(1) by (simp add: quorum_def required_votes_def env_config_def)
  have "votes_for (semantic_key r) rs \<noteq> []" using r rs(2) by (simp add: votes_for_def)
  moreover from this have "1 \<le> length (votes_for (semantic_key r) rs)" by (simp add: Suc_le_eq)
  ultimately obtain w where w: "evaluate (vote_order ev) (tmr_engine o1) rs = Some (Inr w)"
    using evaluate_decides [OF assms(2), of rs "tmr_engine o1"] r no_tokens [of rs] rs(2) q by auto
  from evaluate_Ok [OF assms(2) w] obtain k where
    k: "votes_for k rs \<noteq> []" "winning_providers w = map pr_provider (votes_for k rs)" by blast
  have "length (votes_for k rs) \<le> 1"
    using rs(1) by (rule distinct_votes)
  with k have "length (winning_providers w) = 1" by (cases "votes_for k rs") auto
  moreover have "length (successful rs) = length rs"
    using rs(2) by (simp add: successful_def counts_def)
  ultimately show ?thesis
    using w rs(3) by (simp add: adjudicate_def handle_consensus_success_def)
qed

section \<open>Concrete runs\<close>

definition map_cache :: "(string \<Rightarrow> string option) cache_ops" where
  "map_cache = \<lparr>c_get = (\<lambda>k c. c k), c_set_ex = (\<lambda>k v t c. c(k \<mapsto> v)), c_expire = (\<lambda>k c. c(k := None))\<rparr>"

definition example_codec :: "TmrConsensusResult \<Rightarrow> (string \<Rightarrow> string option) codec" where
  "example_codec r0 =
     \<lparr>cd_redis = map_cache, cd_to_json = (\<lambda>r. if r = r0 then Some ''r'' else None),
      cd_from_json = (\<lambda>j. if j = ''r'' then Some r0 else None),
      cd_key = (\<lambda>q. compute_request_canonical_key (\<lambda>_. None) (\<lambda>_. replicate 64 (CHR ''0''))
                       (rq_tenant_id q) (rq_prompt q))\<rparr>"

lemma example_codec_docs: "codec_docs (example_codec r0)"
  by (auto simp: codec_docs_def cache_docs_def map_cache_def example_codec_def)

lemma example_fallback_key:
  "\<exists>res o2. dispatch_consensus_inner example_env [] example_req key (example_orch []) = Some (res, o2)
     \<and> consensus_achieved res \<and> majority_output res = Some mock_output"
  by (simp add: dispatch_consensus_inner_def example_defs adjudicate_def successful_def
      handle_consensus_failure_stasis_def fn_invoke_def PhysicalFallbackNode_new_def WasiNnEndpoint_new_def
      checked_mul_def finish_dispatch_def hm_get_def hm_insert_def hm_remove_def Let_def)

lemma example_no_adapters: "adapters (example_orch []) = []" "has_cache (example_orch [])"
  "cache_writes (example_orch []) = []"
  by (simp_all add: example_orch_def)

theorem answers_stay_with_tenant_witness:
  "\<exists>g r. run (gw_step (example_codec TmrConsensusResult_default) [example_req])
       [AskCache 0 Replied, Flight 0 Proceed, Flight 0 Proceed, Dispatch 0 example_env [], Flight 0 Proceed]
       (gateway_new (example_codec TmrConsensusResult_default) [example_req] (example_orch []) Map.empty) = Some g
     \<and> snd (sf_tasks (gw_flight g) ! 0) = Returned r
     \<and> (\<exists>u ev calls. u < 1 \<and> Dispatch u ev calls \<in> set [AskCache 0 Replied, Flight 0 Proceed, Flight 0 Proceed,
           Dispatch 0 example_env [], Flight 0 Proceed])"
proof -
  let ?cd = "example_codec TmrConsensusResult_default"
  let ?xs = "[AskCache 0 Replied, Flight 0 Proceed, Flight 0 Proceed, Dispatch 0 example_env [], Flight 0 Proceed]"
  obtain res o2 where d: "dispatch_consensus_inner example_env [] example_req (cd_key ?cd example_req) (example_orch []) = Some (res, o2)"
      "consensus_achieved res" using example_fallback_key by blast
  have ca: "cached_answer ?cd Replied example_req (gateway_new ?cd [example_req] (example_orch []) Map.empty) = None"
    by (simp add: cached_answer_def cache_get_def gateway_new_def example_codec_def map_cache_def)
  have "\<exists>g. run (gw_step ?cd [example_req]) ?xs (gateway_new ?cd [example_req] (example_orch []) Map.empty) = Some g
      \<and> snd (sf_tasks (gw_flight g) ! 0) = Returned res"
    using ca d(1) by (simp add: ask_cache_def dispatch_leader_def gateway_new_def sf_eval example_no_adapters)
  then obtain g where g: "run (gw_step ?cd [example_req]) ?xs (gateway_new ?cd [example_req] (example_orch []) Map.empty) = Some g"
      "snd (sf_tasks (gw_flight g) ! 0) = Returned res" by blast
  have h: "hex_digest (\<lambda>_. replicate 64 (CHR ''0''))" by (simp add: hex_digest_def)
  have k: "cd_key ?cd q = compute_request_canonical_key (\<lambda>_. None) (\<lambda>_. replicate 64 (CHR ''0''))
      (rq_tenant_id q) (rq_prompt q)" for q by (simp add: example_codec_def)
  have e: "\<forall>k. c_get (cd_redis ?cd) k Map.empty = None" by (simp add: example_codec_def map_cache_def)
  have "res \<noteq> TmrConsensusResult_default" using d(2) by (auto simp: TmrConsensusResult_default_def)
  with answers_stay_with_tenant [OF example_codec_docs h k example_no_adapters(3) e g(1) _ g(2)] g
  show ?thesis by fastforce
qed

theorem cached_after_consensus_witness:
  "\<exists>cd res g3. snd (sf_tasks (gw_flight g3) ! 1) = Returned (res\<lparr>cache_hit := True\<rparr>)
     \<and> majority_output res = Some mock_output
     \<and> run (gw_step cd [example_req, example_req])
         [AskCache 0 Replied, Flight 0 Proceed, Flight 0 Proceed, Dispatch 0 example_env [], WriteBack 0 Replied, AskCache 1 Replied]
         (gateway_new cd [example_req, example_req] (example_orch []) (Map.empty :: string \<Rightarrow> string option)) = Some g3"
proof -
  let ?reqs = "[example_req, example_req]"
  have k: "cd_key (example_codec r) = cd_key (example_codec TmrConsensusResult_default)" for r
    by (simp add: example_codec_def)
  obtain res o2 where d: "dispatch_consensus_inner example_env [] example_req
        (cd_key (example_codec TmrConsensusResult_default) example_req) (example_orch []) = Some (res, o2)"
      "consensus_achieved res" "majority_output res = Some mock_output" using example_fallback_key by blast
  let ?cd = "example_codec res"
  note dk = d(1) [folded k [of res]]
  have w: "cache_writes o2 = [(cd_key ?cd example_req, res)]"
  proof -
    from dk obtain res1 o3 where f: "finish_dispatch example_env example_req (cd_key ?cd example_req) res1 o3 = Some (res, o2)"
        "has_cache o3 = has_cache (example_orch [])" "cache_writes o3 = cache_writes (example_orch [])"
      by (rule dispatch_cases)
    from finish_result [OF f(1)] f(2,3) d(2,3) show ?thesis by (simp add: example_no_adapters)
  qed
  define g where "g = (gateway_new ?cd ?reqs (example_orch []) Map.empty)
      \<lparr>gw_asked := [True, False], gw_flight := \<lparr>inflight = [(cd_key ?cd example_req, 0)],
         sf_entries = [\<lparr>sf_result = None, sf_cancelled = False\<rparr>],
         sf_tasks = [(cd_key ?cd example_req, Leading 0), (cd_key ?cd example_req, Entering)]\<rparr>\<rparr>"
  have ca: "cached_answer ?cd Replied example_req (gateway_new ?cd ?reqs (example_orch []) Map.empty) = None"
    by (simp add: cached_answer_def cache_get_def gateway_new_def example_codec_def map_cache_def)
  have r1: "run (gw_step ?cd ?reqs) [AskCache 0 Replied, Flight 0 Proceed, Flight 0 Proceed]
      (gateway_new ?cd ?reqs (example_orch []) Map.empty) = Some g"
    using ca by (simp add: ask_cache_def gateway_new_def sf_eval g_def)
  obtain g1 where g1: "dispatch_leader ?cd ?reqs 0 example_env [] g = Some g1" "gw_orch g1 = o2" "gw_asked g1 = [True, False]"
      "length (sf_tasks (gw_flight g1)) = 2"
    using dk by (simp add: dispatch_leader_def g_def gateway_new_def sf_eval example_no_adapters)
  obtain g2 where g2: "write_back ?cd 0 Replied g1 = Some g2" "gw_asked g2 = [True, False]" "gw_flight g2 = gw_flight g1"
    using g1 w by (simp add: write_back_def Let_def)
  obtain g3 where g3: "ask_cache ?cd ?reqs 1 Replied g2 = Some g3"
    using g2(2) by (simp add: ask_cache_def)
  have o: "has_cache (gw_orch g)" "cache_writes (gw_orch g) = []" "gw_orch g = example_orch []"
    by (simp_all add: g_def gateway_new_def example_no_adapters)
  have "snd (sf_tasks (gw_flight g3) ! 1) = Returned (res\<lparr>cache_hit := True\<rparr>)"
    using cached_after_consensus [OF example_codec_docs o(1,2) g1(1), of res o2 "''r''" g2 1 g3]
      dk d(2,3) g2 g3 g1(4) o(3) by (simp add: example_codec_def)
  moreover have "run (gw_step ?cd ?reqs)
         ([AskCache 0 Replied, Flight 0 Proceed, Flight 0 Proceed] @ [Dispatch 0 example_env [], WriteBack 0 Replied, AskCache 1 Replied])
         (gateway_new ?cd ?reqs (example_orch []) Map.empty) = Some g3"
    unfolding run_append r1 using g1(1) g2(1) g3 by simp
  ultimately show ?thesis using d(3) unfolding append.simps by blast
qed

lemma new_adapter_answer:
  "dispatch_one example_payload (new_adapter (i, nm, ms)) (example_call ''x'') =
     Some (new_adapter (i, nm, ms)\<lparr>ad_breaker := record_success (ad_breaker (new_adapter (i, nm, ms)))\<rparr>,
           \<lparr>nr_provider_id = i, nr_provider_name = nm, nr_output = Some ''x'', nr_error = None,
            nr_duration_ms = 3, nr_fallback_triggered = False\<rparr>,
           \<lparr>pr_provider = Custom i, pr_content = ''x'',
            semantic_key = canonical_key (the (example_payload ''x'')), latency_ms = 3, tokens_used = 0,
            pr_status = Success\<rparr>)"
  by (simp add: dispatch_one_def new_adapter_def example_call_def example_payload_def allow_request_def
      CircuitBreaker_new_def cb_state_def CircuitStatus_new_def semantic_key_of_def)

definition example_slm :: SlmNodeConfig where
  "example_slm = SlmNodeConfig_default (\<lambda>_. None)"

lemma default_env: "env_strategy (\<lambda>_. None) = Strict" "env_config (\<lambda>_. None) = TmrConfig_default"
proof -
  show s: "env_strategy (\<lambda>_. None) = Strict"
    by (simp add: env_strategy_def TMR_CANONICAL_STRATEGY_DEFAULT_def TmrCanonicalStrategy_from_str_lossy_def) code_simp
  show "env_config (\<lambda>_. None) = TmrConfig_default"
    by (simp add: env_config_def s env_parse_def TmrConfig_default_def TMR_MIN_AGREEMENT_def)
qed

lemma two_providers_agree:
  "\<exists>res o2. dispatch_consensus_inner example_env [example_call ''x'', example_call ''x''] example_req ''k''
      (with_providers (\<lambda>_. None) [(''a'', ''A'', 9), (''b'', ''B'', 9)] example_slm Map.empty) = Some (res, o2)
      \<and> \<not> fallback_activated res"
proof -
  have e: "from_llm_output example_env = example_payload" "vote_order example_env = id"
    "done_order example_env = id" by (simp_all add: example_env_def)
  show ?thesis
    by (simp add: dispatch_consensus_inner_def with_providers_def default_env e new_adapter_answer
        adjudicate_def successful_def evaluate_def with_config_and_nodes_def
        healthy_nodes_def checked_add_def add_vote_def counts_def canonical_key_nonempty hm_get_def hm_insert_def
        required_votes_def TmrConfig_default_def handle_consensus_success_def finish_dispatch_def Let_def)
qed

theorem strict_consensus_needs_two_witness:
  "\<exists>res o2. dispatch_consensus_inner example_env [example_call ''x'', example_call ''x''] example_req ''k''
      (with_providers (\<lambda>_. None) [(''a'', ''A'', 9), (''b'', ''B'', 9)] example_slm Map.empty) = Some (res, o2)
      \<and> 2 \<le> agreement_count res"
proof -
  let ?o = "with_providers (\<lambda>_. None) [(''a'', ''A'', 9), (''b'', ''B'', 9)] example_slm Map.empty"
  obtain res o2 where d: "dispatch_consensus_inner example_env [example_call ''x'', example_call ''x''] example_req ''k'' ?o
      = Some (res, o2)" "\<not> fallback_activated res" using two_providers_agree by blast
  have r: "run (gw_step (example_codec res) []) [] (gateway_new (example_codec res) [] ?o Map.empty) =
      Some (gateway_new (example_codec res) [] ?o Map.empty)" by simp
  have p: "permutes_votes (vote_order example_env)" by (simp add: example_env_def permutes_votes_def)
  have "2 \<le> agreement_count res"
    by (rule strict_consensus_needs_two [OF default_env(1) _ p disjI1 [OF refl] r])
      (use d in \<open>simp_all add: gateway_new_def\<close>)
  with d show ?thesis by blast
qed

theorem fuzzy_accepts_single_vote_witness:
  "\<exists>res o1. adjudicate example_env example_req []
      [empty_response (new_adapter (''a'', ''A'', 9)) 1 Success\<lparr>pr_content := ''x'', semantic_key := ''x''\<rparr>,
       empty_response (new_adapter (''b'', ''B'', 9)) 1 Success\<lparr>pr_content := ''y'', semantic_key := ''y''\<rparr>] o1 = Some (res, o1)
     \<and> consensus_achieved res \<and> agreement_count res = 1"
proof -
  define vars where "vars = (\<lambda>n. if n = ''TMR_CANONICAL_STRATEGY'' then Some ''Fuzzy'' else None)"
  define o1 :: "((string \<Rightarrow> int option), unit) TmrOrchestrator" where
    "o1 = with_providers vars [] example_slm Map.empty"
  have s: "env_strategy vars = Fuzzy"
    by (simp add: env_strategy_def vars_def TmrCanonicalStrategy_from_str_lossy_def) code_simp
  have m: "min_agreement (env_config vars) = 2" by (simp add: env_config_def env_parse_def vars_def TMR_MIN_AGREEMENT_def)
  have c: "tmr_config (tmr_engine o1) = env_config vars" "or_min_agreement o1 = min_agreement (env_config vars)"
    by (simp_all add: o1_def with_providers_def with_config_and_nodes_def)
  have p: "permutes_votes (vote_order example_env)" by (simp add: example_env_def permutes_votes_def)
  show ?thesis
    using fuzzy_accepts_single_vote [OF s p c, of
        "[empty_response (new_adapter (''a'', ''A'', 9)) 1 Success\<lparr>pr_content := ''x'', semantic_key := ''x''\<rparr>,
          empty_response (new_adapter (''b'', ''B'', 9)) 1 Success\<lparr>pr_content := ''y'', semantic_key := ''y''\<rparr>]"
        example_req "[]"] m c(2)
    by (auto simp: empty_response_def counts_def)
qed

end
