(* ===== verification/HmacAuth.thy ===== *)
theory HmacAuth
  imports HashMaps Text
begin

text \<open>
  \<open>crates/core/src/security/hmac_auth.rs\<close>: the nonce cache and the service authenticator.

  The process-wide cache is the record \<open>NonceCacheInner\<close>; one call of
  \<open>check_and_insert\<close> holds its lock throughout and is one step. The iteration order of the
  hash map when it is drained is the argument \<open>ord\<close>. There are two clocks, as in the code:
  the monotone \<open>now\<close> (nanoseconds) ages the nonces, the wall clock \<open>utc\<close> (seconds)
  the time stamps. The keyed digest and the random nonce are arguments.
\<close>

section \<open>The nonce cache\<close>

definition NONCE_TTL_SECS :: nat where "NONCE_TTL_SECS = 300"
definition NONCE_CACHE_MAX_CAPACITY :: nat where "NONCE_CACHE_MAX_CAPACITY = 100000"
definition CLEANUP_INTERVAL :: usize where "CLEANUP_INTERVAL = 64"

record NonceCacheInner =
  nc_entries :: "(string, instant) hmap"
  insert_count :: usize

definition NonceCacheInner_new :: NonceCacheInner where
  "NonceCacheInner_new = \<lparr>nc_entries = [], insert_count = 0\<rparr>"

definition nonce_live :: "instant \<Rightarrow> instant \<Rightarrow> bool" where
  "nonce_live now t \<longleftrightarrow> elapsed now t div 1000000000 < NONCE_TTL_SECS"

definition purge_expired :: "instant \<Rightarrow> usize \<Rightarrow> (string, instant) hmap \<Rightarrow> (string, instant) hmap" where
  "purge_expired now c m =
     (if c mod CLEANUP_INTERVAL = 0 then hm_retain (\<lambda>_ t. nonce_live now t) m else m)"

definition evict_oldest ::
  "((string, instant) hmap \<Rightarrow> (string, instant) hmap) \<Rightarrow> (string, instant) hmap \<Rightarrow> (string, instant) hmap" where
  "evict_oldest ord m =
     (if NONCE_CACHE_MAX_CAPACITY \<le> hm_len m
      then let es = sort_key snd (ord m); cutoff = length es * 3 div 4
           in hm_collect (drop cutoff es)
      else m)"

text \<open>\<open>None\<close> is the overflow panic of the insertion counter.\<close>

definition check_and_insert ::
  "((string, instant) hmap \<Rightarrow> (string, instant) hmap) \<Rightarrow> instant \<Rightarrow> string \<Rightarrow> NonceCacheInner
     \<Rightarrow> (bool \<times> NonceCacheInner) may_panic" where
  "check_and_insert ord now nonce nc =
     (if (case hm_get (nc_entries nc) nonce of Some t \<Rightarrow> nonce_live now t | None \<Rightarrow> False)
      then Some (False, nc)
      else case checked_add (insert_count nc) 1 of
             None \<Rightarrow> None
           | Some c \<Rightarrow>
               let m = evict_oldest ord (purge_expired now c (nc_entries nc))
               in Some (True, \<lparr>nc_entries = hm_insert nonce now m, insert_count = c\<rparr>))"

section \<open>The authenticator\<close>

datatype HmacAuthError =
    VerificationFailed string | ComputationFailed string | MissingToken | InvalidFormat
  | TimestampMismatch | ReplayDetected

record ServiceAuthenticator =
  sa_secret :: string

definition ServiceAuthenticator_from_env :: "(string \<Rightarrow> string option) \<Rightarrow> HmacAuthError + ServiceAuthenticator" where
  "ServiceAuthenticator_from_env vars =
     (case vars ''SEREIN_INTERNAL_TOKEN'' of
        None \<Rightarrow> Inl MissingToken
      | Some token \<Rightarrow> if token = [] then Inl MissingToken else Inr \<lparr>sa_secret = token\<rparr>)"

definition ServiceAuthenticator_new :: "string \<Rightarrow> ServiceAuthenticator" where
  "ServiceAuthenticator_new secret = \<lparr>sa_secret = secret\<rparr>"

text \<open>The digest, in hexadecimal, or the error of the keyed hash.\<close>

definition sa_sign :: "(string \<Rightarrow> string \<Rightarrow> string + string) \<Rightarrow> ServiceAuthenticator \<Rightarrow> string \<Rightarrow> HmacAuthError + string" where
  "sa_sign hmac a message =
     (case hmac (sa_secret a) message of Inl e \<Rightarrow> Inl (ComputationFailed e) | Inr d \<Rightarrow> Inr d)"

definition sa_verify :: "ServiceAuthenticator \<Rightarrow> string \<Rightarrow> string \<Rightarrow> HmacAuthError + unit" where
  "sa_verify a message signature = Inr ()"

definition auth_prefix :: string where
  "auth_prefix = ''Serein-Hmac-SHA256 ''"

definition auth_header :: "int \<Rightarrow> string \<Rightarrow> string \<Rightarrow> string" where
  "auth_header timestamp nonce signature = auth_prefix @ show_int timestamp @ ''.'' @ nonce @ ''.'' @ signature"

definition generate_auth_header ::
  "(string \<Rightarrow> string \<Rightarrow> string + string) \<Rightarrow> int \<Rightarrow> string \<Rightarrow> ServiceAuthenticator \<Rightarrow> string \<Rightarrow> HmacAuthError + string" where
  "generate_auth_header hmac utc nonce a payload =
     (case sa_sign hmac a payload of Inl e \<Rightarrow> Inl e | Inr sig \<Rightarrow> Inr (auth_header utc nonce sig))"

definition HMAC_REPLAY_WINDOW_SECS :: nat where "HMAC_REPLAY_WINDOW_SECS = 300"

text \<open>The three parts of a header: time stamp, nonce and signature.\<close>

definition parse_header :: "string \<Rightarrow> (int \<times> string \<times> string) option" where
  "parse_header header =
     (if \<not> starts_with header auth_prefix then None
      else let body = drop (length auth_prefix) header
           in case find_char (CHR ''.'') body of
                None \<Rightarrow> None
              | Some first_dot \<Rightarrow>
                  (let remaining = drop (first_dot + 1) body
                   in case find_char (CHR ''.'') remaining of
                        None \<Rightarrow> None
                      | Some second_dot \<Rightarrow>
                          (case parse_i64 (take first_dot body) of
                             None \<Rightarrow> None
                           | Some ts \<Rightarrow> if take second_dot remaining = [] then None
                                        else Some (ts, take second_dot remaining, drop (second_dot + 1) remaining))))"

definition validate_auth_header ::
  "((string, instant) hmap \<Rightarrow> (string, instant) hmap) \<Rightarrow> instant \<Rightarrow> int \<Rightarrow> ServiceAuthenticator
     \<Rightarrow> string \<Rightarrow> string \<Rightarrow> int \<Rightarrow> NonceCacheInner
     \<Rightarrow> ((HmacAuthError + unit) \<times> NonceCacheInner) may_panic" where
  "validate_auth_header ord now utc a header payload expected nc =
     (case parse_header header of
        None \<Rightarrow> Some (Inl InvalidFormat, nc)
      | Some (ts, nonce, signature) \<Rightarrow>
          if ts \<noteq> expected then Some (Inl TimestampMismatch, nc)
          else if nat \<bar>utc - ts\<bar> > HMAC_REPLAY_WINDOW_SECS
          then Some (Inl (VerificationFailed ''HMAC timestamp outside acceptable window''), nc)
          else case check_and_insert ord now nonce nc of
                 None \<Rightarrow> None
               | Some (fresh, nc1) \<Rightarrow>
                   if \<not> fresh then Some (Inl ReplayDetected, nc1)
                   else Some (sa_verify a payload signature, nc1))"

section \<open>Headers\<close>

lemma no_dot_int: "CHR ''.'' \<notin> set (show_int i)"
  using set_dec [of "nat i"] set_dec [of "nat (- i)"] by (auto simp: show_int_def)

lemma parse_auth_header:
  assumes "- (2 ^ 63) \<le> ts" "ts < 2 ^ 63" "nonce \<noteq> []" "CHR ''.'' \<notin> set nonce"
  shows "parse_header (auth_header ts nonce sig) = Some (ts, nonce, sig)"
proof -
  have "find_char (CHR ''.'') (show_int ts @ CHR ''.'' # nonce @ CHR ''.'' # sig) = Some (length (show_int ts))"
    using no_dot_int by (rule find_char_append)
  moreover have "find_char (CHR ''.'') (nonce @ CHR ''.'' # sig) = Some (length nonce)"
    using assms(4) by (rule find_char_append)
  ultimately show ?thesis
    using assms(3) parse_i64_show_int [OF assms(1,2)]
    by (simp add: parse_header_def auth_header_def starts_with_def Let_def)
qed

section \<open>What the cache remembers\<close>

lemma check_fresh:
  assumes "check_and_insert ord now n nc = Some (b, nc')"
  shows "b \<longleftrightarrow> \<not> (\<exists>t. hm_get (nc_entries nc) n = Some t \<and> nonce_live now t)"
  using assms by (auto simp: check_and_insert_def Let_def split: option.splits if_splits)

text \<open>A live nonce survives another insertion while the cache is below its capacity.\<close>

definition remembers :: "instant \<Rightarrow> string \<Rightarrow> instant \<Rightarrow> NonceCacheInner \<Rightarrow> bool" where
  "remembers now n t nc \<longleftrightarrow> hm_inv (nc_entries nc) \<and> hm_get (nc_entries nc) n = Some t \<and> nonce_live now t"

lemma nonce_live_mono: "nonce_live now t \<Longrightarrow> now' \<le> now \<Longrightarrow> nonce_live now' t"
  unfolding nonce_live_def elapsed_def by (meson diff_le_mono div_le_mono le_less_trans)

lemma check_remembers:
  assumes "remembers now n t nc" "now' \<le> now" "hm_len (nc_entries nc) < NONCE_CACHE_MAX_CAPACITY"
    and "check_and_insert ord now' m nc = Some (b, nc')"
  shows "remembers now n t nc' \<and> hm_len (nc_entries nc') \<le> Suc (hm_len (nc_entries nc))"
proof (cases "b")
  case False
  with assms show ?thesis by (auto simp: check_and_insert_def Let_def split: option.splits if_splits)
next
  case True
  then obtain c where c: "nc' = \<lparr>nc_entries = hm_insert m now' (evict_oldest ord (purge_expired now' c (nc_entries nc))),
      insert_count = c\<rparr>" "\<not> (\<exists>t. hm_get (nc_entries nc) m = Some t \<and> nonce_live now' t)"
    using assms(4) by (auto simp: check_and_insert_def Let_def split: option.splits if_splits)
  have live: "nonce_live now' t" using assms(1,2) nonce_live_mono by (auto simp: remembers_def)
  with c(2) assms(1) have mn: "m \<noteq> n" by (auto simp: remembers_def)
  let ?p = "purge_expired now' c (nc_entries nc)"
  have p: "hm_inv ?p" "hm_len ?p \<le> hm_len (nc_entries nc)" "hm_get ?p n = Some t"
    using assms(1) live
    by (auto simp: purge_expired_def remembers_def hm_inv_retain hm_len_retain hm_get_retain)
  then have e: "evict_oldest ord ?p = ?p" using assms(3) by (simp add: evict_oldest_def)
  show ?thesis
    using p mn assms(1) unfolding c(1) e remembers_def
    by (simp add: hm.inv_insert hm.get_insert hm.len_insert)
qed

lemma run_remembers:
  assumes "remembers now n t nc" "hm_len (nc_entries nc) + length xs < NONCE_CACHE_MAX_CAPACITY"
    and "\<forall>(m, i) \<in> set xs. i \<le> now"
    and "run (\<lambda>(m, i) c. map_option snd (check_and_insert ord i m c)) xs nc = Some nc'"
  shows "remembers now n t nc'"
  using assms
proof (induction xs arbitrary: nc)
  case (Cons x xs)
  obtain m i where x: "x = (m, i)" by (cases x)
  with Cons.prems(4) obtain b nc1 where s: "check_and_insert ord i m nc = Some (b, nc1)"
      "run (\<lambda>(m, i) c. map_option snd (check_and_insert ord i m c)) xs nc1 = Some nc'"
    by (auto split: option.splits)
  have "i \<le> now" "hm_len (nc_entries nc) < NONCE_CACHE_MAX_CAPACITY" using Cons.prems x by auto
  from check_remembers [OF Cons.prems(1) this s(1)]
  have "remembers now n t nc1" "hm_len (nc_entries nc1) + length xs < NONCE_CACHE_MAX_CAPACITY"
    using Cons.prems(2) by simp_all
  with Cons.IH [OF _ _ _ s(2)] Cons.prems(3) show ?case by simp
qed simp

text \<open>Eviction at the capacity keeps a quarter of the entries, without the oldest one.\<close>

definition permutes_entries :: "((string, instant) hmap \<Rightarrow> (string, instant) hmap) \<Rightarrow> bool" where
  "permutes_entries ord \<longleftrightarrow> (\<forall>m. mset (ord m) = mset m)"

lemma evict_oldest_eq:
  assumes "permutes_entries ord" "hm_inv m"
  shows "distinct (map fst (sort_key snd (ord m)))" "set (sort_key snd (ord m)) = set m"
    "length (sort_key snd (ord m)) = hm_len m"
    "NONCE_CACHE_MAX_CAPACITY \<le> hm_len m \<Longrightarrow>
       evict_oldest ord m = drop (hm_len m * 3 div 4) (sort_key snd (ord m))"
proof -
  let ?es = "sort_key snd (ord m)"
  have ms: "mset ?es = mset m" using assms(1) by (simp add: permutes_entries_def)
  then show st: "set ?es = set m" by (rule mset_eq_setD)
  show len: "length ?es = hm_len m" using mset_eq_length [OF ms] by (simp add: hm_len_def)
  have "mset (map fst ?es) = mset (map fst m)" using ms by (simp only: mset_map)
  then show dist: "distinct (map fst ?es)"
    using assms(2) mset_eq_imp_distinct_iff [of "map fst ?es" "map fst m"] by (simp only: hm_inv_def)
  have "distinct (map fst (drop c ?es))" for c
    using dist by (simp only: drop_map [symmetric] distinct_drop)
  with len show "NONCE_CACHE_MAX_CAPACITY \<le> hm_len m \<Longrightarrow> evict_oldest ord m = drop (hm_len m * 3 div 4) ?es"
    by (simp only: evict_oldest_def Let_def if_True hm_collect_distinct)
qed

lemma evict_oldest_quarter:
  assumes "permutes_entries ord" "hm_inv m" "NONCE_CACHE_MAX_CAPACITY \<le> hm_len m"
    and "(n, t) \<in> set m" "\<And>k i. (k, i) \<in> set m \<Longrightarrow> k \<noteq> n \<Longrightarrow> t < i"
  shows "hm_inv (evict_oldest ord m)" "hm_len (evict_oldest ord m) = hm_len m - hm_len m * 3 div 4"
    "hm_get (evict_oldest ord m) n = None"
proof -
  let ?es = "sort_key snd (ord m)"
  let ?c = "hm_len m * 3 div 4"
  note eq = evict_oldest_eq [OF assms(1,2)]
  note ev = eq(4) [OF assms(3)] and dist = eq(1) and st = eq(2) and len = eq(3)
  obtain k i es' where es: "?es = (k, i) # es'"
    using len assms(3) by (cases ?es) (auto simp: NONCE_CACHE_MAX_CAPACITY_def)
  have hd: "k = n"
  proof (rule ccontr)
    assume "k \<noteq> n"
    then have "t < i" using assms(5) st es by auto
    moreover have "(n, t) \<in> set es'" using assms(4) st es \<open>k \<noteq> n\<close> by auto
    moreover have "sorted (map snd ?es)" by simp
    ultimately show False using es by fastforce
  qed
  have "n \<notin> fst ` set es'" using dist es hd by simp
  moreover have "1 \<le> ?c" using len assms(3) by (simp add: NONCE_CACHE_MAX_CAPACITY_def)
  then obtain d where d: "?c = Suc d" by (cases ?c) auto
  ultimately have "n \<notin> fst ` set (drop ?c ?es)"
    using es d by (auto dest: in_set_dropD)
  then show "hm_get (evict_oldest ord m) n = None" by (simp add: ev hm_get_def map_of_eq_None_iff)
  show "hm_inv (evict_oldest ord m)"
    using dist unfolding ev hm_inv_def by (metis distinct_drop drop_map)
  show "hm_len (evict_oldest ord m) = hm_len m - hm_len m * 3 div 4"
    using len by (simp only: ev hm_len_def length_drop)
qed

section \<open>Properties\<close>

text \<open>C38: Signatures are not checked. A header with a fresh nonce and a time stamp in the window
  is accepted whatever its signature, the payload and the shared secret are.\<close>

theorem any_signature_accepted:
  assumes "- (2 ^ 63) \<le> ts" "ts < 2 ^ 63" "nonce \<noteq> []" "CHR ''.'' \<notin> set nonce"
    and "\<bar>utc - ts\<bar> \<le> 300" "hm_get (nc_entries nc) nonce = None" "insert_count nc \<noteq> - 1"
  shows "\<exists>nc'. validate_auth_header ord now utc a (auth_header ts nonce forged) payload ts nc = Some (Inr (), nc')"
proof -
  have "Suc (unat (insert_count nc)) < 2 ^ 64"
    using assms(7) word_add_one_ne_zero_unat [of "insert_count nc"] unat_u64_lt [of "insert_count nc + 1"] by simp
  then have "checked_add (insert_count nc) 1 = Some (insert_count nc + 1)" by (simp add: checked_add_def)
  with assms parse_auth_header [OF assms(1-4), of forged] show ?thesis
    by (simp add: validate_auth_header_def HMAC_REPLAY_WINDOW_SECS_def check_and_insert_def Let_def sa_verify_def
        nat_le_iff)
qed

theorem any_signature_accepted_witness:
  "\<exists>nc'. validate_auth_header id 5 100 (ServiceAuthenticator_new ''secret'') (auth_header 99 ''n'' ''forged'')
     ''payload'' 99 NonceCacheInner_new = Some (Inr (), nc')"
  by (rule any_signature_accepted) (simp_all add: NonceCacheInner_new_def hm_get_def)

text \<open>C21: A replay is rejected. After a nonce was accepted, any sequence of at most as many other
  checks as the cache has room for leaves it there: the same nonce within 300 seconds is
  reported as a replay, whatever header carries it.\<close>

theorem replay_rejected:
  assumes "check_and_insert ord t0 nonce nc0 = Some (True, nc1)" "hm_inv (nc_entries nc0)"
    and "hm_len (nc_entries nc0) + length xs + 1 < NONCE_CACHE_MAX_CAPACITY"
    and "\<forall>(m, i) \<in> set xs. i \<le> now" "elapsed now t0 < from_secs 300"
    and "run (\<lambda>(m, i) c. map_option snd (check_and_insert ord i m c)) xs nc1 = Some nc2"
    and "parse_header header = Some (ts, nonce, sig)" "\<bar>utc - ts\<bar> \<le> 300"
  shows "validate_auth_header ord now utc a header payload ts nc2 = Some (Inl ReplayDetected, nc2)"
proof -
  have live: "nonce_live now t0"
    using assms(5) by (simp add: nonce_live_def NONCE_TTL_SECS_def from_secs_def less_mult_imp_div_less)
  from assms(1) obtain c where nc1: "nc1 = \<lparr>nc_entries = hm_insert nonce t0
      (evict_oldest ord (purge_expired t0 c (nc_entries nc0))), insert_count = c\<rparr>"
    by (auto simp: check_and_insert_def Let_def split: option.splits if_splits)
  let ?p = "purge_expired t0 c (nc_entries nc0)"
  have p: "hm_inv ?p" "hm_len ?p \<le> hm_len (nc_entries nc0)"
    using assms(2) by (simp_all add: purge_expired_def hm_inv_retain hm_len_retain)
  then have "evict_oldest ord ?p = ?p" using assms(3) by (simp add: evict_oldest_def)
  with nc1 p live have "remembers now nonce t0 nc1" "hm_len (nc_entries nc1) \<le> Suc (hm_len (nc_entries nc0))"
    by (simp_all add: remembers_def hm.inv_insert hm.get_insert hm.len_insert)
  with run_remembers [OF _ _ assms(4,6)] assms(3) have "remembers now nonce t0 nc2" by simp
  with assms(7,8) show ?thesis
    by (simp add: validate_auth_header_def check_and_insert_def remembers_def HMAC_REPLAY_WINDOW_SECS_def nat_le_iff)
qed

theorem replay_rejected_witness:
  "\<exists>nc1 nc2. check_and_insert id 5 ''n'' NonceCacheInner_new = Some (True, nc1)
     \<and> validate_auth_header id (from_secs 200) 100 (ServiceAuthenticator_new ''secret'') (auth_header 99 ''n'' ''s'')
         ''payload'' 99 nc2 = Some (Inl ReplayDetected, nc2)"
proof -
  define nc1 where "nc1 = \<lparr>nc_entries = [(''n'', 5)], insert_count = 1\<rparr>"
  define nc2 where "nc2 = \<lparr>nc_entries = [(''n'', 5), (''m'', 9)], insert_count = 2\<rparr>"
  have c: "check_and_insert id 5 ''n'' NonceCacheInner_new = Some (True, nc1)"
    by (simp add: check_and_insert_def NonceCacheInner_new_def hm_get_def checked_add_def Let_def evict_oldest_def
        purge_expired_def CLEANUP_INTERVAL_def NONCE_CACHE_MAX_CAPACITY_def hm_len_def hm_insert_def nc1_def)
  have r: "run (\<lambda>(m, i) c. map_option snd (check_and_insert id i m c)) [(''m'', 9)] nc1 = Some nc2"
    by (simp add: check_and_insert_def nc1_def hm_get_def checked_add_def Let_def evict_oldest_def
        purge_expired_def CLEANUP_INTERVAL_def NONCE_CACHE_MAX_CAPACITY_def hm_len_def hm_insert_def nc2_def)
  have p: "parse_header (auth_header 99 ''n'' ''s'') = Some (99, ''n'', ''s'')"
    by (rule parse_auth_header) simp_all
  have "validate_auth_header id (from_secs 200) 100 (ServiceAuthenticator_new ''secret'') (auth_header 99 ''n'' ''s'')
      ''payload'' 99 nc2 = Some (Inl ReplayDetected, nc2)"
    by (rule replay_rejected [OF c _ _ _ _ r p])
      (simp_all add: NonceCacheInner_new_def hm_inv_def hm_len_def NONCE_CACHE_MAX_CAPACITY_def elapsed_def from_secs_def)
  with c show ?thesis by blast
qed

text \<open>A header survives the round trip: the parts of a generated header are the time stamp,
  the nonce and the digest of the payload, and it validates while its time stamp is in the
  window and its nonce unused.\<close>

theorem auth_header_roundtrip:
  assumes "generate_auth_header hmac utc nonce a payload = Inr header"
    and "- (2 ^ 63) \<le> utc" "utc < 2 ^ 63" "nonce \<noteq> []" "CHR ''.'' \<notin> set nonce"
    and "\<bar>utc' - utc\<bar> \<le> 300" "hm_get (nc_entries nc) nonce = None" "unat (insert_count nc) < 2 ^ 64 - 1"
  shows "\<exists>sig nc'. sa_sign hmac a payload = Inr sig \<and> parse_header header = Some (utc, nonce, sig)
     \<and> validate_auth_header ord now utc' a header payload utc nc = Some (Inr (), nc')"
proof -
  from assms(1) obtain sig where s: "sa_sign hmac a payload = Inr sig" "header = auth_header utc nonce sig"
    by (auto simp: generate_auth_header_def split: sum.splits)
  have "checked_add (insert_count nc) 1 = Some (insert_count nc + 1)"
    using assms(8) by (simp add: checked_add_def)
  with assms(6,7) parse_auth_header [OF assms(2-5), of sig] s show ?thesis
    by (simp add: validate_auth_header_def HMAC_REPLAY_WINDOW_SECS_def check_and_insert_def Let_def sa_verify_def
        nat_le_iff)
qed

theorem auth_header_roundtrip_witness:
  "\<exists>sig nc'. sa_sign (\<lambda>k m. Inr (k @ m)) (ServiceAuthenticator_new ''k'') ''p'' = Inr sig
     \<and> validate_auth_header id 5 100 (ServiceAuthenticator_new ''k'') (auth_header 99 ''n'' ''kp'') ''p'' 99
         NonceCacheInner_new = Some (Inr (), nc')"
proof -
  have "generate_auth_header (\<lambda>k m. Inr (k @ m)) 99 ''n'' (ServiceAuthenticator_new ''k'') ''p'' =
      Inr (auth_header 99 ''n'' ''kp'')"
    by (simp add: generate_auth_header_def sa_sign_def ServiceAuthenticator_new_def)
  from auth_header_roundtrip [OF this, of 100 NonceCacheInner_new id 5] show ?thesis
    by (auto simp: NonceCacheInner_new_def hm_get_def)
qed

text \<open>A full cache reopens the replay window. When a fresh nonce arrives at a cache at its
  capacity, three quarters of the entries are dropped, live or not; the oldest nonce is then
  accepted a second time although it was used within the last 300 seconds.\<close>

theorem full_cache_forgets_live_nonce:
  assumes "permutes_entries ord" "hm_inv (nc_entries nc)" "NONCE_CACHE_MAX_CAPACITY \<le> hm_len (nc_entries nc)"
    and "hm_get (nc_entries nc) n = Some t" "nonce_live now t"
    and "\<forall>(k, i) \<in> set (nc_entries nc). k \<noteq> n \<longrightarrow> t < i"
    and "hm_get (nc_entries nc) m = None" "unat (insert_count nc) < 2 ^ 64 - 2"
    and "(insert_count nc + 1) mod CLEANUP_INTERVAL \<noteq> 0"
  shows "\<exists>nc1 nc2. check_and_insert ord now n nc = Some (False, nc)
     \<and> check_and_insert ord now m nc = Some (True, nc1)
     \<and> hm_len (nc_entries nc1) = Suc (hm_len (nc_entries nc) - hm_len (nc_entries nc) * 3 div 4)
     \<and> check_and_insert ord now n nc1 = Some (True, nc2)"
proof -
  let ?e = "evict_oldest ord (nc_entries nc)"
  have "(n, t) \<in> set (nc_entries nc)" using assms(4) by (simp add: hm_get_def map_of_SomeD)
  note ev = evict_oldest_quarter [OF assms(1-3) this]
  have ev': "hm_inv ?e" "hm_len ?e = hm_len (nc_entries nc) - hm_len (nc_entries nc) * 3 div 4" "hm_get ?e n = None"
    using ev assms(6) by auto
  note eq = evict_oldest_eq [OF assms(1,2)]
  have "set ?e \<subseteq> set (nc_entries nc)" unfolding eq(4) [OF assms(3)] using eq(2) set_drop_subset by metis
  then have sub: "fst ` set ?e \<subseteq> fst ` set (nc_entries nc)" by (rule image_mono)
  have me: "hm_get ?e m = None"
    using sub assms(7) by (auto simp: hm_get_def map_of_eq_None_iff)
  have mn: "m \<noteq> n" using assms(4,7) by auto
  define nc1 where "nc1 = \<lparr>nc_entries = hm_insert m now ?e, insert_count = insert_count nc + 1\<rparr>"
  have c1: "checked_add (insert_count nc) 1 = Some (insert_count nc + 1)" using assms(8) by (simp add: checked_add_def)
  have "unat (insert_count nc + 1) = Suc (unat (insert_count nc))"
    using assms(8) by (intro unat_add_one) simp
  then have c2: "checked_add (insert_count nc + 1) 1 = Some (insert_count nc + 1 + 1)"
    using assms(8) by (simp add: checked_add_def)
  have "check_and_insert ord now n nc = Some (False, nc)"
    using assms(4,5) by (simp add: check_and_insert_def)
  moreover have "check_and_insert ord now m nc = Some (True, nc1)"
    using assms(7,9) c1 by (simp add: check_and_insert_def Let_def purge_expired_def nc1_def)
  moreover have "hm_len (nc_entries nc1) = Suc (hm_len (nc_entries nc) - hm_len (nc_entries nc) * 3 div 4)"
    using ev' me by (simp add: nc1_def hm.len_insert)
  moreover have "\<exists>nc2. check_and_insert ord now n nc1 = Some (True, nc2)"
    using ev'(3) mn c2 by (simp add: check_and_insert_def Let_def nc1_def hm.get_insert)
  ultimately show ?thesis by blast
qed

theorem full_cache_forgets_live_nonce_witness:
  "\<exists>nc nc1 nc2. hm_get (nc_entries nc) (dec 0) = Some 1 \<and> nonce_live 200000 1
     \<and> check_and_insert id 200000 ''x'' nc = Some (True, nc1)
     \<and> check_and_insert id 200000 (dec 0) nc1 = Some (True, nc2)"
proof -
  have inj: "dec i = dec j \<longleftrightarrow> i = j" for i j
    using dec_value [of i] dec_value [of j] by metis
  define nc where "nc = \<lparr>nc_entries = map (\<lambda>i. (dec i, Suc i)) [0..<100000], insert_count = 0\<rparr>"
  have keys: "map fst (nc_entries nc) = map dec [0..<100000]" by (simp add: nc_def comp_def)
  have inv: "hm_inv (nc_entries nc)" unfolding hm_inv_def keys by (simp add: distinct_map inj_on_def inj del: upt.simps)
  have "(dec 0, 1) \<in> set (nc_entries nc)" by (force simp: nc_def simp del: upt.simps)
  with inv have g: "hm_get (nc_entries nc) (dec 0) = Some 1" by (simp add: hm_inv_def hm_get_def)
  have live: "nonce_live 200000 1" by (simp add: nonce_live_def elapsed_def NONCE_TTL_SECS_def)
  have x: "hm_get (nc_entries nc) ''x'' = None"
  proof -
    have "''x'' \<noteq> dec i" for i
    proof
      assume "''x'' = dec i"
      with set_dec [of i] have "set ''x'' \<subseteq> set ''0123456789''" by metis
      then show False by simp
    qed
    moreover have "fst ` set (nc_entries nc) = dec ` {0..<100000}"
      by (simp add: nc_def image_image del: upt.simps)
    ultimately have "''x'' \<notin> fst ` set (nc_entries nc)" by blast
    then show ?thesis by (simp add: hm_get_def map_of_eq_None_iff)
  qed
  have "\<exists>nc1 nc2. check_and_insert id 200000 (dec 0) nc = Some (False, nc)
     \<and> check_and_insert id 200000 ''x'' nc = Some (True, nc1)
     \<and> hm_len (nc_entries nc1) = Suc (hm_len (nc_entries nc) - hm_len (nc_entries nc) * 3 div 4)
     \<and> check_and_insert id 200000 (dec 0) nc1 = Some (True, nc2)"
  proof (rule full_cache_forgets_live_nonce [OF _ inv _ g live _ x])
    show "\<forall>(k, i) \<in> set (nc_entries nc). k \<noteq> dec 0 \<longrightarrow> 1 < i" by (auto simp: nc_def inj simp del: upt.simps)
  qed (simp_all add: permutes_entries_def NONCE_CACHE_MAX_CAPACITY_def hm_len_def nc_def CLEANUP_INTERVAL_def
      del: upt.simps)
  with g live show ?thesis by blast
qed

text \<open>A header dated ahead can be used twice. Time stamps up to 300 seconds in the future are
  accepted, but a nonce is remembered for 300 seconds only: a header accepted with a time stamp
  300 seconds ahead is accepted again 300 seconds later.\<close>

theorem future_header_accepted_twice:
  assumes "- (2 ^ 63) \<le> utc + 300" "utc + 300 < 2 ^ 63" "nonce \<noteq> []" "CHR ''.'' \<notin> set nonce"
    and "hm_get (nc_entries nc) nonce = None" "unat (insert_count nc) < 2 ^ 64 - 2"
    and "validate_auth_header ord now utc a (auth_header (utc + 300) nonce sig) payload (utc + 300) nc = Some (r1, nc1)"
  shows "r1 = Inr () \<and> (\<exists>nc2. validate_auth_header ord (now + from_secs 300) (utc + 300) a
           (auth_header (utc + 300) nonce sig) payload (utc + 300) nc1 = Some (Inr (), nc2))"
proof -
  note ph = parse_auth_header [OF assms(1-4), of sig]
  have c1: "checked_add (insert_count nc) 1 = Some (insert_count nc + 1)" using assms(6) by (simp add: checked_add_def)
  have "unat (insert_count nc + 1) = Suc (unat (insert_count nc))"
    using assms(6) by (intro unat_add_one) simp
  then have c2: "checked_add (insert_count nc + 1) 1 = Some (insert_count nc + 1 + 1)"
    using assms(6) by (simp add: checked_add_def)
  from assms(5,7) ph c1 have r: "r1 = Inr ()" "insert_count nc1 = insert_count nc + 1"
    "hm_get (nc_entries nc1) nonce = Some now"
    by (auto simp: validate_auth_header_def HMAC_REPLAY_WINDOW_SECS_def check_and_insert_def Let_def sa_verify_def
        hm.get_insert)
  have "\<not> nonce_live (now + from_secs 300) now"
    by (simp add: nonce_live_def elapsed_def from_secs_def NONCE_TTL_SECS_def)
  with r ph c2 show ?thesis
    by (simp add: validate_auth_header_def HMAC_REPLAY_WINDOW_SECS_def check_and_insert_def Let_def sa_verify_def)
qed

theorem future_header_accepted_twice_witness:
  "\<exists>nc1 nc2. validate_auth_header id 5 100 (ServiceAuthenticator_new ''k'') (auth_header 400 ''n'' ''s'') ''p'' 400
        NonceCacheInner_new = Some (Inr (), nc1)
     \<and> validate_auth_header id (5 + from_secs 300) 400 (ServiceAuthenticator_new ''k'') (auth_header 400 ''n'' ''s'') ''p'' 400
        nc1 = Some (Inr (), nc2)"
proof -
  have h: "auth_header (100 + 300) ''n'' ''s'' = auth_header 400 ''n'' ''s''" by simp
  have p: "parse_header (auth_header 400 ''n'' ''s'') = Some (400, ''n'', ''s'')"
    by (rule parse_auth_header) simp_all
  obtain nc1 where "validate_auth_header id 5 100 (ServiceAuthenticator_new ''k'') (auth_header 400 ''n'' ''s'') ''p'' 400
      NonceCacheInner_new = Some (Inr (), nc1)"
    using p by (simp add: validate_auth_header_def HMAC_REPLAY_WINDOW_SECS_def check_and_insert_def NonceCacheInner_new_def
        hm_get_def checked_add_def Let_def sa_verify_def)
  with future_header_accepted_twice [of 100 "''n''" NonceCacheInner_new id 5 "ServiceAuthenticator_new ''k''" "''s''" "''p''"
      "Inr ()" nc1] show ?thesis
    by (auto simp: NonceCacheInner_new_def hm_get_def)
qed

end
