(* ===== verification/Vfs.thy ===== *)
theory Vfs
  imports HashMaps Text
begin

text \<open>
  \<open>crates/sandbox-guard/src/wasi_virt.rs\<close>: the memory-backed file system of a guest, its
  path redirection and quotas, and the honey-tokens injected into the guest environment.

  A file system is the record of its fields. \<open>write_file\<close> is composed of the three critical
  sections of the method: looking at the existing file, reserving bytes with the
  compare-and-exchange loop, and inserting the file. Sequential use runs them in one go; the
  last section of the theory interleaves them. The clock is an argument. Wasmtime
  configuration and the module cache are not modelled.
\<close>

section \<open>Paths\<close>

text \<open>\<open>trim_start_matches('/')\<close>\<close>

definition trim_slashes :: "string \<Rightarrow> string" where
  "trim_slashes p = dropWhile (\<lambda>c. c = CHR ''/'') p"

definition push_segment :: "string list \<Rightarrow> string \<Rightarrow> string list" where
  "push_segment stack seg =
     (if seg = [] \<or> seg = ''.'' then stack
      else if seg = ''..'' then butlast stack
      else stack @ [seg])"

definition path_stack :: "string \<Rightarrow> string list" where
  "path_stack path = foldl push_segment [] (split_char (CHR ''/'') path)"

definition normalize_path_segments :: "string \<Rightarrow> string" where
  "normalize_path_segments path = join ''/'' (path_stack path)"

section \<open>The file system\<close>

record VirtualFile =
  vf_path :: string
  vf_content :: "u8 list"
  created_at :: u64
  modified_at :: u64
  vf_size :: usize

record VirtualFileSystem =
  mount_point :: string
  max_total_bytes :: usize
  max_file_count :: usize
  vfs_files :: "(string, VirtualFile) hmap"
  total_bytes_used :: u64
  write_count :: u64
  read_count :: u64

datatype VfsError =
    BudgetExceeded usize usize
  | InodeExhausted nat usize
  | FileNotFound string
  | PathTraversalDetected string

definition VirtualFileSystem_new :: VirtualFileSystem where
  "VirtualFileSystem_new =
     \<lparr>mount_point = ''/dev/shm/serein-vfs'', max_total_bytes = 64 * 1024 * 1024, max_file_count = 1000,
      vfs_files = [], total_bytes_used = 0, write_count = 0, read_count = 0\<rparr>"

definition with_mount_point :: "string \<Rightarrow> VirtualFileSystem \<Rightarrow> VirtualFileSystem" where
  "with_mount_point m v = v\<lparr>mount_point := m\<rparr>"

definition with_max_bytes :: "usize \<Rightarrow> VirtualFileSystem \<Rightarrow> VirtualFileSystem" where
  "with_max_bytes m v = v\<lparr>max_total_bytes := m\<rparr>"

definition with_max_file_count :: "usize \<Rightarrow> VirtualFileSystem \<Rightarrow> VirtualFileSystem" where
  "with_max_file_count m v = v\<lparr>max_file_count := max m 1\<rparr>"

definition redirect_path :: "VirtualFileSystem \<Rightarrow> string \<Rightarrow> string" where
  "redirect_path v guest_path = mount_point v @ ''/'' @ normalize_path_segments (trim_slashes guest_path)"

text \<open>The checks before the reservation: the size of the file the write would replace.\<close>

definition write_begin :: "string \<Rightarrow> u8 list \<Rightarrow> VirtualFileSystem \<Rightarrow> VfsError + usize" where
  "write_begin path d v =
     (let n = of_nat (length d) :: usize
      in if max_total_bytes v < n
         then Inl (BudgetExceeded n (saturating_sub (max_total_bytes v) (total_bytes_used v)))
         else if hm_get (vfs_files v) path = None \<and> unat (max_file_count v) \<le> hm_len (vfs_files v)
         then Inl (InodeExhausted (hm_len (vfs_files v)) (max_file_count v))
         else Inr (case hm_get (vfs_files v) path of Some f \<Rightarrow> vf_size f | None \<Rightarrow> 0))"

text \<open>\<open>fetch_update\<close>: the sum is a checked addition.\<close>

definition write_reserve :: "usize \<Rightarrow> usize \<Rightarrow> VirtualFileSystem \<Rightarrow> ((VfsError + unit) \<times> VirtualFileSystem) may_panic" where
  "write_reserve old n v =
     (case checked_add (saturating_sub (total_bytes_used v) old) n of
        None \<Rightarrow> None
      | Some proposed \<Rightarrow>
          if max_total_bytes v < proposed
          then Some (Inl (BudgetExceeded n (saturating_sub (max_total_bytes v) (total_bytes_used v))), v)
          else Some (Inr (), v\<lparr>total_bytes_used := proposed\<rparr>))"

definition write_insert :: "u64 \<Rightarrow> string \<Rightarrow> u8 list \<Rightarrow> VirtualFileSystem \<Rightarrow> VirtualFileSystem" where
  "write_insert now path d v =
     v\<lparr>vfs_files := hm_insert path
         \<lparr>vf_path = path, vf_content = d,
          created_at = (case hm_get (vfs_files v) path of Some f \<Rightarrow> created_at f | None \<Rightarrow> now),
          modified_at = now, vf_size = of_nat (length d)\<rparr> (vfs_files v),
       write_count := write_count v + 1\<rparr>"

definition write_file ::
  "u64 \<Rightarrow> string \<Rightarrow> u8 list \<Rightarrow> VirtualFileSystem \<Rightarrow> ((VfsError + unit) \<times> VirtualFileSystem) may_panic" where
  "write_file now guest_path d v =
     (let path = redirect_path v guest_path
      in case write_begin path d v of
           Inl e \<Rightarrow> Some (Inl e, v)
         | Inr old \<Rightarrow>
             (case write_reserve old (of_nat (length d)) v of
                None \<Rightarrow> None
              | Some (Inl e, v1) \<Rightarrow> Some (Inl e, v1)
              | Some (Inr _, v1) \<Rightarrow> Some (Inr (), write_insert now path d v1)))"

definition read_file :: "string \<Rightarrow> VirtualFileSystem \<Rightarrow> (VfsError + u8 list) \<times> VirtualFileSystem" where
  "read_file guest_path v =
     (case hm_get (vfs_files v) (redirect_path v guest_path) of
        Some f \<Rightarrow> (Inr (vf_content f), v\<lparr>read_count := read_count v + 1\<rparr>)
      | None \<Rightarrow> (Inl (FileNotFound guest_path), v))"

definition delete_file :: "string \<Rightarrow> VirtualFileSystem \<Rightarrow> (VfsError + unit) \<times> VirtualFileSystem" where
  "delete_file guest_path v =
     (let path = redirect_path v guest_path
      in case hm_get (vfs_files v) path of
           Some f \<Rightarrow> (Inr (), v\<lparr>vfs_files := hm_remove path (vfs_files v),
                               total_bytes_used := total_bytes_used v - vf_size f\<rparr>)
         | None \<Rightarrow> (Inl (FileNotFound guest_path), v))"

definition list_files :: "VirtualFileSystem \<Rightarrow> VirtualFile list" where
  "list_files v = map snd (vfs_files v)"

definition file_count :: "VirtualFileSystem \<Rightarrow> nat" where
  "file_count v = hm_len (vfs_files v)"

text \<open>\<open>clone\<close> re-inserts the files into a new map.\<close>

definition VirtualFileSystem_clone :: "VirtualFileSystem \<Rightarrow> VirtualFileSystem" where
  "VirtualFileSystem_clone v =
     \<lparr>mount_point = mount_point v, max_total_bytes = max_total_bytes v, max_file_count = max_file_count v,
      vfs_files = hm_collect (vfs_files v), total_bytes_used = total_bytes_used v,
      write_count = write_count v, read_count = read_count v\<rparr>"

datatype vfs_op = Write u64 string "u8 list" | Read string | Delete string

fun vfs_step :: "vfs_op \<Rightarrow> VirtualFileSystem \<Rightarrow> VirtualFileSystem may_panic" where
  "vfs_step (Write now p d) v = map_option snd (write_file now p d v)"
| "vfs_step (Read p) v = Some (snd (read_file p v))"
| "vfs_step (Delete p) v = Some (snd (delete_file p v))"

section \<open>Paths stay below the mount point\<close>

definition plain_segment :: "string \<Rightarrow> bool" where
  "plain_segment s \<longleftrightarrow> s \<noteq> [] \<and> s \<noteq> ''.'' \<and> s \<noteq> ''..'' \<and> CHR ''/'' \<notin> set s"

lemma push_segment_plain:
  "\<forall>s \<in> set st. plain_segment s \<Longrightarrow> CHR ''/'' \<notin> set seg \<Longrightarrow> \<forall>s \<in> set (push_segment st seg). plain_segment s"
  by (auto simp: push_segment_def plain_segment_def dest: in_set_butlastD)

lemma foldl_push_segment_plain:
  "\<forall>s \<in> set st. plain_segment s \<Longrightarrow> \<forall>x \<in> set xs. CHR ''/'' \<notin> set x \<Longrightarrow>
   \<forall>s \<in> set (foldl push_segment st xs). plain_segment s"
proof (induction xs arbitrary: st)
  case (Cons x xs)
  then have "\<forall>s \<in> set (push_segment st x). plain_segment s" by (intro push_segment_plain) auto
  with Cons.IH [OF this] Cons.prems show ?case by simp
qed simp

lemma path_stack_plain: "\<forall>s \<in> set (path_stack p). plain_segment s"
  unfolding path_stack_def by (rule foldl_push_segment_plain) (auto dest: split_char_no_sep)

lemma foldl_push_plain:
  "\<forall>s \<in> set xs. plain_segment s \<Longrightarrow> foldl push_segment st xs = st @ xs"
  by (induction xs arbitrary: st) (auto simp: push_segment_def plain_segment_def)

lemma path_stack_join:
  assumes "\<forall>s \<in> set xs. plain_segment s"
  shows "path_stack (join ''/'' xs) = xs"
proof (cases "xs = []")
  case True
  then show ?thesis by (simp add: path_stack_def push_segment_def)
next
  case False
  have "split_char (CHR ''/'') (join [CHR ''/''] xs) = xs"
    using False assms by (intro split_char_join) (auto simp: plain_segment_def)
  with assms foldl_push_plain [of xs "[]"] show ?thesis by (simp add: path_stack_def)
qed

text \<open>
  What redirection means: interpret the path from the root of the guest, one component after
  the other, never above the root.
\<close>

fun resolve :: "string list \<Rightarrow> string list \<Rightarrow> string list" where
  "resolve dir [] = dir"
| "resolve dir (seg # segs) =
     resolve (if seg = [] \<or> seg = ''.'' then dir
              else if seg = ''..'' then (case dir of [] \<Rightarrow> [] | d # ds \<Rightarrow> ds) else seg # dir) segs"

lemma foldl_push_resolve: "foldl push_segment st segs = rev (resolve (rev st) segs)"
proof (induction segs arbitrary: st)
  case (Cons seg segs)
  have "rev (push_segment st seg) =
      (if seg = [] \<or> seg = ''.'' then rev st
       else if seg = ''..'' then (case rev st of [] \<Rightarrow> [] | d # ds \<Rightarrow> ds) else seg # rev st)"
    by (cases st rule: rev_cases) (auto simp: push_segment_def)
  with Cons show ?case by simp
qed simp

lemma foldl_push_trim:
  "foldl push_segment st (split_char (CHR ''/'') (trim_slashes p)) = foldl push_segment st (split_char (CHR ''/'') p)"
  by (induction p) (auto simp: trim_slashes_def push_segment_def)

lemma path_stack_trim: "path_stack (trim_slashes p) = rev (resolve [] (split_char (CHR ''/'') p))"
  using foldl_push_trim [of "[]" p] by (simp add: path_stack_def foldl_push_resolve)

lemma join_plain_inj:
  assumes "\<forall>s \<in> set xs. plain_segment s" "\<forall>s \<in> set ys. plain_segment s" "join ''/'' xs = join ''/'' ys"
  shows "xs = ys"
  using assms path_stack_join by metis

text \<open>
  C22: A guest path is interpreted from the mount point: the host path is the mount point
  followed by the components the path resolves to, none of which is empty, \<open>.\<close>, \<open>..\<close> or
  contains a separator. No sequence of parent steps leaves the mount point.
\<close>

theorem redirect_confined:
  "redirect_path v p = mount_point v @ ''/'' @ join ''/'' (rev (resolve [] (split_char (CHR ''/'') p)))
   \<and> list_all plain_segment (resolve [] (split_char (CHR ''/'') p))"
  using path_stack_plain [of "trim_slashes p"]
  by (simp add: redirect_path_def normalize_path_segments_def path_stack_trim list_all_iff)

lemma redirect_path_eq_iff:
  "redirect_path v p = redirect_path v q \<longleftrightarrow>
   resolve [] (split_char (CHR ''/'') p) = resolve [] (split_char (CHR ''/'') q)"
  using join_plain_inj [OF path_stack_plain path_stack_plain, of "trim_slashes p" "trim_slashes q"]
  by (auto simp: redirect_path_def normalize_path_segments_def path_stack_trim)

section \<open>Accounting\<close>

definition stored_bytes :: "(string, VirtualFile) hmap \<Rightarrow> nat" where
  "stored_bytes m = (\<Sum>(k, f) \<leftarrow> m. unat (vf_size f))"

definition vfs_inv :: "VirtualFileSystem \<Rightarrow> bool" where
  "vfs_inv v \<longleftrightarrow>
     hm_inv (vfs_files v) \<and> unat (total_bytes_used v) = stored_bytes (vfs_files v)
   \<and> total_bytes_used v \<le> max_total_bytes v \<and> hm_len (vfs_files v) \<le> unat (max_file_count v)
   \<and> (\<forall>(k, f) \<in> set (vfs_files v). vf_path f = k \<and> vf_size f = of_nat (length (vf_content f)))"

lemma stored_bytes_get:
  assumes "hm_inv m"
  shows "stored_bytes (hm_remove k m) + (case hm_get m k of Some f \<Rightarrow> unat (vf_size f) | None \<Rightarrow> 0) = stored_bytes m"
  using assms
proof (induction m)
  case (Cons e m)
  obtain k' f where e: "e = (k', f)" by (cases e)
  have "k' \<notin> fst ` set m" "hm_inv m" using Cons.prems e by (auto simp: hm_inv_def)
  then have "AList.delete k' m = m" by (simp add: delete_id)
  with Cons.IH [OF \<open>hm_inv m\<close>] e show ?case
    by (auto simp: stored_bytes_def hm_remove_def hm_get_def split: option.splits)
qed (simp add: stored_bytes_def hm_remove_def hm_get_def)

lemma stored_bytes_insert:
  assumes "hm_inv m"
  shows "stored_bytes (hm_insert k f m) = stored_bytes (hm_remove k m) + unat (vf_size f)"
  using assms
proof (induction m)
  case (Cons e m)
  obtain k' g where e: "e = (k', g)" by (cases e)
  have "k' \<notin> fst ` set m" "hm_inv m" using Cons.prems e by (auto simp: hm_inv_def)
  then have "AList.delete k' m = m" by (simp add: delete_id)
  with Cons.IH [OF \<open>hm_inv m\<close>] e show ?case
    by (auto simp: stored_bytes_def hm_remove_def hm_insert_def)
qed (simp add: stored_bytes_def hm_remove_def hm_insert_def)

lemma vfs_get_size_le:
  assumes "vfs_inv v" "hm_get (vfs_files v) k = Some f"
  shows "unat (vf_size f) \<le> unat (total_bytes_used v)"
  using assms stored_bytes_get [of "vfs_files v" k] by (simp add: vfs_inv_def)

lemma set_hm_remove: "set (hm_remove k m) \<subseteq> set m"
  by (auto simp: hm_remove_def AList.delete_eq)

lemma set_hm_insert: "set (hm_insert k f m) \<subseteq> insert (k, f) (set m)"
  unfolding hm_insert_def by (induction m) auto

lemma hm_remove_insert: "hm_remove k (hm_insert k f m) = hm_remove k m"
  unfolding hm_remove_def hm_insert_def by (induction m) auto

text \<open>The outcome of a successful write.\<close>

lemma write_file_ok:
  assumes "write_file now p d v = Some (Inr u, v')"
  obtains n where
    "v' = write_insert now (redirect_path v p) d (v\<lparr>total_bytes_used := n\<rparr>)"
    "unat n = (unat (total_bytes_used v)
        - unat (case hm_get (vfs_files v) (redirect_path v p) of Some f \<Rightarrow> vf_size f | None \<Rightarrow> 0))
        + unat (of_nat (length d) :: usize)"
    "n \<le> max_total_bytes v"
    "hm_get (vfs_files v) (redirect_path v p) = None \<longrightarrow> hm_len (vfs_files v) < unat (max_file_count v)"
  using assms
  by (auto simp: write_file_def write_begin_def write_reserve_def Let_def checked_add_Some_iff
      unat_saturating_sub not_less not_le split: if_splits option.splits sum.splits)

lemma write_file_error: "write_file now p d v = Some (Inl e, v') \<Longrightarrow> v' = v"
  by (auto simp: write_file_def write_reserve_def Let_def split: if_splits option.splits sum.splits)

lemma vfs_inv_write:
  assumes inv: "vfs_inv v" and w: "write_file now p d v = Some (r, v')"
  shows "vfs_inv v'"
proof (cases r)
  case (Inl e)
  with w inv show ?thesis using write_file_error by blast
next
  case (Inr u)
  let ?k = "redirect_path v p"
  from w Inr obtain n where v': "v' = write_insert now ?k d (v\<lparr>total_bytes_used := n\<rparr>)"
    and n: "unat n = (unat (total_bytes_used v)
        - unat (case hm_get (vfs_files v) ?k of Some f \<Rightarrow> vf_size f | None \<Rightarrow> 0))
        + unat (of_nat (length d) :: usize)"
    and le: "n \<le> max_total_bytes v"
    and new: "hm_get (vfs_files v) ?k = None \<longrightarrow> hm_len (vfs_files v) < unat (max_file_count v)"
    by (auto elim: write_file_ok)
  have m: "hm_inv (vfs_files v)" "unat (total_bytes_used v) = stored_bytes (vfs_files v)"
    "hm_len (vfs_files v) \<le> unat (max_file_count v)"
    using inv by (auto simp: vfs_inv_def)
  obtain f where f: "vfs_files v' = hm_insert ?k f (vfs_files v)" "vf_path f = ?k" "vf_content f = d"
    "vf_size f = of_nat (length d)"
    by (simp add: v' write_insert_def)
  have "unat n = stored_bytes (vfs_files v')"
    using n m(2) stored_bytes_get [OF m(1), of ?k] stored_bytes_insert [OF m(1), of ?k f] f
    by (auto split: option.splits)
  moreover have "hm_len (vfs_files v') \<le> unat (max_file_count v)"
    using m(3) new hm.len_insert [OF m(1), of ?k f] f by auto
  moreover have "\<forall>(k, g) \<in> set (vfs_files v'). vf_path g = k \<and> vf_size g = of_nat (length (vf_content g))"
    using inv set_hm_insert [of ?k f "vfs_files v"] f by (fastforce simp: vfs_inv_def)
  ultimately show ?thesis
    using hm.inv_insert [OF m(1), of ?k f] f(1) le by (simp add: vfs_inv_def v' write_insert_def)
qed

lemma vfs_inv_delete:
  assumes inv: "vfs_inv v"
  shows "vfs_inv (snd (delete_file p v))"
proof (cases "hm_get (vfs_files v) (redirect_path v p)")
  case None
  with inv show ?thesis by (simp add: delete_file_def)
next
  case (Some f)
  let ?k = "redirect_path v p"
  have m: "hm_inv (vfs_files v)" "unat (total_bytes_used v) = stored_bytes (vfs_files v)"
    "hm_len (vfs_files v) \<le> unat (max_file_count v)" "total_bytes_used v \<le> max_total_bytes v"
    using inv by (auto simp: vfs_inv_def)
  have le: "vf_size f \<le> total_bytes_used v" using vfs_get_size_le [OF inv Some] by (simp add: word_le_nat_alt)
  then have "unat (total_bytes_used v - vf_size f) = stored_bytes (hm_remove ?k (vfs_files v))"
    using stored_bytes_get [OF m(1), of ?k] Some m(2) by (simp add: unat_sub)
  moreover have "total_bytes_used v - vf_size f \<le> max_total_bytes v"
    using le m(4) by (simp add: word_le_nat_alt unat_sub)
  moreover have "hm_len (hm_remove ?k (vfs_files v)) \<le> unat (max_file_count v)"
    using m(3) hm.len_remove [OF m(1), of ?k] by auto
  moreover have "hm_inv (hm_remove ?k (vfs_files v))" using m(1) by (rule hm.inv_remove)
  ultimately show ?thesis
    using inv set_hm_remove [of ?k "vfs_files v"] Some
    by (auto simp: delete_file_def Let_def vfs_inv_def)
qed

lemma vfs_inv_read: "vfs_inv v \<Longrightarrow> vfs_inv (snd (read_file p v))"
  by (auto simp: read_file_def vfs_inv_def split: option.split)

interpretation vfsm: invariant_machine vfs_step vfs_inv
proof
  fix v v' x
  assume "vfs_inv v" "vfs_step x v = Some v'"
  then show "vfs_inv v'"
    by (cases x) (auto intro: vfs_inv_write vfs_inv_delete vfs_inv_read)
qed

text \<open>
  The sum in the reservation cannot overflow while the budget is below half of the address
  space, so no operation panics.
\<close>

definition vfs_small :: "VirtualFileSystem \<Rightarrow> bool" where
  "vfs_small v \<longleftrightarrow> vfs_inv v \<and> unat (max_total_bytes v) < 2 ^ 63"

lemma vfs_step_limits:
  "vfs_step x v = Some v' \<Longrightarrow>
   max_total_bytes v' = max_total_bytes v \<and> max_file_count v' = max_file_count v \<and> mount_point v' = mount_point v"
  by (cases x)
    (auto simp: write_file_def write_reserve_def write_insert_def read_file_def delete_file_def Let_def
      split: if_splits option.splits sum.splits)

interpretation vfst: total_machine vfs_step vfs_small
proof
  fix v v' x
  assume "vfs_small v" "vfs_step x v = Some v'"
  then show "vfs_small v'"
    using vfs_step_limits vfsm.step_inv unfolding vfs_small_def by metis
next
  fix v x
  assume v: "vfs_small v"
  show "vfs_step x v \<noteq> None"
  proof (cases x)
    case (Write now p d)
    have "write_begin k d v = Inr old \<Longrightarrow> write_reserve old (of_nat (length d)) v \<noteq> None" for k old
      using v by (auto simp: write_begin_def write_reserve_def Let_def checked_add_None_iff vfs_small_def
          vfs_inv_def word_le_nat_alt unat_saturating_sub not_less split: if_splits option.splits)
    then show ?thesis using Write
      by (auto simp: write_file_def Let_def split: option.splits sum.splits prod.splits) (metis option.distinct(1))
  qed auto
qed

text \<open>
  From a file system in a well-formed state with a budget below \<open>2^63\<close> bytes, every
  sequence of writes, reads and deletes runs without a panic, and afterwards the byte counter
  is exactly the sum of the file sizes, within the byte budget, and the number of files is
  within the file limit.
\<close>

theorem vfs_accounting:
  assumes "vfs_small v"
  shows "\<exists>v'. run vfs_step xs v = Some v'
     \<and> unat (total_bytes_used v') = stored_bytes (vfs_files v')
     \<and> total_bytes_used v' \<le> max_total_bytes v' \<and> file_count v' \<le> unat (max_file_count v')"
  using vfst.run_total [OF assms, of xs] by (auto simp: vfs_small_def vfs_inv_def file_count_def)

lemma vfs_new_small: "vfs_small VirtualFileSystem_new"
  by (simp add: vfs_small_def vfs_inv_def VirtualFileSystem_new_def stored_bytes_def hm_inv_def hm_len_def)

theorem vfs_accounting_witness:
  "\<exists>v'. run vfs_step [Write 1 ''/a'' [1, 2], Write 2 ''/../a'' [3], Delete ''b'', Read ''a''] VirtualFileSystem_new = Some v'
     \<and> unat (total_bytes_used v') = stored_bytes (vfs_files v')
     \<and> total_bytes_used v' \<le> max_total_bytes v' \<and> file_count v' \<le> unat (max_file_count v')"
  by (rule vfs_accounting [OF vfs_new_small])

text \<open>
  After a successful write, every guest path that resolves to the same components reads
  the written bytes, every other path reads what it read before, and a failed write changes
  nothing.
\<close>

theorem write_then_read:
  assumes "write_file now p d v = Some (r, v')"
  shows "fst (read_file q v') =
     (if is_ok r \<and> resolve [] (split_char (CHR ''/'') q) = resolve [] (split_char (CHR ''/'') p)
      then Inr d else fst (read_file q v))"
proof (cases r)
  case (Inl e)
  with assms write_file_error show ?thesis by fastforce
next
  case (Inr u)
  with assms obtain n where v': "v' = write_insert now (redirect_path v p) d (v\<lparr>total_bytes_used := n\<rparr>)"
    by (auto elim: write_file_ok)
  have "redirect_path v' q = redirect_path v q" by (simp add: v' write_insert_def redirect_path_def)
  with Inr redirect_path_eq_iff [of v q p] show ?thesis
    by (simp add: read_file_def v' write_insert_def hm.get_insert split: option.split)
qed

lemma write_a_ok:
  "write_file 7 ''/tmp/a'' [1, 2] VirtualFileSystem_new
     = Some (Inr (), snd (the (write_file 7 ''/tmp/a'' [1, 2] VirtualFileSystem_new)))"
  by (simp add: write_file_def write_begin_def write_reserve_def VirtualFileSystem_new_def hm_get_def hm_len_def
      rust_arith Let_def)

theorem write_then_read_witness:
  "fst (read_file ''x/..//tmp/./a'' (snd (the (write_file 7 ''/tmp/a'' [1, 2] VirtualFileSystem_new)))) = Inr [1, 2]"
  by (subst write_then_read [OF write_a_ok]) simp

text \<open>
  C24: In every state reached by any run of operations each stored file is well formed: it is
  filed under its own path, and the recorded size is the length of its content.
\<close>

theorem vfs_entries_wellformed:
  assumes "vfs_small v" "run vfs_step xs v = Some v'" "hm_get (vfs_files v') k = Some f"
  shows "vf_path f = k \<and> unat (vf_size f) = length (vf_content f) mod 2 ^ 64 \<and> unat (vf_size f) \<le> unat (total_bytes_used v')"
proof -
  from vfst.run_total [OF assms(1), of xs] assms(2) have inv: "vfs_inv v'" by (auto simp: vfs_small_def)
  from assms(3) have "(k, f) \<in> set (vfs_files v')" by (simp add: hm_get_def map_of_SomeD)
  with inv have "vf_path f = k" "vf_size f = of_nat (length (vf_content f))" by (auto simp: vfs_inv_def)
  with vfs_get_size_le [OF inv assms(3)] show ?thesis by (simp add: unsigned_of_nat take_bit_eq_mod)
qed

theorem vfs_entries_wellformed_witness:
  "\<exists>v' (f :: VirtualFile). run vfs_step [Write 7 ''/tmp/a'' [1, 2]] VirtualFileSystem_new = Some v'
     \<and> vf_content f = [1, 2] \<and> vf_path f = redirect_path VirtualFileSystem_new ''/tmp/a'' \<and> unat (vf_size f) = 2"
proof -
  obtain v' where w: "write_file 7 ''/tmp/a'' [1, 2] VirtualFileSystem_new = Some (Inr (), v')" using write_a_ok by simp
  let ?k = "redirect_path VirtualFileSystem_new ''/tmp/a''"
  have r: "run vfs_step [Write 7 ''/tmp/a'' [1, 2]] VirtualFileSystem_new = Some v'" by (simp add: w)
  from w obtain n where "v' = write_insert 7 ?k [1, 2] (VirtualFileSystem_new\<lparr>total_bytes_used := n\<rparr>)"
    by (auto elim: write_file_ok)
  then obtain f where f: "hm_get (vfs_files v') ?k = Some f" "vf_content f = [1, 2]"
    by (auto simp: write_insert_def hm.get_insert)
  from vfs_entries_wellformed [OF vfs_new_small r f(1)] f(2)
  have "vf_path f = ?k \<and> unat (vf_size f) = 2" by simp
  with r f(2) show ?thesis by blast
qed

lemma clone_eq: "vfs_inv v \<Longrightarrow> VirtualFileSystem_clone v = v"
  by (simp add: VirtualFileSystem_clone_def vfs_inv_def hm_inv_def hm_collect_distinct)

section \<open>Writers that overlap\<close>

text \<open>
  The comment on the reservation says that no concurrent writer can slip past the
  budget. Two writers that replace the same file and both read its size before either
  reserves subtract that size twice: when the first shrinks the file, the counter ends below
  the bytes stored by the amount it shrank, and the budget can be exceeded by as much.
\<close>

theorem racing_writers_undercount:
  assumes inv: "vfs_inv v" and f: "hm_get (vfs_files v) p = Some f"
    and b1: "write_begin p d1 v = Inr old1" and b2: "write_begin p d2 v = Inr old2"
    and r1: "write_reserve old1 (of_nat (length d1)) v = Some (Inr (), v1)"
    and r2: "write_reserve old2 (of_nat (length d2)) v1 = Some (Inr (), v2)"
    and shrinks: "of_nat (length d1) < vf_size f" and others: "vf_size f \<le> total_bytes_used v1"
    and v3: "v3 = write_insert t2 p d2 (write_insert t1 p d1 v2)"
  shows "unat (total_bytes_used v3) + unat (vf_size f - of_nat (length d1)) = stored_bytes (vfs_files v3)"
proof -
  have m: "hm_inv (vfs_files v)" "unat (total_bytes_used v) = stored_bytes (vfs_files v)"
    using inv by (auto simp: vfs_inv_def)
  have old: "old1 = vf_size f" "old2 = vf_size f"
    using b1 b2 f by (auto simp: write_begin_def Let_def split: if_splits)
  have v1: "unat (total_bytes_used v1) = unat (total_bytes_used v) - unat (vf_size f) + unat (of_nat (length d1) :: usize)"
    and files1: "vfs_files v1 = vfs_files v"
    using r1 old by (auto simp: write_reserve_def checked_add_Some_iff unat_saturating_sub split: option.splits if_splits)
  have v2: "unat (total_bytes_used v2) = unat (total_bytes_used v1) - unat (vf_size f) + unat (of_nat (length d2) :: usize)"
    and files2: "vfs_files v2 = vfs_files v"
    using r2 old files1 by (auto simp: write_reserve_def checked_add_Some_iff unat_saturating_sub split: option.splits if_splits)
  obtain g1 g2 where g: "vfs_files v3 = hm_insert p g2 (hm_insert p g1 (vfs_files v))"
    "vf_size g2 = of_nat (length d2)" "total_bytes_used v3 = total_bytes_used v2"
    by (simp add: v3 write_insert_def files2)
  have "hm_remove p (hm_insert p g1 (vfs_files v)) = hm_remove p (vfs_files v)"
    by (rule hm_remove_insert)
  then have "stored_bytes (vfs_files v3) = stored_bytes (hm_remove p (vfs_files v)) + unat (of_nat (length d2) :: usize)"
    using stored_bytes_insert [OF hm.inv_insert [OF m(1)], of p g2 p g1] g by simp
  moreover have "stored_bytes (hm_remove p (vfs_files v)) + unat (vf_size f) = unat (total_bytes_used v)"
    using stored_bytes_get [OF m(1), of p] f m(2) by simp
  ultimately show ?thesis
    using v1 v2 g(3) shrinks others by (simp add: word_le_nat_alt word_less_nat_alt unat_sub less_imp_le)
qed

definition full_vfs :: VirtualFileSystem where
  "full_vfs =
     \<lparr>mount_point = ''/m'', max_total_bytes = 10, max_file_count = 5,
      vfs_files = [(''/m/a'', \<lparr>vf_path = ''/m/a'', vf_content = [9, 9, 9, 9, 9], created_at = 0, modified_at = 0, vf_size = 5\<rparr>),
                   (''/m/b'', \<lparr>vf_path = ''/m/b'', vf_content = [7, 7, 7, 7], created_at = 1, modified_at = 1, vf_size = 4\<rparr>)],
      total_bytes_used = 9, write_count = 2, read_count = 0\<rparr>"

lemma full_vfs_inv: "vfs_inv full_vfs"
  by (simp add: full_vfs_def vfs_inv_def hm_inv_def hm_len_def stored_bytes_def)

lemmas vfs_eval = write_begin_def write_reserve_def write_insert_def write_file_def full_vfs_def
  hm_get_def hm_len_def hm_insert_def rust_arith Let_def redirect_path_def normalize_path_segments_def
  path_stack_def trim_slashes_def push_segment_def

theorem racing_writers_undercount_witness:
  "\<exists>v1 v2 v3 v4. write_reserve 5 1 full_vfs = Some (Inr (), v1) \<and> write_reserve 5 1 v1 = Some (Inr (), v2)
     \<and> v3 = write_insert 3 ''/m/a'' [2] (write_insert 2 ''/m/a'' [1] v2)
     \<and> unat (total_bytes_used v3) + 4 = stored_bytes (vfs_files v3)
     \<and> write_file 4 ''c'' [0, 0, 0, 0, 0, 0, 0, 0, 0] v3 = Some (Inr (), v4)
     \<and> unat (max_total_bytes v4) < stored_bytes (vfs_files v4)"
proof -
  let ?v1 = "full_vfs\<lparr>total_bytes_used := 5\<rparr>" and ?v2 = "full_vfs\<lparr>total_bytes_used := 1\<rparr>"
  let ?v3 = "write_insert 3 ''/m/a'' [2] (write_insert 2 ''/m/a'' [1] ?v2)"
  have r: "write_reserve 5 1 full_vfs = Some (Inr (), ?v1)" "write_reserve 5 1 ?v1 = Some (Inr (), ?v2)"
    by (simp_all add: vfs_eval)
  have "unat (total_bytes_used ?v3) + 4 = stored_bytes (vfs_files ?v3)"
    using racing_writers_undercount [OF full_vfs_inv, of "''/m/a''" _ "[1]" 5 "[2]" 5 ?v1 ?v2 ?v3 3 2] r
    by (simp add: vfs_eval)
  moreover obtain v4 where "write_file 4 ''c'' [0, 0, 0, 0, 0, 0, 0, 0, 0] ?v3 = Some (Inr (), v4)"
    "unat (max_total_bytes v4) < stored_bytes (vfs_files v4)"
    by (simp add: vfs_eval stored_bytes_def)
  ultimately show ?thesis using r by blast
qed

section \<open>Honey-tokens\<close>

record HoneypotTokens =
  aws_access_key_id :: string
  aws_secret_access_key :: string
  db_password :: string
  db_connection_string :: string
  api_token :: string

text \<open>\<open>format!("{:016x}", id)\<close> and the tokens for a canary drawn by \<open>fastrand\<close>.\<close>

definition hex_digit :: "nat \<Rightarrow> char" where
  "hex_digit n = (if n < 10 then char_of (48 + n) else char_of (87 + n))"

definition canary_id :: "u64 \<Rightarrow> string" where
  "canary_id r = map (\<lambda>i. hex_digit (unat r div 16 ^ i mod 16)) (rev [0..<16])"

definition HoneypotTokens_generate :: "u64 \<Rightarrow> HoneypotTokens" where
  "HoneypotTokens_generate r =
     \<lparr>aws_access_key_id = ''AKIA3HONEYPOT'' @ canary_id r @ ''FAKE'',
      aws_secret_access_key = ''HoneypotSecret'' @ canary_id r @ ''FakeKey/Not/Real/At/All'',
      db_password = ''hp_db_pass_'' @ canary_id r @ ''_canary'',
      db_connection_string = ''postgresql://honeypot:'' @ canary_id r @ ''@db.internal.fake:5432/trap_db'',
      api_token = ''hp_tok_'' @ canary_id r @ ''_aegis_canary''\<rparr>"

definition detect_token_leak :: "HoneypotTokens \<Rightarrow> string \<Rightarrow> string option" where
  "detect_token_leak t d =
     (if contains d (aws_access_key_id t) then Some ''AWS_ACCESS_KEY_ID''
      else if contains d (aws_secret_access_key t) then Some ''AWS_SECRET_ACCESS_KEY''
      else if contains d (db_password t) then Some ''DB_PASSWORD''
      else if contains d (db_connection_string t) then Some ''DB_CONNECTION_STRING''
      else if contains d (api_token t) then Some ''API_TOKEN''
      else None)"

record WasiVirtContext =
  ctx_tokens :: HoneypotTokens
  ctx_vfs :: VirtualFileSystem
  ctx_environment :: "(string, string) hmap"
  ctx_leak_detected :: bool
  ctx_leaked_token :: "string option"

definition WasiVirtContext_new :: "u64 \<Rightarrow> WasiVirtContext" where
  "WasiVirtContext_new r =
     (let t = HoneypotTokens_generate r
      in \<lparr>ctx_tokens = t, ctx_vfs = VirtualFileSystem_new,
          ctx_environment =
            hm_insert ''API_TOKEN'' (api_token t)
             (hm_insert ''DATABASE_URL'' (db_connection_string t)
               (hm_insert ''DB_PASSWORD'' (db_password t)
                 (hm_insert ''AWS_SECRET_ACCESS_KEY'' (aws_secret_access_key t)
                   (hm_insert ''AWS_ACCESS_KEY_ID'' (aws_access_key_id t) [])))),
          ctx_leak_detected = False, ctx_leaked_token = None\<rparr>)"

definition scan_for_leaks :: "string \<Rightarrow> WasiVirtContext \<Rightarrow> string option \<times> WasiVirtContext" where
  "scan_for_leaks d c =
     (case detect_token_leak (ctx_tokens c) d of
        Some t \<Rightarrow> (Some t, c\<lparr>ctx_leak_detected := True, ctx_leaked_token := Some t\<rparr>)
      | None \<Rightarrow> (None, c))"

lemma contains_iff: "contains s p \<longleftrightarrow> sublist p s"
  by (induction s) (auto simp: sublist_Cons_right)

lemma detect_token_leak_iff:
  "detect_token_leak t d \<noteq> None \<longleftrightarrow>
   (\<exists>x \<in> {aws_access_key_id t, aws_secret_access_key t, db_password t, db_connection_string t, api_token t}. sublist x d)"
  by (auto simp: detect_token_leak_def contains_iff)

lemma hm_values: "hm_inv m \<Longrightarrow> (\<exists>k. hm_get m k = Some x) \<longleftrightarrow> x \<in> snd ` set m"
  by (force simp: hm_inv_def hm_get_def map_of_eq_Some_iff image_iff)

lemma new_environment_values:
  "(\<exists>k. hm_get (ctx_environment (WasiVirtContext_new r)) k = Some x) \<longleftrightarrow>
   (let t = HoneypotTokens_generate r
    in x \<in> {aws_access_key_id t, aws_secret_access_key t, db_password t, db_connection_string t, api_token t})"
proof -
  define t where "t = HoneypotTokens_generate r"
  have env: "ctx_environment (WasiVirtContext_new r) =
     [(''AWS_ACCESS_KEY_ID'', aws_access_key_id t), (''AWS_SECRET_ACCESS_KEY'', aws_secret_access_key t),
      (''DB_PASSWORD'', db_password t), (''DATABASE_URL'', db_connection_string t), (''API_TOKEN'', api_token t)]"
    by (simp add: WasiVirtContext_new_def Let_def hm_insert_def t_def)
  have "hm_inv (ctx_environment (WasiVirtContext_new r))" by (simp add: env hm_inv_def)
  from hm_values [OF this] show ?thesis unfolding Let_def t_def [symmetric] by (simp add: env)
qed

lemma scan_tokens: "ctx_tokens (snd (scan_for_leaks d c)) = ctx_tokens c"
  by (auto simp: scan_for_leaks_def split: option.split)

lemma scan_all_flag:
  "ctx_leak_detected (foldl (\<lambda>c d. snd (scan_for_leaks d c)) c ds) \<longleftrightarrow>
   ctx_leak_detected c \<or> (\<exists>d \<in> set ds. detect_token_leak (ctx_tokens c) d \<noteq> None)"
proof (induction ds arbitrary: c)
  case (Cons d ds)
  show ?case
    by (simp add: Cons.IH scan_tokens) (auto simp: scan_for_leaks_def split: option.split)
qed simp

text \<open>
  Whatever outputs of a guest are scanned, the leak flag of its context ends up set
  exactly if one of them contains the value of some variable of the guest's environment.
\<close>

theorem exfiltration_flagged:
  "ctx_leak_detected (foldl (\<lambda>c d. snd (scan_for_leaks d c)) (WasiVirtContext_new r) ds) \<longleftrightarrow>
   (\<exists>d k x. d \<in> set ds \<and> hm_get (ctx_environment (WasiVirtContext_new r)) k = Some x \<and> sublist x d)"
proof -
  have "ctx_tokens (WasiVirtContext_new r) = HoneypotTokens_generate r"
    "\<not> ctx_leak_detected (WasiVirtContext_new r)"
    by (simp_all add: WasiVirtContext_new_def Let_def)
  with new_environment_values [of r] show ?thesis
    unfolding scan_all_flag detect_token_leak_iff Let_def by metis
qed

end
