(* ===== verification/SandboxEngine.thy ===== *)
theory SandboxEngine
  imports HashMaps
begin

text \<open>
  The engine side of \<open>crates/sandbox-guard/src/wasi_virt.rs\<close>: the limits of the pooling
  allocator, the process-wide engine and the cache of compiled modules.

  Wasmtime and the cache library are not part of the repository. \<open>Engine::new\<close> and
  \<open>Module::new\<close> are the arguments \<open>engine_new\<close> and \<open>module_new\<close> of the operations that call them;
  the module cache is reached through its lookup and insertion, also arguments, because it may
  evict at any time. Only the settings of \<open>PoolingAllocationConfig\<close> that depend on the
  configuration are kept; the constant settings of \<open>Config\<close> are fields with fixed values.
\<close>

definition WASM_PAGE_SIZE_BYTES :: u64 where "WASM_PAGE_SIZE_BYTES = 64 * 1024"
definition MAX_INSTANCES_HARD_CAP :: u32 where "MAX_INSTANCES_HARD_CAP = 1024"
definition MAX_MEMORY_PAGES_HARD_CAP :: u32 where "MAX_MEMORY_PAGES_HARD_CAP = 160"
definition MEMORY_RESERVATION_CAPACITY :: u64 where
  "MEMORY_RESERVATION_CAPACITY = ucast MAX_INSTANCES_HARD_CAP * ucast MAX_MEMORY_PAGES_HARD_CAP * WASM_PAGE_SIZE_BYTES"

record WasiVirtEngineConfig =
  max_memory_pages :: u32
  total_component_instances :: u32
  max_core_instances_per_component :: u32
  total_memories :: u32
  max_memories_per_component :: u32
  async_support :: bool
  epoch_interruption :: bool
  consume_fuel :: bool

definition WasiVirtEngineConfig_default :: WasiVirtEngineConfig where
  "WasiVirtEngineConfig_default =
     \<lparr>max_memory_pages = MAX_MEMORY_PAGES_HARD_CAP, total_component_instances = MAX_INSTANCES_HARD_CAP,
      max_core_instances_per_component = MAX_INSTANCES_HARD_CAP, total_memories = MAX_INSTANCES_HARD_CAP,
      max_memories_per_component = 1, async_support = True, epoch_interruption = True, consume_fuel = True\<rparr>"

definition max_memory_bytes :: "WasiVirtEngineConfig \<Rightarrow> usize" where
  "max_memory_bytes cfg = ucast (max_memory_pages cfg) * WASM_PAGE_SIZE_BYTES"

record pool_config =
  wasm_component_model :: bool
  cfg_async_support :: bool
  cfg_consume_fuel :: bool
  wasm_backtrace :: bool
  wasm_memory64 :: bool
  cfg_epoch_interruption :: bool
  static_memory_guard_size :: u64
  dynamic_memory_reserved_for_growth :: u64
  dynamic_memory_guard_size :: u64
  pool_component_instances :: u32
  pool_core_instances :: u32
  pool_memories :: u32
  pool_memories_per_component :: u32
  pool_max_memory_size :: usize

definition create_pooling_engine_config :: "WasiVirtEngineConfig \<Rightarrow> pool_config" where
  "create_pooling_engine_config cfg =
     (let clamped_pages = min (max_memory_pages cfg) MAX_MEMORY_PAGES_HARD_CAP;
          clamped_instances = min (total_component_instances cfg) MAX_INSTANCES_HARD_CAP
      in \<lparr>wasm_component_model = True, cfg_async_support = async_support cfg, cfg_consume_fuel = consume_fuel cfg,
          wasm_backtrace = True, wasm_memory64 = False, cfg_epoch_interruption = epoch_interruption cfg,
          static_memory_guard_size = 4 * 1024 * 1024, dynamic_memory_reserved_for_growth = 4 * 1024 * 1024,
          dynamic_memory_guard_size = 4 * 1024 * 1024,
          pool_component_instances = clamped_instances,
          pool_core_instances = min (max_core_instances_per_component cfg) MAX_INSTANCES_HARD_CAP,
          pool_memories = min (total_memories cfg) MAX_INSTANCES_HARD_CAP,
          pool_memories_per_component = max (max_memories_per_component cfg) 1,
          pool_max_memory_size = ucast clamped_pages * WASM_PAGE_SIZE_BYTES\<rparr>)"

section \<open>The process-wide engine\<close>

text \<open>\<open>GLOBAL_ENGINE\<close> is a cell that is written once.\<close>

definition global_engine ::
  "(pool_config \<Rightarrow> 'x + 'e) \<Rightarrow> 'e option \<Rightarrow> ('e \<times> 'e option) may_panic" where
  "global_engine engine_new cell =
     (case cell of
        Some e \<Rightarrow> Some (e, cell)
      | None \<Rightarrow>
          (case engine_new (create_pooling_engine_config WasiVirtEngineConfig_default) of
             Inr e \<Rightarrow> Some (e, Some e)
           | Inl _ \<Rightarrow> None))"

definition init_global_engine ::
  "(pool_config \<Rightarrow> 'x + 'e) \<Rightarrow> WasiVirtEngineConfig \<Rightarrow> 'e option \<Rightarrow> ('x + 'e) \<times> 'e option" where
  "init_global_engine engine_new cfg cell =
     (case cell of
        Some e \<Rightarrow> (Inr e, cell)
      | None \<Rightarrow>
          (case engine_new (create_pooling_engine_config cfg) of
             Inl x \<Rightarrow> (Inl x, None)
           | Inr e \<Rightarrow> (Inr e, Some e)))"

section \<open>The module cache\<close>

definition get_or_compile_module ::
  "('c \<Rightarrow> string \<Rightarrow> 'm option) \<Rightarrow> (string \<Rightarrow> 'm \<Rightarrow> 'c \<Rightarrow> 'c) \<Rightarrow> (u8 list \<Rightarrow> 'x + 'm)
   \<Rightarrow> string \<Rightarrow> u8 list \<Rightarrow> 'c \<Rightarrow> ('x + 'm) \<times> 'c" where
  "get_or_compile_module get put module_new cache_key wasm_bytes c =
     (case get c cache_key of
        Some cached \<Rightarrow> (Inr cached, c)
      | None \<Rightarrow>
          (case module_new wasm_bytes of
             Inl x \<Rightarrow> (Inl x, c)
           | Inr m \<Rightarrow> (Inr m, put cache_key m c)))"

section \<open>Limits\<close>

lemma unat_min_u32: "unat (min a b) = min (unat a) (unat b)" for a b :: u32
  by (simp add: min_def word_le_nat_alt)

lemma unat_page_product:
  fixes p :: u32
  assumes "unat p \<le> 160"
  shows "unat (ucast p * WASM_PAGE_SIZE_BYTES :: u64) = unat p * 65536"
proof -
  have "unat WASM_PAGE_SIZE_BYTES = 65536" by (simp add: WASM_PAGE_SIZE_BYTES_def)
  with assms show ?thesis by (simp add: unat_word_ariths)
qed

text \<open>
  Whatever the configuration asks for, the pooling allocator is set up with at most 1024
  instances and memories of at most 10 MiB each, and the memories together stay within
  \<open>MEMORY_RESERVATION_CAPACITY\<close>; a component always gets at least one memory.
\<close>

theorem pool_within_caps:
  "let pc = create_pooling_engine_config cfg
   in pool_component_instances pc \<le> 1024 \<and> pool_core_instances pc \<le> 1024
    \<and> pool_max_memory_size pc \<le> 10 * 1024 * 1024
    \<and> unat (pool_memories pc) * unat (pool_max_memory_size pc) \<le> unat MEMORY_RESERVATION_CAPACITY
    \<and> 1 \<le> pool_memories_per_component pc"
proof -
  let ?p = "min (max_memory_pages cfg) MAX_MEMORY_PAGES_HARD_CAP"
  have p: "unat ?p \<le> 160" by (simp add: unat_min_u32 MAX_MEMORY_PAGES_HARD_CAP_def)
  have s: "unat (pool_max_memory_size (create_pooling_engine_config cfg)) = unat ?p * 65536"
    using unat_page_product [OF p] by (simp add: create_pooling_engine_config_def Let_def)
  have m: "unat (pool_memories (create_pooling_engine_config cfg)) \<le> 1024"
    by (simp add: create_pooling_engine_config_def Let_def unat_min_u32 MAX_INSTANCES_HARD_CAP_def)
  have "unat (pool_memories (create_pooling_engine_config cfg))
      * unat (pool_max_memory_size (create_pooling_engine_config cfg)) \<le> 1024 * (160 * 65536)"
    unfolding s using m p by (intro mult_le_mono) auto
  also have "\<dots> = unat MEMORY_RESERVATION_CAPACITY"
    by (simp add: MEMORY_RESERVATION_CAPACITY_def MAX_INSTANCES_HARD_CAP_def MAX_MEMORY_PAGES_HARD_CAP_def
        WASM_PAGE_SIZE_BYTES_def)
  finally have "unat (pool_memories (create_pooling_engine_config cfg))
      * unat (pool_max_memory_size (create_pooling_engine_config cfg)) \<le> unat MEMORY_RESERVATION_CAPACITY" .
  moreover have "pool_max_memory_size (create_pooling_engine_config cfg) \<le> 10 * 1024 * 1024"
    using s p by (simp add: word_le_nat_alt)
  ultimately show ?thesis
    by (simp add: Let_def) (simp add: create_pooling_engine_config_def Let_def MAX_INSTANCES_HARD_CAP_def)
qed

text \<open>
  The accessor \<open>max_memory_bytes\<close> is the limit in force only when the configuration respects
  the cap; the pool is clamped and the accessor is not.
\<close>

lemma max_memory_bytes_of_pool:
  "max_memory_pages cfg \<le> MAX_MEMORY_PAGES_HARD_CAP \<Longrightarrow>
   max_memory_bytes cfg = pool_max_memory_size (create_pooling_engine_config cfg)"
  by (simp add: max_memory_bytes_def create_pooling_engine_config_def Let_def min_def)

text \<open>Once the engine exists it is the one every later call gets, whatever configuration it names.\<close>

lemma engine_set_once:
  "snd (init_global_engine new cfg cell) = Some e \<Longrightarrow>
   init_global_engine new cfg' (Some e) = (Inr e, Some e) \<and> global_engine new (Some e) = Some (e, Some e)"
  by (simp add: init_global_engine_def global_engine_def)

text \<open>
  The module cache is consulted under the caller's key alone. While the cache holds the module
  of one binary, a request for the same key with different bytes gets the old module: under a
  tenant key, a tenant's new binary does not replace the old one.
\<close>

lemma stale_module_served:
  "get c key = None \<Longrightarrow> module_new bytes1 = Inr m1 \<Longrightarrow> get (put key m1 c) key = Some m1 \<Longrightarrow>
   fst (get_or_compile_module get put module_new key bytes2
     (snd (get_or_compile_module get put module_new key bytes1 c))) = Inr m1"
  by (simp add: get_or_compile_module_def)

end
