(* ===== verification/Validator.thy ===== *)
theory Validator
  imports FuelMonitor Json
begin

text \<open>
  The payload validator of \<open>crates/core/src/engine/fuel_monitor.rs\<close>: the syntax tree of a
  JSON payload, its measures and leaf checks, and the proofs \<open>prove_safety\<close> and
  \<open>prove_json_safety\<close> with the schema of execution payloads.

  \<open>serde_json::from_str\<close> is the argument \<open>from_str\<close>. A formatted reason is the constructor of
  \<open>reason\<close> that carries the values interpolated into it. Sizes are natural numbers: the
  measures count parts of a tree that is held in memory.
\<close>

definition MAX_JSON_DEPTH :: nat where "MAX_JSON_DEPTH = 32"
definition MAX_STRING_LENGTH :: nat where "MAX_STRING_LENGTH = 64 * 1024"
definition MAX_OBJECT_KEYS :: nat where "MAX_OBJECT_KEYS = 256"
definition MAX_AST_NODES :: nat where "MAX_AST_NODES = 10000"
definition MAX_NUMERIC_VALUE :: nat where "MAX_NUMERIC_VALUE = 2 ^ 32 - 1"
definition MAX_AST_STRING_LENGTH :: nat where "MAX_AST_STRING_LENGTH = 64 * 1024"

datatype reason =
    NonFiniteFloat f64
  | DuplicateKey string
  | NotAnObject
  | TooManyKeys nat nat
  | SuspiciousKey string
  | MissingField string "string list"
  | MustBeString string
  | MustBeInteger string
  | MustBeNumber string
  | MustHaveLength string nat nat
  | MustBeUppercase string
  | LengthNotInRange string nat nat nat
  | MustStartWith string string
  | IntNotInRange string int int int
  | FloatNotInRange string f64 f64 f64
  | BelowThreshold string f64 f64

datatype PayloadViolation =
    MemoryBounds nat nat nat
  | InstructionBounds nat nat
  | StructuralIntegrity reason
  | DepthExplosion nat nat
  | NumericOverflow nat nat
  | ProofFailure reason
  | AstNodeCountExceeded nat nat
  | InvalidUtf8
  | JsonParseError string
  | SchemaConstraintViolated reason

datatype AstNode =
    AstNull
  | AstBool bool
  | AstInteger int
  | AstFloat f64
  | AstString string
  | AstArray "AstNode list"
  | AstObject "(string \<times> AstNode) list"

fun node_count :: "AstNode \<Rightarrow> nat" where
  "node_count (AstArray xs) = 1 + sum_list (map node_count xs)"
| "node_count (AstObject es) = 1 + sum_list (map (\<lambda>e. node_count (snd e)) es)"
| "node_count _ = 1"

fun ast_depth :: "AstNode \<Rightarrow> nat" where
  "ast_depth (AstArray xs) = 1 + foldr max (map ast_depth xs) 0"
| "ast_depth (AstObject es) = 1 + foldr max (map (\<lambda>e. ast_depth (snd e)) es) 0"
| "ast_depth _ = 1"

fun memory_footprint :: "AstNode \<Rightarrow> nat" where
  "memory_footprint (AstString s) = 8 + length s"
| "memory_footprint (AstArray xs) = 8 + sum_list (map memory_footprint xs)"
| "memory_footprint (AstObject es) = 8 + sum_list (map (\<lambda>e. length (fst e) + memory_footprint (snd e)) es)"
| "memory_footprint _ = 8"

fun validate_leaf_bounds :: "AstNode \<Rightarrow> PayloadViolation + unit"
  and validate_items :: "AstNode list \<Rightarrow> PayloadViolation + unit"
  and validate_entries :: "string list \<Rightarrow> (string \<times> AstNode) list \<Rightarrow> PayloadViolation + unit" where
  "validate_leaf_bounds AstNull = Inr ()"
| "validate_leaf_bounds (AstBool _) = Inr ()"
| "validate_leaf_bounds (AstInteger v) =
     (let abs_v = nat \<bar>v\<bar>
      in if MAX_NUMERIC_VALUE < abs_v then Inl (NumericOverflow abs_v MAX_NUMERIC_VALUE) else Inr ())"
| "validate_leaf_bounds (AstFloat v) =
     (if is_finite v \<and> flt (f64_of_nat MAX_NUMERIC_VALUE) (fabs v)
      then Inl (NumericOverflow (unat (as_word (fabs v) :: u64)) MAX_NUMERIC_VALUE)
      else if \<not> is_finite v then Inl (ProofFailure (NonFiniteFloat v)) else Inr ())"
| "validate_leaf_bounds (AstString s) =
     (if MAX_AST_STRING_LENGTH < length s then Inl (MemoryBounds 0 (length s) MAX_AST_STRING_LENGTH) else Inr ())"
| "validate_leaf_bounds (AstArray items) = validate_items items"
| "validate_leaf_bounds (AstObject entries) = validate_entries [] entries"
| "validate_items [] = Inr ()"
| "validate_items (x # xs) = (case validate_leaf_bounds x of Inl e \<Rightarrow> Inl e | Inr _ \<Rightarrow> validate_items xs)"
| "validate_entries seen [] = Inr ()"
| "validate_entries seen ((k, v) # es) =
     (if MAX_AST_STRING_LENGTH < length k then Inl (MemoryBounds 0 (length k) MAX_AST_STRING_LENGTH)
      else if k \<in> set seen then Inl (StructuralIntegrity (DuplicateKey k))
      else (case validate_leaf_bounds v of Inl e \<Rightarrow> Inl e | Inr _ \<Rightarrow> validate_entries (k # seen) es))"

section \<open>From JSON to the tree\<close>

fun as_i64 :: "jnum \<Rightarrow> int option" where
  "as_i64 (PosInt n) = (if unat n < 2 ^ 63 then Some (uint n) else None)"
| "as_i64 (NegInt i) = Some i"
| "as_i64 (JFloat _) = None"

fun json_value_to_ast :: "json \<Rightarrow> PayloadViolation + AstNode"
  and collect_items :: "json list \<Rightarrow> PayloadViolation + AstNode list"
  and collect_entries :: "(string \<times> json) list \<Rightarrow> PayloadViolation + (string \<times> AstNode) list" where
  "json_value_to_ast JNull = Inr AstNull"
| "json_value_to_ast (JBool b) = Inr (AstBool b)"
| "json_value_to_ast (JNumber n) =
     (case as_i64 n of Some i \<Rightarrow> Inr (AstInteger i) | None \<Rightarrow> Inr (AstFloat (jnum_as_f64 n)))"
| "json_value_to_ast (JString s) = Inr (AstString s)"
| "json_value_to_ast (JArray arr) = map_sum id AstArray (collect_items arr)"
| "json_value_to_ast (JObject obj) = map_sum id AstObject (collect_entries obj)"
| "collect_items [] = Inr []"
| "collect_items (v # vs) =
     (case json_value_to_ast v of Inl e \<Rightarrow> Inl e | Inr a \<Rightarrow> map_sum id ((#) a) (collect_items vs))"
| "collect_entries [] = Inr []"
| "collect_entries ((k, v) # es) =
     (case json_value_to_ast v of Inl e \<Rightarrow> Inl e | Inr a \<Rightarrow> map_sum id ((#) (k, a)) (collect_entries es))"

definition parse_to_ast :: "(string \<Rightarrow> string + json) \<Rightarrow> string \<Rightarrow> PayloadViolation + AstNode" where
  "parse_to_ast from_str s =
     (case from_str s of Inl e \<Rightarrow> Inl (JsonParseError e) | Inr v \<Rightarrow> json_value_to_ast v)"

section \<open>The schema\<close>

datatype FieldType =
    StringExactLen nat
  | StringRange nat nat
  | StringPrefix string
  | IntegerRange int int
  | FloatRange f64 f64
  | FloatMinThreshold f64

record FieldConstraint =
  fc_name :: string
  fc_aliases :: "string list"
  fc_type :: FieldType
  fc_required :: bool

definition execution_payload_schema :: "FieldConstraint list" where
  "execution_payload_schema =
     [\<lparr>fc_name = ''networkId'', fc_aliases = [''network_id''], fc_type = StringRange 1 64, fc_required = True\<rparr>,
      \<lparr>fc_name = ''taskType'', fc_aliases = [''task_type''], fc_type = StringRange 1 50, fc_required = True\<rparr>,
      \<lparr>fc_name = ''maxGasLimit'', fc_aliases = [''max_gas_limit''], fc_type = IntegerRange 0 (2 ^ 63 - 1), fc_required = False\<rparr>,
      \<lparr>fc_name = ''confidenceScore'', fc_aliases = [''confidence_score''], fc_type = FloatRange (Fin 0) (Fin 1), fc_required = True\<rparr>,
      \<lparr>fc_name = ''sourceUrl'', fc_aliases = [''source_url''], fc_type = StringPrefix ''http'', fc_required = False\<rparr>]"

definition is_ascii_uppercase :: "char \<Rightarrow> bool" where
  "is_ascii_uppercase c \<longleftrightarrow> 65 \<le> (of_char c :: nat) \<and> (of_char c :: nat) \<le> 90"

text \<open>The saturating cast \<open>as i64\<close>.\<close>

fun f64_as_i64 :: "f64 \<Rightarrow> int" where
  "f64_as_i64 NaN = 0"
| "f64_as_i64 PInf = 2 ^ 63 - 1"
| "f64_as_i64 NInf = - (2 ^ 63)"
| "f64_as_i64 (Fin a) =
     (let t = (if 0 \<le> a then \<lfloor>a\<rfloor> else \<lceil>a\<rceil>) in max (- (2 ^ 63)) (min (2 ^ 63 - 1) t))"

definition f64_of_int :: "int \<Rightarrow> f64" where
  "f64_of_int i = to_f64 (of_int i)"

definition f64_EPSILON :: f64 where
  "f64_EPSILON = Fin (1 / 2 ^ 52)"

fun ast_number :: "AstNode \<Rightarrow> f64 option" where
  "ast_number (AstInteger v) = Some (f64_of_int v)"
| "ast_number (AstFloat v) = Some v"
| "ast_number _ = None"

fun prove_field_constraint :: "string \<Rightarrow> AstNode \<Rightarrow> FieldType \<Rightarrow> PayloadViolation + unit" where
  "prove_field_constraint name value (StringExactLen n) =
     (case value of
        AstString s \<Rightarrow>
          if length s \<noteq> n then Inl (SchemaConstraintViolated (MustHaveLength name n (length s)))
          else if \<not> list_all is_ascii_uppercase s then Inl (SchemaConstraintViolated (MustBeUppercase name))
          else Inr ()
      | _ \<Rightarrow> Inl (SchemaConstraintViolated (MustBeString name)))"
| "prove_field_constraint name value (StringRange mn mx) =
     (case value of
        AstString s \<Rightarrow>
          if length s < mn \<or> mx < length s
          then Inl (SchemaConstraintViolated (LengthNotInRange name mn mx (length s))) else Inr ()
      | _ \<Rightarrow> Inl (SchemaConstraintViolated (MustBeString name)))"
| "prove_field_constraint name value (StringPrefix p) =
     (case value of
        AstString s \<Rightarrow>
          if \<not> starts_with s p then Inl (SchemaConstraintViolated (MustStartWith name p)) else Inr ()
      | _ \<Rightarrow> Inl (SchemaConstraintViolated (MustBeString name)))"
| "prove_field_constraint name value (IntegerRange mn mx) =
     (case value of
        AstInteger v \<Rightarrow>
          if v < mn \<or> mx < v then Inl (SchemaConstraintViolated (IntNotInRange name mn mx v)) else Inr ()
      | AstFloat f \<Rightarrow>
          (let as_int = f64_as_i64 f
           in if flt f64_EPSILON (fabs (fsub f (f64_of_int as_int)))
              then Inl (SchemaConstraintViolated (MustBeInteger name))
              else if as_int < mn \<or> mx < as_int
              then Inl (SchemaConstraintViolated (IntNotInRange name mn mx as_int)) else Inr ())
      | _ \<Rightarrow> Inl (SchemaConstraintViolated (MustBeInteger name)))"
| "prove_field_constraint name value (FloatRange mn mx) =
     (case ast_number value of
        None \<Rightarrow> Inl (SchemaConstraintViolated (MustBeNumber name))
      | Some f \<Rightarrow>
          if flt f mn \<or> flt mx f then Inl (SchemaConstraintViolated (FloatNotInRange name mn mx f)) else Inr ())"
| "prove_field_constraint name value (FloatMinThreshold t) =
     (case ast_number value of
        None \<Rightarrow> Inl (SchemaConstraintViolated (MustBeNumber name))
      | Some f \<Rightarrow> if flt f t then Inl (SchemaConstraintViolated (BelowThreshold name f t)) else Inr ())"

definition suspicious_key :: "string \<Rightarrow> bool" where
  "suspicious_key k \<longleftrightarrow> contains k ''__'' \<or> starts_with k ''_'' \<or> starts_with k ''$''"

definition find_field :: "FieldConstraint \<Rightarrow> (string \<times> AstNode) list \<Rightarrow> AstNode option" where
  "find_field c obj = map_option snd (find (\<lambda>(k, _). k = fc_name c \<or> k \<in> set (fc_aliases c)) obj)"

fun prove_constraints :: "(string \<times> AstNode) list \<Rightarrow> FieldConstraint list \<Rightarrow> PayloadViolation + unit" where
  "prove_constraints obj [] = Inr ()"
| "prove_constraints obj (c # cs) =
     (case find_field c obj of
        Some v \<Rightarrow>
          (case prove_field_constraint (fc_name c) v (fc_type c) of
             Inl e \<Rightarrow> Inl e | Inr _ \<Rightarrow> prove_constraints obj cs)
      | None \<Rightarrow>
          if fc_required c
          then Inl (SchemaConstraintViolated (MissingField (fc_name c) (fc_aliases c)))
          else prove_constraints obj cs)"

fun prove_schema_constraints :: "AstNode \<Rightarrow> FieldConstraint list \<Rightarrow> PayloadViolation + unit" where
  "prove_schema_constraints (AstObject obj) schema =
     (if MAX_OBJECT_KEYS < length obj then Inl (StructuralIntegrity (TooManyKeys (length obj) MAX_OBJECT_KEYS))
      else (case find suspicious_key (map fst obj) of
              Some k \<Rightarrow> Inl (SchemaConstraintViolated (SuspiciousKey k))
            | None \<Rightarrow> prove_constraints obj schema))"
| "prove_schema_constraints _ schema = Inl (StructuralIntegrity NotAnObject)"

section \<open>The validator\<close>

record Z3FormalValidator =
  v_enabled :: bool
  validation_count :: u64
  rejection_count :: u64
  max_memory_region :: u64
  max_fuel_budget :: u64

definition Z3FormalValidator_new :: "bool \<Rightarrow> Z3FormalValidator" where
  "Z3FormalValidator_new enabled =
     \<lparr>v_enabled = enabled, validation_count = 0, rejection_count = 0,
      max_memory_region = 256 * 1024 * 1024, max_fuel_budget = SIS_FUEL_QUOTA\<rparr>"

definition Z3FormalValidator_default :: Z3FormalValidator where
  "Z3FormalValidator_default = Z3FormalValidator_new False"

definition with_bounds :: "u64 \<Rightarrow> u64 \<Rightarrow> Z3FormalValidator \<Rightarrow> Z3FormalValidator" where
  "with_bounds m f v = v\<lparr>max_memory_region := m, max_fuel_budget := f\<rparr>"

definition reject :: "PayloadViolation \<Rightarrow> Z3FormalValidator \<Rightarrow> (PayloadViolation + unit) \<times> Z3FormalValidator" where
  "reject e v = (Inl e, v\<lparr>rejection_count := rejection_count v + 1\<rparr>)"

definition prove_safety ::
  "(string \<Rightarrow> string + json) \<Rightarrow> u8 list \<Rightarrow> Z3FormalValidator \<Rightarrow> (PayloadViolation + unit) \<times> Z3FormalValidator" where
  "prove_safety from_str bs v0 =
     (if \<not> v_enabled v0 then (Inr (), v0)
      else let v = v0\<lparr>validation_count := validation_count v0 + 1\<rparr>
        in case from_utf8 bs of
             None \<Rightarrow> reject InvalidUtf8 v
           | Some s \<Rightarrow>
               if MAX_STRING_LENGTH * 10 < length s
               then reject (MemoryBounds 0 (length s) (MAX_STRING_LENGTH * 10)) v
               else (case parse_to_ast from_str s of
                  Inl e \<Rightarrow> reject e v
                | Inr ast \<Rightarrow>
                    if MAX_AST_NODES < node_count ast
                    then reject (AstNodeCountExceeded (node_count ast) MAX_AST_NODES) v
                    else if MAX_JSON_DEPTH < ast_depth ast
                    then reject (DepthExplosion (ast_depth ast) MAX_JSON_DEPTH) v
                    else if unat (max_memory_region v) < memory_footprint ast
                    then reject (MemoryBounds 0 (memory_footprint ast) (unat (max_memory_region v))) v
                    else (case validate_leaf_bounds ast of
                       Inl e \<Rightarrow> reject e v
                     | Inr _ \<Rightarrow>
                         (case prove_schema_constraints ast execution_payload_schema of
                            Inl e \<Rightarrow> reject e v
                          | Inr _ \<Rightarrow> (Inr (), v)))))"

definition prove_json_safety ::
  "(string \<Rightarrow> string + json) \<Rightarrow> u8 list \<Rightarrow> Z3FormalValidator \<Rightarrow> (PayloadViolation + unit) \<times> Z3FormalValidator" where
  "prove_json_safety from_str bs v0 =
     (if \<not> v_enabled v0 then (Inr (), v0)
      else let v = v0\<lparr>validation_count := validation_count v0 + 1\<rparr>
        in case from_utf8 bs of
             None \<Rightarrow> reject InvalidUtf8 v
           | Some s \<Rightarrow>
               if MAX_STRING_LENGTH * 10 < length s
               then reject (MemoryBounds 0 (length s) (MAX_STRING_LENGTH * 10)) v
               else (case parse_to_ast from_str s of
                  Inl e \<Rightarrow> reject e v
                | Inr ast \<Rightarrow>
                    if MAX_AST_NODES < node_count ast
                    then reject (AstNodeCountExceeded (node_count ast) MAX_AST_NODES) v
                    else if MAX_JSON_DEPTH < ast_depth ast
                    then reject (DepthExplosion (ast_depth ast) MAX_JSON_DEPTH) v
                    else if unat (max_memory_region v) < memory_footprint ast
                    then reject (MemoryBounds 0 (memory_footprint ast) (unat (max_memory_region v))) v
                    else (case validate_leaf_bounds ast of
                       Inl e \<Rightarrow> reject e v
                     | Inr _ \<Rightarrow> (Inr (), v))))"

section \<open>What the leaf checks mean\<close>

inductive ast_sub :: "AstNode \<Rightarrow> AstNode \<Rightarrow> bool" where
  sub_refl: "ast_sub a a"
| sub_item: "ast_sub x y \<Longrightarrow> y \<in> set xs \<Longrightarrow> ast_sub x (AstArray xs)"
| sub_entry: "ast_sub x y \<Longrightarrow> (k, y) \<in> set es \<Longrightarrow> ast_sub x (AstObject es)"

inductive_simps ast_sub_simps:
  "ast_sub x AstNull" "ast_sub x (AstBool b)" "ast_sub x (AstInteger i)" "ast_sub x (AstFloat f)"
  "ast_sub x (AstString s)" "ast_sub x (AstArray xs)" "ast_sub x (AstObject es)"

fun node_bounded :: "AstNode \<Rightarrow> bool" where
  "node_bounded (AstInteger v) = (\<bar>v\<bar> < 2 ^ 32)"
| "node_bounded (AstFloat v) = (\<exists>a. v = Fin a \<and> \<bar>a\<bar> \<le> 2 ^ 32 - 1)"
| "node_bounded (AstString s) = (length s \<le> 65536)"
| "node_bounded (AstObject es) = (distinct (map fst es) \<and> list_all (\<lambda>e. length (fst e) \<le> 65536) es)"
| "node_bounded _ = True"

definition ast_bounded :: "AstNode \<Rightarrow> bool" where
  "ast_bounded a \<longleftrightarrow> (\<forall>x. ast_sub x a \<longrightarrow> node_bounded x)"

lemma ast_bounded_leaf [simp]:
  "ast_bounded AstNull" "ast_bounded (AstBool b)"
  "ast_bounded (AstInteger i) = node_bounded (AstInteger i)"
  "ast_bounded (AstFloat f) = node_bounded (AstFloat f)"
  "ast_bounded (AstString s) = node_bounded (AstString s)"
  unfolding ast_bounded_def ast_sub_simps by simp_all

lemma ast_bounded_array [simp]: "ast_bounded (AstArray xs) = (\<forall>x \<in> set xs. ast_bounded x)"
proof -
  have "node_bounded (AstArray xs)" by simp
  then show ?thesis unfolding ast_bounded_def ast_sub_simps by blast
qed

lemma ast_bounded_object [simp]:
  "ast_bounded (AstObject es) = (node_bounded (AstObject es) \<and> (\<forall>e \<in> set es. ast_bounded (snd e)))"
proof -
  have "(\<forall>e \<in> set es. ast_bounded (snd e)) \<longleftrightarrow> (\<forall>k y x. (k, y) \<in> set es \<longrightarrow> ast_sub x y \<longrightarrow> node_bounded x)"
    unfolding ast_bounded_def by force
  then show ?thesis unfolding ast_bounded_def [of "AstObject es"] ast_sub_simps by blast
qed

lemma max_numeric_f64: "f64_of_nat MAX_NUMERIC_VALUE = Fin (2 ^ 32 - 1)"
  by (simp add: MAX_NUMERIC_VALUE_def f64_of_nat_small)

lemma validate_sound:
  "validate_leaf_bounds a = Inr u \<longleftrightarrow> ast_bounded a"
  "validate_items xs = Inr u \<longleftrightarrow> (\<forall>x \<in> set xs. ast_bounded x)"
  "validate_entries seen es = Inr u \<longleftrightarrow>
     (\<forall>e \<in> set es. length (fst e) \<le> 65536 \<and> ast_bounded (snd e))
     \<and> distinct (map fst es) \<and> set (map fst es) \<inter> set seen = {}"
proof (induction a and xs and seen es rule: validate_leaf_bounds_validate_items_validate_entries.induct)
  case (3 v)
  then show ?case by (auto simp: Let_def MAX_NUMERIC_VALUE_def)
next
  case (4 v)
  then show ?case by (cases v) (auto simp: max_numeric_f64 not_less)
next
  case (11 seen k v es)
  then show ?case by (auto simp: MAX_AST_STRING_LENGTH_def split: sum.splits)
qed (auto simp: MAX_AST_STRING_LENGTH_def list_all_iff split: sum.splits)

text \<open>The measures bound one another: no accepted tree is larger than its footprint.\<close>

lemma footprint_nodes: "8 * node_count a \<le> memory_footprint a"
proof (induction a rule: node_count.induct)
  case (1 xs)
  then have "sum_list (map (\<lambda>x. 8 * node_count x) xs) \<le> sum_list (map memory_footprint xs)"
    by (intro sum_list_mono) auto
  then show ?case by (simp add: sum_list_const_mult)
next
  case (2 es)
  then have "sum_list (map (\<lambda>e. 8 * node_count (snd e)) es)
      \<le> sum_list (map (\<lambda>e. length (fst e) + memory_footprint (snd e)) es)"
    by (intro sum_list_mono) (auto simp: trans_le_add2)
  then show ?case by (simp add: sum_list_const_mult)
qed simp_all

section \<open>What an accepted payload satisfies\<close>

lemma reject_not_ok [simp]: "reject e v = (Inr u, v') \<longleftrightarrow> False"
  by (simp add: reject_def)

lemma find_SomeD: "find P xs = Some x \<Longrightarrow> x \<in> set xs \<and> P x"
  by (auto simp: find_Some_iff)

lemma find_field_Some: "find_field c es = Some a \<Longrightarrow> \<exists>k. (k, a) \<in> set es \<and> (k = fc_name c \<or> k \<in> set (fc_aliases c))"
  unfolding find_field_def by (auto dest!: find_SomeD)

lemma prove_constraints_ok:
  "prove_constraints obj cs = Inr u \<longleftrightarrow>
   (\<forall>c \<in> set cs. case find_field c obj of
      Some a \<Rightarrow> is_ok (prove_field_constraint (fc_name c) a (fc_type c)) | None \<Rightarrow> \<not> fc_required c)"
  by (induction cs) (auto split: option.splits sum.splits if_splits)

lemma required_field:
  assumes "prove_constraints obj cs = Inr u" "c \<in> set cs" "fc_required c"
  shows "\<exists>k a. (k, a) \<in> set obj \<and> (k = fc_name c \<or> k \<in> set (fc_aliases c))
     \<and> is_ok (prove_field_constraint (fc_name c) a (fc_type c))"
  using assms find_field_Some [of c obj] by (fastforce simp: prove_constraints_ok split: option.splits)

lemma is_ok_string_range:
  "is_ok (prove_field_constraint n a (StringRange mn mx)) \<longleftrightarrow> (\<exists>s. a = AstString s \<and> mn \<le> length s \<and> length s \<le> mx)"
  by (cases a) auto

lemma is_ok_float_range:
  "is_ok (prove_field_constraint n a (FloatRange mn mx)) \<longleftrightarrow> (\<exists>f. ast_number a = Some f \<and> \<not> flt f mn \<and> \<not> flt mx f)"
  by (auto split: option.split)

text \<open>The fields an execution payload must have.\<close>

definition payload_conforms :: "(string \<times> AstNode) list \<Rightarrow> bool" where
  "payload_conforms es \<longleftrightarrow>
     length es \<le> 256 \<and> list_all (\<lambda>e. \<not> suspicious_key (fst e)) es
   \<and> (\<exists>k s. (k, AstString s) \<in> set es \<and> k \<in> {''networkId'', ''network_id''} \<and> 1 \<le> length s \<and> length s \<le> 64)
   \<and> (\<exists>k s. (k, AstString s) \<in> set es \<and> k \<in> {''taskType'', ''task_type''} \<and> 1 \<le> length s \<and> length s \<le> 50)
   \<and> (\<exists>k a f. (k, a) \<in> set es \<and> k \<in> {''confidenceScore'', ''confidence_score''} \<and> ast_number a = Some f
        \<and> \<not> flt f (Fin 0) \<and> \<not> flt (Fin 1) f)"

lemma schema_conforms:
  assumes "prove_schema_constraints a execution_payload_schema = Inr u"
  shows "\<exists>es. a = AstObject es \<and> payload_conforms es"
proof -
  from assms obtain es where a: "a = AstObject es" and n: "length es \<le> 256"
    and k: "find suspicious_key (map fst es) = None"
    and c: "prove_constraints es execution_payload_schema = Inr u"
    by (cases a) (auto simp: MAX_OBJECT_KEYS_def split: if_splits option.splits)
  have m: "execution_payload_schema ! 0 \<in> set execution_payload_schema"
    "execution_payload_schema ! 1 \<in> set execution_payload_schema"
    "execution_payload_schema ! 3 \<in> set execution_payload_schema"
    by (simp_all add: execution_payload_schema_def)
  show ?thesis
    using a n k required_field [OF c m(1)] required_field [OF c m(2)] required_field [OF c m(3)]
    unfolding payload_conforms_def
    by (simp add: execution_payload_schema_def is_ok_string_range is_ok_float_range find_None_iff list_all_iff
        del: prove_field_constraint.simps) metis
qed


text \<open>A payload that is accepted; the parser maps its two bytes to this value.\<close>

definition sample_payload :: json where
  "sample_payload =
     JObject [(''confidenceScore'', JNumber (JFloat (Fin (1 / 2)))), (''confidence_score'', JNumber (PosInt 7)),
              (''networkId'', JString ''main''), (''taskType'', JString ''sum'')]"

lemma as_i64_7: "as_i64 (PosInt 7) = Some 7"
  by simp

lemma sample_ast:
  "json_value_to_ast sample_payload =
     Inr (AstObject [(''confidenceScore'', AstFloat (Fin (1 / 2))), (''confidence_score'', AstInteger 7),
                     (''networkId'', AstString ''main''), (''taskType'', AstString ''sum'')])"
  by (simp add: sample_payload_def)

lemma sample_schema:
  "prove_schema_constraints (AstObject
     [(''confidenceScore'', AstFloat (Fin (1 / 2))), (''confidence_score'', AstInteger 7),
      (''networkId'', AstString ''main''), (''taskType'', AstString ''sum'')]) execution_payload_schema = Inr ()"
  by (simp add: execution_payload_schema_def find_field_def suspicious_key_def starts_with_def MAX_OBJECT_KEYS_def)

lemma sample_leaves:
  "validate_leaf_bounds (AstObject
     [(''confidenceScore'', AstFloat (Fin (1 / 2))), (''confidence_score'', AstInteger 7),
      (''networkId'', AstString ''main''), (''taskType'', AstString ''sum'')]) = Inr ()"
  by (simp add: f64_of_nat_small MAX_AST_STRING_LENGTH_def MAX_NUMERIC_VALUE_def Let_def)

lemma sample_accepted:
  assumes "from_utf8 bs = Some s" "length s \<le> 655360" "from_str s = Inr sample_payload"
  shows "prove_safety from_str bs (Z3FormalValidator_new True) = (Inr (), (Z3FormalValidator_new True)\<lparr>validation_count := 1\<rparr>)"
  using assms sample_schema sample_leaves
  by (simp add: prove_safety_def Z3FormalValidator_new_def Let_def parse_to_ast_def sample_ast MAX_STRING_LENGTH_def
      MAX_AST_NODES_def MAX_JSON_DEPTH_def del: validate_leaf_bounds.simps prove_schema_constraints.simps)

lemma braces_utf8: "from_utf8 [123, 125] = Some ''{}''"
  by code_simp


section \<open>How the two entry points relate\<close>

text \<open>
  The full validation is the lightweight validation followed by the schema check on the
  same tree; in particular whatever it accepts, the lightweight one accepts, and they count
  alike.
\<close>

theorem prove_safety_is_json_safety_then_schema:
  "prove_safety from_str bs v =
     (case prove_json_safety from_str bs v of
        (Inl e, v') \<Rightarrow> (Inl e, v')
      | (Inr _, v') \<Rightarrow>
          if \<not> v_enabled v then (Inr (), v')
          else (case parse_to_ast from_str (the (from_utf8 bs)) of
                  Inl e \<Rightarrow> (Inl e, v')
                | Inr a \<Rightarrow>
                    (case prove_schema_constraints a execution_payload_schema of
                       Inl e \<Rightarrow> reject e v' | Inr _ \<Rightarrow> (Inr (), v'))))"
  by (simp add: prove_safety_def prove_json_safety_def reject_def Let_def split: option.split sum.split)

section \<open>Counters\<close>

lemma prove_safety_counts:
  assumes "v_enabled v"
  shows "validation_count (snd (prove_safety from_str bs v)) = validation_count v + 1"
    "rejection_count (snd (prove_safety from_str bs v)) =
       rejection_count v + (if is_ok (fst (prove_safety from_str bs v)) then 0 else 1)"
    "v_enabled (snd (prove_safety from_str bs v))"
    "max_memory_region (snd (prove_safety from_str bs v)) = max_memory_region v"
  using assms by (simp_all add: prove_safety_def reject_def Let_def split: option.split sum.split)

lemma prove_safety_verdict:
  "v_enabled v \<Longrightarrow> v_enabled w \<Longrightarrow> max_memory_region v = max_memory_region w \<Longrightarrow>
   fst (prove_safety from_str bs v) = fst (prove_safety from_str bs w)"
  by (simp add: prove_safety_def reject_def Let_def split: option.split sum.split)

definition validate_all ::
  "(string \<Rightarrow> string + json) \<Rightarrow> u8 list list \<Rightarrow> Z3FormalValidator \<Rightarrow> Z3FormalValidator" where
  "validate_all from_str bss v = foldl (\<lambda>v bs. snd (prove_safety from_str bs v)) v bss"

text \<open>
  Over any sequence of payloads an enabled validator counts every call once and every
  rejection once (modulo \<open>2^64\<close>), and a verdict does not depend on the payloads seen before.
\<close>

theorem validator_counts:
  assumes "v_enabled v"
  shows "validation_count (validate_all from_str bss v) = validation_count v + of_nat (length bss)
     \<and> rejection_count (validate_all from_str bss v) =
         rejection_count v + of_nat (length (filter (\<lambda>bs. \<not> is_ok (fst (prove_safety from_str bs v))) bss))"
  using assms
proof (induction bss arbitrary: v)
  case (Cons bs bss)
  let ?v' = "snd (prove_safety from_str bs v)"
  note c = prove_safety_counts [OF Cons.prems, of from_str bs]
  have same: "fst (prove_safety from_str b ?v') = fst (prove_safety from_str b v)" for b
    by (rule prove_safety_verdict) (simp_all add: c Cons.prems)
  have all: "validate_all from_str (bs # bss) v = validate_all from_str bss ?v'"
    by (simp add: validate_all_def)
  show ?case using Cons.IH [OF c(3)] by (simp add: all c same)
qed (simp add: validate_all_def)

theorem validator_counts_witness:
  "validation_count (validate_all (\<lambda>_. Inl ''bad'') [[], [255]] (Z3FormalValidator_new True)) = 2
     \<and> rejection_count (validate_all (\<lambda>_. Inl ''bad'') [[], [255]] (Z3FormalValidator_new True)) = 2"
  using validator_counts [of "Z3FormalValidator_new True" "\<lambda>_. Inl ''bad''" "[[], [255]]"]
  by (simp add: Z3FormalValidator_new_def prove_safety_def from_utf8_def parse_to_ast_def reject_def Let_def)

section \<open>What validation does not check\<close>

text \<open>
  The documentation lists a proof that the tree fits the fuel budget; the budget of the
  validator takes no part in any verdict.
\<close>

theorem fuel_budget_ignored:
  "fst (prove_safety from_str bs (v\<lparr>max_fuel_budget := b\<rparr>)) = fst (prove_safety from_str bs v)
   \<and> fst (prove_json_safety from_str bs (v\<lparr>max_fuel_budget := b\<rparr>)) = fst (prove_json_safety from_str bs v)"
  by (simp add: prove_safety_def prove_json_safety_def reject_def Let_def split: option.split sum.split)

text \<open>
  A field is checked under the first of its names that occurs in the payload. A payload
  with \<open>confidenceScore = 0.5\<close> and \<open>confidence_score = 7\<close> is accepted although the second is
  outside the range the schema gives for it.
\<close>

theorem alias_escapes_range:
  assumes "from_utf8 bs = Some s" "length s \<le> 655360" "from_str s = Inr sample_payload"
  shows "fst (prove_safety from_str bs (Z3FormalValidator_new True)) = Inr ()
     \<and> \<not> is_ok (prove_field_constraint ''confidence_score'' (AstInteger 7) (FloatRange (Fin 0) (Fin 1)))"
proof -
  have "rnd 7 = 7" using f64r.rnd_nat [of 7] by simp
  then have "f64_of_int 7 = Fin 7" using to_f64_Fin [of 7] by (simp add: f64_of_int_def)
  then show ?thesis using sample_accepted [of bs s from_str] assms by simp
qed

theorem alias_escapes_range_witness:
  "fst (prove_safety (\<lambda>_. Inr sample_payload) [123, 125] (Z3FormalValidator_new True)) = Inr ()"
  using alias_escapes_range [OF braces_utf8, of "\<lambda>_. Inr sample_payload"] by simp

text \<open>
  The parser produces objects with distinct keys, so the duplicate-key check never fires on
  a parsed payload: a text with a repeated key is not recognised as such.
\<close>

fun wf_ast :: "AstNode \<Rightarrow> bool" where
  "wf_ast (AstObject es) = (distinct (map fst es) \<and> list_all (\<lambda>e. wf_ast (snd e)) es)"
| "wf_ast (AstArray xs) = list_all wf_ast xs"
| "wf_ast _ = True"

lemma json_value_to_ast_total:
  "\<exists>a. json_value_to_ast j = Inr a \<and> (wf_json j \<longrightarrow> wf_ast a)"
  "\<exists>xs. collect_items js = Inr xs \<and> (list_all wf_json js \<longrightarrow> list_all wf_ast xs)"
  "\<exists>es. collect_entries kvs = Inr es \<and> map fst es = map fst kvs
     \<and> (list_all (\<lambda>kv. wf_json (snd kv)) kvs \<longrightarrow> list_all (\<lambda>e. wf_ast (snd e)) es)"
proof (induction j and js and kvs rule: json_value_to_ast_collect_items_collect_entries.induct)
  case (3 n)
  then show ?case by (cases "as_i64 n") auto
qed (fastforce)+

lemma no_duplicate_reported:
  "wf_ast a \<Longrightarrow> validate_leaf_bounds a \<noteq> Inl (StructuralIntegrity (DuplicateKey k))"
  "list_all wf_ast xs \<Longrightarrow> validate_items xs \<noteq> Inl (StructuralIntegrity (DuplicateKey k))"
  "list_all (\<lambda>e. wf_ast (snd e)) es \<Longrightarrow> distinct (map fst es) \<Longrightarrow> set (map fst es) \<inter> set seen = {} \<Longrightarrow>
     validate_entries seen es \<noteq> Inl (StructuralIntegrity (DuplicateKey k))"
  by (induction a and xs and seen es rule: validate_leaf_bounds_validate_items_validate_entries.induct)
    (auto simp: Let_def split: sum.splits)

lemma parsed_payload_never_duplicate:
  assumes "json_value_to_ast j = Inr a" "wf_json j"
  shows "validate_leaf_bounds a \<noteq> Inl (StructuralIntegrity (DuplicateKey k))"
proof -
  have "wf_ast a" using json_value_to_ast_total(1) [of j] assms by auto
  then show ?thesis by (rule no_duplicate_reported(1))
qed

end
