(* ===== verification/Masking.thy ===== *)
theory Masking
  imports HashMaps Text
begin

text \<open>
  \<open>crates/core/src/security/masking.rs\<close>: sensitivity levels, the transformation of data by
  level, and the masking of single fields.

  The cryptography is not part of the repository: SHA-256, AES-256-GCM and the \<open>hex\<close> crate are
  the fields of a \<open>crypto\<close> record passed to the operations, and a random nonce is an argument.
  What the code relies on is \<open>crypto_laws\<close>. A value to be masked is the list of its Unicode
  scalar values, as \<open>chars\<close> yields them. Where a message ends in the position
  of a UTF-8 error, the position is left out. The masking of patterns in free text is in
  \<open>TextMasking\<close>.
\<close>

section \<open>Sensitivity levels\<close>

datatype Sensitivity = Public | Internal | PiiMasked | PiiEncrypted

datatype MaskingError =
    InvalidSensitivityLevel string
  | EncryptionError string
  | DecryptionError string
  | KeyError string
  | HashingError string
  | PiiMaskingError string

fun sensitivity_string :: "Sensitivity \<Rightarrow> string" where
  "sensitivity_string Public = ''public''"
| "sensitivity_string Internal = ''internal''"
| "sensitivity_string PiiMasked = ''pii-masked''"
| "sensitivity_string PiiEncrypted = ''pii-encrypted''"

definition sensitivity_try_from :: "string \<Rightarrow> MaskingError + Sensitivity" where
  "sensitivity_try_from value =
     (if value = ''public'' then Inr Public
      else if value = ''internal'' then Inr Internal
      else if value = ''pii-masked'' then Inr PiiMasked
      else if value = ''pii-encrypted'' then Inr PiiEncrypted
      else Inl (InvalidSensitivityLevel value))"

section \<open>The masking engine\<close>

record crypto =
  sha256 :: "u8 list \<Rightarrow> u8 list"
  hex_encode :: "u8 list \<Rightarrow> string"
  hex_decode :: "string \<Rightarrow> string + u8 list"
  gcm_encrypt :: "u8 list \<Rightarrow> u8 list \<Rightarrow> u8 list \<Rightarrow> string + u8 list"
  gcm_decrypt :: "u8 list \<Rightarrow> u8 list \<Rightarrow> u8 list \<Rightarrow> string + u8 list"

record MaskingEngine =
  encryption_key :: "u8 list option"

definition MaskingEngine_new :: "crypto \<Rightarrow> string option \<Rightarrow> MaskingError + MaskingEngine" where
  "MaskingEngine_new cr key_hex =
     (case key_hex of
        None \<Rightarrow> Inr \<lparr>encryption_key = None\<rparr>
      | Some h \<Rightarrow>
          (case hex_decode cr h of
             Inl e \<Rightarrow> Inl (KeyError (''Invalid hex key: '' @ e))
           | Inr bs \<Rightarrow>
               if length bs \<noteq> 32
               then Inl (KeyError (''Key must be 32 bytes (256 bits), got '' @ dec (length bs) @ '' bytes''))
               else Inr \<lparr>encryption_key = Some bs\<rparr>))"

definition hash_bytes :: "crypto \<Rightarrow> u8 list \<Rightarrow> MaskingError + string" where
  "hash_bytes cr d = Inr (hex_encode cr (sha256 cr d))"

definition hash_data :: "crypto \<Rightarrow> string \<Rightarrow> MaskingError + string" where
  "hash_data cr d = Inr (hex_encode cr (sha256 cr (bytes_of d)))"

definition encrypt_bytes :: "crypto \<Rightarrow> u8 list \<Rightarrow> MaskingEngine \<Rightarrow> u8 list \<Rightarrow> MaskingError + string" where
  "encrypt_bytes cr nonce me d =
     (case encryption_key me of
        None \<Rightarrow> Inl (EncryptionError ''Encryption key not configured'')
      | Some key \<Rightarrow>
          (case gcm_encrypt cr key nonce d of
             Inl e \<Rightarrow> Inl (EncryptionError (''Encryption failed: '' @ e))
           | Inr ct \<Rightarrow> Inr (hex_encode cr (nonce @ ct))))"

definition encrypt_data :: "crypto \<Rightarrow> u8 list \<Rightarrow> MaskingEngine \<Rightarrow> string \<Rightarrow> MaskingError + string" where
  "encrypt_data cr nonce me d =
     (case encryption_key me of
        None \<Rightarrow> Inl (EncryptionError ''Encryption key not configured'')
      | Some key \<Rightarrow>
          (case gcm_encrypt cr key nonce (bytes_of d) of
             Inl e \<Rightarrow> Inl (EncryptionError (''Encryption failed: '' @ e))
           | Inr ct \<Rightarrow> Inr (hex_encode cr (nonce @ ct))))"

definition decrypt_data :: "crypto \<Rightarrow> MaskingEngine \<Rightarrow> string \<Rightarrow> MaskingError + string" where
  "decrypt_data cr me h =
     (case encryption_key me of
        None \<Rightarrow> Inl (DecryptionError ''Encryption key not configured'')
      | Some key \<Rightarrow>
          (case hex_decode cr h of
             Inl e \<Rightarrow> Inl (DecryptionError (''Invalid hex data: '' @ e))
           | Inr combined \<Rightarrow>
               if length combined < 13
               then Inl (DecryptionError (''Encrypted data too short: '' @ dec (length combined) @ '' bytes''))
               else (case gcm_decrypt cr key (take 12 combined) (drop 12 combined) of
                       Inl e \<Rightarrow> Inl (DecryptionError (''Decryption failed: '' @ e))
                     | Inr bs \<Rightarrow>
                         (case from_utf8 bs of
                            None \<Rightarrow> Inl (DecryptionError ''Invalid UTF-8: '')
                          | Some s \<Rightarrow> Inr s))))"

definition transform_data ::
  "crypto \<Rightarrow> u8 list \<Rightarrow> MaskingEngine \<Rightarrow> string \<Rightarrow> Sensitivity \<Rightarrow> MaskingError + string" where
  "transform_data cr nonce me d level =
     (case level of
        Public \<Rightarrow> Inr d
      | Internal \<Rightarrow> Inr d
      | PiiMasked \<Rightarrow> hash_data cr d
      | PiiEncrypted \<Rightarrow> encrypt_data cr nonce me d)"

definition transform_data_owned ::
  "crypto \<Rightarrow> u8 list \<Rightarrow> MaskingEngine \<Rightarrow> string \<Rightarrow> Sensitivity \<Rightarrow> MaskingError + string" where
  "transform_data_owned cr nonce me d level =
     (case level of
        Public \<Rightarrow> Inr d
      | Internal \<Rightarrow> Inr d
      | PiiMasked \<Rightarrow> hash_data cr d
      | PiiEncrypted \<Rightarrow> encrypt_data cr nonce me d)"

definition transform_bytes ::
  "crypto \<Rightarrow> u8 list \<Rightarrow> MaskingEngine \<Rightarrow> u8 list \<Rightarrow> Sensitivity \<Rightarrow> MaskingError + string" where
  "transform_bytes cr nonce me d level =
     (if level = Public \<or> level = Internal
      then (case from_utf8 d of None \<Rightarrow> Inl (EncryptionError ''Invalid UTF-8: '') | Some s \<Rightarrow> Inr s)
      else if level = PiiMasked then hash_bytes cr d
      else encrypt_bytes cr nonce me d)"

definition supports_encryption :: "MaskingEngine \<Rightarrow> bool" where
  "supports_encryption me = (encryption_key me \<noteq> None)"

section \<open>Field masking\<close>

datatype PiiField =
    PassportNumber | ApiKey | NationalId | FullName | DateOfBirth | PhoneNumber | EmailField | AddressField
  | FinancialAccount | OtherField

type_synonym ustring = "nat list"

record PiiMaskConfig =
  visible_prefix :: nat
  visible_suffix :: nat
  mask_char :: nat
  min_output_length :: nat

definition PiiMaskConfig_default :: PiiMaskConfig where
  "PiiMaskConfig_default = \<lparr>visible_prefix = 1, visible_suffix = 1, mask_char = 42, min_output_length = 4\<rparr>"

definition cfg_passport :: PiiMaskConfig where
  "cfg_passport = \<lparr>visible_prefix = 1, visible_suffix = 1, mask_char = 42, min_output_length = 6\<rparr>"

definition cfg_api_key :: PiiMaskConfig where
  "cfg_api_key = \<lparr>visible_prefix = 2, visible_suffix = 2, mask_char = 42, min_output_length = 6\<rparr>"

definition cfg_national_id :: PiiMaskConfig where
  "cfg_national_id = \<lparr>visible_prefix = 1, visible_suffix = 2, mask_char = 42, min_output_length = 6\<rparr>"

definition cfg_full_name :: PiiMaskConfig where
  "cfg_full_name = \<lparr>visible_prefix = 1, visible_suffix = 0, mask_char = 42, min_output_length = 3\<rparr>"

definition cfg_full_redaction :: PiiMaskConfig where
  "cfg_full_redaction = \<lparr>visible_prefix = 0, visible_suffix = 0, mask_char = 42, min_output_length = 4\<rparr>"

record PiiMaskingEngine =
  mask_configs :: "(PiiField, PiiMaskConfig) hmap"
  masking_engine :: MaskingEngine

definition default_configs :: "(PiiField, PiiMaskConfig) hmap" where
  "default_configs = foldl (\<lambda>m (k, v). hm_insert k v m) []
     [(PassportNumber, cfg_passport), (ApiKey, cfg_api_key), (NationalId, cfg_national_id),
      (FullName, cfg_full_name), (DateOfBirth, cfg_full_redaction), (PhoneNumber, PiiMaskConfig_default),
      (EmailField, PiiMaskConfig_default), (AddressField, cfg_full_redaction),
      (FinancialAccount, cfg_full_redaction), (OtherField, cfg_full_redaction)]"

definition PiiMaskingEngine_new :: "crypto \<Rightarrow> string option \<Rightarrow> MaskingError + PiiMaskingEngine" where
  "PiiMaskingEngine_new cr key_hex =
     map_sum id (\<lambda>me. \<lparr>mask_configs = default_configs, masking_engine = me\<rparr>) (MaskingEngine_new cr key_hex)"

definition with_configs ::
  "crypto \<Rightarrow> string option \<Rightarrow> (PiiField, PiiMaskConfig) hmap \<Rightarrow> MaskingError + PiiMaskingEngine" where
  "with_configs cr key_hex configs =
     map_sum id (\<lambda>me. \<lparr>mask_configs = configs, masking_engine = me\<rparr>) (MaskingEngine_new cr key_hex)"

definition field_config :: "PiiMaskingEngine \<Rightarrow> PiiField \<Rightarrow> PiiMaskConfig" where
  "field_config pe field =
     (case hm_get (mask_configs pe) field of
        Some c \<Rightarrow> c
      | None \<Rightarrow> (case hm_get (mask_configs pe) OtherField of Some c \<Rightarrow> c | None \<Rightarrow> PiiMaskConfig_default))"

text \<open>The sum of the visible lengths is a checked addition on \<open>usize\<close>.\<close>

definition mask_value :: "PiiMaskingEngine \<Rightarrow> ustring \<Rightarrow> PiiField \<Rightarrow> ustring may_panic" where
  "mask_value pe value field =
     (let config = field_config pe field; n = length value
      in if value = [] then Some []
         else if 2 ^ 64 \<le> visible_prefix config + visible_suffix config then None
         else if n \<le> visible_prefix config + visible_suffix config
         then Some (replicate (max (min_output_length config) n) (mask_char config))
         else let result = take (visible_prefix config) value
                    @ replicate (n - visible_prefix config - visible_suffix config) (mask_char config)
                    @ drop (n - visible_suffix config) value;
                  bytes = sum_list (map len_utf8 result)
              in Some (if bytes < min_output_length config
                       then result @ replicate (min_output_length config - bytes) (mask_char config)
                       else result))"

definition mask_bytes :: "PiiMaskingEngine \<Rightarrow> u8 list \<Rightarrow> PiiField \<Rightarrow> (MaskingError + ustring) may_panic" where
  "mask_bytes pe d field =
     (if utf8_valid d then map_option Inr (mask_value pe (utf8_chars d) field)
      else Some (Inl (PiiMaskingError ''Invalid UTF-8 in PII data: '')))"

fun field_name :: "PiiField \<Rightarrow> string" where
  "field_name PassportNumber = ''PassportNumber''"
| "field_name ApiKey = ''ApiKey''"
| "field_name NationalId = ''NationalId''"
| "field_name FullName = ''FullName''"
| "field_name DateOfBirth = ''DateOfBirth''"
| "field_name PhoneNumber = ''PhoneNumber''"
| "field_name EmailField = ''Email''"
| "field_name AddressField = ''Address''"
| "field_name FinancialAccount = ''FinancialAccount''"
| "field_name OtherField = ''Other''"

definition hash_pii :: "crypto \<Rightarrow> string \<Rightarrow> PiiField \<Rightarrow> MaskingError + string" where
  "hash_pii cr value field = Inr (hex_encode cr (sha256 cr (bytes_of (field_name field) @ bytes_of value)))"

definition encrypt_pii ::
  "crypto \<Rightarrow> u8 list \<Rightarrow> PiiMaskingEngine \<Rightarrow> string \<Rightarrow> PiiField \<Rightarrow> MaskingError + string" where
  "encrypt_pii cr nonce pe value field = encrypt_data cr nonce (masking_engine pe) value"

definition decrypt_pii :: "crypto \<Rightarrow> PiiMaskingEngine \<Rightarrow> string \<Rightarrow> MaskingError + string" where
  "decrypt_pii cr pe h = decrypt_data cr (masking_engine pe) h"

fun mask_entries ::
  "PiiMaskingEngine \<Rightarrow> (string, PiiField) hmap \<Rightarrow> (string \<times> ustring) list \<Rightarrow> (string, ustring) hmap
   \<Rightarrow> (string, ustring) hmap may_panic" where
  "mask_entries pe cats [] acc = Some acc"
| "mask_entries pe cats ((key, value) # es) acc =
     (case mask_value pe value (case hm_get cats key of Some f \<Rightarrow> f | None \<Rightarrow> OtherField) of
        None \<Rightarrow> None
      | Some m \<Rightarrow> mask_entries pe cats es (hm_insert key m acc))"

definition mask_structured ::
  "PiiMaskingEngine \<Rightarrow> (string, ustring) hmap \<Rightarrow> (string, PiiField) hmap \<Rightarrow> (string, ustring) hmap may_panic" where
  "mask_structured pe d cats = mask_entries pe cats d []"

section \<open>Levels and transformations\<close>

text \<open>
  The names of the sensitivity levels are read back as the level they name, and nothing
  else is read as a level.
\<close>

theorem sensitivity_roundtrip:
  "sensitivity_try_from s = (if \<exists>l. s = sensitivity_string l
     then Inr (THE l. s = sensitivity_string l) else Inl (InvalidSensitivityLevel s))"
proof (cases "\<exists>l. s = sensitivity_string l")
  case True
  then obtain l where l: "s = sensitivity_string l" by blast
  have inj: "sensitivity_string k = sensitivity_string l \<Longrightarrow> k = l" for k l
    by (cases k; cases l) simp_all
  have "(THE l. s = sensitivity_string l) = l" using l inj by (intro the_equality) auto
  moreover have "sensitivity_try_from s = Inr l" using l by (cases l) (simp_all add: sensitivity_try_from_def)
  ultimately show ?thesis using True by simp
next
  case False
  then have "s \<noteq> ''public''" "s \<noteq> ''internal''" "s \<noteq> ''pii-masked''" "s \<noteq> ''pii-encrypted''"
    by (metis sensitivity_string.simps)+
  with False show ?thesis by (simp add: sensitivity_try_from_def)
qed

lemma transform_owned_eq: "transform_data_owned cr nonce me d l = transform_data cr nonce me d l"
  by (simp add: transform_data_def transform_data_owned_def)

lemma from_utf8_bytes_of: "utf8_valid (bytes_of d) \<Longrightarrow> from_utf8 (bytes_of d) = Some d"
  by (simp add: from_utf8_def bytes_roundtrip)

lemma transform_bytes_eq:
  "utf8_valid (bytes_of d) \<Longrightarrow> transform_bytes cr nonce me (bytes_of d) l = transform_data cr nonce me d l"
  by (cases l) (simp_all add: transform_bytes_def transform_data_def from_utf8_bytes_of hash_bytes_def
      hash_data_def encrypt_bytes_def encrypt_data_def)

section \<open>Encryption\<close>

definition crypto_laws :: "crypto \<Rightarrow> bool" where
  "crypto_laws cr \<longleftrightarrow>
     (\<forall>bs. hex_decode cr (hex_encode cr bs) = Inr bs)
   \<and> (\<forall>key nonce pt ct. gcm_encrypt cr key nonce pt = Inr ct \<longrightarrow>
        length ct = length pt + 16 \<and> gcm_decrypt cr key nonce ct = Inr pt)"

lemma decrypt_encrypted:
  assumes "crypto_laws cr" "length nonce = 12" "utf8_valid (bytes_of d)"
    and "encrypt_data cr nonce me d = Inr h"
  shows "decrypt_data cr me h = Inr d"
proof -
  from assms(4) obtain key ct where k: "encryption_key me = Some key"
    "gcm_encrypt cr key nonce (bytes_of d) = Inr ct" "h = hex_encode cr (nonce @ ct)"
    by (auto simp: encrypt_data_def split: option.splits sum.splits)
  have "length ct = length (bytes_of d) + 16" "gcm_decrypt cr key nonce ct = Inr (bytes_of d)"
    "hex_decode cr h = Inr (nonce @ ct)"
    using assms(1) k unfolding crypto_laws_def by metis+
  then show ?thesis using k(1) assms(2,3) by (simp add: decrypt_data_def from_utf8_bytes_of)
qed

text \<open>
  What is encrypted with a key is decrypted to the same text by an engine with that key,
  whatever nonce of 12 bytes was drawn; without a key nothing is encrypted or decrypted.
\<close>

theorem encrypt_decrypt_roundtrip:
  assumes "crypto_laws cr" "length nonce = 12" "utf8_valid (bytes_of d)"
    and "encrypt_data cr nonce me d = Inr h"
  shows "decrypt_data cr me h = Inr d"
  using assms by (rule decrypt_encrypted)

definition toy_crypto :: crypto where
  "toy_crypto = \<lparr>sha256 = id, hex_encode = map (\<lambda>b. char_of (unat b)), hex_decode = (\<lambda>s. Inr (bytes_of s)),
     gcm_encrypt = (\<lambda>k n pt. Inr (pt @ replicate 16 0)), gcm_decrypt = (\<lambda>k n ct. Inr (take (length ct - 16) ct))\<rparr>"

lemma toy_crypto_laws: "crypto_laws toy_crypto"
proof -
  have "bytes_of (map (\<lambda>b. char_of (unat (b :: u8))) bs) = bs" for bs
    by (induction bs) (simp_all add: bytes_of_def of_char_of_unat_u8)
  then show ?thesis by (simp add: crypto_laws_def toy_crypto_def)
qed

theorem encrypt_decrypt_roundtrip_witness:
  "let me = \<lparr>encryption_key = Some (replicate 32 1)\<rparr>
   in \<exists>h. encrypt_data toy_crypto (replicate 12 7) me ''id 4'' = Inr h \<and> decrypt_data toy_crypto me h = Inr ''id 4''"
proof -
  let ?me = "\<lparr>encryption_key = Some (replicate 32 1)\<rparr>"
  have "utf8_valid (bytes_of ''id 4'')" by code_simp
  moreover obtain h where "encrypt_data toy_crypto (replicate 12 7) ?me ''id 4'' = Inr h"
    by (simp add: encrypt_data_def toy_crypto_def)
  ultimately show ?thesis
    using encrypt_decrypt_roundtrip [OF toy_crypto_laws, of "replicate 12 7" "''id 4''" ?me h] by (auto simp: Let_def)
qed

lemma no_key_no_encryption:
  "\<not> supports_encryption me \<Longrightarrow>
   encrypt_data cr nonce me d = Inl (EncryptionError ''Encryption key not configured'')
   \<and> decrypt_data cr me h = Inl (DecryptionError ''Encryption key not configured'')"
  by (simp add: supports_encryption_def encrypt_data_def decrypt_data_def)

section \<open>What a masked value shows\<close>

text \<open>
  A masked value depends only on the length of the value and on the visible prefix and
  suffix of its field: two values that agree there are masked alike.
\<close>

theorem mask_value_hides:
  assumes "length v = length w"
    and "take (visible_prefix (field_config pe f)) v = take (visible_prefix (field_config pe f)) w"
    and "drop (length v - visible_suffix (field_config pe f)) v = drop (length w - visible_suffix (field_config pe f)) w"
  shows "mask_value pe v f = mask_value pe w f"
proof (cases "v = []")
  case False
  then have "w \<noteq> []" using assms(1) by auto
  with False show ?thesis unfolding mask_value_def Let_def assms(1) assms(2) assms(3) [unfolded assms(1)] by simp
qed (use assms(1) in simp)

definition default_engine :: PiiMaskingEngine where
  "default_engine = \<lparr>mask_configs = default_configs, masking_engine = \<lparr>encryption_key = None\<rparr>\<rparr>"

theorem mask_value_hides_witness:
  "mask_value default_engine [69, 49, 50, 51, 56] PassportNumber = mask_value default_engine [69, 55, 55, 55, 56] PassportNumber"
  by (rule mask_value_hides)
    (simp_all add: default_engine_def field_config_def default_configs_def hm_get_def hm_insert_def cfg_passport_def)

lemma default_engine_new: "PiiMaskingEngine_new cr None = Inr default_engine"
  by (simp add: PiiMaskingEngine_new_def MaskingEngine_new_def default_engine_def)

lemma default_full_redaction:
  "f \<in> {DateOfBirth, AddressField, FinancialAccount, OtherField} \<Longrightarrow> field_config default_engine f = cfg_full_redaction"
  by (auto simp: default_engine_def field_config_def default_configs_def hm_get_def hm_insert_def)

text \<open>
  With the default configuration a date of birth, an address, a financial account and an
  unclassified value are redacted completely: the output is a row of asterisks, as long as the
  value and at least four.
\<close>

theorem full_redaction:
  assumes "f \<in> {DateOfBirth, AddressField, FinancialAccount, OtherField}" "v \<noteq> []"
  shows "mask_value default_engine v f = Some (replicate (max 4 (length v)) 42)"
proof -
  have s: "sum_list (map len_utf8 (replicate n 42)) = n" for n
    by (induction n) (simp_all add: len_utf8_def)
  have "length v < 4 \<Longrightarrow> replicate (length v) (42 :: nat) @ replicate (4 - length v) 42 = replicate 4 42"
    by (simp add: replicate_add [symmetric])
  with assms(2) s [of "length v"] show ?thesis
    unfolding mask_value_def default_full_redaction [OF assms(1)] Let_def
    by (auto simp: cfg_full_redaction_def max_def simp del: map_replicate sum_list_replicate)
qed

theorem full_redaction_witness:
  "mask_value default_engine [49, 57, 56] DateOfBirth = Some (replicate (max 4 (length [49, 57, 56 :: nat])) 42)"
  by (rule full_redaction) simp_all

text \<open>
  The example in the documentation shows six asterisks for a passport number of nine
  characters; the code writes seven.
\<close>

lemmas mask_eval = mask_value_def field_config_def default_engine_def default_configs_def hm_get_def hm_insert_def
  cfg_passport_def cfg_full_name_def cfg_full_redaction_def len_utf8_def Let_def

lemma replicate_small: "replicate 2 x = [x, x]" "replicate 3 x = [x, x, x]" "replicate 4 x = [x, x, x, x]"
  by (simp_all add: numeral_eq_Suc)

lemma passport_example:
  "mask_value default_engine [69, 49, 50, 51, 52, 53, 54, 55, 56] PassportNumber
     = Some [69, 42, 42, 42, 42, 42, 42, 42, 56]"
  by (simp add: mask_eval)

section \<open>Structured data\<close>

lemma mask_entries_get:
  assumes "mask_entries pe cats es acc = Some r" "distinct (map fst es)"
  shows "hm_get r k = (case map_of es k of
      None \<Rightarrow> hm_get acc k
    | Some v \<Rightarrow> mask_value pe v (case hm_get cats k of Some f \<Rightarrow> f | None \<Rightarrow> OtherField))"
  using assms
proof (induction es arbitrary: acc)
  case (Cons e es)
  obtain key v where e: "e = (key, v)" by (cases e)
  from Cons.prems e obtain m where
    m: "mask_value pe v (case hm_get cats key of Some f \<Rightarrow> f | None \<Rightarrow> OtherField) = Some m"
      "mask_entries pe cats es (hm_insert key m acc) = Some r"
    by (auto split: option.splits)
  have "map_of es key = None" using Cons.prems(2) e by (simp add: map_of_eq_None_iff)
  with Cons.IH [OF m(2)] Cons.prems(2) e m(1) show ?case by (auto simp: hm.get_insert split: option.split)
qed simp

text \<open>
  Masking a record keeps its keys and replaces every value by its masked form, under the
  category given for the key or else as unclassified; no value is passed through.
\<close>

theorem mask_structured_masks_all:
  assumes "mask_structured pe d cats = Some r" "hm_inv d"
  shows "hm_get r k = (case hm_get d k of
      None \<Rightarrow> None
    | Some v \<Rightarrow> mask_value pe v (case hm_get cats k of Some f \<Rightarrow> f | None \<Rightarrow> OtherField))"
  using mask_entries_get [of pe cats d "[]" r k] assms
  by (simp add: mask_structured_def hm_inv_def hm_get_def split: option.split)

theorem mask_structured_masks_all_witness:
  "hm_get (the (mask_structured default_engine [(''name'', [65, 66]), (''x'', [67])] [(''name'', FullName)])) ''x''
     = Some [42, 42, 42, 42]"
proof -
  have "mask_structured default_engine [(''name'', [65, 66]), (''x'', [67])] [(''name'', FullName)]
      = Some [(''name'', [65, 42, 42]), (''x'', [42, 42, 42, 42])]"
    by (simp add: mask_structured_def mask_eval replicate_small)
  moreover have "mask_value default_engine [67] OtherField = Some [42, 42, 42, 42]"
    by (simp add: mask_eval replicate_small)
  ultimately show ?thesis
    using mask_structured_masks_all [of default_engine "[(''name'', [65, 66]), (''x'', [67])]" "[(''name'', FullName)]" _ "''x''"]
    by (simp add: hm_inv_def hm_get_def)
qed

end
