(* ===== verification/HostRuntime.thy ===== *)
theory HostRuntime
  imports AbiGuard Masking FuelMonitor
begin

text \<open>
  \<open>crates/core/src/engine/wasmtime_rt.rs\<close>: what the host does for a guest component. The guard of
  the Canonical ABI, the shared buffers, the persistence interface, the memory limiter and the
  configuration of the engine.

  Wasmtime, SQLite and the libraries for identifiers and time are not part of the repository.
  The resource table is a pair of functions (\<open>resource_table\<close>) with the documented laws
  \<open>table_laws\<close>; an \<open>INSERT\<close> is the argument \<open>ins\<close>, which fails with a message or yields the next
  state of the database; the new identifier and the time are arguments. A
  \<open>Resource<SharedBufferEntry>\<close> is its number. Log lines are left out, and so is the timer task
  that raises the epoch of the engine.
\<close>

section \<open>The Canonical ABI guard\<close>

datatype GuestTrap = MemoryAccessViolation u64 u64 u64

definition ensure_in_bounds :: "u64 \<Rightarrow> u64 \<Rightarrow> u64 \<Rightarrow> GuestTrap + unit" where
  "ensure_in_bounds off len capacity =
     (if capacity < saturating_add off len then Inl (MemoryAccessViolation off len capacity) else Inr ())"

record CanonicalAbiGuard =
  transfer_count :: u64
  violation_count :: u64
  cag_enabled :: bool

datatype CanonicalAbiViolation =
    BufferOverflow usize usize
  | InvalidAlignment usize
  | RawMemoryAccessProhibited string
  | TypeMismatch string string

fun abi_violation_display :: "CanonicalAbiViolation \<Rightarrow> string" where
  "abi_violation_display (BufferOverflow r m) =
     ''Canonical ABI buffer overflow: requested '' @ dec (unat r) @ '' bytes, maximum '' @ dec (unat m)"
| "abi_violation_display (InvalidAlignment a) =
     ''Canonical ABI invalid alignment: '' @ dec (unat a) @ '' is not a power of 2''"
| "abi_violation_display (RawMemoryAccessProhibited c) = ''Canonical ABI raw memory access prohibited: '' @ c"
| "abi_violation_display (TypeMismatch e a) =
     ''Canonical ABI type mismatch: expected '' @ e @ '', got '' @ a"

definition CanonicalAbiGuard_new :: "bool \<Rightarrow> CanonicalAbiGuard" where
  "CanonicalAbiGuard_new en = \<lparr>transfer_count = 0, violation_count = 0, cag_enabled = en\<rparr>"

definition record_compliant_transfer :: "CanonicalAbiGuard \<Rightarrow> CanonicalAbiGuard" where
  "record_compliant_transfer g = (if cag_enabled g then g\<lparr>transfer_count := transfer_count g + 1\<rparr> else g)"

definition record_violation :: "CanonicalAbiGuard \<Rightarrow> CanonicalAbiGuard" where
  "record_violation g = (if cag_enabled g then g\<lparr>violation_count := violation_count g + 1\<rparr> else g)"

definition validate_buffer_transfer ::
  "usize \<Rightarrow> usize \<Rightarrow> usize \<Rightarrow> CanonicalAbiGuard \<Rightarrow> (CanonicalAbiViolation + unit) \<times> CanonicalAbiGuard" where
  "validate_buffer_transfer len max_len alignment g =
     (if \<not> cag_enabled g then (Inr (), g)
      else if max_len < len then (Inl (BufferOverflow len max_len), g)
      else if alignment = 0 \<or> alignment AND (alignment - 1) \<noteq> 0 then (Inl (InvalidAlignment alignment), g)
      else (Inr (), record_compliant_transfer g))"

definition validate_string_transfer ::
  "string \<Rightarrow> usize \<Rightarrow> CanonicalAbiGuard \<Rightarrow> (CanonicalAbiViolation + unit) \<times> CanonicalAbiGuard" where
  "validate_string_transfer s max_len g =
     (if \<not> cag_enabled g then (Inr (), g)
      else if max_len < of_nat (length s) then (Inl (BufferOverflow (of_nat (length s)) max_len), g)
      else (Inr (), record_compliant_transfer g))"

section \<open>The state of a store\<close>

record 't resource_table =
  table_push :: "'t \<Rightarrow> string + u32 \<times> 't"
  table_delete :: "u32 \<Rightarrow> 't \<Rightarrow> string + 't"

record MemoryResourceLimiter =
  mrl_max_memory_bytes :: usize

record 't StoreState =
  ss_table :: 't
  ss_attacker_contexts :: "u32 list"
  ss_abi_guard :: AbiGuard
  ss_memory_capability :: "CheriCapability option"
  ss_canonical_guard :: CanonicalAbiGuard
  ss_tenant_id :: string
  ss_shared_buffers :: "(u32, u8 list) hmap"
  ss_resource_limiter :: MemoryResourceLimiter
  ss_masking_engine :: MaskingEngine

definition SHARED_BUFFER_MAX_LEN :: usize where
  "SHARED_BUFFER_MAX_LEN = 16 * 1024 * 1024"

definition SHARED_BUFFER_READ_CHUNK :: u64 where
  "SHARED_BUFFER_READ_CHUNK = 64 * 1024"

definition count_transfer :: "'t StoreState \<Rightarrow> 't StoreState" where
  "count_transfer s = s\<lparr>ss_canonical_guard := record_compliant_transfer (ss_canonical_guard s)\<rparr>"

definition register_memory_capability :: "usize \<Rightarrow> 't StoreState \<Rightarrow> (AbiViolation + unit) \<times> 't StoreState" where
  "register_memory_capability data_size s =
     (let cap = from_tlsf_pool data_size
      in case register_capability ''guest_linear_memory'' cap (ss_abi_guard s) of
           (Inl e, g) \<Rightarrow> (Inl e, s\<lparr>ss_abi_guard := g\<rparr>)
         | (Inr _, g) \<Rightarrow> (Inr (), s\<lparr>ss_abi_guard := g, ss_memory_capability := Some cap\<rparr>))"

definition store_check_memory_access :: "usize \<Rightarrow> usize \<Rightarrow> 't StoreState \<Rightarrow> AbiViolation + unit" where
  "store_check_memory_access off len s =
     (case ss_memory_capability s of Some cap \<Rightarrow> check_bounds cap off len | None \<Rightarrow> Inr ())"

definition create_shared_buffer ::
  "'t resource_table \<Rightarrow> u8 list \<Rightarrow> 't StoreState \<Rightarrow> (string + u32) \<times> 't StoreState" where
  "create_shared_buffer rt data s =
     (if unat SHARED_BUFFER_MAX_LEN < length data
      then (Inl (''SharedBuffer exceeds maximum size: '' @ dec (length data) @ '' bytes (max ''
              @ dec (unat SHARED_BUFFER_MAX_LEN) @ '')''), s)
      else (case table_push rt (ss_table s) of
              Inl e \<Rightarrow> (Inl e, s)
            | Inr (rep, t) \<Rightarrow>
                (Inr rep, count_transfer (s\<lparr>ss_table := t, ss_shared_buffers := hm_insert rep data (ss_shared_buffers s)\<rparr>))))"

definition get_shared_buffer :: "u32 \<Rightarrow> 't StoreState \<Rightarrow> u8 list option" where
  "get_shared_buffer rep s = hm_get (ss_shared_buffers s) rep"

text \<open>The destructor gives back the attacker contexts; a failing deletion is only logged.\<close>

definition StoreState_drop :: "'t resource_table \<Rightarrow> 't StoreState \<Rightarrow> 't StoreState" where
  "StoreState_drop rt s =
     s\<lparr>ss_table := foldl (\<lambda>t r. case table_delete rt r t of Inl _ \<Rightarrow> t | Inr t' \<Rightarrow> t') (ss_table s) (ss_attacker_contexts s),
       ss_attacker_contexts := [], ss_shared_buffers := []\<rparr>"

section \<open>Shared buffers as the guest sees them\<close>

definition sb_read ::
  "u32 \<Rightarrow> u64 \<Rightarrow> u64 \<Rightarrow> 't StoreState \<Rightarrow> ((u8 list \<times> u64) \<times> 't StoreState) may_panic" where
  "sb_read rep off len s =
     (let read_len = min len SHARED_BUFFER_READ_CHUNK
      in case get_shared_buffer rep s of
           None \<Rightarrow> Some (([], 0), s)
         | Some data \<Rightarrow>
             (let n = of_nat (length data)
              in if n \<le> off then Some (([], n), count_transfer s)
                 else (case ensure_in_bounds off read_len n of
                         Inl _ \<Rightarrow> Some (([], n), s)
                       | Inr _ \<Rightarrow>
                           (case checked_add off read_len of
                              None \<Rightarrow> None
                            | Some e \<Rightarrow> map_option (\<lambda>bs. ((bs, n), count_transfer s)) (slice data off (min e n))))))"

definition sb_len :: "u32 \<Rightarrow> 't StoreState \<Rightarrow> u64" where
  "sb_len rep s = (case get_shared_buffer rep s of Some data \<Rightarrow> of_nat (length data) | None \<Rightarrow> 0)"

definition sb_drop :: "'t resource_table \<Rightarrow> u32 \<Rightarrow> 't StoreState \<Rightarrow> (string + unit) \<times> 't StoreState" where
  "sb_drop rt rep s =
     (let s1 = s\<lparr>ss_shared_buffers := hm_remove rep (ss_shared_buffers s)\<rparr>
      in case table_delete rt rep (ss_table s1) of
           Inl e \<Rightarrow> (Inl e, s1)
         | Inr t \<Rightarrow> (Inr (), s1\<lparr>ss_table := t\<rparr>))"

section \<open>Persistence\<close>

fun sensitivity_to_str :: "Sensitivity \<Rightarrow> string" where
  "sensitivity_to_str Public = ''public''"
| "sensitivity_to_str Internal = ''internal''"
| "sensitivity_to_str PiiMasked = ''pii_masked''"
| "sensitivity_to_str PiiEncrypted = ''pii_encrypted''"

fun masking_display :: "MaskingError \<Rightarrow> string" where
  "masking_display (InvalidSensitivityLevel e) = ''Invalid sensitivity level: '' @ e"
| "masking_display (EncryptionError e) = ''Encryption failed: '' @ e"
| "masking_display (DecryptionError e) = ''Decryption failed: '' @ e"
| "masking_display (KeyError e) = ''Key management error: '' @ e"
| "masking_display (HashingError e) = ''Hashing failed: '' @ e"
| "masking_display (PiiMaskingError e) = ''PII masking failed: '' @ e"

record ExecutionRecord =
  er_storage_id :: string
  er_tenant_id :: string
  er_record_key :: string
  er_payload :: string
  er_sensitivity :: string
  er_created_at :: string

record DataPayload =
  dp_key :: string
  dp_value :: string
  dp_level :: Sensitivity

type_synonym reply = "bool \<times> string \<times> string"

record 'db env =
  env_crypto :: crypto
  env_nonce :: "u8 list"
  env_uuid :: string
  env_now :: string
  env_insert :: "ExecutionRecord \<Rightarrow> 'db \<Rightarrow> string + 'db"

definition insert_record ::
  "'db env \<Rightarrow> string \<Rightarrow> string \<Rightarrow> string \<Rightarrow> string \<Rightarrow> 'db \<Rightarrow> reply \<times> 'db" where
  "insert_record ev tenant_id key data level db =
     (case env_insert ev \<lparr>er_storage_id = env_uuid ev, er_tenant_id = tenant_id, er_record_key = key,
             er_payload = data, er_sensitivity = level, er_created_at = env_now ev\<rparr> db of
        Inr db' \<Rightarrow> ((True, env_uuid ev, env_now ev), db')
      | Inl e \<Rightarrow> ((False, [], ''Persistence failed: '' @ e), db))"

definition abi_refused :: "CanonicalAbiViolation \<Rightarrow> reply" where
  "abi_refused e = (False, [], ''Canonical ABI violation: '' @ abi_violation_display e)"

definition store_transformed ::
  "'db env \<Rightarrow> string \<Rightarrow> string \<Rightarrow> MaskingError + string \<Rightarrow> Sensitivity \<Rightarrow> 'db \<Rightarrow> reply \<times> 'db" where
  "store_transformed ev tenant_id key transformed level db =
     (case transformed of
        Inl e \<Rightarrow> ((False, [], ''Data transformation failed: '' @ masking_display e), db)
      | Inr d \<Rightarrow> insert_record ev tenant_id key d (sensitivity_to_str level) db)"

definition persist :: "'db env \<Rightarrow> DataPayload \<Rightarrow> 't StoreState \<times> 'db \<Rightarrow> reply \<times> 't StoreState \<times> 'db" where
  "persist ev p sd =
     (let (s, db) = sd
      in case validate_string_transfer (dp_key p) 4096 (ss_canonical_guard s) of
           (Inl e, g) \<Rightarrow> (abi_refused e, s\<lparr>ss_canonical_guard := g\<rparr>, db)
         | (Inr _, g) \<Rightarrow>
             (case validate_string_transfer (dp_value p) (1024 * 1024) g of
                (Inl e, g') \<Rightarrow> (abi_refused e, s\<lparr>ss_canonical_guard := g'\<rparr>, db)
              | (Inr _, g') \<Rightarrow>
                  (let (r, db') = store_transformed ev (ss_tenant_id s) (dp_key p)
                         (transform_data_owned (env_crypto ev) (env_nonce ev) (ss_masking_engine s) (dp_value p) (dp_level p))
                         (dp_level p) db
                   in (r, s\<lparr>ss_canonical_guard := g'\<rparr>, db'))))"

definition persist_buffer ::
  "'db env \<Rightarrow> string \<Rightarrow> u32 \<Rightarrow> Sensitivity \<Rightarrow> 't StoreState \<times> 'db \<Rightarrow> reply \<times> 't StoreState \<times> 'db" where
  "persist_buffer ev key rep level sd =
     (let (s, db) = sd
      in case validate_string_transfer key 4096 (ss_canonical_guard s) of
           (Inl e, g) \<Rightarrow> (abi_refused e, s\<lparr>ss_canonical_guard := g\<rparr>, db)
         | (Inr _, g) \<Rightarrow>
             (let s1 = s\<lparr>ss_canonical_guard := g\<rparr>
              in case get_shared_buffer rep s1 of
                   None \<Rightarrow> ((False, [], ''SharedBuffer resource not found''), s1, db)
                 | Some data \<Rightarrow>
                     if unat SHARED_BUFFER_MAX_LEN < length data
                     then ((False, [], ''SharedBuffer payload exceeds maximum: '' @ dec (length data) @ '' bytes''), s1, db)
                     else (let (r, db') = store_transformed ev (ss_tenant_id s1) key
                                 (transform_bytes (env_crypto ev) (env_nonce ev) (ss_masking_engine s1) data level) level db
                           in (r, s1, db'))))"

definition retrieve :: "string \<Rightarrow> Sensitivity \<Rightarrow> 't StoreState \<Rightarrow> (DataPayload option \<times> bool) \<times> 't StoreState" where
  "retrieve key clearance s =
     (case validate_string_transfer key 4096 (ss_canonical_guard s) of
        (Inl _, g) \<Rightarrow> ((None, False), s\<lparr>ss_canonical_guard := g\<rparr>)
      | (Inr _, g) \<Rightarrow>
          (let auth = (clearance \<noteq> Public)
           in ((if auth then Some \<lparr>dp_key = key, dp_value = ''simulated_retrieved_value_from_host'', dp_level = clearance\<rparr>
                else None, auth), s\<lparr>ss_canonical_guard := g\<rparr>)))"

definition store_delete :: "string \<Rightarrow> Sensitivity \<Rightarrow> 't StoreState \<Rightarrow> (bool \<times> bool) \<times> 't StoreState" where
  "store_delete key clearance s =
     (case validate_string_transfer key 4096 (ss_canonical_guard s) of
        (Inl _, g) \<Rightarrow> ((False, False), s\<lparr>ss_canonical_guard := g\<rparr>)
      | (Inr _, g) \<Rightarrow> ((clearance \<noteq> Public, clearance \<noteq> Public), s\<lparr>ss_canonical_guard := g\<rparr>))"

definition store_audit :: "string \<Rightarrow> Sensitivity \<Rightarrow> 't StoreState \<Rightarrow> (string list \<times> bool) \<times> 't StoreState" where
  "store_audit key clearance s =
     (case validate_string_transfer key 4096 (ss_canonical_guard s) of
        (Inl _, g) \<Rightarrow> (([], False), s\<lparr>ss_canonical_guard := g\<rparr>)
      | (Inr _, g) \<Rightarrow>
          (let auth = (clearance = Internal \<or> clearance = PiiEncrypted)
           in ((if auth then [''2026-03-29T10:00:00Z - DATA_CREATED'', ''2026-03-29T11:30:00Z - DATA_ACCESSED by user:auditor'']
                else [], auth), s\<lparr>ss_canonical_guard := g\<rparr>)))"

section \<open>Engine configuration and memory limit\<close>

record SecureRuntimeConfig =
  max_fuel :: u64
  epoch_interruption :: bool
  epoch_deadline :: u64
  execution_timeout_secs :: u64
  src_max_memory_size :: usize
  initial_memory_pages :: u32
  max_memory_pages :: u32
  pool_size :: u32

definition SecureRuntimeConfig_default :: SecureRuntimeConfig where
  "SecureRuntimeConfig_default =
     \<lparr>max_fuel = SIS_FUEL_QUOTA, epoch_interruption = True, epoch_deadline = 100, execution_timeout_secs = 30,
      src_max_memory_size = ucast (4096 :: u32) * 64 * 1024, initial_memory_pages = 512, max_memory_pages = 4096,
      pool_size = 500\<rparr>"

definition WASM_PAGE_SIZE_BYTES :: u64 where
  "WASM_PAGE_SIZE_BYTES = 64 * 1024"

record EngineConfig =
  ec_component_model :: bool
  ec_async_support :: bool
  ec_consume_fuel :: bool
  ec_memory64 :: bool
  ec_tail_call :: bool
  ec_guard_size :: u64
  ec_epoch_interruption :: bool
  ec_total_component_instances :: u32
  ec_max_core_instances_per_component :: u32
  ec_total_memories :: u32
  ec_max_memories_per_component :: u32
  ec_max_memory_size :: usize

definition SecureWasmEngine_new :: "SecureRuntimeConfig \<Rightarrow> EngineConfig" where
  "SecureWasmEngine_new c =
     \<lparr>ec_component_model = True, ec_async_support = True, ec_consume_fuel = True, ec_memory64 = False,
      ec_tail_call = True, ec_guard_size = 4 * 1024 * 1024, ec_epoch_interruption = True,
      ec_total_component_instances = pool_size c, ec_max_core_instances_per_component = 5,
      ec_total_memories = pool_size c, ec_max_memories_per_component = 5,
      ec_max_memory_size = ucast (max_memory_pages c) * WASM_PAGE_SIZE_BYTES\<rparr>"

definition MAX_INSTANCE_MEMORY_BYTES :: usize where
  "MAX_INSTANCE_MEMORY_BYTES = 256 * 1024 * 1024"

definition MemoryResourceLimiter_new :: "usize \<Rightarrow> MemoryResourceLimiter" where
  "MemoryResourceLimiter_new n = \<lparr>mrl_max_memory_bytes = n\<rparr>"

definition default_256mb :: MemoryResourceLimiter where
  "default_256mb = MemoryResourceLimiter_new MAX_INSTANCE_MEMORY_BYTES"

definition memory_growing :: "MemoryResourceLimiter \<Rightarrow> usize \<Rightarrow> usize \<Rightarrow> usize option \<Rightarrow> bool" where
  "memory_growing l current desired maximum = (if mrl_max_memory_bytes l < desired then False else True)"

definition table_growing :: "MemoryResourceLimiter \<Rightarrow> u32 \<Rightarrow> u32 \<Rightarrow> u32 option \<Rightarrow> bool" where
  "table_growing l current desired maximum = True"

section \<open>The guard and the shared buffers\<close>

lemma unat_buffer_max [simp]: "unat SHARED_BUFFER_MAX_LEN = 16777216"
  by (simp add: SHARED_BUFFER_MAX_LEN_def)

lemma unat_read_chunk [simp]: "unat SHARED_BUFFER_READ_CHUNK = 65536"
  by (simp add: SHARED_BUFFER_READ_CHUNK_def)

lemma unat_of_nat_small: "n < 2 ^ 64 \<Longrightarrow> unat (of_nat n :: u64) = n"
  by (simp add: unsigned_of_nat take_bit_nat_eq_self)

lemma unat_min: "unat (min a b) = min (unat a) (unat b)" for a b :: "'a::len word"
  by (simp add: min_def word_le_nat_alt)

text \<open>
  \<open>ensure_in_bounds\<close> saturates instead of wrapping around, so it accepts exactly the accesses
  that end in the buffer, unless the capacity is the greatest number of 64 bits.
\<close>

lemma ensure_in_bounds_iff:
  assumes "capacity \<noteq> - 1"
  shows "is_ok (ensure_in_bounds off len capacity) \<longleftrightarrow> unat off + unat len \<le> unat capacity"
proof -
  have "unat capacity \<noteq> unat (- 1 :: u64)" using assms by (simp only: word_unat_eq_iff [symmetric] not_False_eq_True)
  then have "unat capacity < 18446744073709551615"
    using unat_u64_lt [of capacity] by (simp add: unat_minus_one_word_max)
  then show ?thesis
    by (auto simp: ensure_in_bounds_def word_less_nat_alt not_less unat_saturating_add)
qed

lemma sb_read_spec:
  assumes "get_shared_buffer rep s = Some data" "length data \<le> 16777216" "m = min (unat len) 65536"
  shows "map_option fst (sb_read rep off len s) =
     Some (if unat off + m \<le> length data then take m (drop (unat off) data) else [], of_nat (length data))"
proof -
  let ?n = "of_nat (length data) :: u64" and ?r = "min len SHARED_BUFFER_READ_CHUNK"
  have n: "unat ?n = length data" using assms(2) by (intro unat_of_nat_small) simp
  have r: "unat ?r = m" by (simp add: unat_min assms(3))
  have "?n \<noteq> - 1" using n assms(2) by (auto simp: unat_minus_one_word_max)
  note b = ensure_in_bounds_iff [OF this, of off ?r, unfolded n r]
  consider (past) "?n \<le> off" | (inside) "off < ?n" "unat off + m \<le> length data"
    | (over) "off < ?n" "length data < unat off + m" by force
  then show ?thesis
  proof cases
    case past
    then have "length data \<le> unat off" by (simp add: word_le_nat_alt n)
    with past show ?thesis by (simp add: sb_read_def Let_def assms(1))
  next
    case inside
    then obtain e where e: "checked_add off ?r = Some e" "unat e = unat off + m"
      using assms(2) r by (cases "checked_add off ?r") (auto simp: checked_add_None_iff checked_add_Some_iff)
    from inside b have "ensure_in_bounds off ?r ?n = Inr ()" by (cases "ensure_in_bounds off ?r ?n") auto
    moreover have "slice data off (min e ?n) = Some (take m (drop (unat off) data))"
      using inside(2) by (simp add: slice_def word_le_nat_alt unat_min n e(2) min_absorb1)
    ultimately show ?thesis using inside e(1)
      by (simp add: sb_read_def Let_def assms(1) not_le [symmetric] word_le_nat_alt n)
  next
    case over
    then obtain t where "ensure_in_bounds off ?r ?n = Inl t" using b by (cases "ensure_in_bounds off ?r ?n") auto
    with over show ?thesis by (simp add: sb_read_def Let_def assms(1))
  qed
qed

lemma sb_read_buffers:
  "sb_read rep off len s = Some (r, s') \<Longrightarrow> ss_shared_buffers s' = ss_shared_buffers s"
  by (auto simp: sb_read_def Let_def count_transfer_def split: option.splits if_splits sum.splits)

text \<open>
  A guest that reads a buffer in pieces of \<open>len\<close> bytes, advancing by what it got, until a
  read returns nothing.
\<close>

fun read_all :: "nat \<Rightarrow> u32 \<Rightarrow> u64 \<Rightarrow> u64 \<Rightarrow> 't StoreState \<Rightarrow> u8 list may_panic" where
  "read_all 0 rep len off s = Some []"
| "read_all (Suc n) rep len off s =
     (case sb_read rep off len s of
        None \<Rightarrow> None
      | Some ((bs, _), s') \<Rightarrow>
          if bs = [] then Some []
          else map_option ((@) bs) (read_all n rep len (off + of_nat (length bs)) s'))"

lemma read_all_from:
  assumes "get_shared_buffer rep s = Some data" "length data \<le> 16777216" "0 < c" "c \<le> 65536"
    and "o' \<le> length data" "(length data - o') div c < fuel"
  shows "read_all fuel rep (of_nat c) (of_nat o') s = Some (take ((length data - o') div c * c) (drop o' data))"
  using assms
proof (induction fuel arbitrary: o' s)
  case (Suc fuel)
  have u: "unat (of_nat c :: u64) = c" "unat (of_nat o' :: u64) = o'"
    using Suc.prems by (simp_all add: unat_of_nat_small)
  from sb_read_spec [OF Suc.prems(1,2) refl, of "of_nat o'" "of_nat c"] obtain s' where
    r: "sb_read rep (of_nat o') (of_nat c) s =
          Some ((if o' + c \<le> length data then take c (drop o' data) else [], of_nat (length data)), s')"
    using Suc.prems(4) unfolding u by (auto simp: min_absorb1)
  from sb_read_buffers [OF r] Suc.prems(1) have g: "get_shared_buffer rep s' = Some data"
    by (simp add: get_shared_buffer_def)
  show ?case
  proof (cases "o' + c \<le> length data")
    case True
    define k where "k = (length data - (o' + c)) div c"
    have "length data - o' = (length data - (o' + c)) + c" using True by simp
    then have k: "(length data - o') div c = Suc k" using Suc.prems(3) unfolding k_def by (metis div_add_self2 nat_neq_iff Suc_eq_plus1)
    have f: "k < fuel" using Suc.prems(6) k by simp
    have ih: "read_all fuel rep (of_nat (c)) (of_nat (o' + c)) s' = Some (take (k * c) (drop (o' + c) data))"
      using Suc.IH [OF g Suc.prems(2-4) True f [unfolded k_def]] unfolding k_def .
    have l: "length (take c (drop o' data)) = c" "take c (drop o' data) \<noteq> []" using True Suc.prems(3) by auto
    have t: "take (c + k * c) (drop o' data) = take c (drop o' data) @ take (k * c) (drop (o' + c) data)"
      by (simp add: take_add add.commute)
    have "read_all (Suc fuel) rep (of_nat c) (of_nat o') s =
        map_option ((@) (take c (drop o' data))) (read_all fuel rep (of_nat c) (of_nat o' + of_nat c) s')"
      using r True l by simp
    then show ?thesis using ih t unfolding k by simp
  next
    case False
    then have "(length data - o') div c = 0" using Suc.prems(3) by (intro div_less) linarith
    with False show ?thesis using r by simp
  qed
qed simp

text \<open>
  A guest that reads a new buffer in pieces of \<open>c\<close> bytes gets the pieces that are
  complete and nothing of the rest: a read that would pass the end returns no bytes at all.
  The whole buffer comes back exactly if its length is a multiple of \<open>c\<close>.
\<close>

theorem chunked_read:
  assumes "create_shared_buffer rt data s = (Inr rep, s')"
    and "0 < c" "c \<le> 65536" "length data div c < fuel"
  shows "read_all fuel rep (of_nat c) 0 s' = Some (take (length data - length data mod c) data)"
proof -
  have "length data \<le> 16777216"
    using assms(1) by (auto simp: create_shared_buffer_def split: if_splits)
  moreover have "get_shared_buffer rep s' = Some data"
    using assms(1) by (auto simp: create_shared_buffer_def get_shared_buffer_def count_transfer_def hm.get_insert
        split: if_splits sum.splits)
  ultimately show ?thesis
    using read_all_from [of rep s' data c 0 fuel] assms(2-4) by (simp add: minus_mod_eq_div_mult)
qed

text \<open>A table of four entries for the concrete runs below: the numbers in use; a new entry takes the first free one.\<close>

definition small_table :: "u32 list resource_table" where
  "small_table =
     \<lparr>table_push = (\<lambda>live. case find (\<lambda>r. r \<notin> set live) [0, 1, 2, 3] of None \<Rightarrow> Inl ''full'' | Some r \<Rightarrow> Inr (r, r # live)),
      table_delete = (\<lambda>r live. if r \<in> set live then Inr (removeAll r live) else Inl ''not present'')\<rparr>"

definition sample_store :: "MaskingEngine \<Rightarrow> u32 list StoreState" where
  "sample_store me =
     \<lparr>ss_table = [], ss_attacker_contexts = [], ss_abi_guard = AbiGuard_new True True,
      ss_memory_capability = None, ss_canonical_guard = CanonicalAbiGuard_new True, ss_tenant_id = ''t1'',
      ss_shared_buffers = [], ss_resource_limiter = default_256mb, ss_masking_engine = me\<rparr>"

theorem chunked_read_witness:
  "\<exists>s'. create_shared_buffer small_table [1, 2, 3, 4, 5] (sample_store \<lparr>encryption_key = None\<rparr>) = (Inr 0, s')
     \<and> read_all 9 0 2 0 s' = Some [1, 2, 3, 4] \<and> read_all 9 0 5 0 s' = Some [1, 2, 3, 4, 5]"
proof -
  obtain s' where c: "create_shared_buffer small_table [1, 2, 3, 4, 5] (sample_store \<lparr>encryption_key = None\<rparr>) = (Inr 0, s')"
    by (simp add: create_shared_buffer_def small_table_def sample_store_def SHARED_BUFFER_MAX_LEN_def)
  from chunked_read [OF c, of 2 9] chunked_read [OF c, of 5 9] c show ?thesis by simp
qed

section \<open>Buffers and the resource table\<close>

text \<open>
  What the host relies on: a new entry gets a number that is not in use, and only the number
  deleted goes out of use.
\<close>

definition table_laws :: "'t resource_table \<Rightarrow> ('t \<Rightarrow> u32 set) \<Rightarrow> bool" where
  "table_laws rt live \<longleftrightarrow>
     (\<forall>t rep t'. table_push rt t = Inr (rep, t') \<longrightarrow> rep \<notin> live t \<and> live t' = insert rep (live t))
   \<and> (\<forall>t rep t'. table_delete rt rep t = Inr t' \<longrightarrow> live t' = live t - {rep})"

definition store_inv :: "('t \<Rightarrow> u32 set) \<Rightarrow> 't StoreState \<Rightarrow> bool" where
  "store_inv live s \<longleftrightarrow>
     (\<forall>rep data. get_shared_buffer rep s = Some data \<longrightarrow> rep \<in> live (ss_table s) \<and> length data \<le> unat SHARED_BUFFER_MAX_LEN)"

datatype guest_op =
    CreateBuffer "u8 list"
  | ReadBuffer u32 u64 u64
  | DropBuffer u32
  | PersistString DataPayload
  | PersistBuffer string u32 Sensitivity

fun guest_step ::
  "'t resource_table \<Rightarrow> 'db env \<Rightarrow> guest_op \<Rightarrow> 't StoreState \<times> 'db \<Rightarrow> ('t StoreState \<times> 'db) may_panic" where
  "guest_step rt ev (CreateBuffer data) (s, db) = Some (snd (create_shared_buffer rt data s), db)"
| "guest_step rt ev (ReadBuffer rep off len) (s, db) = map_option (\<lambda>r. (snd r, db)) (sb_read rep off len s)"
| "guest_step rt ev (DropBuffer rep) (s, db) = Some (snd (sb_drop rt rep s), db)"
| "guest_step rt ev (PersistString p) sd = Some (snd (persist ev p sd))"
| "guest_step rt ev (PersistBuffer key rep level) sd = Some (snd (persist_buffer ev key rep level sd))"

lemma persist_store:
  "fst (snd (persist ev p (s, db))) = s\<lparr>ss_canonical_guard := ss_canonical_guard (fst (snd (persist ev p (s, db))))\<rparr>"
  by (simp add: persist_def Let_def split: sum.split prod.split)

lemma persist_buffer_store:
  "fst (snd (persist_buffer ev k rep l (s, db))) =
   s\<lparr>ss_canonical_guard := ss_canonical_guard (fst (snd (persist_buffer ev k rep l (s, db))))\<rparr>"
  by (simp add: persist_buffer_def Let_def split: sum.split prod.split option.split)

definition lawful_store :: "'t resource_table \<Rightarrow> ('t \<Rightarrow> u32 set) \<Rightarrow> 't StoreState \<times> 'db \<Rightarrow> bool" where
  "lawful_store rt live sd \<longleftrightarrow> table_laws rt live \<and> store_inv live (fst sd)"

lemma store_inv_cong:
  "store_inv live s \<Longrightarrow> ss_shared_buffers s' = ss_shared_buffers s \<Longrightarrow> ss_table s' = ss_table s \<Longrightarrow> store_inv live s'"
  by (simp add: store_inv_def get_shared_buffer_def)

lemma sb_read_table: "sb_read rep off len s = Some (r, s') \<Longrightarrow> ss_table s' = ss_table s"
  by (auto simp: sb_read_def Let_def count_transfer_def split: option.splits if_splits sum.splits)

lemma sb_read_total: "store_inv live s \<Longrightarrow> sb_read rep off len s \<noteq> None"
proof (cases "get_shared_buffer rep s")
  case (Some data)
  assume "store_inv live s"
  with Some have "length data \<le> 16777216" by (auto simp: store_inv_def)
  from sb_read_spec [OF Some this refl, of off len] show ?thesis by auto
qed (simp add: sb_read_def Let_def)

lemma store_inv_create:
  assumes "table_laws rt live" "store_inv live s"
  shows "store_inv live (snd (create_shared_buffer rt data s))"
proof (cases "unat SHARED_BUFFER_MAX_LEN < length data")
  case False
  show ?thesis
  proof (cases "table_push rt (ss_table s)")
    case (Inr p)
    obtain rep t where p: "p = (rep, t)" by (cases p)
    with assms(1) Inr have "live t = insert rep (live (ss_table s))" unfolding table_laws_def by blast
    with assms(2) False Inr p show ?thesis
      by (auto simp: create_shared_buffer_def store_inv_def get_shared_buffer_def count_transfer_def hm.get_insert
          not_less)
  qed (use assms(2) False in \<open>simp add: create_shared_buffer_def\<close>)
qed (use assms(2) in \<open>simp add: create_shared_buffer_def\<close>)

lemma store_inv_drop:
  assumes "table_laws rt live" "store_inv live s"
  shows "store_inv live (snd (sb_drop rt rep s))"
proof (cases "table_delete rt rep (ss_table s)")
  case (Inl e)
  with assms(2) show ?thesis by (auto simp: sb_drop_def Let_def store_inv_def get_shared_buffer_def hm.get_remove)
next
  case (Inr t)
  with assms(1) have "live t = live (ss_table s) - {rep}" unfolding table_laws_def by blast
  with assms(2) Inr show ?thesis
    by (auto simp: sb_drop_def Let_def store_inv_def get_shared_buffer_def hm.get_remove)
qed

interpretation gsm: total_machine "guest_step rt ev" "lawful_store rt live"
  for rt :: "'t resource_table" and ev :: "'db env" and live :: "'t \<Rightarrow> u32 set"
proof
  fix sd :: "'t StoreState \<times> 'db" and op and sd'
  assume inv: "lawful_store rt live sd" and step: "guest_step rt ev op sd = Some sd'"
  obtain s db where sd: "sd = (s, db)" by (cases sd)
  from inv sd have l: "table_laws rt live" "store_inv live s" by (simp_all add: lawful_store_def)
  have "store_inv live (fst sd')"
  proof (cases op)
    case (CreateBuffer data)
    with step sd store_inv_create [OF l] show ?thesis by auto
  next
    case (ReadBuffer rep off len)
    with step sd obtain r s' where r: "sb_read rep off len s = Some (r, s')" "fst sd' = s'" by auto
    from store_inv_cong [OF l(2) sb_read_buffers [OF r(1)] sb_read_table [OF r(1)]] r(2) show ?thesis by simp
  next
    case (DropBuffer rep)
    with step sd store_inv_drop [OF l] show ?thesis by auto
  next
    case (PersistString p)
    with step sd persist_store [of ev p s db] show ?thesis
      by (intro store_inv_cong [OF l(2)]) (auto dest: arg_cong [where f = ss_shared_buffers] arg_cong [where f = ss_table])
  next
    case (PersistBuffer key rep level)
    with step sd persist_buffer_store [of ev key rep level s db] show ?thesis
      by (intro store_inv_cong [OF l(2)]) (auto dest: arg_cong [where f = ss_shared_buffers] arg_cong [where f = ss_table])
  qed
  with l(1) show "lawful_store rt live sd'" by (simp add: lawful_store_def)
next
  fix sd :: "'t StoreState \<times> 'db" and op
  assume inv: "lawful_store rt live sd"
  obtain s db where sd: "sd = (s, db)" by (cases sd)
  show "guest_step rt ev op sd \<noteq> None"
  proof (cases op)
    case (ReadBuffer rep off len)
    with inv sd sb_read_total [of live s] show ?thesis by (auto simp: lawful_store_def)
  qed (simp_all add: sd)
qed

lemma persist_frame:
  "ss_shared_buffers (fst (snd (persist ev p (s, db)))) = ss_shared_buffers s"
  "ss_shared_buffers (fst (snd (persist_buffer ev k rep l (s, db)))) = ss_shared_buffers s"
  using arg_cong [OF persist_store, of ss_shared_buffers ev p s db]
    arg_cong [OF persist_buffer_store, of ss_shared_buffers ev k rep l s db] by simp_all

lemma buffer_kept_step:
  assumes "lawful_store rt live sd" "get_shared_buffer rep (fst sd) = Some data" "op \<noteq> DropBuffer rep"
    and "guest_step rt ev op sd = Some sd'"
  shows "get_shared_buffer rep (fst sd') = Some data"
proof -
  obtain s db where sd: "sd = (s, db)" by (cases sd)
  show ?thesis
  proof (cases op)
    case (CreateBuffer d)
    show ?thesis
    proof (cases "table_push rt (ss_table s)")
      case (Inr p)
      obtain r t where p: "p = (r, t)" by (cases p)
      with assms(1) Inr have "r \<notin> live (ss_table s)" unfolding lawful_store_def table_laws_def by blast
      moreover have "rep \<in> live (ss_table s)" using assms(1,2) sd by (auto simp: lawful_store_def store_inv_def)
      ultimately show ?thesis using CreateBuffer Inr p assms(2,4) sd
        by (auto simp: create_shared_buffer_def get_shared_buffer_def count_transfer_def hm.get_insert)
    qed (use CreateBuffer assms(2,4) sd in \<open>auto simp: create_shared_buffer_def\<close>)
  next
    case (ReadBuffer r off len)
    with assms(4) sd obtain x s' where "sb_read r off len s = Some (x, s')" "fst sd' = s'" by auto
    with sb_read_buffers assms(2) sd show ?thesis by (fastforce simp: get_shared_buffer_def)
  next
    case (DropBuffer r)
    with assms(2-4) sd show ?thesis
      by (auto simp: sb_drop_def Let_def get_shared_buffer_def hm.get_remove split: sum.splits)
  next
    case (PersistString p)
    with assms(2,4) sd show ?thesis by (auto simp: get_shared_buffer_def persist_frame)
  next
    case (PersistBuffer k r l)
    with assms(2,4) sd show ?thesis by (auto simp: get_shared_buffer_def persist_frame)
  qed
qed


lemma small_table_laws: "table_laws small_table set"
  by (auto simp: table_laws_def small_table_def find_Some_iff split: option.splits if_splits)

definition list_env :: "ExecutionRecord list env" where
  "list_env = \<lparr>env_crypto = toy_crypto, env_nonce = replicate 12 7, env_uuid = ''u1'', env_now = ''now'',
     env_insert = (\<lambda>r db. Inr (r # db))\<rparr>"

lemma list_env_simps:
  "env_crypto list_env = toy_crypto" "env_nonce list_env = replicate 12 7" "env_insert list_env = (\<lambda>r db. Inr (r # db))"
  by (simp_all add: list_env_def)


section \<open>What is stored\<close>

definition stored_row :: "'db env \<Rightarrow> 't StoreState \<Rightarrow> string \<Rightarrow> string \<Rightarrow> Sensitivity \<Rightarrow> ExecutionRecord" where
  "stored_row ev s key d l =
     \<lparr>er_storage_id = env_uuid ev, er_tenant_id = ss_tenant_id s, er_record_key = key, er_payload = d,
      er_sensitivity = sensitivity_to_str l, er_created_at = env_now ev\<rparr>"

lemma store_transformed_cases:
  assumes "store_transformed ev (ss_tenant_id s) key tr l db = (r, db')"
  obtains (kept) "db' = db" "\<not> fst r"
  | (row) d where "tr = Inr d" "fst r" "env_insert ev (stored_row ev s key d l) db = Inr db'"
  using assms by (auto simp: store_transformed_def insert_record_def stored_row_def split: sum.splits)

lemma persist_cases:
  assumes "persist ev p (s, db) = (r, s', db')"
  obtains (refused) "db' = db" "\<not> fst r"
  | (tried) "store_transformed ev (ss_tenant_id s) (dp_key p)
       (transform_data_owned (env_crypto ev) (env_nonce ev) (ss_masking_engine s) (dp_value p) (dp_level p))
       (dp_level p) db = (r, db')"
  using assms by (auto simp: persist_def Let_def abi_refused_def split: sum.splits prod.splits)

text \<open>
  An upload that reports success has inserted one row, which belongs to the tenant of the
  store and carries a digest of the value at level \<open>PiiMasked\<close>, what the engine decrypts to the
  value at level \<open>PiiEncrypted\<close>, and the value itself otherwise; an upload that reports failure
  has left the database as it was.
\<close>

theorem persist_stores_transformed:
  assumes "persist ev p (s, db) = (r, s', db')"
    and "crypto_laws (env_crypto ev)" "length (env_nonce ev) = 12" "utf8_valid (bytes_of (dp_value p))"
  shows "if fst r
     then \<exists>d. env_insert ev (stored_row ev s (dp_key p) d (dp_level p)) db = Inr db'
        \<and> (case dp_level p of
             PiiMasked \<Rightarrow> d = hex_encode (env_crypto ev) (sha256 (env_crypto ev) (bytes_of (dp_value p)))
           | PiiEncrypted \<Rightarrow> decrypt_data (env_crypto ev) (ss_masking_engine s) d = Inr (dp_value p)
           | _ \<Rightarrow> d = dp_value p)
     else db' = db"
  using assms(1)
proof (cases rule: persist_cases)
  case tried
  then show ?thesis
  proof (cases rule: store_transformed_cases)
    case (row d)
    have "case dp_level p of
             PiiMasked \<Rightarrow> d = hex_encode (env_crypto ev) (sha256 (env_crypto ev) (bytes_of (dp_value p)))
           | PiiEncrypted \<Rightarrow> decrypt_data (env_crypto ev) (ss_masking_engine s) d = Inr (dp_value p)
           | _ \<Rightarrow> d = dp_value p"
      using row(1) decrypt_encrypted [OF assms(2-4), of "ss_masking_engine s" d]
      by (cases "dp_level p") (auto simp: transform_data_owned_def hash_data_def)
    with row show ?thesis by auto
  qed simp
qed simp

theorem persist_stores_transformed_witness:
  "let s = sample_store \<lparr>encryption_key = Some (replicate 32 1)\<rparr>;
       p = \<lparr>dp_key = ''k'', dp_value = ''id 4'', dp_level = PiiEncrypted\<rparr>
   in \<exists>r s' db' d. persist list_env p (s, []) = (r, s', db') \<and> fst r
        \<and> db' = [stored_row list_env s ''k'' d PiiEncrypted] \<and> decrypt_data toy_crypto (ss_masking_engine s) d = Inr ''id 4''"
proof -
  let ?s = "sample_store \<lparr>encryption_key = Some (replicate 32 1)\<rparr>"
    and ?p = "\<lparr>dp_key = ''k'', dp_value = ''id 4'', dp_level = PiiEncrypted\<rparr>"
  obtain r s' db' where e: "persist list_env ?p (?s, []) = (r, s', db')" by (metis prod_cases3)
  then have ok: "fst r"
    by (auto simp: persist_def validate_string_transfer_def record_compliant_transfer_def sample_store_def
        CanonicalAbiGuard_new_def store_transformed_def transform_data_owned_def encrypt_data_def list_env_def toy_crypto_def
        insert_record_def Let_def)
  have u: "utf8_valid (bytes_of (dp_value ?p))" by code_simp
  from persist_stores_transformed [OF e _ _ u] ok obtain d where
    "db' = [stored_row list_env ?s ''k'' d PiiEncrypted]" "decrypt_data toy_crypto (ss_masking_engine ?s) d = Inr ''id 4''"
    by (auto simp: list_env_simps toy_crypto_laws)
  with e ok show ?thesis unfolding Let_def by blast
qed

text \<open>
  The two ways to upload agree: a buffer that holds a text of at most one megabyte is
  stored, or refused, exactly as the text itself is, at every level.
\<close>

theorem persist_buffer_equiv:
  assumes "get_shared_buffer rep s = Some (bytes_of d)" "utf8_valid (bytes_of d)" "length d \<le> 1024 * 1024"
  shows "let a = persist_buffer ev key rep level (s, db);
             b = persist ev \<lparr>dp_key = key, dp_value = d, dp_level = level\<rparr> (s, db)
         in fst a = fst b \<and> snd (snd a) = snd (snd b)"
proof -
  have len: "\<not> (1024 * 1024 :: usize) < of_nat (length d)"
    using assms(3) by (simp add: word_less_nat_alt unat_of_nat_small)
  have tr: "transform_bytes cr nonce me (bytes_of d) level = transform_data_owned cr nonce me d level" for cr nonce me
    by (simp add: transform_bytes_eq assms(2) transform_owned_eq)
  have l: "\<not> 16777216 < length (bytes_of d)" using assms(3) by (simp add: bytes_of_def)
  have g: "get_shared_buffer rep (s\<lparr>ss_canonical_guard := g\<rparr>) = Some (bytes_of d)" for g
    using assms(1) by (simp add: get_shared_buffer_def)
  obtain k g1 where k: "validate_string_transfer key 4096 (ss_canonical_guard s) = (k, g1)" by fastforce
  obtain g2 where v: "validate_string_transfer d (1024 * 1024) g1 = (Inr (), g2)"
    using len by (cases "cag_enabled g1") (simp_all add: validate_string_transfer_def)
  show ?thesis
  proof (cases k)
    case (Inl e)
    then show ?thesis by (simp add: persist_buffer_def persist_def k)
  next
    case (Inr u)
    then show ?thesis using v by (simp add: persist_buffer_def persist_def k g l tr Let_def split: prod.split)
  qed
qed

theorem persist_buffer_equiv_witness:
  "let s = (sample_store \<lparr>encryption_key = None\<rparr>)\<lparr>ss_shared_buffers := [(3, bytes_of ''abc'')]\<rparr>
   in fst (persist_buffer list_env ''k'' 3 PiiMasked (s, []))
      = fst (persist list_env \<lparr>dp_key = ''k'', dp_value = ''abc'', dp_level = PiiMasked\<rparr> (s, []))"
proof -
  have "utf8_valid (bytes_of ''abc'')" by code_simp
  then show ?thesis
    using persist_buffer_equiv [of 3 "(sample_store \<lparr>encryption_key = None\<rparr>)\<lparr>ss_shared_buffers := [(3, bytes_of ''abc'')]\<rparr>"
        "''abc''" list_env "''k''" PiiMasked "[]"]
    by (simp add: Let_def get_shared_buffer_def hm_get_def)
qed

text \<open>
  What is uploaded is never read back: for an accepted key the answer of \<open>retrieve\<close> depends
  on the clearance alone and is the same constant after any uploads, every clearance but
  \<open>Public\<close> is let through, whatever the level of the record, and \<open>delete\<close> reports success
  without touching the database.
\<close>

theorem retrieve_is_simulated:
  assumes "run (guest_step rt ev) ops (s, db) = Some (s', db')" "length key \<le> 4096"
  shows "fst (retrieve key clearance s') =
      (if clearance = Public then (None, False)
       else (Some \<lparr>dp_key = key, dp_value = ''simulated_retrieved_value_from_host'', dp_level = clearance\<rparr>, True))
   \<and> fst (store_delete key clearance s') = (clearance \<noteq> Public, clearance \<noteq> Public)"
proof -
  have "\<not> (4096 :: usize) < of_nat (length key)" using assms(2) by (simp add: word_less_nat_alt unat_of_nat_small)
  then obtain g where "validate_string_transfer key 4096 (ss_canonical_guard s') = (Inr (), g)"
    by (cases "cag_enabled (ss_canonical_guard s')") (simp_all add: validate_string_transfer_def)
  then show ?thesis by (simp add: retrieve_def store_delete_def Let_def)
qed

theorem retrieve_is_simulated_witness:
  "let p = \<lparr>dp_key = ''k'', dp_value = ''v'', dp_level = Internal\<rparr>; s = sample_store \<lparr>encryption_key = None\<rparr>
   in \<exists>s' db'. run (guest_step small_table list_env) [PersistString p] (s, []) = Some (s', db')
        \<and> fst (retrieve ''k'' Internal s') = (Some (p\<lparr>dp_value := ''simulated_retrieved_value_from_host''\<rparr>), True)"
proof -
  let ?p = "\<lparr>dp_key = ''k'', dp_value = ''v'', dp_level = Internal\<rparr>" and ?s = "sample_store \<lparr>encryption_key = None\<rparr>"
  obtain s' db' where r: "run (guest_step small_table list_env) [PersistString ?p] (?s, []) = Some (s', db')" by fastforce
  from retrieve_is_simulated [OF r, of "''k''" Internal] r show ?thesis unfolding Let_def by fastforce
qed

text \<open>The labels written to the database for the personal levels are not those the masking module parses.\<close>

lemma stored_level_readable_iff:
  "sensitivity_try_from (sensitivity_to_str l) = Inr l \<longleftrightarrow> l = Public \<or> l = Internal"
  by (cases l) (simp_all add: sensitivity_try_from_def)

section \<open>Limits\<close>

lemma nat_pow2_iff: "0 < n \<Longrightarrow> n AND (n - 1) = 0 \<longleftrightarrow> (\<exists>k. n = 2 ^ k)" for n :: nat
proof (induction n rule: less_induct)
  case (less n)
  show ?case
  proof (cases "even n")
    case True
    then obtain j where j: "n = 2 * j" by blast
    then have "0 < j" "j < n" using less.prems by simp_all
    have "(2 * j - 1) div 2 = j - 1" using \<open>0 < j\<close> by simp
    then have "n AND (n - 1) = 2 * (j AND (j - 1))" using j by (simp add: and_nat_rec [of "2 * j"])
    moreover have "(\<exists>k. n = 2 ^ k) \<longleftrightarrow> (\<exists>k. j = 2 ^ k)"
    proof
      assume "\<exists>k. n = 2 ^ k"
      then obtain k where k: "2 * j = 2 ^ k" using j by auto
      then have "k \<noteq> 0" using \<open>0 < j\<close> by (intro notI) simp
      then obtain k' where "k = Suc k'" by (cases k) simp_all
      with k show "\<exists>k. j = 2 ^ k" by auto
    qed (use j in \<open>auto intro: exI [of _ "Suc _"]\<close>)
    ultimately show ?thesis using less.IH [OF \<open>j < n\<close> \<open>0 < j\<close>] by simp
  next
    case False
    then obtain j where j: "n = 2 * j + 1" by (elim oddE)
    then have "n AND (n - 1) = 2 * j" by (simp add: and_nat_rec [of "Suc (2 * j)"])
    moreover have "(\<exists>k. n = 2 ^ k) \<longleftrightarrow> j = 0"
    proof
      assume "\<exists>k. n = 2 ^ k"
      then obtain k where "n = 2 ^ k" by blast
      with False show "j = 0" using j by (cases k) auto
    qed (use j in \<open>auto intro: exI [of _ 0]\<close>)
    ultimately show ?thesis by simp
  qed
qed

lemma word_pow2_iff: "a \<noteq> 0 \<and> a AND (a - 1) = 0 \<longleftrightarrow> (\<exists>k. unat a = 2 ^ k)" for a :: "'a::len word"
proof (cases "a = 0")
  case False
  then have "0 < unat a" by (simp add: unat_gt_0)
  moreover have "unat (a AND (a - 1)) = unat a AND (unat a - 1)"
    using False by (simp add: unsigned_and_eq unat_minus_one)
  then have "a AND (a - 1) = 0 \<longleftrightarrow> unat a AND (unat a - 1) = 0" by (metis unat_eq_zero)
  ultimately show ?thesis using False nat_pow2_iff by simp
qed simp

text \<open>
  An enabled guard accepts a buffer exactly if its length is within the maximum and its
  alignment is a power of two, and counts exactly the accepted ones; a disabled guard accepts
  everything and counts nothing.
\<close>

theorem validate_buffer_transfer_iff:
  "case validate_buffer_transfer len max_len alignment g of (r, g') \<Rightarrow>
     (is_ok r \<longleftrightarrow> \<not> cag_enabled g \<or> len \<le> max_len \<and> (\<exists>k. unat alignment = 2 ^ k))
     \<and> transfer_count g' = transfer_count g + (if cag_enabled g \<and> is_ok r then 1 else 0)
     \<and> violation_count g' = violation_count g"
  using word_pow2_iff [of alignment]
  by (auto simp: validate_buffer_transfer_def record_compliant_transfer_def not_less)

text \<open>A growth request is granted exactly up to the limit, which is the memory the engine reserves per instance.\<close>

lemma memory_growing_iff: "memory_growing l cur want mx \<longleftrightarrow> want \<le> mrl_max_memory_bytes l"
  by (auto simp: memory_growing_def)

lemma default_limits_agree:
  "mrl_max_memory_bytes default_256mb = ec_max_memory_size (SecureWasmEngine_new SecureRuntimeConfig_default)"
  "src_max_memory_size SecureRuntimeConfig_default = ec_max_memory_size (SecureWasmEngine_new SecureRuntimeConfig_default)"
  by (simp_all add: default_256mb_def MemoryResourceLimiter_new_def MAX_INSTANCE_MEMORY_BYTES_def SecureWasmEngine_new_def
      SecureRuntimeConfig_default_def WASM_PAGE_SIZE_BYTES_def)

text \<open>The size of a memory is at most 256 terabytes, so the product of pages and page size never wraps around.\<close>

lemma engine_memory_exact:
  "unat (ec_max_memory_size (SecureWasmEngine_new c)) = unat (max_memory_pages c) * 65536"
proof -
  have "unat (max_memory_pages c) * 65536 < 2 ^ 64" using unat_u32_lt [of "max_memory_pages c"] by simp
  then show ?thesis by (simp add: SecureWasmEngine_new_def WASM_PAGE_SIZE_BYTES_def unat_word_ariths)
qed

end
