(* ===== verification/Worker.thy ===== *)
theory Worker
  imports HashMaps Text
begin

text \<open>
  \<open>crates/worker/src/lib.rs\<close>: the audit events and the compliance bus, the redaction of
  personal data and the reversible masking of prompts.

  Two libraries are arguments. The regular expressions: \<open>segments\<close> cuts a text into the gaps
  and matches of \<open>PII_PATTERN\<close> (a list of gap and match, and the rest), and the anchored
  patterns are predicates on a match. The bounded channel of \<open>tokio\<close>: \<open>try_send\<close> and \<open>recv\<close>,
  whose documented behaviour is the locale \<open>bounded_channel\<close>. The iteration order of a
  masking map is the order of its entries; the theorems hold for every order.
\<close>

section \<open>Classification\<close>

datatype PiiType = Email | Phone | Identity | Financial

fun placeholder_tag :: "PiiType \<Rightarrow> string" where
  "placeholder_tag Email = ''MASKED_EMAIL''"
| "placeholder_tag Phone = ''MASKED_PHONE''"
| "placeholder_tag Identity = ''MASKED_IDENTITY''"
| "placeholder_tag Financial = ''MASKED_FINANCIAL''"

record patterns =
  segments :: "string \<Rightarrow> (string \<times> string) list \<times> string"
  is_email :: "string \<Rightarrow> bool"
  is_phone :: "string \<Rightarrow> bool"
  is_identity :: "string \<Rightarrow> bool"
  is_financial :: "string \<Rightarrow> bool"

definition classify_pii :: "patterns \<Rightarrow> string \<Rightarrow> PiiType" where
  "classify_pii re matched =
     (if is_email re matched then Email
      else if is_financial re matched then Financial
      else if is_identity re matched then Identity
      else if is_phone re matched then Phone
      else Phone)"

definition placeholder :: "PiiType \<Rightarrow> u64 \<Rightarrow> string" where
  "placeholder t idx = ''['' @ placeholder_tag t @ ''_'' @ dec (unat idx) @ '']''"

section \<open>Masking and restoring\<close>

text \<open>\<open>replace_all\<close> with the closure of \<open>mask\<close>: the counter and the map are threaded through.\<close>

fun mask_matches ::
  "patterns \<Rightarrow> (string \<times> string) list \<Rightarrow> u64 \<Rightarrow> (string, string) hmap \<Rightarrow> string \<times> u64 \<times> (string, string) hmap" where
  "mask_matches re [] c m = ([], c, m)"
| "mask_matches re ((gap, matched) # ms) c m =
     (let p = placeholder (classify_pii re matched) c;
          (out, c', m') = mask_matches re ms (c + 1) (hm_insert p matched m)
      in (gap @ p @ out, c', m'))"

record PIIProtector =
  pp_counter :: u64

definition PIIProtector_new :: PIIProtector where
  "PIIProtector_new = \<lparr>pp_counter = 0\<rparr>"

definition pii_mask :: "patterns \<Rightarrow> string \<Rightarrow> PIIProtector \<Rightarrow> (string \<times> (string, string) hmap) \<times> PIIProtector" where
  "pii_mask re input pp =
     (let (ms, rest) = segments re input;
          (out, c, m) = mask_matches re ms (pp_counter pp) []
      in ((out @ rest, m), \<lparr>pp_counter = c\<rparr>))"

definition restore :: "string \<Rightarrow> (string, string) hmap \<Rightarrow> string" where
  "restore input m = foldl (\<lambda>s (p, original). str_replace s p original) input m"

text \<open>\<open>redact_pii\<close> has a local counter with checked addition and keeps no map.\<close>

fun redact_matches :: "patterns \<Rightarrow> (string \<times> string) list \<Rightarrow> u64 \<Rightarrow> string may_panic" where
  "redact_matches re [] c = Some []"
| "redact_matches re ((gap, matched) # ms) c =
     (case checked_add c 1 of
        None \<Rightarrow> None
      | Some c' \<Rightarrow>
          (case redact_matches re ms c' of
             None \<Rightarrow> None
           | Some out \<Rightarrow> Some (gap @ placeholder (classify_pii re matched) c @ out)))"

definition redact_pii :: "patterns \<Rightarrow> string \<Rightarrow> string may_panic" where
  "redact_pii re input =
     (let (ms, rest) = segments re input in map_option (\<lambda>out. out @ rest) (redact_matches re ms 0))"

section \<open>Audit events\<close>

datatype AuditAction =
    ALLOWED | BLOCKED_BY_WASM | MODIFIED | BLOCKED_BY_ORACLE | BLOCKED_BY_SIS | BLOCKED_BY_AUTH | BLOCKED_BY_REPLAY

fun action_as_str :: "AuditAction \<Rightarrow> string" where
  "action_as_str ALLOWED = ''ALLOWED''"
| "action_as_str BLOCKED_BY_WASM = ''BLOCKED_BY_WASM''"
| "action_as_str BLOCKED_BY_ORACLE = ''BLOCKED_BY_ORACLE''"
| "action_as_str BLOCKED_BY_SIS = ''BLOCKED_BY_SIS''"
| "action_as_str BLOCKED_BY_AUTH = ''BLOCKED_BY_AUTH''"
| "action_as_str BLOCKED_BY_REPLAY = ''BLOCKED_BY_REPLAY''"
| "action_as_str MODIFIED = ''MODIFIED''"

record AuditEvent =
  ae_timestamp :: u64
  ae_tenant_id :: string
  ae_end_user_id :: string
  ae_raw_payload :: string
  ae_action_taken :: string

definition AuditEvent_new :: "u64 \<Rightarrow> string \<Rightarrow> string \<Rightarrow> string \<Rightarrow> AuditAction \<Rightarrow> AuditEvent" where
  "AuditEvent_new now tenant user payload action =
     \<lparr>ae_timestamp = now, ae_tenant_id = tenant, ae_end_user_id = user, ae_raw_payload = payload,
      ae_action_taken = action_as_str action\<rparr>"

section \<open>The compliance bus\<close>

datatype 'e TrySendError = Full 'e | Closed 'e

locale bounded_channel =
  fixes try_send :: "'e \<Rightarrow> 'c \<Rightarrow> ('e TrySendError + unit) \<times> 'c"
    and recv :: "'c \<Rightarrow> ('e \<times> 'c) option"
    and contents :: "'c \<Rightarrow> 'e list"
    and open_rx :: "'c \<Rightarrow> bool"
    and capacity :: nat
  assumes send_closed: "\<not> open_rx c \<Longrightarrow> try_send e c = (Inl (Closed e), c)"
    and send_full: "open_rx c \<Longrightarrow> capacity \<le> length (contents c) \<Longrightarrow> try_send e c = (Inl (Full e), c)"
    and send_ok: "open_rx c \<Longrightarrow> length (contents c) < capacity \<Longrightarrow>
      \<exists>c'. try_send e c = (Inr (), c') \<and> contents c' = contents c @ [e] \<and> open_rx c'"
    and recv_empty: "contents c = [] \<Longrightarrow> recv c = None"
    and recv_first: "contents c = e # es \<Longrightarrow> \<exists>c'. recv c = Some (e, c') \<and> contents c' = es \<and> open_rx c' = open_rx c"

record 'c ComplianceBus =
  bus_tx :: 'c
  dropped_events :: u64

definition emit ::
  "(AuditEvent \<Rightarrow> 'c \<Rightarrow> (AuditEvent TrySendError + unit) \<times> 'c) \<Rightarrow> AuditEvent \<Rightarrow> 'c ComplianceBus
   \<Rightarrow> (AuditEvent + unit) \<times> 'c ComplianceBus" where
  "emit try_send event b =
     (case try_send event (bus_tx b) of
        (Inr _, c) \<Rightarrow> (Inr (), b\<lparr>bus_tx := c\<rparr>)
      | (Inl (Full e), c) \<Rightarrow> (Inr (), b\<lparr>bus_tx := c, dropped_events := dropped_events b + 1\<rparr>)
      | (Inl (Closed e), c) \<Rightarrow> (Inl e, b\<lparr>bus_tx := c\<rparr>))"

definition sanitize :: "patterns \<Rightarrow> AuditEvent \<Rightarrow> AuditEvent may_panic" where
  "sanitize re event = map_option (\<lambda>p. event\<lparr>ae_raw_payload := p\<rparr>) (redact_pii re (ae_raw_payload event))"

text \<open>
  The worker loop, on at most \<open>n\<close> events: the records it writes, in order. A panic ends the
  task.
\<close>

fun worker_loop ::
  "('c \<Rightarrow> (AuditEvent \<times> 'c) option) \<Rightarrow> patterns \<Rightarrow> nat \<Rightarrow> 'c \<Rightarrow> AuditEvent list \<times> 'c" where
  "worker_loop recv re 0 c = ([], c)"
| "worker_loop recv re (Suc n) c =
     (case recv c of
        None \<Rightarrow> ([], c)
      | Some (event, c') \<Rightarrow>
          (case sanitize re event of
             None \<Rightarrow> ([], c')
           | Some e \<Rightarrow> (case worker_loop recv re n c' of (es, c'') \<Rightarrow> (e # es, c''))))"

section \<open>Replacing one placeholder\<close>

definition masked_mark :: string where
  "masked_mark = ''[MASKED_''"

definition ph_shape :: "string \<Rightarrow> bool" where
  "ph_shape p \<longleftrightarrow> (\<exists>x. p = masked_mark @ x @ '']'' \<and> CHR ''['' \<notin> set x \<and> CHR '']'' \<notin> set x)"

lemma ph_shape_Cons: "ph_shape p \<Longrightarrow> \<exists>q. p = CHR ''['' # q \<and> CHR ''['' \<notin> set q"
  by (auto simp: ph_shape_def masked_mark_def)

lemma ph_shape_mark: "ph_shape p \<Longrightarrow> prefix masked_mark p"
  by (auto simp: ph_shape_def)

lemma bracket_prefix:
  assumes "CHR '']'' \<notin> set x" "CHR '']'' \<notin> set y" "prefix (x @ '']'') (y @ '']'' @ r)"
  shows "x = y"
proof -
  from assms(3) obtain z where "y @ CHR '']'' # r = x @ CHR '']'' # z" by (auto simp: prefix_def)
  then have "takeWhile (\<lambda>c. c \<noteq> CHR '']'') (y @ CHR '']'' # r) = takeWhile (\<lambda>c. c \<noteq> CHR '']'') (x @ CHR '']'' # z)"
    by simp
  moreover have "takeWhile (\<lambda>c. c \<noteq> CHR '']'') (w @ CHR '']'' # v) = w" if "CHR '']'' \<notin> set w" for w v
    using that by (subst takeWhile_append2) auto
  ultimately show ?thesis using assms(1,2) by simp
qed

lemma ph_prefix_eq: "ph_shape p \<Longrightarrow> ph_shape q \<Longrightarrow> prefix p (q @ r) \<Longrightarrow> p = q"
  unfolding ph_shape_def using bracket_prefix by fastforce

lemma str_replace_skip:
  assumes "CHR ''['' \<notin> set w" "ph_shape p"
  shows "str_replace (w @ s) p r = w @ str_replace s p r"
  using assms(1)
proof (induction w)
  case (Cons c w)
  from assms(2) obtain q where "p = CHR ''['' # q" using ph_shape_Cons by blast
  with Cons show ?case by (subst str_replace.simps) auto
qed simp

text \<open>
  A masked text as a list of gap, placeholder and original, and the rest; \<open>R\<close> is the set of
  placeholders already replaced.
\<close>

type_synonym token = "string \<times> string \<times> string"

fun render :: "string set \<Rightarrow> token list \<Rightarrow> string \<Rightarrow> string" where
  "render R [] rest = rest"
| "render R ((gap, p, orig) # ts) rest = gap @ (if p \<in> R then orig else p) @ render R ts rest"

fun flat :: "token list \<Rightarrow> string \<Rightarrow> string" where
  "flat [] rest = rest"
| "flat ((gap, p, orig) # ts) rest = gap @ orig @ flat ts rest"

definition toks_ok :: "token list \<Rightarrow> bool" where
  "toks_ok ts \<longleftrightarrow> (\<forall>(gap, p, orig) \<in> set ts. ph_shape p)"

lemma prefix_append_cases: "prefix q (a @ b) \<Longrightarrow> prefix q a \<or> (\<exists>q'. q = a @ q' \<and> prefix q' b)"
  by (metis prefix_append)

lemma prefix_literal:
  assumes "\<And>q. prefix q r \<Longrightarrow> CHR ''['' \<notin> set q \<Longrightarrow> prefix q f"
    and "prefix q (lit @ r)" "CHR ''['' \<notin> set q"
  shows "prefix q (lit @ f)"
  using prefix_append_cases [OF assms(2)] assms(1,3) by auto

text \<open>Text free of opening brackets that starts a rendering starts the original text.\<close>

lemma prefix_render_flat:
  "toks_ok ts \<Longrightarrow> prefix q (render R ts rest) \<Longrightarrow> CHR ''['' \<notin> set q \<Longrightarrow> prefix q (flat ts rest)"
proof (induction ts arbitrary: q)
  case (Cons t ts)
  obtain gap p orig where t: "t = (gap, p, orig)" by (cases t)
  have ok: "toks_ok ts" "ph_shape p" using Cons.prems(1) t by (auto simp: toks_ok_def)
  have inner: "prefix q (orig @ flat ts rest)"
    if "prefix q ((if p \<in> R then orig else p) @ render R ts rest)" "CHR ''['' \<notin> set q" for q
  proof (cases "p \<in> R")
    case True
    then show ?thesis using prefix_literal [OF Cons.IH [OF ok(1)]] that by simp
  next
    case False
    then have "q = []" using that ph_shape_Cons [OF ok(2)] by (cases q) auto
    then show ?thesis by simp
  qed
  have "prefix q (gap @ (if p \<in> R then orig else p) @ render R ts rest)" using Cons.prems(2) t by simp
  from prefix_literal [OF inner this Cons.prems(3)] show ?case by (simp add: t)
qed simp

lemma literal_nomatch:
  assumes "ph_shape p" "\<And>q. prefix q r \<Longrightarrow> CHR ''['' \<notin> set q \<Longrightarrow> prefix q f"
    and "\<not> sublist masked_mark (c # lit @ f)"
  shows "\<not> prefix p (c # lit @ r)"
proof
  assume "prefix p (c # lit @ r)"
  then have m: "prefix masked_mark (c # lit @ r)"
    using ph_shape_mark [OF assms(1)] prefix_order.trans by blast
  then have "prefix (tl masked_mark) (lit @ r)" and c: "c = hd masked_mark"
    by (auto simp: masked_mark_def)
  then have "prefix (tl masked_mark) (lit @ f)"
    using prefix_literal [OF assms(2)] by (auto simp: masked_mark_def)
  with c have "prefix masked_mark (c # lit @ f)" by (auto simp: masked_mark_def)
  then show False using assms(3) by (simp add: prefix_imp_sublist)
qed

lemma sublist_drop: "\<not> sublist m (a @ b) \<Longrightarrow> \<not> sublist m b"
  unfolding sublist_def by (metis append.assoc)

lemma str_replace_literal:
  assumes "ph_shape p" "\<And>q. prefix q r \<Longrightarrow> CHR ''['' \<notin> set q \<Longrightarrow> prefix q f"
    and "\<not> sublist masked_mark (lit @ f)"
  shows "str_replace (lit @ r) p orig = lit @ str_replace r p orig"
  using assms(3)
proof (induction lit)
  case (Cons c lit)
  have "p \<noteq> []" using ph_shape_Cons [OF assms(1)] by auto
  moreover have "\<not> prefix p (c # lit @ r)" using literal_nomatch [OF assms(1,2)] Cons.prems by simp
  moreover have "\<not> sublist masked_mark (lit @ f)" using Cons.prems sublist_drop [of _ "[c]"] by simp
  ultimately show ?case using Cons.IH by (simp add: str_replace_nomatch)
qed simp

lemma str_replace_other:
  assumes "ph_shape p" "ph_shape p'" "p \<noteq> p'"
  shows "str_replace (p' @ r) p orig = p' @ str_replace r p orig"
proof -
  obtain q where q: "p' = CHR ''['' # q" "CHR ''['' \<notin> set q" using ph_shape_Cons [OF assms(2)] by blast
  have "\<not> prefix p (p' @ r)" using ph_prefix_eq [OF assms(1,2)] assms(3) by blast
  moreover have "p \<noteq> []" using ph_shape_Cons [OF assms(1)] by auto
  ultimately show ?thesis using str_replace_skip [OF q(2) assms(1)] q(1) by (simp add: str_replace_nomatch)
qed

lemma str_replace_render:
  assumes "ph_shape p" "p \<notin> R"
  shows "toks_ok ts \<Longrightarrow> \<forall>(gap, p', o') \<in> set ts. p' = p \<longrightarrow> o' = orig \<Longrightarrow> \<not> sublist masked_mark (flat ts rest) \<Longrightarrow>
    str_replace (render R ts rest) p orig = render (insert p R) ts rest"
proof (induction ts)
  case Nil
  then show ?case
    using str_replace_literal [OF assms(1), of "[]" "[]" rest] by (simp add: str_replace.simps [of "[]"])
      (use ph_shape_Cons [OF assms(1)] in auto)
next
  case (Cons t ts)
  obtain gap p' o' where t: "t = (gap, p', o')" by (cases t)
  have ok: "toks_ok ts" "ph_shape p'" and uniq: "p' = p \<longrightarrow> o' = orig"
    using Cons.prems t by (auto simp: toks_ok_def)
  have free: "\<not> sublist masked_mark (gap @ o' @ flat ts rest)" using Cons.prems(3) t by simp
  then have free': "\<not> sublist masked_mark (o' @ flat ts rest)" "\<not> sublist masked_mark (flat ts rest)"
    using sublist_drop by metis+
  have IH: "str_replace (render R ts rest) p orig = render (insert p R) ts rest"
    using Cons.IH [OF ok(1) _ free'(2)] Cons.prems(2) by simp
  have pre: "prefix q (render R (([], p', o') # ts) rest) \<Longrightarrow> CHR ''['' \<notin> set q \<Longrightarrow> prefix q (o' @ flat ts rest)" for q
    using prefix_render_flat [of "([], p', o') # ts" q R rest] ok by (simp add: toks_ok_def)
  have "str_replace (render R (t # ts) rest) p orig
      = gap @ str_replace (render R (([], p', o') # ts) rest) p orig"
    using str_replace_literal [OF assms(1) pre free] t by simp
  also have "str_replace (render R (([], p', o') # ts) rest) p orig = render (insert p R) (([], p', o') # ts) rest"
  proof (cases "p' \<in> R")
    case True
    then show ?thesis
      using str_replace_literal [OF assms(1) prefix_render_flat [OF ok(1)] free'(1)] IH by simp
  next
    case False
    have "p \<noteq> []" using ph_shape_Cons [OF assms(1)] by auto
    with False IH uniq show ?thesis
      using str_replace_match [of p "render R ts rest" orig] str_replace_other [OF assms(1) ok(2)]
      by (cases "p = p'") auto
  qed
  finally show ?case by (simp add: t)
qed

section \<open>Restoring what was masked\<close>

lemma restore_render:
  assumes "\<not> sublist masked_mark (flat ts rest)" "toks_ok ts"
  shows "distinct (map fst es) \<Longrightarrow> \<forall>p \<in> fst ` set es. p \<notin> R \<and> ph_shape p \<Longrightarrow>
     \<forall>(p, orig) \<in> set es. \<forall>(gap, p', o') \<in> set ts. p' = p \<longrightarrow> o' = orig \<Longrightarrow>
     restore (render R ts rest) es = render (R \<union> fst ` set es) ts rest"
proof (induction es arbitrary: R)
  case (Cons e es)
  obtain p orig where e: "e = (p, orig)" by (cases e)
  have "str_replace (render R ts rest) p orig = render (insert p R) ts rest"
    using Cons.prems e by (intro str_replace_render [OF _ _ assms(2) _ assms(1)]) auto
  moreover have "restore (render (insert p R) ts rest) es = render (insert p R \<union> fst ` set es) ts rest"
    using Cons.prems e by (intro Cons.IH) auto
  ultimately show ?case by (simp add: restore_def e)
qed (simp add: restore_def)

lemma render_all: "\<forall>(gap, p, orig) \<in> set ts. p \<in> R \<Longrightarrow> render R ts rest = flat ts rest"
  by (induction ts) auto

text \<open>The tokens a run of \<open>mask\<close> produces, and its map.\<close>

fun mask_tokens :: "patterns \<Rightarrow> (string \<times> string) list \<Rightarrow> u64 \<Rightarrow> token list" where
  "mask_tokens re [] c = []"
| "mask_tokens re ((gap, matched) # ms) c =
     (gap, placeholder (classify_pii re matched) c, matched) # mask_tokens re ms (c + 1)"

lemma placeholder_shape: "ph_shape (placeholder t c)"
proof -
  have "set (dec (unat c)) \<subseteq> set ''0123456789''" by (rule set_dec)
  then have "CHR ''['' \<notin> set (dec (unat c))" "CHR '']'' \<notin> set (dec (unat c))" by auto
  then show ?thesis
    by (cases t) (auto simp: ph_shape_def masked_mark_def placeholder_def intro!: exI [of _ "_ @ ''_'' @ dec _"])
qed

lemma dec_inj: "dec m = dec n \<Longrightarrow> m = n"
  using dec_value by metis

text \<open>The index can be read back from a placeholder: the digits before the closing bracket.\<close>

lemma placeholder_digits:
  "rev (takeWhile is_digit (tl (rev (placeholder t c)))) = dec (unat c)"
proof -
  have "list_all is_digit (rev (dec (unat c)))" using dec_digits [of "unat c"] by (simp add: list_all_iff)
  moreover have "\<not> is_digit (CHR ''_'')" by (simp add: is_digit_def)
  ultimately have "takeWhile is_digit (rev (dec (unat c)) @ CHR ''_'' # z) = rev (dec (unat c))" for z
    by (subst takeWhile_append2) (auto simp: list_all_iff)
  then show ?thesis by (simp add: placeholder_def)
qed

lemma placeholder_inj: "placeholder t c = placeholder t' c' \<Longrightarrow> c = c'"
  using placeholder_digits dec_inj by (metis word_unat_eq_iff)

lemma mask_tokens_phs:
  "p \<in> (fst \<circ> snd) ` set (mask_tokens re ms c) \<Longrightarrow> \<exists>t i. i < length ms \<and> p = placeholder t (c + of_nat i)"
proof (induction ms arbitrary: c)
  case (Cons m ms)
  obtain gap matched where m: "m = (gap, matched)" by (cases m)
  from Cons.prems m consider "p = placeholder (classify_pii re matched) c"
    | "p \<in> (fst \<circ> snd) ` set (mask_tokens re ms (c + 1))" by auto
  then show ?case
  proof cases
    case 1
    then show ?thesis by (intro exI [of _ "classify_pii re matched"] exI [of _ 0]) simp
  next
    case 2
    from Cons.IH [OF this] obtain t i where "i < length ms" "p = placeholder t (c + 1 + of_nat i)" by blast
    then show ?thesis by (intro exI [of _ t] exI [of _ "Suc i"]) (simp add: add.assoc)
  qed
qed simp

lemma of_nat_u64_zero: "n < 2 ^ 64 \<Longrightarrow> (of_nat n :: u64) = 0 \<Longrightarrow> n = 0"
proof -
  assume n: "n < 2 ^ 64" "(of_nat n :: u64) = 0"
  from n(1) have "unat (of_nat n :: u64) = n" by (simp add: unsigned_of_nat take_bit_nat_eq_self)
  with n(2) show "n = 0" by simp
qed

lemma mask_tokens_distinct:
  "length ms \<le> 2 ^ 64 \<Longrightarrow> distinct (map (fst \<circ> snd) (mask_tokens re ms c))"
proof (induction ms arbitrary: c)
  case (Cons m ms)
  obtain gap matched where m: "m = (gap, matched)" by (cases m)
  have "placeholder (classify_pii re matched) c \<notin> (fst \<circ> snd) ` set (mask_tokens re ms (c + 1))"
  proof
    assume "placeholder (classify_pii re matched) c \<in> (fst \<circ> snd) ` set (mask_tokens re ms (c + 1))"
    then obtain t i where i: "i < length ms" "placeholder (classify_pii re matched) c = placeholder t (c + 1 + of_nat i)"
      using mask_tokens_phs by blast
    then have "c = c + 1 + of_nat i" using placeholder_inj by blast
    then have "(of_nat (Suc i) :: u64) = 0" by (simp add: add.assoc)
    then show False using of_nat_u64_zero [of "Suc i"] i(1) Cons.prems by simp
  qed
  moreover have "distinct (map (fst \<circ> snd) (mask_tokens re ms (c + 1)))"
    using Cons.prems by (intro Cons.IH) simp
  ultimately show ?case by (simp add: m comp_def)
qed simp

lemma mask_matches_eq:
  "mask_matches re ms c m =
     (render {} (mask_tokens re ms c) [], c + of_nat (length ms),
      foldl (\<lambda>h (k, v). hm_insert k v h) m (map snd (mask_tokens re ms c)))"
  by (induction re ms c m rule: mask_matches.induct) (simp_all add: Let_def add.assoc add.commute)

lemma render_rest: "render R ts rest = render R ts [] @ rest"
  by (induction ts) auto

lemma flat_rest: "flat ts rest = flat ts [] @ rest"
  by (induction ts) auto

lemma flat_mask_tokens: "flat (mask_tokens re ms c) rest = concat (map (\<lambda>(gap, x). gap @ x) ms) @ rest"
  by (induction ms arbitrary: c) auto

lemma pii_mask_eq:
  assumes "segments re input = (ms, rest)" "length ms \<le> 2 ^ 64"
  shows "pii_mask re input pp =
     ((render {} (mask_tokens re ms (pp_counter pp)) rest, map snd (mask_tokens re ms (pp_counter pp))),
      \<lparr>pp_counter = pp_counter pp + of_nat (length ms)\<rparr>)"
proof -
  have "hm_collect (map snd (mask_tokens re ms c)) = map snd (mask_tokens re ms c)" for c
    using mask_tokens_distinct [OF assms(2), of re c] by (intro hm_collect_distinct) (simp add: comp_def)
  then show ?thesis
    using assms(1) render_rest [of "{}" _ rest]
    by (simp add: pii_mask_def Let_def mask_matches_eq hm_collect_def)
qed

text \<open>The documented behaviour of \<open>replace_all\<close>: gaps and matches make up the text.\<close>

definition segments_law :: "patterns \<Rightarrow> bool" where
  "segments_law re \<longleftrightarrow>
     (\<forall>input. let (ms, rest) = segments re input
             in concat (map (\<lambda>(gap, x). gap @ x) ms) @ rest = input \<and> length ms \<le> length input)"

text \<open>
  C26: Masking is reversible. For a text that does not itself contain the mark
  \<open>[MASKED_\<close>, restoring the masked text gives back the original, in whatever order the
  entries of the masking map are visited.
\<close>

theorem mask_restore_roundtrip:
  assumes "segments_law re" "\<not> sublist ''[MASKED_'' input" "length input \<le> 2 ^ 64"
    and "pii_mask re input pp = ((masked, m), pp')" "mset es = mset m"
  shows "restore masked es = input"
proof -
  obtain ms rest where seg: "segments re input = (ms, rest)" by (cases "segments re input")
  have law: "concat (map (\<lambda>(gap, x). gap @ x) ms) @ rest = input" "length ms \<le> 2 ^ 64"
    using assms(1,3) seg by (auto simp: segments_law_def dest: spec [of _ input])
  let ?ts = "mask_tokens re ms (pp_counter pp)"
  have flat: "flat ?ts rest = input" using law(1) by (simp add: flat_mask_tokens)
  have masked: "masked = render {} ?ts rest" and m: "m = map snd ?ts"
    using assms(4) pii_mask_eq [OF seg law(2), of pp] by auto
  have dm: "mset (map fst es) = mset (map (fst \<circ> snd) ?ts)" using assms(5)
    by (simp add: m multiset.map_comp)
  have es: "set es = snd ` set ?ts" using mset_eq_setD [OF assms(5)] by (simp add: m)
  have de: "distinct (map fst es)"
    using mset_eq_imp_distinct_iff [OF dm] mask_tokens_distinct [OF law(2)] by blast
  have shape: "\<forall>p \<in> (fst \<circ> snd) ` set ?ts. ph_shape p"
  proof
    fix p
    assume "p \<in> (fst \<circ> snd) ` set ?ts"
    from mask_tokens_phs [OF this] show "ph_shape p" by (auto simp: placeholder_shape)
  qed
  then have ok: "toks_ok ?ts" by (auto simp: toks_ok_def)
  have uniq: "\<forall>(p, orig) \<in> set es. \<forall>(gap, p', o') \<in> set ?ts. p' = p \<longrightarrow> o' = orig"
    using es mask_tokens_distinct [OF law(2), of re "pp_counter pp"]
    by (fastforce simp: distinct_map inj_on_def)
  have "restore masked es = render ({} \<union> fst ` set es) ?ts rest"
    unfolding masked using flat assms(2) es shape
    by (intro restore_render [OF _ ok de _ uniq]) (auto simp: masked_mark_def)
  also have "\<dots> = input" using es by (subst render_all) (force simp: flat)+
  finally show ?thesis .
qed

text \<open>A pattern that matches the string \<open>a@b.c\<close> and nothing else, to run the operations on.\<close>

definition sample_patterns :: patterns where
  "sample_patterns =
     \<lparr>segments = (\<lambda>s. case find_str ''a@b.c'' s of Some (u, v) \<Rightarrow> ([(u, ''a@b.c'')], v) | None \<Rightarrow> ([], s)),
      is_email = (\<lambda>s. s = ''a@b.c''), is_phone = (\<lambda>_. False), is_identity = (\<lambda>_. False), is_financial = (\<lambda>_. False)\<rparr>"

lemma sample_law: "segments_law sample_patterns"
  by (auto simp: segments_law_def sample_patterns_def split: option.split dest: find_str_Some)

theorem mask_restore_roundtrip_witness:
  "restore ''hi [MASKED_EMAIL_7], see'' [(''[MASKED_EMAIL_7]'', ''a@b.c'')] = ''hi a@b.c, see''"
proof -
  have "pii_mask sample_patterns ''hi a@b.c, see'' \<lparr>pp_counter = 7\<rparr>
      = ((''hi [MASKED_EMAIL_7], see'', [(''[MASKED_EMAIL_7]'', ''a@b.c'')]), \<lparr>pp_counter = 8\<rparr>)"
    by code_simp
  moreover have "\<not> sublist ''[MASKED_'' ''hi a@b.c, see''" by code_simp
  ultimately show ?thesis by (intro mask_restore_roundtrip [OF sample_law]) auto
qed

text \<open>
  Without that condition restoring is not the inverse of masking: text of the request that
  looks like a placeholder is replaced by personal data on the way back.
\<close>

theorem placeholder_in_text_is_replaced:
  "\<exists>re input masked m pp'. segments_law re \<and> pii_mask re input PIIProtector_new = ((masked, m), pp')
     \<and> restore masked m \<noteq> input"
proof (intro exI conjI)
  show "segments_law sample_patterns" by (rule sample_law)
  show "pii_mask sample_patterns ''[MASKED_EMAIL_0] a@b.c'' PIIProtector_new
      = ((''[MASKED_EMAIL_0] [MASKED_EMAIL_0]'', [(''[MASKED_EMAIL_0]'', ''a@b.c'')]), \<lparr>pp_counter = 1\<rparr>)"
    by code_simp
  show "restore ''[MASKED_EMAIL_0] [MASKED_EMAIL_0]'' [(''[MASKED_EMAIL_0]'', ''a@b.c'')] \<noteq> ''[MASKED_EMAIL_0] a@b.c''"
    by code_simp
qed

lemma mask_tokens_same_class:
  "map (\<lambda>(gap, x). (gap, classify_pii re x)) ms = map (\<lambda>(gap, x). (gap, classify_pii re x)) ms' \<Longrightarrow>
   render {} (mask_tokens re ms c) rest = render {} (mask_tokens re ms' c) rest"
proof (induction ms arbitrary: ms' c)
  case (Cons m ms)
  then obtain m' ms'' where ms': "ms' = m' # ms''" by (cases ms') auto
  with Cons.prems Cons.IH [of ms'' "c + 1"] show ?case by (cases m; cases m') simp
qed simp

text \<open>
  The masked text shows nothing of a match but its position and its class. Two texts with
  the same gaps whose matches have the same classes are masked to the same text.
\<close>

theorem mask_hides_matches:
  assumes "segments re input = (ms, rest)" "segments re input' = (ms', rest)"
    and "map (\<lambda>(gap, x). (gap, classify_pii re x)) ms = map (\<lambda>(gap, x). (gap, classify_pii re x)) ms'"
  shows "fst (fst (pii_mask re input pp)) = fst (fst (pii_mask re input' pp))"
proof -
  have "fst (fst (pii_mask re i pp)) = render {} (mask_tokens re m (pp_counter pp)) rest"
    if "segments re i = (m, rest)" for i m
    using that render_rest [of "{}" _ rest] by (simp add: pii_mask_def mask_matches_eq)
  with assms mask_tokens_same_class [OF assms(3)] show ?thesis by simp
qed

theorem mask_hides_matches_witness:
  "fst (fst (pii_mask (sample_patterns\<lparr>segments := (\<lambda>s. ([(''x '', s)], []))\<rparr>) ''one'' PIIProtector_new))
     = fst (fst (pii_mask (sample_patterns\<lparr>segments := (\<lambda>s. ([(''x '', s)], []))\<rparr>) ''two'' PIIProtector_new))"
  by (rule mask_hides_matches [where ms = "[(''x '', ''one'')]" and ms' = "[(''x '', ''two'')]" and rest = "[]"])
    (auto simp: classify_pii_def sample_patterns_def)

text \<open>Redaction is masking with a fresh protector, as long as its counter does not overflow.\<close>

lemma redact_matches_eq:
  "unat c + length ms < 2 ^ 64 \<Longrightarrow> redact_matches re ms c = Some (render {} (mask_tokens re ms c) [])"
proof (induction ms arbitrary: c)
  case (Cons m ms)
  have "checked_add c 1 = Some (c + 1)" "unat (c + 1) = Suc (unat c)"
    using Cons.prems by (simp_all add: checked_add_def unat_add_one)
  with Cons show ?case by (cases m) simp
qed simp

lemma redact_is_mask:
  assumes "segments re input = (ms, rest)" "length ms < 2 ^ 64"
  shows "redact_pii re input = Some (fst (fst (pii_mask re input PIIProtector_new)))"
  using assms render_rest [of "{}" _ rest]
  by (simp add: redact_pii_def redact_matches_eq pii_mask_def mask_matches_eq PIIProtector_new_def)

section \<open>The bus\<close>

text \<open>The channel as a list: the behaviour \<open>tokio\<close> documents.\<close>

type_synonym 'e chan = "'e list \<times> bool"

definition list_send :: "nat \<Rightarrow> 'e \<Rightarrow> 'e chan \<Rightarrow> ('e TrySendError + unit) \<times> 'e chan" where
  "list_send cap e c =
     (case c of (q, opn) \<Rightarrow>
        if \<not> opn then (Inl (Closed e), c)
        else if cap \<le> length q then (Inl (Full e), c) else (Inr (), (q @ [e], opn)))"

definition list_recv :: "'e chan \<Rightarrow> ('e \<times> 'e chan) option" where
  "list_recv c = (case c of ([], _) \<Rightarrow> None | (e # q, opn) \<Rightarrow> Some (e, (q, opn)))"

interpretation list_chan: bounded_channel "list_send cap" list_recv fst snd cap
  by unfold_locales (auto simp: list_send_def list_recv_def split: list.split)

context bounded_channel
begin

lemma send_cases:
  obtains (closed) "\<not> open_rx c" "try_send e c = (Inl (Closed e), c)"
  | (full) "open_rx c" "capacity \<le> length (contents c)" "try_send e c = (Inl (Full e), c)"
  | (sent) c' where "open_rx c" "length (contents c) < capacity" "try_send e c = (Inr (), c')"
      "contents c' = contents c @ [e]" "open_rx c'"
  using send_closed [of c e] send_full [of c e] send_ok [of c e] by (metis not_le)

end

definition emit_all ::
  "(AuditEvent \<Rightarrow> 'c \<Rightarrow> (AuditEvent TrySendError + unit) \<times> 'c) \<Rightarrow> AuditEvent list \<Rightarrow> 'c ComplianceBus \<Rightarrow> 'c ComplianceBus" where
  "emit_all try_send es b = foldl (\<lambda>b e. snd (emit try_send e b)) b es"

lemma emit_all_account:
  assumes "bounded_channel try_send recv contents open_rx capacity"
  shows "open_rx (bus_tx b) \<Longrightarrow>
     contents (bus_tx (emit_all try_send es b)) = contents (bus_tx b) @ take (capacity - length (contents (bus_tx b))) es
   \<and> dropped_events (emit_all try_send es b) =
       dropped_events b + of_nat (length es - (capacity - length (contents (bus_tx b))))
   \<and> open_rx (bus_tx (emit_all try_send es b))"
proof (induction es arbitrary: b)
  case (Cons e es)
  let ?b = "snd (emit try_send e b)"
  have all: "emit_all try_send (e # es) b = emit_all try_send es ?b" by (simp add: emit_all_def)
  show ?case
  proof (rule bounded_channel.send_cases [OF assms, of "bus_tx b" e])
    assume "\<not> open_rx (bus_tx b)"
    with Cons.prems show ?thesis by simp
  next
    assume full: "capacity \<le> length (contents (bus_tx b))" and s: "try_send e (bus_tx b) = (Inl (Full e), bus_tx b)"
    have b: "?b = b\<lparr>dropped_events := dropped_events b + 1\<rparr>" by (simp add: emit_def s)
    show ?thesis using Cons.IH [of ?b] Cons.prems full unfolding all by (simp add: b add.assoc)
  next
    fix c'
    assume room: "length (contents (bus_tx b)) < capacity" and s: "try_send e (bus_tx b) = (Inr (), c')"
      and c': "contents c' = contents (bus_tx b) @ [e]" "open_rx c'"
    have b: "?b = b\<lparr>bus_tx := c'\<rparr>" by (simp add: emit_def s)
    have n: "capacity - length (contents (bus_tx b)) = Suc (capacity - Suc (length (contents (bus_tx b))))"
      using room by simp
    show ?thesis using Cons.IH [of ?b] c' unfolding all by (simp add: b n)
  qed
qed (simp add: emit_all_def)

lemma worker_loop_drains:
  assumes "bounded_channel try_send recv contents open_rx capacity"
  shows "\<forall>e \<in> set (contents c). sanitize re e = Some (f e) \<Longrightarrow> length (contents c) < n \<Longrightarrow>
     fst (worker_loop recv re n c) = map f (contents c) \<and> contents (snd (worker_loop recv re n c)) = []"
proof (induction n arbitrary: c)
  case (Suc n)
  show ?case
  proof (cases "contents c")
    case Nil
    then show ?thesis using bounded_channel.recv_empty [OF assms Nil] by simp
  next
    case (Cons e es)
    then obtain c' where "recv c = Some (e, c')" "contents c' = es"
      using bounded_channel.recv_first [OF assms Cons] by blast
    then show ?thesis using Suc.IH [of c'] Suc.prems Cons by (auto split: prod.split)
  qed
qed simp

lemma sanitize_total:
  assumes "segments_law re" "length (ae_raw_payload e) < 2 ^ 64"
  shows "sanitize re e = Some (e\<lparr>ae_raw_payload := fst (fst (pii_mask re (ae_raw_payload e) PIIProtector_new))\<rparr>)"
proof -
  obtain ms rest where seg: "segments re (ae_raw_payload e) = (ms, rest)" by (cases "segments re (ae_raw_payload e)")
  then have "length ms \<le> length (ae_raw_payload e)"
    using assms(1) by (auto simp: segments_law_def dest: spec [of _ "ae_raw_payload e"])
  with assms(2) have "length ms < 2 ^ 64" by linarith
  from redact_is_mask [OF seg this] show ?thesis by (simp add: sanitize_def)
qed

text \<open>
  Events emitted to an empty bus whose worker is not running are kept up to the capacity,
  in order, and the rest is counted as dropped; the worker then writes exactly the kept ones,
  in order, each with its payload redacted and everything else unchanged. This holds for every
  channel with the documented behaviour.
\<close>

theorem audit_trail:
  assumes chan: "bounded_channel try_send recv contents open_rx capacity"
    and law: "segments_law re" and size: "\<forall>e \<in> set es. length (ae_raw_payload e) < 2 ^ 64"
    and fresh: "open_rx (bus_tx b)" "contents (bus_tx b) = []" "dropped_events b = 0"
    and b': "b' = emit_all try_send es b" and n: "capacity < n"
  shows "fst (worker_loop recv re n (bus_tx b')) =
       map (\<lambda>e. e\<lparr>ae_raw_payload := fst (fst (pii_mask re (ae_raw_payload e) PIIProtector_new))\<rparr>) (take capacity es)
     \<and> dropped_events b' = of_nat (length es - capacity)"
proof -
  have c: "contents (bus_tx b') = take capacity es" "dropped_events b' = of_nat (length es - capacity)"
    using emit_all_account [OF chan fresh(1), of es] fresh b' by simp_all
  define f where "f e = e\<lparr>ae_raw_payload := fst (fst (pii_mask re (ae_raw_payload e) PIIProtector_new))\<rparr>" for e :: AuditEvent
  have "\<forall>e \<in> set (contents (bus_tx b')). sanitize re e = Some (f e)"
    using sanitize_total [OF law] size c(1) by (auto simp: f_def dest: in_set_takeD)
  moreover have "length (contents (bus_tx b')) < n" using c(1) n by simp
  ultimately have "fst (worker_loop recv re n (bus_tx b')) = map f (take capacity es)"
    using worker_loop_drains [OF chan, of "bus_tx b'" re f n] c(1) by simp
  with c(2) show ?thesis by (simp add: f_def [abs_def])
qed

theorem audit_trail_witness:
  "let e = AuditEvent_new 1 ''t'' ''u'' ''a@b.c!'' ALLOWED;
       b' = emit_all (list_send 2) [e, e, e] \<lparr>bus_tx = ([], True), dropped_events = 0\<rparr>
   in map ae_raw_payload (fst (worker_loop list_recv sample_patterns 3 (bus_tx b'))) = [''[MASKED_EMAIL_0]!'', ''[MASKED_EMAIL_0]!'']
     \<and> dropped_events b' = 1"
proof -
  let ?e = "AuditEvent_new 1 ''t'' ''u'' ''a@b.c!'' ALLOWED"
  have m: "fst (fst (pii_mask sample_patterns ''a@b.c!'' PIIProtector_new)) = ''[MASKED_EMAIL_0]!''" by code_simp
  show ?thesis
    using audit_trail [OF list_chan.bounded_channel_axioms sample_law, of "[?e, ?e, ?e]"
        "\<lparr>bus_tx = ([], True), dropped_events = 0\<rparr>" _ 2 3]
    by (simp add: AuditEvent_new_def m)
qed

text \<open>
  The documentation of \<open>emit\<close> promises \<open>Ok\<close> in all cases; once the worker is gone every
  event comes back as an error and is not counted.
\<close>

lemma emit_after_close:
  assumes "bounded_channel try_send recv contents open_rx capacity" "\<not> open_rx (bus_tx b)"
  shows "emit try_send e b = (Inl e, b)"
  using bounded_channel.send_closed [OF assms] by (simp add: emit_def)

end
