(* ===== verification/FlightRecorder.thy ===== *)
theory FlightRecorder
  imports HashMaps Json
begin

text \<open>
  \<open>crates/cache-storage/src/flight_recorder.rs\<close>: the audit recorder with its bounded channel,
  the batching writer thread, the query interface, and the recorder of consensus events.

  Strings are byte lists, so a slice at a byte position that is not a character boundary is a
  panic. The channel of the standard library is a bounded list. SQLite is not part of the
  repository: a batch transaction succeeds or fails as the argument \<open>tx_ok\<close> says and a row is
  accepted as \<open>row_ok\<close> says; the rows a query returns are an argument. What the writer thread
  observes on its channel is an explicit sequence of observations. Clocks are arguments.
\<close>

section \<open>Records\<close>

datatype EventType =
    PromptSent | ResponseReceived | ResponseError | CircuitBreakerTripped | CircuitBreakerReset
  | RateLimitHit | TokenBucketExhausted | CacheHit | CacheMiss | SecurityEvent

text \<open>The derived serialisation of a unit variant is its quoted name; the quotes are trimmed.\<close>

fun event_name :: "EventType \<Rightarrow> string" where
  "event_name PromptSent = ''PromptSent''"
| "event_name ResponseReceived = ''ResponseReceived''"
| "event_name ResponseError = ''ResponseError''"
| "event_name CircuitBreakerTripped = ''CircuitBreakerTripped''"
| "event_name CircuitBreakerReset = ''CircuitBreakerReset''"
| "event_name RateLimitHit = ''RateLimitHit''"
| "event_name TokenBucketExhausted = ''TokenBucketExhausted''"
| "event_name CacheHit = ''CacheHit''"
| "event_name CacheMiss = ''CacheMiss''"
| "event_name SecurityEvent = ''SecurityEvent''"

definition all_events :: "EventType list" where
  "all_events = [PromptSent, ResponseReceived, ResponseError, CircuitBreakerTripped, CircuitBreakerReset,
     RateLimitHit, TokenBucketExhausted, CacheHit, CacheMiss, SecurityEvent]"

definition parse_event :: "string \<Rightarrow> EventType" where
  "parse_event s = (case find (\<lambda>e. event_name e = s) all_events of Some e \<Rightarrow> e | None \<Rightarrow> SecurityEvent)"

record FlightRecorderRecord =
  fr_timestamp :: string
  fr_event_type :: string
  fr_node_name :: string
  fr_request_id :: string
  fr_payload_summary :: string
  fr_raw_prompt :: "string option"
  fr_raw_response :: "string option"
  fr_error_message :: "string option"
  fr_duration_ms :: "int option"
  fr_token_count :: "int option"
  fr_metadata :: string

record RecordEventArgs =
  ra_event_type :: EventType
  ra_node_name :: string
  ra_request_id :: string
  ra_payload_summary :: string
  ra_raw_prompt :: "string option"
  ra_raw_response :: "string option"
  ra_error_message :: "string option"
  ra_duration_ms :: "u64 option"
  ra_token_count :: "u32 option"

datatype FlightRecorderCommand = RecordEvent FlightRecorderRecord | Shutdown

definition CHANNEL_BOUND :: nat where "CHANNEL_BOUND = 10000"
definition BATCH_SIZE :: nat where "BATCH_SIZE = 64"

section \<open>Recording\<close>

definition truncate_str :: "string \<Rightarrow> nat \<Rightarrow> string may_panic" where
  "truncate_str s max_len =
     (if length s \<le> max_len then Some s
      else if \<not> is_char_boundary s max_len then None
      else Some (take max_len s @ ''... [truncated, '' @ dec (length s) @ '' bytes]''))"

definition truncate_opt :: "string option \<Rightarrow> nat \<Rightarrow> string option may_panic" where
  "truncate_opt so max_len =
     (case so of None \<Rightarrow> Some None | Some s \<Rightarrow> map_option Some (truncate_str s max_len))"

record 'c Channel =
  ch_queue :: "'c list"
  ch_open :: bool

definition make_record :: "string \<Rightarrow> RecordEventArgs \<Rightarrow> FlightRecorderRecord may_panic" where
  "make_record now a =
     (case (truncate_str (ra_payload_summary a) 500, truncate_opt (ra_raw_prompt a) 10000,
            truncate_opt (ra_raw_response a) 10000) of
        (Some summary, Some prompt, Some response) \<Rightarrow>
          Some \<lparr>fr_timestamp = now, fr_event_type = event_name (ra_event_type a), fr_node_name = ra_node_name a,
            fr_request_id = ra_request_id a, fr_payload_summary = summary, fr_raw_prompt = prompt,
            fr_raw_response = response, fr_error_message = ra_error_message a,
            fr_duration_ms = map_option sint (ra_duration_ms a),
            fr_token_count = map_option uint (ra_token_count a), fr_metadata = ''{}''\<rparr>
      | _ \<Rightarrow> None)"

text \<open>\<open>try_send\<close>: a full or disconnected channel loses the command.\<close>

definition chan_send :: "'c \<Rightarrow> 'c Channel \<Rightarrow> 'c Channel" where
  "chan_send x ch =
     (if ch_open ch \<and> length (ch_queue ch) < CHANNEL_BOUND then ch\<lparr>ch_queue := ch_queue ch @ [x]\<rparr> else ch)"

definition record_event ::
  "string \<Rightarrow> RecordEventArgs \<Rightarrow> FlightRecorderCommand Channel \<Rightarrow> FlightRecorderCommand Channel may_panic" where
  "record_event now a ch = map_option (\<lambda>r. chan_send (RecordEvent r) ch) (make_record now a)"

definition record_response ::
  "string \<Rightarrow> string \<Rightarrow> string \<Rightarrow> string \<Rightarrow> string \<Rightarrow> u64 \<Rightarrow> u32
   \<Rightarrow> FlightRecorderCommand Channel \<Rightarrow> FlightRecorderCommand Channel may_panic" where
  "record_response now node rid prompt response ms tokens ch =
     record_event now
       \<lparr>ra_event_type = ResponseReceived, ra_node_name = node, ra_request_id = rid,
        ra_payload_summary = ''Response from '' @ node @ '' ('' @ dec (unat tokens) @ '' tokens)'',
        ra_raw_prompt = Some prompt, ra_raw_response = Some response, ra_error_message = None,
        ra_duration_ms = Some ms, ra_token_count = Some tokens\<rparr> ch"

definition record_error ::
  "string \<Rightarrow> string \<Rightarrow> string \<Rightarrow> string \<Rightarrow> string \<Rightarrow> u64
   \<Rightarrow> FlightRecorderCommand Channel \<Rightarrow> FlightRecorderCommand Channel may_panic" where
  "record_error now node rid prompt err ms ch =
     record_event now
       \<lparr>ra_event_type = ResponseError, ra_node_name = node, ra_request_id = rid,
        ra_payload_summary = ''Error from '' @ node @ '': '' @ err,
        ra_raw_prompt = Some prompt, ra_raw_response = None, ra_error_message = Some err,
        ra_duration_ms = Some ms, ra_token_count = None\<rparr> ch"

definition recorder_drop :: "FlightRecorderCommand Channel \<Rightarrow> FlightRecorderCommand Channel" where
  "recorder_drop ch = (chan_send Shutdown ch)\<lparr>ch_open := False\<rparr>"

section \<open>The writer thread\<close>

definition insert_batch ::
  "(FlightRecorderRecord list \<Rightarrow> bool) \<Rightarrow> (FlightRecorderRecord \<Rightarrow> bool) \<Rightarrow> FlightRecorderRecord list
   \<Rightarrow> FlightRecorderRecord list \<Rightarrow> FlightRecorderRecord list" where
  "insert_batch tx_ok row_ok batch db =
     (if batch = [] then db else if tx_ok batch then db @ filter row_ok batch else db)"

text \<open>
  An observation is a command, nothing (a timeout of \<open>recv_timeout\<close> or an empty \<open>try_recv\<close>),
  or the disconnection of the channel. The thread waits in \<open>recv_timeout\<close> (\<open>Waiting\<close>) or
  drains in the inner loop (\<open>Draining\<close>).
\<close>

datatype obs = Got FlightRecorderCommand | Nothing | Gone

datatype writer_pc = Waiting | Draining | Finished

record writer =
  w_pc :: writer_pc
  w_batch :: "FlightRecorderRecord list"
  w_db :: "FlightRecorderRecord list"

definition writer_init :: writer where
  "writer_init = \<lparr>w_pc = Waiting, w_batch = [], w_db = []\<rparr>"

definition enter_drain :: "writer \<Rightarrow> writer" where
  "enter_drain w = w\<lparr>w_pc := if length (w_batch w) < BATCH_SIZE then Draining else Waiting\<rparr>"

definition flush ::
  "(FlightRecorderRecord list \<Rightarrow> bool) \<Rightarrow> (FlightRecorderRecord \<Rightarrow> bool) \<Rightarrow> writer \<Rightarrow> writer" where
  "flush tx_ok row_ok w = w\<lparr>w_db := insert_batch tx_ok row_ok (w_batch w) (w_db w), w_batch := []\<rparr>"

fun background_writer ::
  "(FlightRecorderRecord list \<Rightarrow> bool) \<Rightarrow> (FlightRecorderRecord \<Rightarrow> bool) \<Rightarrow> obs \<Rightarrow> writer \<Rightarrow> writer" where
  "background_writer tx_ok row_ok ob w =
     (case w_pc w of
        Finished \<Rightarrow> w
      | Waiting \<Rightarrow>
          (case ob of
             Got Shutdown \<Rightarrow> (flush tx_ok row_ok w)\<lparr>w_pc := Finished\<rparr>
           | Gone \<Rightarrow> (flush tx_ok row_ok w)\<lparr>w_pc := Finished\<rparr>
           | Got (RecordEvent r) \<Rightarrow>
               (let w1 = w\<lparr>w_batch := w_batch w @ [r]\<rparr>
                in enter_drain (if BATCH_SIZE \<le> length (w_batch w1) then flush tx_ok row_ok w1 else w1))
           | Nothing \<Rightarrow> enter_drain (flush tx_ok row_ok w))
      | Draining \<Rightarrow>
          (case ob of
             Got Shutdown \<Rightarrow> (flush tx_ok row_ok w)\<lparr>w_pc := Finished\<rparr>
           | Gone \<Rightarrow> (flush tx_ok row_ok w)\<lparr>w_pc := Finished\<rparr>
           | Got (RecordEvent r) \<Rightarrow> enter_drain (w\<lparr>w_batch := w_batch w @ [r]\<rparr>)
           | Nothing \<Rightarrow> w\<lparr>w_pc := Waiting\<rparr>))"

section \<open>Queries\<close>

record RecordQuery =
  q_event_type :: "EventType option"
  q_node_name :: "string option"
  q_request_id :: "string option"
  q_since :: "nat option"
  q_until :: "nat option"
  q_limit :: "u32 option"
  q_offset :: "u32 option"

text \<open>
  Reading a row: the parser of time stamps, the clock that stands in for an invalid one, and the parser
  of the metadata, which are empty when invalid.
\<close>

record row_readers =
  rd_time :: "string \<Rightarrow> int option"
  rd_now :: int
  rd_map :: "string \<Rightarrow> (string \<times> json) list option"

record FlightRecord =
  rec_id :: int
  rec_timestamp :: int
  rec_event_type :: EventType
  rec_node_name :: string
  rec_request_id :: string
  rec_payload_summary :: string
  rec_raw_prompt :: "string option"
  rec_raw_response :: "string option"
  rec_error_message :: "string option"
  rec_duration_ms :: "u64 option"
  rec_token_count :: "u32 option"
  rec_metadata :: "(string \<times> json) list"

definition row_to_record :: "row_readers \<Rightarrow> int \<times> FlightRecorderRecord \<Rightarrow> FlightRecord" where
  "row_to_record rd row =
     (case row of (i, r) \<Rightarrow>
        \<lparr>rec_id = i, rec_timestamp = (case rd_time rd (fr_timestamp r) of Some t \<Rightarrow> t | None \<Rightarrow> rd_now rd),
         rec_event_type = parse_event (fr_event_type r), rec_node_name = fr_node_name r,
         rec_request_id = fr_request_id r, rec_payload_summary = fr_payload_summary r,
         rec_raw_prompt = fr_raw_prompt r, rec_raw_response = fr_raw_response r,
         rec_error_message = fr_error_message r,
         rec_duration_ms = map_option word_of_int (fr_duration_ms r),
         rec_token_count = map_option word_of_int (fr_token_count r),
         rec_metadata = (case rd_map rd (fr_metadata r) of Some m \<Rightarrow> m | None \<Rightarrow> [])\<rparr>)"

text \<open>\<open>select limit offset\<close> is the answer of the database, \<open>None\<close> when any step of the query fails.\<close>

definition fr_query ::
  "row_readers \<Rightarrow> (nat \<Rightarrow> nat \<Rightarrow> (int \<times> FlightRecorderRecord) list option) \<Rightarrow> RecordQuery \<Rightarrow> FlightRecord list" where
  "fr_query rd select q =
     (let lmt = (case q_limit q of Some n \<Rightarrow> unat n | None \<Rightarrow> 100);
          off = (case q_offset q of Some n \<Rightarrow> unat n | None \<Rightarrow> 0)
      in case select lmt off of None \<Rightarrow> [] | Some rows \<Rightarrow> map (row_to_record rd) rows)"

section \<open>Consensus events\<close>

record ProviderResultEntry =
  pre_provider :: string
  pre_status :: string
  pre_canonical_key :: "string option"

text \<open>The time stamp is in milliseconds.\<close>

record ConsensusEvent =
  ce_timestamp :: int
  ce_request_id :: string
  ce_tenant_id :: string
  ce_prompt :: string
  ce_inference_params :: json
  ce_agreeing_nodes :: u8
  ce_total_nodes :: u8
  ce_adjudication_logic :: string
  ce_consensus_payload :: json
  ce_provider_results :: "ProviderResultEntry list"
  ce_fallback_activated :: bool

text \<open>\<open>to_json\<close> is the serialisation of an event; the channel carries the lines.\<close>

definition record_consensus_event ::
  "(ConsensusEvent \<Rightarrow> string option) \<Rightarrow> ConsensusEvent \<Rightarrow> string Channel \<Rightarrow> string Channel" where
  "record_consensus_event to_json event ch =
     (if ce_agreeing_nodes event < 2 then ch
      else case to_json event of None \<Rightarrow> ch | Some line \<Rightarrow> chan_send line ch)"

record corpus =
  current_date :: string
  corpus_files :: "(string, string list) hmap"

text \<open>
  The writer of the corpus on one line: \<open>now_date\<close> is the date it reads, \<open>open_ok\<close> whether the
  file for that date can be opened.
\<close>

definition append_line :: "string \<Rightarrow> string \<Rightarrow> (string, string list) hmap \<Rightarrow> (string, string list) hmap" where
  "append_line d line m = hm_insert d ((case hm_get m d of Some ls \<Rightarrow> ls | None \<Rightarrow> []) @ [line]) m"

definition corpus_step :: "string \<Rightarrow> bool \<Rightarrow> string \<Rightarrow> corpus \<Rightarrow> corpus" where
  "corpus_step now_date open_ok line c =
     (let d = (if now_date \<noteq> current_date c \<and> open_ok then now_date else current_date c)
      in \<lparr>current_date = d, corpus_files = append_line d (line @ [CHR 0x0A]) (corpus_files c)\<rparr>)"

section \<open>Truncation can panic\<close>

lemma truncate_panics_iff: "truncate_str s n = None \<longleftrightarrow> n < length s \<and> \<not> is_char_boundary s n"
  by (auto simp: truncate_str_def)

text \<open>A text of two-byte characters preceded by one ASCII character: every even position splits a character.\<close>

definition accented :: "nat \<Rightarrow> string" where
  "accented k = CHR ''x'' # concat (replicate k [char_of (0xC3 :: nat), char_of (0xA9 :: nat)])"

lemma length_accented: "length (accented k) = 2 * k + 1"
  by (simp add: accented_def length_concat sum_list_replicate)

lemma nth_concat_pair:
  "i < k \<Longrightarrow> concat (replicate k [a, b]) ! (2 * i + 1) = b"
proof (induction k arbitrary: i)
  case (Suc k)
  then show ?case by (cases i) auto
qed simp

lemma accented_not_boundary:
  assumes "0 < i" "i \<le> k"
  shows "\<not> is_char_boundary (accented k) (2 * i)"
proof -
  obtain j where j: "i = Suc j" using assms(1) by (cases i) auto
  have "accented k ! (2 * i) = char_of (0xA9 :: nat)"
    using nth_concat_pair [of j k] assms j by (simp add: accented_def)
  then show ?thesis using assms length_accented [of k] by (simp add: is_char_boundary_def)
qed

lemma accented_utf8: "utf8_valid (bytes_of (accented k))"
proof -
  have "utf8_valid (concat (replicate k [0xC3, 0xA9]))"
    by (induction k) (simp_all add: utf8_tail_def)
  moreover have "bytes_of (concat (replicate k [char_of (0xC3 :: nat), char_of (0xA9 :: nat)]))
      = concat (replicate k [0xC3, 0xA9])"
    using of_char_of_unat_u8 [of "0xC3"] of_char_of_unat_u8 [of "0xA9"]
    by (induction k) (simp_all add: bytes_of_def)
  ultimately show ?thesis by (simp add: accented_def bytes_of_def)
qed

text \<open>
  Recording a response whose prompt is longer than 10000 bytes panics when the cut falls
  inside a multi-byte character, although the prompt is a well-formed string: recording is not
  harmless to the request that is being recorded.
\<close>

theorem recording_can_panic:
  assumes "10000 < length prompt" "\<not> is_char_boundary prompt 10000"
  shows "record_response now node rid prompt response ms tokens ch = None"
proof -
  have "truncate_opt (Some prompt) 10000 = None"
    using assms by (simp add: truncate_opt_def truncate_panics_iff)
  then show ?thesis by (simp add: record_response_def record_event_def make_record_def split: option.split)
qed

theorem recording_can_panic_witness:
  "utf8_valid (bytes_of (accented 6000)) \<and> record_response ''t'' ''n'' ''r'' (accented 6000) ''ok'' 1 2 \<lparr>ch_queue = [], ch_open = True\<rparr> = None"
proof -
  have "\<not> is_char_boundary (accented 6000) 10000" using accented_not_boundary [of 5000 6000] by simp
  then show ?thesis
    using recording_can_panic [of "accented 6000"] accented_utf8 by (simp add: length_accented)
qed

text \<open>Short fields never panic, and a record survives the trip through the database.\<close>

lemma parse_event_name: "parse_event (event_name e) = e"
  by (cases e) (simp_all add: parse_event_def all_events_def)

lemma truncate_short: "length s \<le> n \<Longrightarrow> truncate_str s n = Some s"
  by (simp add: truncate_str_def)

definition short_opt :: "string option \<Rightarrow> bool" where
  "short_opt so = (case so of None \<Rightarrow> True | Some s \<Rightarrow> length s \<le> 10000)"

text \<open>
  An event whose texts are within the limits is recorded, and reading its row back gives
  the same event type, node, request, texts, duration and token count, whatever their values.
\<close>

theorem record_roundtrip:
  assumes "length (ra_payload_summary a) \<le> 500" "short_opt (ra_raw_prompt a)" "short_opt (ra_raw_response a)"
  shows "\<exists>r. make_record now a = Some r
     \<and> row_to_record rd (i, r) =
       \<lparr>rec_id = i, rec_timestamp = (case rd_time rd now of Some t \<Rightarrow> t | None \<Rightarrow> rd_now rd), rec_event_type = ra_event_type a, rec_node_name = ra_node_name a, rec_request_id = ra_request_id a,
        rec_payload_summary = ra_payload_summary a, rec_raw_prompt = ra_raw_prompt a,
        rec_raw_response = ra_raw_response a, rec_error_message = ra_error_message a,
        rec_duration_ms = ra_duration_ms a, rec_token_count = ra_token_count a,
        rec_metadata = (case rd_map rd ''{}'' of Some m \<Rightarrow> m | None \<Rightarrow> [])\<rparr>"
proof -
  have t: "truncate_opt so 10000 = Some so" if "short_opt so" for so
    using that by (auto simp: truncate_opt_def short_opt_def truncate_short split: option.splits)
  show ?thesis
    using assms t by (simp add: make_record_def truncate_short row_to_record_def parse_event_name option.map_comp comp_def
        option.map_ident)
qed

theorem record_roundtrip_witness:
  "let a = \<lparr>ra_event_type = CacheHit, ra_node_name = ''n'', ra_request_id = ''r'', ra_payload_summary = ''s'',
        ra_raw_prompt = None, ra_raw_response = Some ''x'', ra_error_message = None,
        ra_duration_ms = Some (- 1), ra_token_count = Some 5\<rparr>
   in \<exists>r. make_record ''t'' a = Some r \<and> rec_duration_ms (row_to_record \<lparr>rd_time = (\<lambda>_. None), rd_now = 0, rd_map = (\<lambda>_. None)\<rparr> (1, r)) = Some (- 1)"
  using record_roundtrip [of "\<lparr>ra_event_type = CacheHit, ra_node_name = ''n'', ra_request_id = ''r'', ra_payload_summary = ''s'',
        ra_raw_prompt = None, ra_raw_response = Some ''x'', ra_error_message = None,
        ra_duration_ms = Some (- 1), ra_token_count = Some 5\<rparr>" "''t''"
      "\<lparr>rd_time = (\<lambda>_. None), rd_now = 0, rd_map = (\<lambda>_. None)\<rparr>" 1]
  by (auto simp: short_opt_def Let_def)

text \<open>
  The query interface takes filters on event type, node, request and time; the answer
  depends on none of them.
\<close>

theorem query_ignores_filters:
  "fr_query rd select (q\<lparr>q_event_type := e, q_node_name := n, q_request_id := r, q_since := s, q_until := u\<rparr>) = fr_query rd select q"
  by (simp add: fr_query_def)

section \<open>The writer loses nothing\<close>

fun received :: "obs list \<Rightarrow> FlightRecorderRecord list" where
  "received [] = []"
| "received (Got (RecordEvent r) # os) = r # received os"
| "received (Got Shutdown # os) = []"
| "received (Gone # os) = []"
| "received (Nothing # os) = received os"

definition writer_ok :: "writer \<Rightarrow> bool" where
  "writer_ok w \<longleftrightarrow>
     (case w_pc w of
        Waiting \<Rightarrow> length (w_batch w) \<le> BATCH_SIZE
      | Draining \<Rightarrow> length (w_batch w) < BATCH_SIZE
      | Finished \<Rightarrow> w_batch w = [])"

lemma writer_ok_step: "writer_ok w \<Longrightarrow> writer_ok (background_writer tx_ok row_ok ob w)"
  by (auto simp: writer_ok_def flush_def enter_drain_def Let_def BATCH_SIZE_def
      split: writer_pc.splits obs.splits FlightRecorderCommand.splits)

interpretation wrm: invariant_machine "\<lambda>ob w. Some (background_writer tx_ok row_ok ob w)" writer_ok
  by unfold_locales (auto intro: writer_ok_step simp del: background_writer.simps)

definition write_all :: "(FlightRecorderRecord list \<Rightarrow> bool) \<Rightarrow> (FlightRecorderRecord \<Rightarrow> bool) \<Rightarrow> obs list \<Rightarrow> writer \<Rightarrow> writer" where
  "write_all tx_ok row_ok os w = foldl (\<lambda>w ob. background_writer tx_ok row_ok ob w) w os"

lemma write_all_run:
  "run (\<lambda>ob w. Some (background_writer tx_ok row_ok ob w)) os w = Some (write_all tx_ok row_ok os w)"
  by (induction os arbitrary: w) (simp_all add: write_all_def del: background_writer.simps)

abbreviation all_ok :: "'a \<Rightarrow> bool" where
  "all_ok \<equiv> \<lambda>_. True"

lemma insert_batch_ok: "insert_batch all_ok all_ok b db = db @ b"
  by (simp add: insert_batch_def)

lemma writer_step_log:
  assumes "writer_ok w" "w_pc w \<noteq> Finished"
  shows "w_db (background_writer all_ok all_ok ob w) @ w_batch (background_writer all_ok all_ok ob w)
       = w_db w @ w_batch w @ received [ob]"
    and "w_pc (background_writer all_ok all_ok ob w) = Finished \<longleftrightarrow> ob \<in> {Got Shutdown, Gone}"
  using assms
  by (auto simp: flush_def enter_drain_def Let_def insert_batch_ok
      split: writer_pc.splits obs.splits FlightRecorderCommand.splits)

lemma writer_finished: "w_pc w = Finished \<Longrightarrow> write_all tx_ok row_ok os w = w"
  by (induction os) (simp_all add: write_all_def)

lemma write_all_log:
  "writer_ok w \<Longrightarrow> w_pc w \<noteq> Finished \<Longrightarrow>
   w_db (write_all all_ok all_ok os w) @ w_batch (write_all all_ok all_ok os w) = w_db w @ w_batch w @ received os
   \<and> (w_pc (write_all all_ok all_ok os w) = Finished \<longleftrightarrow> Got Shutdown \<in> set os \<or> Gone \<in> set os)"
proof (induction os arbitrary: w)
  case (Cons ob os)
  let ?w = "background_writer all_ok all_ok ob w"
  note s = writer_step_log [OF Cons.prems, of ob]
  have all: "write_all all_ok all_ok (ob # os) w = write_all all_ok all_ok os ?w"
    by (simp add: write_all_def del: background_writer.simps)
  have ok: "writer_ok ?w" using Cons.prems(1) by (rule writer_ok_step)
  have split: "received (ob # os) = received [ob] @ (if ob \<in> {Got Shutdown, Gone} then [] else received os)"
    by (cases ob rule: obs.exhaust; (cases "case ob of Got c \<Rightarrow> c | _ \<Rightarrow> Shutdown")?) auto
  show ?case
  proof (cases "ob \<in> {Got Shutdown, Gone}")
    case True
    then have "w_pc ?w = Finished" using s(2) by simp
    with True s(1) split show ?thesis unfolding all
      by (auto simp: writer_finished simp del: background_writer.simps)
  next
    case False
    then have "w_pc ?w \<noteq> Finished" using s(2) by simp
    from Cons.IH [OF ok this] False s(1) split show ?thesis unfolding all
      by (auto simp del: background_writer.simps)
  qed
qed (simp add: write_all_def)


definition sample_record :: FlightRecorderRecord where
  "sample_record = the (make_record ''t''
     \<lparr>ra_event_type = CacheHit, ra_node_name = ''n'', ra_request_id = ''r'', ra_payload_summary = ''s'',
      ra_raw_prompt = None, ra_raw_response = None, ra_error_message = None, ra_duration_ms = None, ra_token_count = None\<rparr>)"


text \<open>A batch whose transaction fails is dropped: the batch is cleared all the same.\<close>

lemma failed_batch_lost:
  "w_pc w = Waiting \<Longrightarrow> w_batch w \<noteq> [] \<Longrightarrow>
   w_db (background_writer (\<lambda>_. False) row_ok Nothing w) = w_db w
   \<and> w_batch (background_writer (\<lambda>_. False) row_ok Nothing w) = []"
  by (simp add: flush_def enter_drain_def insert_batch_def)

lemma flushed_batch_bound:
  "writer_ok w \<Longrightarrow> w_pc w = Waiting \<Longrightarrow> length (w_batch w @ [r]) \<le> 65"
  by (simp add: writer_ok_def BATCH_SIZE_def)

section \<open>The corpus\<close>

definition corpus_lines :: "corpus \<Rightarrow> string multiset" where
  "corpus_lines c = mset (concat (map snd (corpus_files c)))"

lemma corpus_append:
  assumes "hm_inv m"
  shows "mset (concat (map snd (append_line d line m))) = add_mset line (mset (concat (map snd m)))"
  using assms
proof (induction m)
  case (Cons e m)
  obtain d' ls where e: "e = (d', ls)" by (cases e)
  have "hm_inv m" using Cons.prems by (simp add: hm_inv_def)
  then have IH: "mset (concat (map snd (append_line d line m))) = add_mset line (mset (concat (map snd m)))"
    by (rule Cons.IH)
  show ?case
  proof (cases "d = d'")
    case True
    then show ?thesis by (simp add: e append_line_def hm_get_def hm_insert_def)
  next
    case False
    then have "append_line d line (e # m) = (d', ls) # append_line d line m"
      by (simp add: e append_line_def hm_get_def hm_insert_def)
    with IH show ?thesis by (simp add: e)
  qed
qed (simp add: append_line_def hm_get_def hm_insert_def)

text \<open>Rotation keeps every line, whether or not the new file can be opened.\<close>

lemma corpus_step_keeps:
  "hm_inv (corpus_files c) \<Longrightarrow>
   corpus_lines (corpus_step now ok line c) = add_mset (line @ [CHR 0x0A]) (corpus_lines c)"
  by (simp add: corpus_step_def corpus_lines_def corpus_append Let_def)

lemma corpus_step_inv: "hm_inv (corpus_files c) \<Longrightarrow> hm_inv (corpus_files (corpus_step now ok line c))"
  by (simp add: corpus_step_def append_line_def hm.inv_insert Let_def)

text \<open>Only events with at least two agreeing nodes reach the corpus.\<close>

lemma minority_not_recorded: "ce_agreeing_nodes e < 2 \<Longrightarrow> record_consensus_event to_json e ch = ch"
  by (simp add: record_consensus_event_def)

end
