(* ===== verification/TmrCache.thy ===== *)
theory TmrCache
  imports HashMaps Text
begin

text \<open>
  \<open>crates/cache-storage/src/tmr_cache.rs\<close>, the cache of consensus results, and
  \<open>crates/cache-storage/src/staleness.rs\<close>, cached values with a grace period.

  SHA-256 followed by hexadecimal encoding is the argument \<open>digest\<close>. The Redis calls of the
  result cache are stubs in the code and appear as such. Instants are nanoseconds; the wall
  clock of the staleness part is an integer number of nanoseconds that may go backwards.
\<close>

section \<open>The result cache\<close>

record CachedConsensusResult =
  cc_content :: string
  cc_agreeing_nodes :: u8
  cc_total_nodes :: u8
  cc_adjudication_logic :: string
  cc_cached_at :: int
  cc_ttl_sec :: u64

record MemoryCacheEntry =
  mc_result :: CachedConsensusResult
  mc_inserted_at :: instant

record TmrResultCache =
  tc_redis_url :: string
  tc_ttl_sec :: u64
  memory_cache :: "(string, MemoryCacheEntry) hmap"
  redis_available :: bool

definition TmrResultCache_new :: "string \<Rightarrow> u64 \<Rightarrow> TmrResultCache" where
  "TmrResultCache_new url ttl =
     \<lparr>tc_redis_url = url, tc_ttl_sec = ttl, memory_cache = [], redis_available = (url \<noteq> [])\<rparr>"

definition TmrResultCache_from_env :: "(string \<Rightarrow> string option) \<Rightarrow> TmrResultCache" where
  "TmrResultCache_from_env env =
     TmrResultCache_new
       (case env ''REDIS_URL'' of Some u \<Rightarrow> u | None \<Rightarrow> ''redis://127.0.0.1:6379'')
       (case Option.bind (env ''CACHE_TTL_SEC'') (parse_unsigned 64) of Some n \<Rightarrow> of_nat n | None \<Rightarrow> 3600)"

definition TMR_CACHE_PREFIX :: string where
  "TMR_CACHE_PREFIX = ''serein:tmr:''"

definition cache_key :: "(string \<Rightarrow> string) \<Rightarrow> string \<Rightarrow> string" where
  "cache_key digest prompt = TMR_CACHE_PREFIX @ digest (trim prompt)"

definition get_from_redis :: "string \<Rightarrow> CachedConsensusResult option" where
  "get_from_redis key = None"

definition entry_live :: "instant \<Rightarrow> u64 \<Rightarrow> MemoryCacheEntry \<Rightarrow> bool" where
  "entry_live now ttl e \<longleftrightarrow> elapsed now (mc_inserted_at e) < from_secs (unat ttl)"

definition get_from_memory :: "instant \<Rightarrow> string \<Rightarrow> TmrResultCache \<Rightarrow> CachedConsensusResult option" where
  "get_from_memory now key c =
     (case hm_get (memory_cache c) key of
        None \<Rightarrow> None
      | Some e \<Rightarrow> if entry_live now (tc_ttl_sec c) e then Some (mc_result e) else None)"

definition put_to_memory :: "instant \<Rightarrow> string \<Rightarrow> CachedConsensusResult \<Rightarrow> TmrResultCache \<Rightarrow> TmrResultCache" where
  "put_to_memory now key r c =
     (let m = hm_insert key \<lparr>mc_result = r, mc_inserted_at = now\<rparr> (memory_cache c)
      in c\<lparr>memory_cache :=
           if 10000 < hm_len m then hm_retain (\<lambda>_ e. entry_live now (tc_ttl_sec c) e) m else m\<rparr>)"

definition tmr_get :: "(string \<Rightarrow> string) \<Rightarrow> instant \<Rightarrow> string \<Rightarrow> TmrResultCache \<Rightarrow> CachedConsensusResult option" where
  "tmr_get digest now prompt c =
     (let key = cache_key digest prompt
      in case (if redis_available c then get_from_redis key else None) of
           Some r \<Rightarrow> Some r
         | None \<Rightarrow> get_from_memory now key c)"

definition tmr_put ::
  "(string \<Rightarrow> string) \<Rightarrow> instant \<Rightarrow> string \<Rightarrow> CachedConsensusResult \<Rightarrow> TmrResultCache \<Rightarrow> TmrResultCache" where
  "tmr_put digest now prompt r c = put_to_memory now (cache_key digest prompt) r c"

section \<open>Values with a grace period\<close>

datatype FreshnessLevel = Fresh | StaleAcceptable int | Expired int

record 'v StaleCache =
  sc_value :: 'v
  sc_cached_at :: int
  ttl_seconds :: int
  grace_period_seconds :: int
  sc_source :: string
  generation :: u64

definition StaleCache_new :: "int \<Rightarrow> 'v \<Rightarrow> int \<Rightarrow> int \<Rightarrow> string \<Rightarrow> 'v StaleCache" where
  "StaleCache_new now v ttl grace src =
     \<lparr>sc_value = v, sc_cached_at = now, ttl_seconds = ttl, grace_period_seconds = grace, sc_source = src, generation = 1\<rparr>"

text \<open>\<open>num_seconds\<close> cuts off towards zero.\<close>

definition num_seconds :: "int \<Rightarrow> int" where
  "num_seconds d = (if 0 \<le> d then d div 1000000000 else - ((- d) div 1000000000))"

definition age_seconds :: "int \<Rightarrow> 'v StaleCache \<Rightarrow> int" where
  "age_seconds now c = num_seconds (now - sc_cached_at c)"

text \<open>The sum of the two windows is a checked addition on \<open>i64\<close>.\<close>

definition freshness :: "int \<Rightarrow> 'v StaleCache \<Rightarrow> FreshnessLevel may_panic" where
  "freshness now c =
     (let age = age_seconds now c
      in if age < ttl_seconds c then Some Fresh
         else let bound = ttl_seconds c + grace_period_seconds c
              in if bound < - (2 ^ 63) \<or> 2 ^ 63 \<le> bound then None
                 else if age < bound then Some (StaleAcceptable age)
                 else Some (Expired age))"

definition is_serveable :: "int \<Rightarrow> 'v StaleCache \<Rightarrow> bool may_panic" where
  "is_serveable now c = map_option (\<lambda>f. case f of Expired _ \<Rightarrow> False | _ \<Rightarrow> True) (freshness now c)"

definition is_fresh :: "int \<Rightarrow> 'v StaleCache \<Rightarrow> bool may_panic" where
  "is_fresh now c = map_option (\<lambda>f. f = Fresh) (freshness now c)"

definition sc_refresh :: "int \<Rightarrow> 'v \<Rightarrow> 'v StaleCache \<Rightarrow> 'v StaleCache may_panic" where
  "sc_refresh now v c =
     (case checked_add (generation c) 1 of
        None \<Rightarrow> None
      | Some g \<Rightarrow> Some (c\<lparr>sc_value := v, sc_cached_at := now, generation := g\<rparr>))"

definition extend_ttl :: "int \<Rightarrow> int \<Rightarrow> 'v StaleCache \<Rightarrow> 'v StaleCache" where
  "extend_ttl now additional c = c\<lparr>sc_cached_at := now, ttl_seconds := additional\<rparr>"

text \<open>
  The manager stores entries of any type; \<open>'v\<close> is the sum of the types in use and a lookup at
  another type is a lookup that \<open>as\<close> rejects.
\<close>

record 'v StalenessManager =
  sm_caches :: "(string, 'v StaleCache) hmap"
  default_ttl_seconds :: int
  default_grace_seconds :: int

definition StalenessManager_new :: "int \<Rightarrow> int \<Rightarrow> 'v StalenessManager" where
  "StalenessManager_new ttl grace = \<lparr>sm_caches = [], default_ttl_seconds = ttl, default_grace_seconds = grace\<rparr>"

definition sm_put :: "int \<Rightarrow> string \<Rightarrow> 'v \<Rightarrow> string \<Rightarrow> 'v StalenessManager \<Rightarrow> 'v StalenessManager" where
  "sm_put now key v src s =
     s\<lparr>sm_caches := hm_insert key (StaleCache_new now v (default_ttl_seconds s) (default_grace_seconds s) src) (sm_caches s)\<rparr>"

definition sm_get ::
  "('v \<Rightarrow> 't option) \<Rightarrow> int \<Rightarrow> string \<Rightarrow> 'v StalenessManager \<Rightarrow> ('t \<times> FreshnessLevel) option may_panic" where
  "sm_get as now key s =
     (case hm_get (sm_caches s) key of
        None \<Rightarrow> Some None
      | Some c \<Rightarrow>
          (case as (sc_value c) of
             None \<Rightarrow> Some None
           | Some t \<Rightarrow> map_option (\<lambda>f. Some (t, f)) (freshness now c)))"

definition sm_evict :: "string \<Rightarrow> 'v StalenessManager \<Rightarrow> bool \<times> 'v StalenessManager" where
  "sm_evict key s = (hm_get (sm_caches s) key \<noteq> None, s\<lparr>sm_caches := hm_remove key (sm_caches s)\<rparr>)"

section \<open>What the result cache answers\<close>

text \<open>
  After a result is stored for a prompt, a lookup within the time to live returns it for
  every prompt with the same key, in particular for the same prompt with other surrounding
  white space; and a lookup under another key is answered as before.
\<close>

theorem put_then_get:
  assumes "hm_inv (memory_cache c)" "now \<le> t" "elapsed t now < from_secs (unat (tc_ttl_sec c))"
  shows "tmr_get digest t q (tmr_put digest now p r c) =
     (if cache_key digest q = cache_key digest p then Some r else tmr_get digest t q c)"
proof -
  let ?e = "\<lparr>mc_result = r, mc_inserted_at = now\<rparr>"
  let ?m = "hm_insert (cache_key digest p) ?e (memory_cache c)"
  have inv: "hm_inv ?m" using assms(1) by (rule hm.inv_insert)
  have dead: "\<not> entry_live t (tc_ttl_sec c) e" if "\<not> entry_live now (tc_ttl_sec c) e" for e
    using that assms(2) by (simp add: entry_live_def elapsed_def)
  have live: "entry_live t (tc_ttl_sec c) ?e" using assms(3) by (simp add: entry_live_def)
  have get: "get_from_memory t k (put_to_memory now (cache_key digest p) r c) =
      (if k = cache_key digest p then Some r else get_from_memory t k c)" for k
    using live dead
    by (auto simp: get_from_memory_def put_to_memory_def Let_def hm_get_retain [OF inv] hm.get_insert
        split: option.split)
  have "redis_available (put_to_memory now k r c) = redis_available c" for k
    by (simp add: put_to_memory_def Let_def)
  then show ?thesis by (simp add: tmr_get_def tmr_put_def get get_from_redis_def Let_def)
qed

theorem put_then_get_witness:
  "tmr_get id 2000000000 ''  hi '' (tmr_put id 1000000000 ''hi''
      \<lparr>cc_content = ''x'', cc_agreeing_nodes = 2, cc_total_nodes = 3, cc_adjudication_logic = ''m'', cc_cached_at = 0, cc_ttl_sec = 60\<rparr>
      (TmrResultCache_new [] 60)) \<noteq> None"
  by (subst put_then_get)
    (simp_all add: TmrResultCache_new_def hm_inv_def elapsed_def from_secs_def cache_key_def trim_def trim_start_def
      trim_end_def is_ws_def)

text \<open>
  Nothing bounds the memory cache. Its only eviction removes expired entries, so results
  stored for distinct keys within one time to live are all kept, however many there are.
\<close>

lemma retain_all: "\<forall>(k, e) \<in> set m. p k e \<Longrightarrow> hm_retain p m = m"
  by (auto simp: hm_retain_def filter_id_conv)

definition put_keys :: "instant \<Rightarrow> CachedConsensusResult \<Rightarrow> string list \<Rightarrow> TmrResultCache \<Rightarrow> TmrResultCache" where
  "put_keys now r ks c = foldl (\<lambda>c k. put_to_memory now k r c) c ks"

lemma put_keys_files:
  assumes "0 < unat (tc_ttl_sec c)"
  shows "distinct ks \<Longrightarrow> set ks \<inter> fst ` set (memory_cache c) = {} \<Longrightarrow>
     \<forall>(k, e) \<in> set (memory_cache c). mc_inserted_at e = now \<Longrightarrow>
     memory_cache (put_keys now r ks c) = memory_cache c @ map (\<lambda>k. (k, \<lparr>mc_result = r, mc_inserted_at = now\<rparr>)) ks"
  using assms
proof (induction ks arbitrary: c)
  case (Cons k ks)
  let ?e = "\<lparr>mc_result = r, mc_inserted_at = now\<rparr>"
  have m: "hm_insert k ?e (memory_cache c) = memory_cache c @ [(k, ?e)]"
    using Cons.prems(2) by (intro hm_insert_new) auto
  have live: "entry_live now (tc_ttl_sec c) e" if "mc_inserted_at e = now" for e
    using that Cons.prems(4) by (simp add: entry_live_def elapsed_def from_secs_def)
  have p: "put_to_memory now k r c = c\<lparr>memory_cache := memory_cache c @ [(k, ?e)]\<rparr>"
    unfolding put_to_memory_def Let_def m
    by (subst retain_all) (use Cons.prems(3) live in auto)
  have "memory_cache (put_keys now r ks (put_to_memory now k r c))
      = memory_cache (put_to_memory now k r c) @ map (\<lambda>k. (k, ?e)) ks"
    by (rule Cons.IH) (use Cons.prems p in auto)
  then show ?case by (simp add: put_keys_def p)
qed (simp add: put_keys_def)

theorem memory_cache_unbounded:
  assumes "distinct ks" "0 < unat ttl"
  shows "hm_len (memory_cache (put_keys now r ks (TmrResultCache_new url ttl))) = length ks"
  using put_keys_files [of "TmrResultCache_new url ttl" ks now r] assms
  by (simp add: TmrResultCache_new_def hm_len_def)

theorem memory_cache_unbounded_witness:
  "hm_len (memory_cache (put_keys 0
      \<lparr>cc_content = ''x'', cc_agreeing_nodes = 2, cc_total_nodes = 3, cc_adjudication_logic = ''m'', cc_cached_at = 0, cc_ttl_sec = 60\<rparr>
      (map (\<lambda>n. replicate n (CHR ''k'')) [0..<20000]) (TmrResultCache_new [] 60))) = 20000"
proof -
  have "inj_on (\<lambda>n. replicate n (CHR ''k'')) {0..<20000}" by (metis inj_onI length_replicate)
  then have "distinct (map (\<lambda>n. replicate n (CHR ''k'')) [0..<20000])" by (simp add: distinct_map)
  then show ?thesis by (subst memory_cache_unbounded) simp_all
qed

section \<open>How a value ages\<close>

fun freshness_rank :: "FreshnessLevel \<Rightarrow> nat" where
  "freshness_rank Fresh = 0"
| "freshness_rank (StaleAcceptable _) = 1"
| "freshness_rank (Expired _) = 2"

lemma num_seconds_mono:
  assumes "a \<le> b"
  shows "num_seconds a \<le> num_seconds b"
proof -
  have pos: "0 \<le> x \<Longrightarrow> 0 \<le> x div (1000000000 :: int)" for x by (simp add: pos_imp_zdiv_nonneg_iff)
  have mono: "x \<le> y \<Longrightarrow> x div 1000000000 \<le> y div (1000000000 :: int)" for x y by (simp add: zdiv_mono1)
  consider "0 \<le> a" | "a < 0" "0 \<le> b" | "a < 0" "b < 0" by linarith
  then show ?thesis
  proof cases
    case 1
    with assms mono [OF assms] show ?thesis by (simp add: num_seconds_def)
  next
    case 2
    then have "num_seconds a \<le> 0" "0 \<le> num_seconds b" using pos [of "- a"] pos [of b] by (simp_all add: num_seconds_def)
    then show ?thesis by simp
  next
    case 3
    with assms mono [of "- b" "- a"] show ?thesis by (simp add: num_seconds_def)
  qed
qed

text \<open>
  Without a refresh a value only ages: as the clock advances its level goes from fresh to
  stale to expired and never back; a value served at some time was serveable at every earlier
  time.
\<close>

theorem freshness_monotone:
  assumes "now \<le> now'" "0 \<le> grace_period_seconds c"
    and "freshness now c = Some f" "freshness now' c = Some f'"
  shows "freshness_rank f \<le> freshness_rank f'"
  using assms num_seconds_mono [of "now - sc_cached_at c" "now' - sc_cached_at c"]
  by (auto simp: freshness_def age_seconds_def Let_def split: if_splits)

theorem freshness_monotone_witness:
  "freshness_rank (StaleAcceptable 70) \<le> freshness_rank (Expired 100)"
proof -
  let ?c = "StaleCache_new 0 () 60 30 ''s''"
  have "freshness 70000000000 ?c = Some (StaleAcceptable 70)" "freshness 100000000000 ?c = Some (Expired 100)"
    by (simp_all add: freshness_def age_seconds_def num_seconds_def StaleCache_new_def Let_def)
  from freshness_monotone [OF _ _ this] show ?thesis by (simp add: StaleCache_new_def)
qed

text \<open>
  \<open>extend_ttl\<close> is documented to extend the time to live; it replaces it. Calling it with a
  small number makes a value expire earlier than it would have without the call.
\<close>

theorem extend_ttl_can_shorten:
  assumes "0 \<le> a" "a < t" "0 \<le> g" "t + g < 2 ^ 63"
  shows "\<exists>later. is_serveable later (StaleCache_new 0 v t g s) = Some True
     \<and> is_serveable later (extend_ttl 0 a (StaleCache_new 0 v t g s)) = Some False"
proof
  let ?later = "(a + g) * 1000000000"
  have age: "num_seconds ?later = a + g" using assms by (simp add: num_seconds_def)
  have "is_serveable ?later (StaleCache_new 0 v t g s) = Some True"
    using assms age by (auto simp: is_serveable_def freshness_def age_seconds_def StaleCache_new_def Let_def)
  moreover have "is_serveable ?later (extend_ttl 0 a (StaleCache_new 0 v t g s)) = Some False"
    using assms age by (simp add: is_serveable_def freshness_def age_seconds_def StaleCache_new_def extend_ttl_def Let_def)
  ultimately show "is_serveable ?later (StaleCache_new 0 v t g s) = Some True
     \<and> is_serveable ?later (extend_ttl 0 a (StaleCache_new 0 v t g s)) = Some False" ..
qed

theorem extend_ttl_can_shorten_witness:
  "\<exists>later. is_serveable later (StaleCache_new 0 True 3600 30 ''config'') = Some True
     \<and> is_serveable later (extend_ttl 0 10 (StaleCache_new 0 True 3600 30 ''config'')) = Some False"
  by (rule extend_ttl_can_shorten) simp_all

lemma put_get_fresh:
  "0 < default_ttl_seconds s \<Longrightarrow> as v = Some t \<Longrightarrow> sm_get as now k (sm_put now k v src s) = Some (Some (t, Fresh))"
  by (simp add: sm_get_def sm_put_def hm.get_insert StaleCache_new_def freshness_def age_seconds_def num_seconds_def Let_def)

lemma evict_removes: "sm_get as now k (snd (sm_evict k s)) = Some None"
  by (simp add: sm_get_def sm_evict_def hm.get_remove)

end
