(* ===== verification/Prompts.thy ===== *)
theory Prompts
  imports Json
begin

text \<open>
  Three small modules of \<open>crates/llm-router/src\<close>: \<open>prompt_cache.rs\<close> (requests with cache
  directives), \<open>memory_hints.rs\<close> (the life cycle of retrieved hints) and the oracle of
  \<open>lib.rs\<close> (confidence thresholds on an answer).

  SHA-256 with hexadecimal encoding is the argument \<open>digest\<close>; parsing is \<open>from_str\<close>, printing
  \<open>to_str\<close>. A request body is a JSON value whose entries are listed in the order the code writes
  them. A temperature of type \<open>f32\<close> is the \<open>f64\<close> it is converted to. The clock of the hints is an
  integer number of nanoseconds.
\<close>

section \<open>Cache directives\<close>

datatype Provider = Gemini | Anthropic | DeepSeek | Groq

definition supports_prompt_caching :: "Provider \<Rightarrow> bool" where
  "supports_prompt_caching p \<longleftrightarrow> p \<in> {Gemini, Anthropic, DeepSeek}"

definition requires_beta_header :: "Provider \<Rightarrow> bool" where
  "requires_beta_header p \<longleftrightarrow> p = Anthropic"

record CachedContent =
  cc_role :: string
  cc_parts :: "json list"
  cc_cache_control :: "string option"
  cc_content_hash :: string
  cc_estimated_tokens :: u32

record CacheAwarePayload =
  cap_body :: string
  cap_headers :: "(string \<times> string) list"
  cap_provider :: Provider

record CacheAwarePayloadArgs =
  ca_provider :: Provider
  ca_system_prompt :: CachedContent
  ca_documents :: "CachedContent list"
  ca_user_query :: string
  ca_temperature :: f64
  ca_max_tokens :: u32
  ca_model :: string

record CacheStats =
  total_cached_blocks :: u64
  total_cache_hits :: u64
  estimated_token_savings :: u64

record PromptCacheManager =
  pcm_stats :: CacheStats
  pcm_enabled :: bool

definition PromptCacheManager_new :: "bool \<Rightarrow> PromptCacheManager" where
  "PromptCacheManager_new enabled =
     \<lparr>pcm_stats = \<lparr>total_cached_blocks = 0, total_cache_hits = 0, estimated_token_savings = 0\<rparr>, pcm_enabled = enabled\<rparr>"

text \<open>\<open>div_ceil(4) as u32\<close>\<close>

definition estimate_tokens :: "string \<Rightarrow> u32" where
  "estimate_tokens content = of_nat ((length content + 3) div 4)"

definition text_part :: "string \<Rightarrow> json" where
  "text_part s = JObject [(''text'', JString s)]"

text \<open>The counters are checked additions; the product with 9 fits 64 bits.\<close>

definition wrap_system_prompt ::
  "(string \<Rightarrow> string) \<Rightarrow> string \<Rightarrow> PromptCacheManager \<Rightarrow> (CachedContent \<times> PromptCacheManager) may_panic" where
  "wrap_system_prompt digest prompt m =
     (case checked_add (total_cached_blocks (pcm_stats m)) 1 of
        None \<Rightarrow> None
      | Some b \<Rightarrow>
          Some (\<lparr>cc_role = ''user'', cc_parts = [text_part prompt],
                 cc_cache_control = (if pcm_enabled m then Some ''ephemeral'' else None),
                 cc_content_hash = digest prompt, cc_estimated_tokens = estimate_tokens prompt\<rparr>,
                m\<lparr>pcm_stats := (pcm_stats m)\<lparr>total_cached_blocks := b\<rparr>\<rparr>))"

definition wrap_document ::
  "(string \<Rightarrow> string) \<Rightarrow> string \<Rightarrow> string \<Rightarrow> PromptCacheManager \<Rightarrow> (CachedContent \<times> PromptCacheManager) may_panic" where
  "wrap_document digest doc title m =
     (let full = ''## '' @ title @ [CHR 0x0A, CHR 0x0A] @ doc; tokens = estimate_tokens full
      in case (checked_add (total_cached_blocks (pcm_stats m)) 1,
               checked_add (estimated_token_savings (pcm_stats m)) (ucast tokens * 9 div 10)) of
           (Some b, Some s) \<Rightarrow>
             Some (\<lparr>cc_role = ''user'', cc_parts = [text_part full],
                    cc_cache_control = (if pcm_enabled m then Some ''ephemeral'' else None),
                    cc_content_hash = digest full, cc_estimated_tokens = tokens\<rparr>,
                   m\<lparr>pcm_stats := (pcm_stats m)\<lparr>total_cached_blocks := b, estimated_token_savings := s\<rparr>\<rparr>)
         | _ \<Rightarrow> None)"

definition ephemeral :: "(string \<times> json) list" where
  "ephemeral = [(''cache_control'', JObject [(''type'', JString ''ephemeral'')])]"

definition gemini_block :: "CachedContent \<Rightarrow> json" where
  "gemini_block c =
     JObject ([(''role'', JString (cc_role c)), (''parts'', JArray (cc_parts c))]
       @ (case cc_cache_control c of
            Some t \<Rightarrow> [(''cache_control'', JObject [(''type'', JString t)])]
          | None \<Rightarrow> []))"

definition build_gemini_request :: "CachedContent list \<Rightarrow> string \<Rightarrow> f64 \<Rightarrow> u32 \<Rightarrow> json" where
  "build_gemini_request cached user_query temperature max_tokens =
     JObject
       [(''contents'', JArray (map gemini_block cached
           @ [JObject [(''role'', JString ''user''), (''parts'', JArray [text_part user_query])]])),
        (''generationConfig'', JObject [(''temperature'', json_of_f64 temperature),
           (''maxOutputTokens'', JNumber (PosInt (ucast max_tokens)))])]"

fun json_get :: "json \<Rightarrow> string \<Rightarrow> json option" where
  "json_get (JObject kvs) k = map_of kvs k"
| "json_get _ k = None"

fun json_as_str :: "json \<Rightarrow> string option" where
  "json_as_str (JString s) = Some s"
| "json_as_str _ = None"

definition first_text :: "CachedContent \<Rightarrow> string option option" where
  "first_text c =
     (case cc_parts c of [] \<Rightarrow> None | p # _ \<Rightarrow> Some (Option.bind (json_get p ''text'') json_as_str))"

definition anthropic_block :: "CachedContent \<Rightarrow> json list" where
  "anthropic_block c =
     (case first_text c of
        None \<Rightarrow> []
      | Some t \<Rightarrow>
          [JObject ([(''type'', JString ''text''), (''text'', JString (case t of Some s \<Rightarrow> s | None \<Rightarrow> []))]
             @ (if cc_cache_control c \<noteq> None then ephemeral else []))])"

definition build_anthropic_request ::
  "CachedContent \<Rightarrow> CachedContent list \<Rightarrow> string \<Rightarrow> string \<Rightarrow> f64 \<Rightarrow> u32 \<Rightarrow> json" where
  "build_anthropic_request sys docs user_query model temperature max_tokens =
     JObject
       [(''model'', JString model), (''max_tokens'', JNumber (PosInt (ucast max_tokens))),
        (''temperature'', json_of_f64 temperature),
        (''system'', JArray (concat (map anthropic_block (sys # docs)))),
        (''messages'', JArray [JObject [(''role'', JString ''user''),
           (''content'', JArray [JObject [(''type'', JString ''text''), (''text'', JString user_query)]])]])]"

definition deepseek_text :: "CachedContent \<Rightarrow> string list" where
  "deepseek_text c = (case first_text c of Some (Some s) \<Rightarrow> [s] | _ \<Rightarrow> [])"

definition build_deepseek_request ::
  "CachedContent \<Rightarrow> CachedContent list \<Rightarrow> string \<Rightarrow> string \<Rightarrow> f64 \<Rightarrow> u32 \<Rightarrow> json" where
  "build_deepseek_request sys docs user_query model temperature max_tokens =
     JObject
       [(''model'', JString model),
        (''messages'', JArray
           [JObject ([(''role'', JString ''system''),
                      (''content'', JString (join [CHR 0x0A, CHR 0x0A] (concat (map deepseek_text (sys # docs)))))]
              @ (if cc_cache_control sys \<noteq> None then ephemeral else [])),
            JObject [(''role'', JString ''user''), (''content'', JString user_query)]]),
        (''temperature'', json_of_f64 temperature), (''max_tokens'', JNumber (PosInt (ucast max_tokens)))]"

definition request_body :: "CacheAwarePayloadArgs \<Rightarrow> json" where
  "request_body a =
     (case ca_provider a of
        Gemini \<Rightarrow> build_gemini_request (ca_system_prompt a # ca_documents a) (ca_user_query a) (ca_temperature a) (ca_max_tokens a)
      | Anthropic \<Rightarrow> build_anthropic_request (ca_system_prompt a) (ca_documents a) (ca_user_query a) (ca_model a) (ca_temperature a) (ca_max_tokens a)
      | DeepSeek \<Rightarrow> build_deepseek_request (ca_system_prompt a) (ca_documents a) (ca_user_query a) (ca_model a) (ca_temperature a) (ca_max_tokens a)
      | Groq \<Rightarrow> build_deepseek_request (ca_system_prompt a) (ca_documents a) (ca_user_query a) (ca_model a) (ca_temperature a) (ca_max_tokens a))"

definition build_cache_aware_payload :: "(json \<Rightarrow> string) \<Rightarrow> CacheAwarePayloadArgs \<Rightarrow> CacheAwarePayload" where
  "build_cache_aware_payload to_str a =
     \<lparr>cap_body = to_str (request_body a),
      cap_headers = (''Content-Type'', ''application/json'')
        # (if ca_provider a = Anthropic then [(''anthropic-beta'', ''prompt-caching-2024-07-31'')] else []),
      cap_provider = ca_provider a\<rparr>"

definition record_cache_hit :: "PromptCacheManager \<Rightarrow> PromptCacheManager may_panic" where
  "record_cache_hit m =
     map_option (\<lambda>n. m\<lparr>pcm_stats := (pcm_stats m)\<lparr>total_cache_hits := n\<rparr>\<rparr>) (checked_add (total_cache_hits (pcm_stats m)) 1)"

section \<open>Hints\<close>

datatype HintStatus = Unverified | PendingVerification | Verified | VerificationFailed string | HintExpired

datatype HintConfidence = LowConf | MediumConf | HighConf | CriticalConf

record UnverifiedHint =
  h_id :: string
  h_content :: string
  h_source_url :: string
  h_retrieved_at :: int
  h_status :: HintStatus
  h_confidence :: HintConfidence
  h_ttl_seconds :: int
  h_attempts :: u32

definition UnverifiedHint_new ::
  "int \<Rightarrow> string \<Rightarrow> string \<Rightarrow> string \<Rightarrow> HintConfidence \<Rightarrow> int \<Rightarrow> UnverifiedHint" where
  "UnverifiedHint_new now i content url conf ttl =
     \<lparr>h_id = i, h_content = content, h_source_url = url, h_retrieved_at = now, h_status = Unverified,
      h_confidence = conf, h_ttl_seconds = ttl, h_attempts = 0\<rparr>"

definition hint_age :: "int \<Rightarrow> UnverifiedHint \<Rightarrow> int" where
  "hint_age now h =
     (let d = now - h_retrieved_at h in if 0 \<le> d then d div 1000000000 else - ((- d) div 1000000000))"

definition hint_is_expired :: "int \<Rightarrow> UnverifiedHint \<Rightarrow> bool" where
  "hint_is_expired now h \<longleftrightarrow> h_ttl_seconds h < hint_age now h"

definition mark_pending :: "UnverifiedHint \<Rightarrow> UnverifiedHint may_panic" where
  "mark_pending h =
     map_option (\<lambda>n. h\<lparr>h_status := PendingVerification, h_attempts := n\<rparr>) (checked_add (h_attempts h) 1)"

definition mark_verified :: "UnverifiedHint \<Rightarrow> UnverifiedHint" where
  "mark_verified h = h\<lparr>h_status := Verified\<rparr>"

definition mark_failed :: "string \<Rightarrow> UnverifiedHint \<Rightarrow> UnverifiedHint" where
  "mark_failed reason h = h\<lparr>h_status := VerificationFailed reason\<rparr>"

definition force_expire :: "UnverifiedHint \<Rightarrow> UnverifiedHint" where
  "force_expire h = h\<lparr>h_status := HintExpired\<rparr>"

datatype VerificationResult = Confirmed f64 | Stale string string | Unreachable string | Exhausted u32

record HintVerifier =
  max_verification_attempts :: u32

definition verify_hint :: "int \<Rightarrow> HintVerifier \<Rightarrow> UnverifiedHint \<Rightarrow> VerificationResult" where
  "verify_hint now v h =
     (if hint_is_expired now h then Exhausted (h_attempts h)
      else if max_verification_attempts v \<le> h_attempts h then Exhausted (h_attempts h)
      else if h_content h = [] then Stale ''<non-empty>'' ''<empty>''
      else Confirmed (to_f64 (95 / 100)))"

definition apply_verification :: "VerificationResult \<Rightarrow> UnverifiedHint \<Rightarrow> UnverifiedHint" where
  "apply_verification r h =
     (case r of
        Confirmed _ \<Rightarrow> mark_verified h
      | Stale _ actual \<Rightarrow> mark_failed (''Content mismatch: got '' @ actual) h
      | Unreachable err \<Rightarrow> mark_failed (''Endpoint unreachable: '' @ err) h
      | Exhausted _ \<Rightarrow> force_expire h)"

definition filter_verified :: "int \<Rightarrow> UnverifiedHint list \<Rightarrow> UnverifiedHint list" where
  "filter_verified now hs = filter (\<lambda>h. h_status h = Verified \<and> \<not> hint_is_expired now h) hs"

section \<open>The oracle\<close>

datatype ResponseSource = FrontierCloud | PhysicalNodeD | UnknownSource

datatype OracleError =
    ParseError string
  | LowConfidenceThreshold f64 f64
  | SchemaValidation string

definition oracle_threshold :: "ResponseSource \<Rightarrow> f64" where
  "oracle_threshold src = (if src = PhysicalNodeD then to_f64 (40 / 100) else to_f64 (80 / 100))"

fun json_as_f64 :: "json \<Rightarrow> f64 option" where
  "json_as_f64 (JNumber n) = Some (jnum_as_f64 n)"
| "json_as_f64 _ = None"

definition oracle_arbitrate ::
  "(string \<Rightarrow> string + json) \<Rightarrow> string \<Rightarrow> ResponseSource \<Rightarrow> OracleError + string" where
  "oracle_arbitrate from_str payload src =
     (case from_str payload of
        Inl e \<Rightarrow> Inl (ParseError e)
      | Inr v \<Rightarrow>
          (case (case json_get v ''confidenceScore'' of Some c \<Rightarrow> Some c | None \<Rightarrow> json_get v ''confidence_score'') of
             None \<Rightarrow> Inl (ParseError ''Missing confidenceScore field'')
           | Some c \<Rightarrow>
               (case json_as_f64 c of
                  None \<Rightarrow> Inl (ParseError ''confidenceScore must be a number'')
                | Some f \<Rightarrow>
                    if flt f (oracle_threshold src) then Inl (LowConfidenceThreshold f (oracle_threshold src))
                    else Inr payload)))"

record OracleInferenceTask =
  ot_network_id :: string
  ot_task_type :: string
  ot_max_gas_limit :: u32
  ot_confidence_score :: f64
  ot_source_url :: string

definition network_char :: "char \<Rightarrow> bool" where
  "network_char c \<longleftrightarrow>
     (let k = of_char c :: nat
      in (48 \<le> k \<and> k \<le> 57) \<or> (65 \<le> k \<and> k \<le> 90) \<or> (97 \<le> k \<and> k \<le> 122) \<or> c = CHR ''-'' \<or> c = CHR ''_'')"

definition simulate_llm_response ::
  "(OracleInferenceTask \<Rightarrow> string + string) \<Rightarrow> string \<Rightarrow> OracleError + string" where
  "simulate_llm_response to_json network_id =
     (if network_id = [] \<or> 64 < length network_id \<or> \<not> list_all network_char network_id
      then Inl (SchemaValidation (''Invalid network_id '' @ [CHR 0x27] @ network_id @ [CHR 0x27]
             @ '': must be non-empty alphanumeric with dashes/underscores, max 64 chars''))
      else (case to_json \<lparr>ot_network_id = network_id, ot_task_type = ''default'', ot_max_gas_limit = 300000,
                          ot_confidence_score = to_f64 (95 / 100), ot_source_url = ''https://mock.chain''\<rparr> of
              Inl e \<Rightarrow> Inl (ParseError e)
            | Inr s \<Rightarrow> Inr s))"

definition mock_arbitration_pipeline ::
  "(OracleInferenceTask \<Rightarrow> string + string) \<Rightarrow> (string \<Rightarrow> string + json) \<Rightarrow> string \<Rightarrow> OracleError + string" where
  "mock_arbitration_pipeline to_json from_str network_id =
     (case simulate_llm_response to_json network_id of
        Inl e \<Rightarrow> Inl e
      | Inr s \<Rightarrow> oracle_arbitrate from_str s FrontierCloud)"

section \<open>Properties\<close>

text \<open>The token estimate is the length in units of four bytes, rounded up.\<close>

lemma estimate_tokens_bounds:
  assumes "length s < 2 ^ 34 - 3"
  shows "length s \<le> 4 * unat (estimate_tokens s) \<and> 4 * unat (estimate_tokens s) < length s + 4"
proof -
  have "(length s + 3) div 4 < 2 ^ 32" using assms by simp
  then have "unat (estimate_tokens s) = (length s + 3) div 4"
    by (simp add: estimate_tokens_def unsigned_of_nat take_bit_nat_eq_self)
  then show ?thesis by presburger
qed

text \<open>
  The request for Groq carries the cache directive exactly like the one for DeepSeek,
  although Groq is declared not to support prompt caching.
\<close>

theorem groq_gets_cache_directive:
  "request_body (a\<lparr>ca_provider := Groq\<rparr>) = request_body (a\<lparr>ca_provider := DeepSeek\<rparr>)
   \<and> \<not> supports_prompt_caching Groq \<and> supports_prompt_caching DeepSeek"
  by (simp add: request_body_def supports_prompt_caching_def)

text \<open>Savings are credited even when the manager is disabled and no directive is attached.\<close>

lemma savings_without_caching:
  assumes "wrap_document digest doc title (PromptCacheManager_new False) = Some (c, m)"
  shows "cc_cache_control c = None
     \<and> estimated_token_savings (pcm_stats m) = ucast (cc_estimated_tokens c) * 9 div 10"
  using assms by (auto simp: wrap_document_def PromptCacheManager_new_def Let_def checked_add_def split: if_splits)

text \<open>
  A new hint passes the pipeline and is served exactly if it has some content, is within
  its time to live when it is checked and when it is served, and the verifier allows at least
  one attempt. Nothing about the source of the hint takes part.
\<close>

theorem hint_served_iff:
  "filter_verified served
     [apply_verification (verify_hint checked v (UnverifiedHint_new t i content url conf ttl))
        (UnverifiedHint_new t i content url conf ttl)] \<noteq> []
   \<longleftrightarrow> content \<noteq> [] \<and> 0 < max_verification_attempts v
     \<and> \<not> hint_is_expired checked (UnverifiedHint_new t i content url conf ttl)
     \<and> \<not> hint_is_expired served (UnverifiedHint_new t i content url conf ttl)"
  by (auto simp: filter_verified_def apply_verification_def verify_hint_def mark_verified_def mark_failed_def
      force_expire_def UnverifiedHint_new_def hint_is_expired_def hint_age_def word_gt_0)

lemma filter_verified_only:
  "h \<in> set (filter_verified now hs) \<longleftrightarrow> h \<in> set hs \<and> h_status h = Verified \<and> \<not> hint_is_expired now h"
  by (auto simp: filter_verified_def)

lemma oracle_ok_iff:
  "oracle_arbitrate from_str payload src = Inr out \<longleftrightarrow>
   out = payload \<and> (\<exists>v c f. from_str payload = Inr v
     \<and> (json_get v ''confidenceScore'' = Some c
        \<or> json_get v ''confidenceScore'' = None \<and> json_get v ''confidence_score'' = Some c)
     \<and> json_as_f64 c = Some f \<and> \<not> flt f (oracle_threshold src))"
  unfolding oracle_arbitrate_def
  by (cases "from_str payload") (auto split: option.splits if_splits)

text \<open>
  The oracle passes an answer on unchanged exactly if it parses, carries a numeric
  confidence under one of the two names, the first name taking precedence, and the confidence
  is not below the threshold of its source; there is no upper limit.
\<close>

theorem oracle_passes_iff:
  "oracle_arbitrate from_str payload src = Inr out \<longleftrightarrow>
   out = payload \<and> (\<exists>v c f. from_str payload = Inr v
     \<and> (json_get v ''confidenceScore'' = Some c
        \<or> json_get v ''confidenceScore'' = None \<and> json_get v ''confidence_score'' = Some c)
     \<and> json_as_f64 c = Some f \<and> \<not> flt f (oracle_threshold src))"
  by (rule oracle_ok_iff)

text \<open>An answer of the cloud that passes would also pass as one of the local model.\<close>

lemma oracle_local_weaker:
  assumes "oracle_arbitrate from_str payload FrontierCloud = Inr out"
  shows "oracle_arbitrate from_str payload PhysicalNodeD = Inr out"
proof -
  have m: "rnd (40 / 100) \<le> rnd (80 / 100)" by (rule rnd_mono) simp
  have "\<bar>40 / 100 :: rat\<bar> \<le> 2 ^ 64" "\<bar>80 / 100 :: rat\<bar> \<le> 2 ^ 64" by simp_all
  then have t: "to_f64 (40 / 100) = Fin (rnd (40 / 100))" "to_f64 (80 / 100) = Fin (rnd (80 / 100))"
    by (simp_all only: to_f64_Fin)
  have "\<not> flt f (to_f64 (80 / 100)) \<Longrightarrow> \<not> flt f (to_f64 (40 / 100))" for f
    using m unfolding t by (cases f) auto
  then show ?thesis using assms unfolding oracle_ok_iff oracle_threshold_def by auto
qed

end
