(* ===== verification/HotSwap.thy ===== *)
theory HotSwap
  imports Prelude
begin

text \<open>
  The containers of \<open>crates/core/src/engine/hot_swap.rs\<close>. An \<open>ArcSwap\<close> is a cell whose content
  is read and replaced atomically; an \<open>Arc\<close> of a module is the module.

  A value of type \<open>dyn Any\<close> is a pair of its \<open>TypeId\<close> and the value itself. The container keeps a
  \<open>Box<dyn Any + Send + Sync>\<close>, which is itself a value of a type of its own, \<open>BoxDynAny\<close>.
\<close>

section \<open>The typed container\<close>

record 'a HotSwapContainer =
  hsc_inner :: 'a
  hsc_module_name :: string
  hsc_swap_count :: u64

definition HotSwapContainer_new :: "'a \<Rightarrow> string \<Rightarrow> 'a HotSwapContainer" where
  "HotSwapContainer_new initial name = \<lparr>hsc_inner = initial, hsc_module_name = name, hsc_swap_count = 0\<rparr>"

definition hsc_load :: "'a HotSwapContainer \<Rightarrow> 'a" where
  "hsc_load c = hsc_inner c"

text \<open>The counter wraps around; the sum \<open>fetch_add(1) + 1\<close> in the log line is checked and panics on the last count.\<close>

definition hsc_swap :: "'a \<Rightarrow> 'a HotSwapContainer \<Rightarrow> ('a \<times> 'a HotSwapContainer) may_panic" where
  "hsc_swap new c =
     (case checked_add (hsc_swap_count c) 1 of
        None \<Rightarrow> None
      | Some _ \<Rightarrow> Some (hsc_inner c, c\<lparr>hsc_inner := new, hsc_swap_count := hsc_swap_count c + 1\<rparr>))"

definition swap_and_forget :: "'a \<Rightarrow> 'a HotSwapContainer \<Rightarrow> 'a HotSwapContainer may_panic" where
  "swap_and_forget new c = map_option snd (hsc_swap new c)"

section \<open>The type-erased container\<close>

datatype TypeId = BoxDynAny | TypeNamed string

datatype 'v dyn_any = DynAny TypeId 'v

record 'v TypeErasedContainer =
  tec_inner :: "'v dyn_any"
  tec_module_name :: string

datatype AbiError = TypeMismatch string string string

definition TypeErasedContainer_new :: "TypeId \<Rightarrow> 'v \<Rightarrow> string \<Rightarrow> 'v TypeErasedContainer" where
  "TypeErasedContainer_new t v name = \<lparr>tec_inner = DynAny t v, tec_module_name = name\<rparr>"

definition tec_load :: "'v TypeErasedContainer \<Rightarrow> 'v dyn_any" where
  "tec_load c = tec_inner c"

fun any_is :: "TypeId \<Rightarrow> 'v dyn_any \<Rightarrow> bool" where
  "any_is t (DynAny t' v) = (t = t')"

fun downcast_ref :: "TypeId \<Rightarrow> 'v dyn_any \<Rightarrow> 'v option" where
  "downcast_ref t (DynAny t' v) = (if t = t' then Some v else None)"

fun type_name :: "TypeId \<Rightarrow> string" where
  "type_name BoxDynAny = ''alloc::boxed::Box<dyn core::any::Any + core::marker::Send + core::marker::Sync>''"
| "type_name (TypeNamed s) = s"

text \<open>
  \<open>boxed.as_ref()\<close> is a reference to the box, and \<open>as &dyn Any\<close> makes the box itself the
  value: its \<open>TypeId\<close> is that of \<open>Box<dyn Any + Send + Sync>\<close>, not that of the value in it.
  \<open>type_name_of_val\<close> of a \<open>dyn Any\<close> is the name of \<open>dyn Any\<close>.
\<close>

definition as_dyn_any :: "'v dyn_any \<Rightarrow> 'v dyn_any dyn_any" where
  "as_dyn_any boxed = DynAny BoxDynAny boxed"

definition downcast :: "TypeId \<Rightarrow> ('v dyn_any \<Rightarrow> 'w) \<Rightarrow> 'v TypeErasedContainer \<Rightarrow> AbiError + 'w" where
  "downcast t clone c =
     (let any = as_dyn_any (tec_inner c)
      in if any_is t any
         then (case downcast_ref t any of
                 Some v \<Rightarrow> Inr (clone v)
               | None \<Rightarrow> Inl (TypeMismatch (tec_module_name c) (type_name t) ''<unknown>''))
         else Inl (TypeMismatch (tec_module_name c) (type_name t) ''dyn core::any::Any''))"

definition tec_swap :: "TypeId \<Rightarrow> 'v \<Rightarrow> 'v TypeErasedContainer \<Rightarrow> 'v dyn_any \<times> 'v TypeErasedContainer" where
  "tec_swap t v c = (tec_inner c, c\<lparr>tec_inner := DynAny t v\<rparr>)"

section \<open>Properties\<close>

fun swap_all :: "'a list \<Rightarrow> 'a HotSwapContainer \<Rightarrow> ('a list \<times> 'a HotSwapContainer) may_panic" where
  "swap_all [] c = Some ([], c)"
| "swap_all (m # ms) c =
     (case hsc_swap m c of
        None \<Rightarrow> None
      | Some (old, c') \<Rightarrow> map_option (\<lambda>(olds, c''). (old # olds, c'')) (swap_all ms c'))"

text \<open>
  A transfer is bumpless: over any sequence of swaps every module is handed back exactly once,
  in order, except the last, which is the one a reader sees; the counter is the number of swaps.
\<close>

theorem swap_all_spec:
  assumes "unat (hsc_swap_count c) + length ms < 2 ^ 64"
  shows "\<exists>olds c'. swap_all ms c = Some (olds, c') \<and> olds @ [hsc_load c'] = hsc_load c # ms
     \<and> unat (hsc_swap_count c') = unat (hsc_swap_count c) + length ms"
  using assms
proof (induction ms arbitrary: c)
  case Nil
  then show ?case by (simp add: hsc_load_def)
next
  case (Cons m ms)
  let ?c = "c\<lparr>hsc_inner := m, hsc_swap_count := hsc_swap_count c + 1\<rparr>"
  have n: "unat (hsc_swap_count ?c) = Suc (unat (hsc_swap_count c))"
    using Cons.prems by (simp add: unat_add_one)
  have "hsc_swap m c = Some (hsc_inner c, ?c)" using Cons.prems by (simp add: hsc_swap_def checked_add_def)
  moreover from Cons.IH [of ?c] Cons.prems n obtain olds c' where
    "swap_all ms ?c = Some (olds, c')" "olds @ [hsc_load c'] = hsc_load ?c # ms"
    "unat (hsc_swap_count c') = unat (hsc_swap_count c) + length (m # ms)" by auto
  ultimately show ?case by (simp add: hsc_load_def)
qed

theorem swap_all_spec_witness:
  "\<exists>c'. swap_all [''v2'', ''v3''] (HotSwapContainer_new ''v1'' ''m'') = Some ([''v1'', ''v2''], c') \<and> hsc_load c' = ''v3''"
proof -
  obtain olds c' where s: "swap_all [''v2'', ''v3''] (HotSwapContainer_new ''v1'' ''m'') = Some (olds, c')"
    "olds @ [hsc_load c'] = [''v1'', ''v2'', ''v3'']"
    using swap_all_spec [of "HotSwapContainer_new ''v1'' ''m''" "[''v2'', ''v3'']"]
    by (auto simp: HotSwapContainer_new_def hsc_load_def)
  have "butlast (olds @ [hsc_load c']) = [''v1'', ''v2'']" "last (olds @ [hsc_load c']) = ''v3''" by (simp_all only: s(2)) simp_all
  with s(1) show ?thesis by simp
qed

text \<open>
  A downcast never succeeds. The requested type has to be cloneable, which the box is not, so it
  is never the type of the box; a value just stored is not returned under its own type.
\<close>

theorem downcast_never_succeeds:
  assumes "t \<noteq> BoxDynAny"
  shows "downcast t clone (snd (tec_swap t v c)) = Inl (TypeMismatch (tec_module_name c) (type_name t) ''dyn core::any::Any'')"
  using assms by (simp add: downcast_def tec_swap_def as_dyn_any_def Let_def)

theorem downcast_never_succeeds_witness:
  "downcast (TypeNamed ''u64'') id (snd (tec_swap (TypeNamed ''u64'') (5 :: nat) (TypeErasedContainer_new (TypeNamed ''u64'') 4 ''m'')))
   = Inl (TypeMismatch ''m'' ''u64'' ''dyn core::any::Any'')"
  using downcast_never_succeeds [of "TypeNamed ''u64''" id 5 "TypeErasedContainer_new (TypeNamed ''u64'') 4 ''m''"]
  by (simp add: TypeErasedContainer_new_def)

end
