(* ===== verification/Attestation.thy ===== *)
theory Attestation
  imports Text
begin

text \<open>
  \<open>crates/core/src/security/tpm_measure.rs\<close> and \<open>mock_hsm.rs\<close>: hardware quotes, the guard that
  asks for one before an enclave boots, and the stand-in for a security module.

  The crate is built with or without the feature \<open>secure-hardware\<close>; the record \<open>build\<close> says
  which, whether the two device files exist, and what the random generator yields. A call of
  \<open>unimplemented!\<close> is a panic. SHA-256 is the argument \<open>sha\<close>.
\<close>

section \<open>Quotes\<close>

datatype TpmError =
    InvalidPcrIndex nat
  | HardwareUnavailable string
  | QuoteVerificationFailed string
  | CcaHardwareNotDetected string
  | EnclaveBootDenied string
  | SevSnpAttestationFailed string
  | TdxAttestationFailed string

fun tpm_display :: "TpmError \<Rightarrow> string" where
  "tpm_display (InvalidPcrIndex n) = ''Invalid PCR index: '' @ dec n"
| "tpm_display (HardwareUnavailable s) = ''TPM 2.0 hardware not available: '' @ s"
| "tpm_display (QuoteVerificationFailed s) = ''Hardware attestation quote verification failed: '' @ s"
| "tpm_display (CcaHardwareNotDetected s) = ''Confidential Computing hardware not detected: '' @ s"
| "tpm_display (EnclaveBootDenied s) = ''Enclave boot denied: '' @ s"
| "tpm_display (SevSnpAttestationFailed s) = ''SEV-SNP attestation failed: '' @ s"
| "tpm_display (TdxAttestationFailed s) = ''TDX attestation failed: '' @ s"

record SevSnpReport =
  sev_version :: u32
  sev_launch_digest :: "u8 list"
  sev_family_id :: "u8 list"
  sev_image_id :: "u8 list"
  sev_report_data :: "u8 list"
  sev_measurement :: "u8 list"
  sev_policy :: u64
  sev_signature_algo :: u32
  sev_signature :: "u8 list"
  sev_verified :: bool

record TdxReport =
  td_attributes :: "u8 list"
  td_xfam :: u64
  td_mr_td :: "u8 list"
  td_mr_config_id :: "u8 list"
  td_mr_owner :: "u8 list"
  td_mr_owner_config :: "u8 list"
  td_rt_mr :: "u8 list list"
  td_report_data :: "u8 list"
  td_quote_signature :: "u8 list"
  td_verified :: bool

datatype HardwareQuote = SevSnp SevSnpReport | Tdx TdxReport

record build =
  secure_hardware :: bool
  has_sev_snp :: bool
  has_tdx :: bool
  random_nonce :: "u8 list"

definition quote_verify :: "build \<Rightarrow> HardwareQuote \<Rightarrow> (TpmError + unit) may_panic" where
  "quote_verify b q =
     (case q of
        SevSnp r \<Rightarrow>
          if secure_hardware b then None
          else Some (if sev_verified r then Inr ()
                     else Inl (SevSnpAttestationFailed ''SEV-SNP report signature verification failed''))
      | Tdx r \<Rightarrow>
          if secure_hardware b then None
          else Some (if td_verified r then Inr ()
                     else Inl (TdxAttestationFailed ''TDX report QE signature verification failed'')))"

fun quote_platform :: "HardwareQuote \<Rightarrow> string" where
  "quote_platform (SevSnp _) = ''AMD-SEV-SNP''"
| "quote_platform (Tdx _) = ''Intel-TDX''"

fun measurement_digest :: "HardwareQuote \<Rightarrow> u8 list" where
  "measurement_digest (SevSnp r) = sev_launch_digest r"
| "measurement_digest (Tdx r) = td_mr_td r"

fun report_data :: "HardwareQuote \<Rightarrow> u8 list" where
  "report_data (SevSnp r) = sev_report_data r"
| "report_data (Tdx r) = td_report_data r"

datatype CcaPlatform = AmdSevSnp | IntelTdx | SoftwareStub

definition detect :: "build \<Rightarrow> TpmError + CcaPlatform" where
  "detect b =
     (if secure_hardware b
      then (if has_sev_snp b then Inr AmdSevSnp
            else if has_tdx b then Inr IntelTdx
            else Inl (CcaHardwareNotDetected ''No SEV-SNP (/dev/sev) or TDX (/dev/tdx-attest) device found''))
      else Inr SoftwareStub)"

text \<open>The digest fills the first 32 of the 48 bytes.\<close>

definition padded_digest :: "(u8 list \<Rightarrow> u8 list) \<Rightarrow> u8 list \<Rightarrow> u8 list" where
  "padded_digest sha d = sha d @ replicate 16 0"

definition request_hardware_quote ::
  "(u8 list \<Rightarrow> u8 list) \<Rightarrow> build \<Rightarrow> CcaPlatform \<Rightarrow> u8 list \<Rightarrow> (TpmError + HardwareQuote) may_panic" where
  "request_hardware_quote sha b p d =
     (case p of
        AmdSevSnp \<Rightarrow>
          if secure_hardware b then None
          else Some (Inr (SevSnp \<lparr>sev_version = 2, sev_launch_digest = padded_digest sha d, sev_family_id = replicate 16 0,
                 sev_image_id = replicate 16 0, sev_report_data = d, sev_measurement = padded_digest sha d,
                 sev_policy = 0x10000, sev_signature_algo = 1, sev_signature = [], sev_verified = True\<rparr>))
      | IntelTdx \<Rightarrow>
          if secure_hardware b then None
          else Some (Inr (Tdx \<lparr>td_attributes = replicate 8 0, td_xfam = 0x30000, td_mr_td = padded_digest sha d,
                 td_mr_config_id = replicate 48 0, td_mr_owner = replicate 48 0, td_mr_owner_config = replicate 48 0,
                 td_rt_mr = replicate 4 (replicate 48 0), td_report_data = d, td_quote_signature = [], td_verified = True\<rparr>))
      | SoftwareStub \<Rightarrow>
          Some (Inr (SevSnp \<lparr>sev_version = 0, sev_launch_digest = padded_digest sha d, sev_family_id = replicate 16 0,
                 sev_image_id = replicate 16 0, sev_report_data = d, sev_measurement = padded_digest sha d,
                 sev_policy = 0, sev_signature_algo = 0, sev_signature = [], sev_verified = True\<rparr>)))"

section \<open>The boot guard\<close>

record EnclaveBootGuard =
  bg_platform :: CcaPlatform
  bg_verified_quote :: "HardwareQuote option"
  bg_attestation_required :: bool

definition EnclaveBootGuard_new :: "build \<Rightarrow> bool \<Rightarrow> EnclaveBootGuard" where
  "EnclaveBootGuard_new b required =
     \<lparr>bg_platform = (case detect b of Inr p \<Rightarrow> p | Inl _ \<Rightarrow> SoftwareStub), bg_verified_quote = None,
      bg_attestation_required = required\<rparr>"

definition with_platform :: "CcaPlatform \<Rightarrow> bool \<Rightarrow> EnclaveBootGuard" where
  "with_platform p required = \<lparr>bg_platform = p, bg_verified_quote = None, bg_attestation_required = required\<rparr>"

definition boot_nonce :: "(u8 list \<Rightarrow> u8 list) \<Rightarrow> build \<Rightarrow> u8 list" where
  "boot_nonce sha b =
     (if secure_hardware b then random_nonce b
      else (let h = sha (bytes_of ''serein-enclave-boot-nonce-v1'') in h @ h))"

definition verify_attestation_before_boot ::
  "(u8 list \<Rightarrow> u8 list) \<Rightarrow> build \<Rightarrow> EnclaveBootGuard \<Rightarrow> ((TpmError + unit) \<times> EnclaveBootGuard) may_panic" where
  "verify_attestation_before_boot sha b g =
     (case request_hardware_quote sha b (bg_platform g) (boot_nonce sha b) of
        None \<Rightarrow> None
      | Some (Inr q) \<Rightarrow>
          (case quote_verify b q of
             None \<Rightarrow> None
           | Some (Inr _) \<Rightarrow> Some (Inr (), g\<lparr>bg_verified_quote := Some q\<rparr>)
           | Some (Inl e) \<Rightarrow>
               if bg_attestation_required g
               then Some (Inl (EnclaveBootDenied (''Hardware attestation verification failed: '' @ tpm_display e)), g)
               else Some (Inr (), g))
      | Some (Inl e) \<Rightarrow>
          if bg_attestation_required g
          then Some (Inl (EnclaveBootDenied (''Hardware quote request failed: '' @ tpm_display e)), g)
          else Some (Inr (), g))"

section \<open>The stand-in for a security module\<close>

record QuoteResult =
  qr_pcr_digest :: "u8 list"
  qr_pcr_values :: "u8 list list"
  qr_nonce :: "u8 list"

definition MockHsm_new :: "build \<Rightarrow> TpmError + EnclaveBootGuard" where
  "MockHsm_new b = Inr (with_platform (case detect b of Inr p \<Rightarrow> p | Inl _ \<Rightarrow> SoftwareStub) False)"

definition hsm_verify_attestation ::
  "(u8 list \<Rightarrow> u8 list) \<Rightarrow> build \<Rightarrow> EnclaveBootGuard \<Rightarrow> ((TpmError + unit) \<times> EnclaveBootGuard) may_panic" where
  "hsm_verify_attestation sha b g = verify_attestation_before_boot sha b g"

definition get_verified_quote :: "EnclaveBootGuard \<Rightarrow> HardwareQuote option" where
  "get_verified_quote g = bg_verified_quote g"

definition measure_kernel :: "u8 list \<Rightarrow> TpmError + unit" where
  "measure_kernel h = Inr ()"

definition measure_security_policy :: "u8 list \<Rightarrow> TpmError + unit" where
  "measure_security_policy h = Inr ()"

definition measure_module :: "string \<Rightarrow> u8 list \<Rightarrow> TpmError + unit" where
  "measure_module name h = Inr ()"

definition measure_runtime_state :: "u8 list \<Rightarrow> TpmError + unit" where
  "measure_runtime_state h = Inr ()"

definition hsm_quote :: "(u8 list \<Rightarrow> u8 list) \<Rightarrow> u8 list \<Rightarrow> TpmError + QuoteResult" where
  "hsm_quote sha nonce =
     Inr \<lparr>qr_pcr_digest = sha nonce, qr_pcr_values = sha nonce # replicate 23 (replicate 32 0), qr_nonce = nonce\<rparr>"

definition verify_quote :: "QuoteResult \<Rightarrow> u8 list list \<Rightarrow> TpmError + bool" where
  "verify_quote q expected = Inr True"

section \<open>Properties\<close>

text \<open>
  The guard is sound as a guard: if attestation is required and the boot is allowed, a quote that
  verifies is on record and it is bound to the nonce of this boot.
\<close>

theorem boot_guard_sound:
  assumes "verify_attestation_before_boot sha b g = Some (Inr (), g')" "bg_attestation_required g"
  shows "\<exists>q. bg_verified_quote g' = Some q \<and> quote_verify b q = Some (Inr ()) \<and> report_data q = boot_nonce sha b
     \<and> measurement_digest q = padded_digest sha (boot_nonce sha b)"
proof -
  from assms obtain q where q: "request_hardware_quote sha b (bg_platform g) (boot_nonce sha b) = Some (Inr q)"
    "quote_verify b q = Some (Inr ())" "g' = g\<lparr>bg_verified_quote := Some q\<rparr>"
    by (auto simp: verify_attestation_before_boot_def split: option.splits sum.splits if_splits)
  moreover from q(1) have "report_data q = boot_nonce sha b \<and> measurement_digest q = padded_digest sha (boot_nonce sha b)"
    by (auto simp: request_hardware_quote_def split: CcaPlatform.splits if_splits)
  ultimately show ?thesis by simp
qed

theorem boot_guard_sound_witness:
  "let b = \<lparr>secure_hardware = False, has_sev_snp = False, has_tdx = False, random_nonce = []\<rparr>;
       g = with_platform IntelTdx True
   in \<exists>g' q. verify_attestation_before_boot id b g = Some (Inr (), g') \<and> bg_verified_quote g' = Some q
        \<and> quote_verify b q = Some (Inr ()) \<and> report_data q = boot_nonce id b"
proof -
  let ?b = "\<lparr>secure_hardware = False, has_sev_snp = False, has_tdx = False, random_nonce = []\<rparr>"
  obtain g' where "verify_attestation_before_boot id ?b (with_platform IntelTdx True) = Some (Inr (), g')"
    by (simp add: verify_attestation_before_boot_def request_hardware_quote_def with_platform_def quote_verify_def)
  with boot_guard_sound [OF this] show ?thesis by (auto simp: Let_def with_platform_def)
qed

text \<open>
  What the guard decides does not depend on the machine: without the hardware feature every boot
  is allowed, whatever the platform and whether attestation is required, on a quote that is the
  same at every boot; with it every attempt panics.
\<close>

theorem attestation_decided_by_build:
  "map_option fst (verify_attestation_before_boot sha b g) = (if secure_hardware b then None else Some (Inr ()))
   \<and> (\<not> secure_hardware b \<and> \<not> secure_hardware c \<and> bg_platform g = bg_platform h \<longrightarrow>
        map_option (bg_verified_quote \<circ> snd) (verify_attestation_before_boot sha b g)
        = map_option (bg_verified_quote \<circ> snd) (verify_attestation_before_boot sha c h))"
  by (cases "bg_platform g")
     (simp_all add: verify_attestation_before_boot_def request_hardware_quote_def quote_verify_def boot_nonce_def)

theorem attestation_decided_by_build_witness:
  "map_option fst (verify_attestation_before_boot id \<lparr>secure_hardware = False, has_sev_snp = False, has_tdx = False, random_nonce = []\<rparr>
     (with_platform AmdSevSnp True)) = Some (Inr ())"
  using attestation_decided_by_build [of id "\<lparr>secure_hardware = False, has_sev_snp = False, has_tdx = False, random_nonce = []\<rparr>"
      "with_platform AmdSevSnp True" undefined undefined] by simp

text \<open>The stand-in confirms every quote, for instance one for other register values.\<close>

lemma verify_quote_accepts_all: "verify_quote q expected = Inr True"
  by (simp add: verify_quote_def)

end
