(* ===== verification/ToolHarness.thy ===== *)
theory ToolHarness
  imports HashMaps Json Text
begin

text \<open>
  Three modules of \<open>crates/sandbox-guard/src\<close>: \<open>xml_harness.rs\<close> (tool calls in the text of a
  model), \<open>mcp_server.rs\<close> (the registry of tools) and \<open>signature_verify.rs\<close> (signed payloads).

  The two regular expressions are arguments: \<open>captures\<close> is the first match of an invocation (tool,
  attributes, body, closing tool and the whole match) and \<open>params\<close> the list of key and value of
  all matches of the parameter pattern. JSON parsing and printing, \<open>parse::<f64>\<close>, hexadecimal
  decoding, the check that 32 bytes are a key and the Ed25519 verification are arguments too.
\<close>

section \<open>Invocations\<close>

datatype XmlHarnessError =
    NoInvocationTagFound
  | MalformedTag string
  | UnknownTool string
  | ParameterValidationFailed string string
  | RegexExtractionFailure string

record XmlInvocation =
  xi_tool_name :: string
  xi_parameters :: "(string, string) hmap"
  xi_raw_xml :: string
  xi_body :: string

record capture =
  cap_tool :: string
  cap_attrs :: string
  cap_inner :: string
  cap_closing_tool :: string
  cap_whole :: string

definition insert_params :: "(string \<times> string) list \<Rightarrow> (string, string) hmap \<Rightarrow> (string, string) hmap" where
  "insert_params kvs m = foldl (\<lambda>h (k, v). hm_insert k v h) m kvs"

definition flatten_ws :: "string \<Rightarrow> string" where
  "flatten_ws s = map (\<lambda>c. if c \<in> {CHR 0x0A, CHR 0x0D, CHR 0x09} then CHR '' '' else c) s"

definition extract_parameters :: "(string \<Rightarrow> (string \<times> string) list) \<Rightarrow> string \<Rightarrow> (string, string) hmap" where
  "extract_parameters params body =
     (let ps = insert_params (params body) []
      in if ps = [] \<and> trim body \<noteq> []
         then (let stripped = trim (flatten_ws (trim body))
               in if stripped \<noteq> [] then hm_insert ''_raw_body'' stripped ps else ps)
         else ps)"

definition tag_mismatch :: "string \<Rightarrow> string \<Rightarrow> string" where
  "tag_mismatch a b =
     ''Tag mismatch: opening <invoke_'' @ a @ ''> does not match closing </invoke_'' @ b @ ''>''"

definition extract_invocation ::
  "(string \<Rightarrow> capture option) \<Rightarrow> (string \<Rightarrow> (string \<times> string) list) \<Rightarrow> string \<Rightarrow> XmlHarnessError + XmlInvocation" where
  "extract_invocation captures params llm_output =
     (case captures (trim llm_output) of
        None \<Rightarrow> Inl NoInvocationTagFound
      | Some c \<Rightarrow>
          if cap_tool c \<noteq> cap_closing_tool c then Inl (MalformedTag (tag_mismatch (cap_tool c) (cap_closing_tool c)))
          else if cap_tool c = [] then Inl (MalformedTag ''Empty tool name in invocation tag'')
          else Inr \<lparr>xi_tool_name = cap_tool c,
                    xi_parameters = insert_params (params (cap_attrs c)) (extract_parameters params (cap_inner c)),
                    xi_raw_xml = cap_whole c, xi_body = cap_inner c\<rparr>)"

fun validate_against_schema :: "XmlInvocation \<Rightarrow> string list \<Rightarrow> XmlHarnessError + unit" where
  "validate_against_schema iv [] = Inr ()"
| "validate_against_schema iv (p # ps) =
     (case hm_get (xi_parameters iv) p of
        None \<Rightarrow> Inl (ParameterValidationFailed p ''Required parameter missing'')
      | Some v \<Rightarrow>
          if trim v = [] then Inl (ParameterValidationFailed p ''Parameter value is empty'')
          else validate_against_schema iv ps)"

definition param_value :: "(string \<Rightarrow> f64 option) \<Rightarrow> string \<Rightarrow> json" where
  "param_value parse_f64 v =
     (case parse_i64 v of
        Some n \<Rightarrow> JNumber (if 0 \<le> n then PosInt (of_int n) else NegInt n)
      | None \<Rightarrow>
          (case parse_f64 v of
             Some f \<Rightarrow> (case f of Fin _ \<Rightarrow> JNumber (JFloat f) | _ \<Rightarrow> JString v)
           | None \<Rightarrow> if v = ''true'' \<or> v = ''false'' then JBool (v = ''true'') else JString v))"

text \<open>The entries are collected in the iteration order of the hash map into a map sorted by key.\<close>

definition extract_json_body ::
  "(string \<Rightarrow> string + json) \<Rightarrow> (json \<Rightarrow> string) \<Rightarrow> (string \<Rightarrow> f64 option) \<Rightarrow> XmlInvocation \<Rightarrow> XmlHarnessError + string" where
  "extract_json_body from_str to_str parse_f64 iv =
     (let body = trim (xi_body iv);
          parsed = (if starts_with body ''{'' \<or> starts_with body ''['' then from_str body else Inl []);
          kvs = bt_collect (map (\<lambda>(k, v). (k, param_value parse_f64 v)) (filter (\<lambda>(k, v). k \<noteq> ''_raw_body'') (xi_parameters iv)))
      in case parsed of
           Inr j \<Rightarrow> Inr (to_str j)
         | Inl _ \<Rightarrow> if kvs = [] \<and> body \<noteq> [] then Inr body else Inr (to_str (JObject kvs)))"

section \<open>The registry of tools\<close>

record ToolParameter =
  tp_name :: string
  tp_param_type :: string
  tp_required :: bool
  tp_description :: string

record McpTool =
  mt_name :: string
  mt_description :: string
  mt_parameters :: "ToolParameter list"

record McpServer =
  ms_server_name :: string
  ms_tools :: "McpTool list"

definition McpServer_new :: "string \<Rightarrow> McpServer" where
  "McpServer_new name = \<lparr>ms_server_name = name, ms_tools = []\<rparr>"

definition register_tool :: "McpTool \<Rightarrow> McpServer \<Rightarrow> McpServer" where
  "register_tool t s = s\<lparr>ms_tools := ms_tools s @ [t]\<rparr>"

definition list_tools :: "McpServer \<Rightarrow> McpTool list" where
  "list_tools s = ms_tools s"

definition get_tool :: "string \<Rightarrow> McpServer \<Rightarrow> McpTool option" where
  "get_tool name s = find (\<lambda>t. mt_name t = name) (ms_tools s)"

definition tool_count :: "McpServer \<Rightarrow> nat" where
  "tool_count s = length (ms_tools s)"

text \<open>The registry of \<open>AegisCtx::new\<close> in \<open>lib.rs\<close>.\<close>

definition aegis_server :: McpServer where
  "aegis_server =
     register_tool \<lparr>mt_name = ''schema_validator'', mt_description = ''Validate transaction schema against network rules'',
         mt_parameters = [\<lparr>tp_name = ''tx_payload'', tp_param_type = ''string'', tp_required = True,
           tp_description = ''JSON-encoded execution payload to validate''\<rparr>]\<rparr>
       (register_tool \<lparr>mt_name = ''contract_auditor'', mt_description = ''Audit smart contract bytecode for vulnerabilities'',
         mt_parameters = [\<lparr>tp_name = ''network_id'', tp_param_type = ''string'', tp_required = True,
           tp_description = ''Blockchain network identifier (e.g., ethereum, polygon)''\<rparr>]\<rparr>
         (McpServer_new ''serein-aegis''))"

section \<open>Signed payloads\<close>

datatype SignatureError =
    InvalidPublicKey string
  | VerificationFailed string
  | MissingPublicKey
  | InvalidSignature string

record ed25519 =
  ed_hex_decode :: "string \<Rightarrow> string + u8 list"
  ed_key_ok :: "u8 list \<Rightarrow> string option"
  ed_check :: "u8 list \<Rightarrow> u8 list \<Rightarrow> u8 list \<Rightarrow> string option"

definition PayloadVerifier_from_hex :: "ed25519 \<Rightarrow> string \<Rightarrow> SignatureError + u8 list" where
  "PayloadVerifier_from_hex ed key_hex =
     (if key_hex = [] then Inl MissingPublicKey
      else (case ed_hex_decode ed key_hex of
              Inl e \<Rightarrow> Inl (InvalidPublicKey (''hex decode: '' @ e))
            | Inr bs \<Rightarrow>
                if length bs \<noteq> 32
                then Inl (InvalidPublicKey (''expected 32 bytes (64 hex chars), got '' @ dec (length key_hex div 2) @ '' bytes''))
                else (case ed_key_ok ed bs of
                        Some e \<Rightarrow> Inl (InvalidPublicKey (''invalid Ed25519 key: '' @ e))
                      | None \<Rightarrow> Inr bs)))"

definition PayloadVerifier_from_env :: "ed25519 \<Rightarrow> string option \<Rightarrow> SignatureError + u8 list" where
  "PayloadVerifier_from_env ed var =
     (case var of None \<Rightarrow> Inl MissingPublicKey | Some h \<Rightarrow> PayloadVerifier_from_hex ed h)"

definition payload_verify :: "ed25519 \<Rightarrow> u8 list \<Rightarrow> u8 list \<Rightarrow> string \<Rightarrow> SignatureError + unit" where
  "payload_verify ed key payload signature_hex =
     (case ed_hex_decode ed signature_hex of
        Inl e \<Rightarrow> Inl (InvalidSignature (''hex decode: '' @ e))
      | Inr bs \<Rightarrow>
          if length bs \<noteq> 64
          then Inl (InvalidSignature (''expected 64 bytes (128 hex chars), got '' @ dec (length signature_hex div 2) @ '' bytes''))
          else (case ed_check ed key payload bs of
                  Some e \<Rightarrow> Inl (VerificationFailed e)
                | None \<Rightarrow> Inr ()))"

definition verify_string :: "ed25519 \<Rightarrow> u8 list \<Rightarrow> string \<Rightarrow> string \<Rightarrow> SignatureError + unit" where
  "verify_string ed key payload signature_hex = payload_verify ed key (bytes_of payload) signature_hex"

section \<open>Properties\<close>

lemma insert_params_get:
  "hm_get (insert_params kvs m) k = (case map_of (rev kvs) k of Some v \<Rightarrow> Some v | None \<Rightarrow> hm_get m k)"
  by (induction kvs arbitrary: m) (auto simp: insert_params_def hm.get_insert map_add_def split: option.splits)

lemma insert_params_empty: "insert_params kvs [] = [] \<longleftrightarrow> kvs = []"
proof -
  have "insert_params kvs [] \<noteq> []" if "kvs \<noteq> []"
  proof -
    from that obtain kv where "kv \<in> set kvs" by (cases kvs) auto
    then have "map_of (rev kvs) (fst kv) \<noteq> None" by (auto simp: map_of_eq_None_iff)
    then have "hm_get (insert_params kvs []) (fst kv) \<noteq> None" by (auto simp: insert_params_get)
    then show ?thesis by (auto simp: hm_get_def)
  qed
  then show ?thesis by (auto simp: insert_params_def)
qed

lemma is_ws_flatten: "is_ws (if c \<in> {CHR 0x0A, CHR 0x0D, CHR 0x09} then CHR '' '' else c) \<longleftrightarrow> is_ws c"
  by (auto simp: is_ws_def)

lemma flatten_not_blank: "trim s \<noteq> [] \<Longrightarrow> trim (flatten_ws s) \<noteq> []"
  unfolding trim_empty_iff flatten_ws_def using is_ws_flatten by (metis (no_types, lifting) imageI list.set_map)

text \<open>
  The parameters of an extracted call: an attribute of the tag wins over a parameter of the body
  of the same name, among several of the same name the last wins, and a body without parameters
  that is not blank is kept whole under the name \<open>_raw_body\<close>.
\<close>

theorem parameter_lookup:
  assumes "extract_invocation captures params out = Inr iv" "captures (trim out) = Some c"
  shows "hm_get (xi_parameters iv) k =
     (case map_of (rev (params (cap_attrs c))) k of
        Some v \<Rightarrow> Some v
      | None \<Rightarrow>
          if params (cap_inner c) \<noteq> [] then map_of (rev (params (cap_inner c))) k
          else if k = ''_raw_body'' \<and> trim (cap_inner c) \<noteq> [] then Some (trim (flatten_ws (trim (cap_inner c)))) else None)"
proof -
  from assms have "xi_parameters iv = insert_params (params (cap_attrs c)) (extract_parameters params (cap_inner c))"
    by (auto simp: extract_invocation_def split: if_splits)
  moreover have "hm_get (extract_parameters params (cap_inner c)) k =
     (if params (cap_inner c) \<noteq> [] then map_of (rev (params (cap_inner c))) k
      else if k = ''_raw_body'' \<and> trim (cap_inner c) \<noteq> [] then Some (trim (flatten_ws (trim (cap_inner c)))) else None)"
  proof (cases "params (cap_inner c) = []")
    case True
    then show ?thesis using flatten_not_blank [of "trim (cap_inner c)"]
      by (auto simp: extract_parameters_def insert_params_def Let_def hm_get_def hm_insert_def)
  next
    case False
    then show ?thesis using insert_params_get [of "params (cap_inner c)" "[]"] insert_params_empty
      by (auto simp: extract_parameters_def Let_def hm_get_def split: option.splits)
  qed
  ultimately show ?thesis by (simp only: insert_params_get)
qed

theorem parameter_lookup_witness:
  "let c = \<lparr>cap_tool = ''t'', cap_attrs = ''a'', cap_inner = ''b'', cap_closing_tool = ''t'', cap_whole = []\<rparr>;
       params = (\<lambda>s. if s = ''a'' then [(''k'', ''1'')] else [(''k'', ''2''), (''k'', ''3''), (''j'', ''4'')])
   in \<exists>iv. extract_invocation (\<lambda>_. Some c) params [] = Inr iv \<and> hm_get (xi_parameters iv) ''k'' = Some ''1''
        \<and> hm_get (xi_parameters iv) ''j'' = Some ''4''"
proof -
  let ?c = "\<lparr>cap_tool = ''t'', cap_attrs = ''a'', cap_inner = ''b'', cap_closing_tool = ''t'', cap_whole = []\<rparr>"
    and ?p = "\<lambda>s. if s = ''a'' then [(''k'', ''1'')] else [(''k'', ''2''), (''k'', ''3''), (''j'', ''4'')]"
  obtain iv where e: "extract_invocation (\<lambda>_. Some ?c) ?p [] = Inr iv" by (simp add: extract_invocation_def)
  from parameter_lookup [OF e refl, of "''k''"] parameter_lookup [OF e refl, of "''j''"] e show ?thesis by (simp add: Let_def)
qed

text \<open>Validation accepts a call exactly if every required parameter is present and not blank.\<close>

theorem validate_against_schema_iff:
  "is_ok (validate_against_schema iv ps) \<longleftrightarrow>
   list_all (\<lambda>p. case hm_get (xi_parameters iv) p of Some v \<Rightarrow> trim v \<noteq> [] | None \<Rightarrow> False) ps"
  by (induction ps) (auto split: option.splits)

text \<open>An integer written in decimal is passed on as that number, whatever its sign.\<close>

lemma param_value_int:
  assumes "- (2 ^ 63) \<le> n" "n < 2 ^ 63"
  shows "param_value parse_f64 (show_int n) = JNumber (if 0 \<le> n then PosInt (of_int n) else NegInt n)"
  using assms by (simp add: param_value_def parse_i64_show_int)

lemma find_append: "find P (xs @ ys) = (case find P xs of Some x \<Rightarrow> Some x | None \<Rightarrow> find P ys)"
  by (induction xs) auto

text \<open>
  Lookup finds the first tool registered under a name; registering another one under the same
  name changes the listing and the count but never the lookup.
\<close>

theorem get_tool_register:
  "get_tool n (register_tool t s) =
     (case get_tool n s of Some x \<Rightarrow> Some x | None \<Rightarrow> if mt_name t = n then Some t else None)
   \<and> list_tools (register_tool t s) = list_tools s @ [t] \<and> tool_count (register_tool t s) = Suc (tool_count s)"
  by (auto simp: get_tool_def register_tool_def list_tools_def tool_count_def find_append split: option.splits)

text \<open>
  A payload is accepted exactly if the signature decodes to 64 bytes that Ed25519 accepts for it
  under the key; in particular an accepted signature was checked against this very payload.
\<close>

theorem payload_verify_iff:
  "is_ok (payload_verify ed key payload sig) \<longleftrightarrow>
   (\<exists>bs. ed_hex_decode ed sig = Inr bs \<and> length bs = 64 \<and> ed_check ed key payload bs = None)"
  by (auto simp: payload_verify_def split: sum.splits option.splits)

text \<open>A key that is accepted has 32 bytes and passed the check of the library.\<close>

lemma from_hex_key:
  "PayloadVerifier_from_hex ed h = Inr key \<longleftrightarrow>
   h \<noteq> [] \<and> ed_hex_decode ed h = Inr key \<and> length key = 32 \<and> ed_key_ok ed key = None"
  by (auto simp: PayloadVerifier_from_hex_def split: sum.splits option.splits if_splits)

end
