(* ===== verification/Poison.thy ===== *)
theory Poison
  imports HashMaps Json Text
begin

text \<open>
  \<open>crates/cache-storage/src/adversarial_poison.rs\<close>: how a client is judged from its requests, and
  the noise put into the answers for a suspected scraper.

  The random generator is the record \<open>noise_rng\<close>; \<open>range\<close> is \<open>gen_range\<close> on a closed interval, which
  panics when the interval is empty. Formatting and parsing of floats are arguments. Strings are
  their UTF-8 bytes. A JSON object is the list of its entries in insertion order: the gateway
  builds \<open>serde_json\<close> with \<open>preserve_order\<close>.
\<close>

section \<open>Assessment\<close>

datatype ThreatLevel = Benign | Suspicious | LikelyScraper | ConfirmedAbuse

datatype NoiseType =
    ValuePerturbation
  | FieldDuplication
  | TypeConfusion
  | PhantomFields
  | HomoglyphSubstitution
  | Cocktail

record PoisonConfig =
  pc_enabled :: bool
  noise_types :: "NoiseType list"
  perturbation_range :: f64
  phantom_field_probability :: f64
  homoglyph_substitution_rate :: f64

definition PoisonConfig_default :: PoisonConfig where
  "PoisonConfig_default =
     \<lparr>pc_enabled = True, noise_types = [ValuePerturbation, PhantomFields, FieldDuplication],
      perturbation_range = to_f64 (15 / 100), phantom_field_probability = to_f64 (4 / 10),
      homoglyph_substitution_rate = to_f64 (1 / 10)\<rparr>"

record ThreatAssessment =
  ta_threat_level :: ThreatLevel
  ta_confidence :: f64
  ta_indicators :: "string list"
  ta_recommended_noise :: NoiseType

definition bot_agent :: "string \<Rightarrow> bool" where
  "bot_agent ua \<longleftrightarrow>
     (let l = to_lowercase ua
      in contains l ''scraper'' \<or> contains l ''crawl'' \<or> contains l ''bot'' \<or> contains l ''spider''
         \<or> contains l ''wget'' \<or> contains l ''curl'')"

definition verdict :: "f64 \<Rightarrow> ThreatLevel \<times> NoiseType" where
  "verdict confidence =
     (if fle (to_f64 (80 / 100)) confidence then (ConfirmedAbuse, Cocktail)
      else if fle (to_f64 (50 / 100)) confidence then (LikelyScraper, PhantomFields)
      else if fle (to_f64 (25 / 100)) confidence then (Suspicious, ValuePerturbation)
      else (Benign, ValuePerturbation))"

definition add_if :: "bool \<Rightarrow> rat \<Rightarrow> f64 \<Rightarrow> f64" where
  "add_if b w c = (if b then fadd c (to_f64 w) else c)"

definition confidence_of :: "bool \<Rightarrow> bool \<Rightarrow> bool \<Rightarrow> bool \<Rightarrow> f64" where
  "confidence_of fast robot anon weird =
     fmin (add_if weird (15 / 100) (add_if anon (20 / 100) (add_if robot (40 / 100) (add_if fast (35 / 100) (Fin 0))))) (Fin 1)"

definition assess_threat ::
  "(nat \<Rightarrow> f64 \<Rightarrow> string) \<Rightarrow> string option \<Rightarrow> f64 \<Rightarrow> bool \<Rightarrow> f64 \<Rightarrow> ThreatAssessment may_panic" where
  "assess_threat fmt user_agent rpm has_auth anomaly =
     (let fast = flt (Fin 120) rpm;
          robot = (case user_agent of Some ua \<Rightarrow> bot_agent ua | None \<Rightarrow> False);
          weird = flt (Fin (1 / 2)) anomaly;
          cut = min (length (the user_agent)) 80
      in if robot \<and> \<not> is_char_boundary (the user_agent) cut then None
         else Some
           \<lparr>ta_threat_level = fst (verdict (confidence_of fast robot (\<not> has_auth) weird)),
            ta_confidence = confidence_of fast robot (\<not> has_auth) weird,
            ta_indicators =
              (if fast then [''High request rate: '' @ fmt 1 rpm @ '' req/min (threshold: 120)''] else [])
              @ (if robot then [''Known bot UA: '' @ take cut (the user_agent)] else [])
              @ (if \<not> has_auth then [''Missing authentication token''] else [])
              @ (if weird then [''Header anomaly score: '' @ fmt 2 anomaly] else []),
            ta_recommended_noise = snd (verdict (confidence_of fast robot (\<not> has_auth) weird))\<rparr>)"

section \<open>Noise\<close>

record 'g noise_rng =
  unit_draw :: "'g \<Rightarrow> f64 \<times> 'g"
  range_draw :: "f64 \<Rightarrow> f64 \<Rightarrow> 'g \<Rightarrow> (f64 \<times> 'g) may_panic"

definition perturb_number :: "'g noise_rng \<Rightarrow> f64 \<Rightarrow> jnum \<Rightarrow> 'g \<Rightarrow> (json \<times> 'g) may_panic" where
  "perturb_number rg r n g =
     (if flt (Fin (1 / 2 ^ 52)) (fabs (jnum_as_f64 n))
      then map_option (\<lambda>(p, g'). (json_of_f64 (fmul (jnum_as_f64 n) (fadd (Fin 1) p)), g')) (range_draw rg (fneg r) r g)
      else Some (JNumber n, g))"

text \<open>Numbers are changed where they are the value of a key; numbers in an array are not.\<close>

fun apply_value_perturbation :: "'g noise_rng \<Rightarrow> f64 \<Rightarrow> json \<Rightarrow> 'g \<Rightarrow> (json \<times> 'g) may_panic"
  and perturb_entries :: "'g noise_rng \<Rightarrow> f64 \<Rightarrow> (string \<times> json) list \<Rightarrow> 'g \<Rightarrow> ((string \<times> json) list \<times> 'g) may_panic"
  and perturb_items :: "'g noise_rng \<Rightarrow> f64 \<Rightarrow> json list \<Rightarrow> 'g \<Rightarrow> (json list \<times> 'g) may_panic"
where
  "apply_value_perturbation rg r (JObject kvs) g = map_option (map_prod JObject id) (perturb_entries rg r kvs g)"
| "apply_value_perturbation rg r (JArray vs) g = map_option (map_prod JArray id) (perturb_items rg r vs g)"
| "apply_value_perturbation rg r v g = Some (v, g)"
| "perturb_entries rg r [] g = Some ([], g)"
| "perturb_entries rg r ((k, v) # kvs) g =
     (case (case v of JNumber n \<Rightarrow> perturb_number rg r n g | _ \<Rightarrow> apply_value_perturbation rg r v g) of
        None \<Rightarrow> None
      | Some (v', g1) \<Rightarrow> map_option (\<lambda>(kvs', g2). ((k, v') # kvs', g2)) (perturb_entries rg r kvs g1))"
| "perturb_items rg r [] g = Some ([], g)"
| "perturb_items rg r (v # vs) g =
     (case apply_value_perturbation rg r v g of
        None \<Rightarrow> None
      | Some (v', g1) \<Rightarrow> map_option (\<lambda>(vs', g2). (v' # vs', g2)) (perturb_items rg r vs g1))"

definition phantom_field_pool :: "(string \<times> string) list" where
  "phantom_field_pool =
     [(''internalNote'', ''Verified by secondary source''), (''crossReferenceId'', ''XR-7F4A2B9C''),
      (''dataQualityScore'', ''0.94''), (''lastAuditDate'', ''2026-03-15''), (''regulatoryFlag'', ''COMPLIANT''),
      (''hashIntegrity'', ''sha256:a1b2c3d4e5f6''), (''sourceConfidence'', ''HIGH''), (''processingTier'', ''TIER_1''),
      (''geohashPrecision'', ''7''), (''batchSequence'', ''847291'')]"

fun insert_phantoms ::
  "'g noise_rng \<Rightarrow> f64 \<Rightarrow> (string \<times> string) list \<Rightarrow> (string \<times> json) list \<Rightarrow> 'g \<Rightarrow> (string \<times> json) list \<times> 'g" where
  "insert_phantoms rg prob [] kvs g = (kvs, g)"
| "insert_phantoms rg prob ((k, s) # pool) kvs g =
     (let (x, g1) = unit_draw rg g
      in insert_phantoms rg prob pool (if flt x prob then hm_insert k (JString s) kvs else kvs) g1)"

fun apply_phantom_fields :: "'g noise_rng \<Rightarrow> f64 \<Rightarrow> json \<Rightarrow> 'g \<Rightarrow> json \<times> 'g" where
  "apply_phantom_fields rg prob (JObject kvs) g = map_prod JObject id (insert_phantoms rg prob phantom_field_pool kvs g)"
| "apply_phantom_fields rg prob v g = (v, g)"

definition duplicate_entry :: "string \<Rightarrow> (string \<times> json) list \<Rightarrow> (string \<times> json) list" where
  "duplicate_entry k kvs =
     (case hm_get kvs k of
        Some (JNumber n) \<Rightarrow> hm_insert (k @ ''_'') (json_of_f64 (fmul (jnum_as_f64 n) (to_f64 (105 / 100)))) kvs
      | Some (JString s) \<Rightarrow> hm_insert (k @ ''_'') (JString (s @ '' (alt)'')) kvs
      | _ \<Rightarrow> kvs)"

fun duplicate_keys :: "'g noise_rng \<Rightarrow> string list \<Rightarrow> (string \<times> json) list \<Rightarrow> 'g \<Rightarrow> (string \<times> json) list \<times> 'g" where
  "duplicate_keys rg [] kvs g = (kvs, g)"
| "duplicate_keys rg (k # ks) kvs g =
     (let (x, g1) = unit_draw rg g
      in duplicate_keys rg ks (if flt x (to_f64 (2 / 10)) then duplicate_entry k kvs else kvs) g1)"

fun apply_field_duplication :: "'g noise_rng \<Rightarrow> json \<Rightarrow> 'g \<Rightarrow> json \<times> 'g" where
  "apply_field_duplication rg (JObject kvs) g = map_prod JObject id (duplicate_keys rg (map fst kvs) kvs g)"
| "apply_field_duplication rg v g = (v, g)"

definition confuse :: "(nat \<Rightarrow> f64 \<Rightarrow> string) \<Rightarrow> (string \<Rightarrow> f64 option) \<Rightarrow> json \<Rightarrow> json" where
  "confuse fmt parse_f64 v =
     (case v of
        JNumber n \<Rightarrow> JString (fmt 4 (jnum_as_f64 n))
      | JString s \<Rightarrow> (case parse_f64 s of Some f \<Rightarrow> json_of_f64 f | None \<Rightarrow> v)
      | _ \<Rightarrow> v)"

fun confuse_entries ::
  "(json \<Rightarrow> json) \<Rightarrow> 'g noise_rng \<Rightarrow> (string \<times> json) list \<Rightarrow> 'g \<Rightarrow> (string \<times> json) list \<times> 'g" where
  "confuse_entries f rg [] g = ([], g)"
| "confuse_entries f rg ((k, v) # kvs) g =
     (let (x, g1) = unit_draw rg g; (kvs', g2) = confuse_entries f rg kvs g1
      in ((k, if flt x (to_f64 (15 / 100)) then f v else v) # kvs', g2))"

fun apply_type_confusion :: "(json \<Rightarrow> json) \<Rightarrow> 'g noise_rng \<Rightarrow> json \<Rightarrow> 'g \<Rightarrow> json \<times> 'g" where
  "apply_type_confusion f rg (JObject kvs) g = map_prod JObject id (confuse_entries f rg kvs g)"
| "apply_type_confusion f rg v g = (v, g)"

text \<open>The Cyrillic letters, in UTF-8.\<close>

definition homoglyph_map :: "(char \<times> string) list" where
  "homoglyph_map =
     [(CHR ''o'', [CHR 0xD0, CHR 0xBE]), (CHR ''e'', [CHR 0xD0, CHR 0xB5]), (CHR ''a'', [CHR 0xD0, CHR 0xB0]),
      (CHR ''p'', [CHR 0xD1, CHR 0x80]), (CHR ''c'', [CHR 0xD1, CHR 0x81]), (CHR ''x'', [CHR 0xD1, CHR 0x85]),
      (CHR ''y'', [CHR 0xD1, CHR 0x83]), (CHR ''i'', [CHR 0xD1, CHR 0x96])]"

text \<open>One draw per character: none for a continuation byte.\<close>

fun homoglyphs :: "'g noise_rng \<Rightarrow> f64 \<Rightarrow> string \<Rightarrow> 'g \<Rightarrow> string \<times> 'g" where
  "homoglyphs rg rate [] g = ([], g)"
| "homoglyphs rg rate (c # cs) g =
     (if 128 \<le> (of_char c :: nat) \<and> (of_char c :: nat) < 192
      then (let (cs', g') = homoglyphs rg rate cs g in (c # cs', g'))
      else (let (x, g1) = unit_draw rg g; (cs', g2) = homoglyphs rg rate cs g1
            in ((if flt x rate then (case map_of homoglyph_map c of Some s \<Rightarrow> s | None \<Rightarrow> [c]) else [c]) @ cs', g2)))"

fun apply_homoglyph_substitution :: "'g noise_rng \<Rightarrow> f64 \<Rightarrow> json \<Rightarrow> 'g \<Rightarrow> json \<times> 'g"
  and homoglyph_entries :: "'g noise_rng \<Rightarrow> f64 \<Rightarrow> (string \<times> json) list \<Rightarrow> 'g \<Rightarrow> (string \<times> json) list \<times> 'g"
where
  "apply_homoglyph_substitution rg rate (JString s) g = map_prod JString id (homoglyphs rg rate s g)"
| "apply_homoglyph_substitution rg rate (JObject kvs) g = map_prod JObject id (homoglyph_entries rg rate kvs g)"
| "apply_homoglyph_substitution rg rate v g = (v, g)"
| "homoglyph_entries rg rate [] g = ([], g)"
| "homoglyph_entries rg rate ((k, v) # kvs) g =
     (let (v', g1) = apply_homoglyph_substitution rg rate v g; (kvs', g2) = homoglyph_entries rg rate kvs g1
      in ((k, v') # kvs', g2))"

record PoisonedResponse =
  pr_payload :: json
  pr_noise_applied :: "NoiseType list"
  pr_threat_level :: ThreatLevel
  pr_is_poisoned :: bool

definition apply_noise ::
  "(json \<Rightarrow> json) \<Rightarrow> 'g noise_rng \<Rightarrow> PoisonConfig \<Rightarrow> NoiseType \<Rightarrow> json \<Rightarrow> 'g \<Rightarrow> (json \<times> 'g) may_panic" where
  "apply_noise f rg cfg nt v g =
     (case nt of
        ValuePerturbation \<Rightarrow> apply_value_perturbation rg (perturbation_range cfg) v g
      | FieldDuplication \<Rightarrow> Some (apply_field_duplication rg v g)
      | TypeConfusion \<Rightarrow> Some (apply_type_confusion f rg v g)
      | PhantomFields \<Rightarrow> Some (apply_phantom_fields rg (phantom_field_probability cfg) v g)
      | HomoglyphSubstitution \<Rightarrow> Some (apply_homoglyph_substitution rg (homoglyph_substitution_rate cfg) v g)
      | Cocktail \<Rightarrow> Some (v, g))"

fun apply_all ::
  "(json \<Rightarrow> json) \<Rightarrow> 'g noise_rng \<Rightarrow> PoisonConfig \<Rightarrow> NoiseType list \<Rightarrow> json \<Rightarrow> 'g \<Rightarrow> (json \<times> 'g) may_panic" where
  "apply_all f rg cfg [] v g = Some (v, g)"
| "apply_all f rg cfg (nt # nts) v g =
     (case apply_noise f rg cfg nt v g of None \<Rightarrow> None | Some (v', g') \<Rightarrow> apply_all f rg cfg nts v' g')"

definition generate_poisoned_response ::
  "(json \<Rightarrow> json) \<Rightarrow> 'g noise_rng \<Rightarrow> PoisonConfig \<Rightarrow> json \<Rightarrow> ThreatAssessment \<Rightarrow> 'g \<Rightarrow> (PoisonedResponse \<times> 'g) may_panic" where
  "generate_poisoned_response f rg cfg template a g =
     (if \<not> pc_enabled cfg \<or> ta_threat_level a = Benign
      then Some (\<lparr>pr_payload = template, pr_noise_applied = [], pr_threat_level = ta_threat_level a, pr_is_poisoned = False\<rparr>, g)
      else (let nts = (if ta_recommended_noise a = Cocktail then noise_types cfg else [ta_recommended_noise a])
            in map_option (\<lambda>(v, g'). (\<lparr>pr_payload = v, pr_noise_applied = filter (\<lambda>n. n \<noteq> Cocktail) nts,
                   pr_threat_level = ta_threat_level a, pr_is_poisoned = True\<rparr>, g')) (apply_all f rg cfg nts template g)))"

section \<open>The weights and their sums\<close>

text \<open>The binary values of the weights, and of the sums in the order in which they are added; several of the sums are ties.\<close>

lemma weight_values:
  "rnd (7 / 20) = 6305039478318694 / 2 ^ 54"
  "rnd (2 / 5) = 7205759403792794 / 2 ^ 54"
  "rnd (1 / 5) = 7205759403792794 / 2 ^ 55"
  "rnd (3 / 20) = 5404319552844595 / 2 ^ 55"
  "rnd (4 / 5) = 7205759403792794 / 2 ^ 53"
  "rnd (3 / 4) = 6755399441055744 / 2 ^ 53"
  "rnd (9907919180215091 / 18014398509481984) = 4953959590107546 / 2 ^ 53"
  "rnd (10808639105689191 / 18014398509481984) = 5404319552844596 / 2 ^ 53"
  "rnd (17113678584007885 / 18014398509481984) = 8556839292003942 / 2 ^ 53"
  "rnd (18014398509481983 / 36028797018963968) = 9007199254740992 / 2 ^ 54"
  "rnd (19815838360430183 / 36028797018963968) = 4953959590107546 / 2 ^ 53"
  "rnd (32425917317067571 / 36028797018963968) = 8106479329266893 / 2 ^ 53"
  "rnd (12610078956637389 / 36028797018963968) = 6305039478318694 / 2 ^ 54"
  "rnd (25220157913274779 / 36028797018963968) = 6305039478318695 / 2 ^ 53"
  "rnd (27021597764222979 / 36028797018963968) = 6755399441055745 / 2 ^ 53"
  "rnd (39631676720860363 / 36028797018963968) = 4953959590107545 / 2 ^ 52"
  "rnd (3152519739159347 / 9007199254740992) = 6305039478318694 / 2 ^ 54"
  "rnd (3602879701896397 / 9007199254740992) = 7205759403792794 / 2 ^ 54"
  "rnd (3602879701896397 / 18014398509481984) = 7205759403792794 / 2 ^ 55"
  "rnd (5404319552844595 / 36028797018963968) = 5404319552844595 / 2 ^ 55"
  by (rule rnd_dyadic_numeral; simp add: round_even_eval)+

section \<open>Properties\<close>

lemma to_f64_weight: "0 \<le> a \<Longrightarrow> a \<le> 2 \<Longrightarrow> to_f64 a = Fin (rnd a)"
  by (rule to_f64_Fin) simp

lemma rnd_half_quarter: "rnd (1 / 2) = 1 / 2" "rnd (1 / 4) = 1 / 4"
  using rnd_pow2 [of "- 1"] rnd_pow2 [of "- 2"] by (simp_all add: power_int_minus)

lemma verdict_cases:
  "verdict (confidence_of fast robot anon weird) =
     (if fast \<and> robot \<and> (anon \<or> weird) then (ConfirmedAbuse, Cocktail)
      else if fast \<and> (robot \<or> anon \<or> weird) \<or> robot \<and> (anon \<or> weird) then (LikelyScraper, PhantomFields)
      else if fast \<or> robot \<or> anon \<and> weird then (Suspicious, ValuePerturbation)
      else (Benign, ValuePerturbation))"
  by (cases fast; cases robot; cases anon; cases weird)
     (simp_all add: verdict_def confidence_of_def add_if_def to_f64_weight weight_values rnd_half_quarter fmin_def)

text \<open>
  The level of a client, rounding included: abuse is confirmed exactly for a fast bot that is also
  anonymous or has odd headers; two indicators of which one is the rate or the user agent make a
  likely scraper; one of these two alone, or the two weak ones together, are suspicious; a single
  weak indicator is benign. The sum for rate and headers is a tie that rounds up to the threshold.
\<close>

theorem threat_level_iff:
  assumes "assess_threat fmt ua rpm auth anomaly = Some a"
    and "fast = flt (Fin 120) rpm" "robot = (case ua of Some u \<Rightarrow> bot_agent u | None \<Rightarrow> False)" "weird = flt (Fin (1 / 2)) anomaly"
  shows "ta_threat_level a =
     (if fast \<and> robot \<and> (\<not> auth \<or> weird) then ConfirmedAbuse
      else if fast \<and> (robot \<or> \<not> auth \<or> weird) \<or> robot \<and> (\<not> auth \<or> weird) then LikelyScraper
      else if fast \<or> robot \<or> \<not> auth \<and> weird then Suspicious
      else Benign)"
  using assms by (auto simp: assess_threat_def Let_def verdict_cases split: if_splits)

theorem threat_level_iff_witness:
  "\<exists>a. assess_threat (\<lambda>_ _. []) (Some ''Mozilla'') (Fin 200) True (Fin 1) = Some a \<and> ta_threat_level a = LikelyScraper"
proof -
  have b: "\<not> bot_agent ''Mozilla''" by code_simp
  then obtain a where "assess_threat (\<lambda>_ _. []) (Some ''Mozilla'') (Fin 200) True (Fin 1) = Some a"
    by (simp add: assess_threat_def)
  with threat_level_iff [OF this refl refl refl] b show ?thesis by auto
qed

text \<open>
  Assessing a client panics when its user agent is that of a bot, longer than 80 bytes, and byte 80
  is inside a character: the client chooses the user agent.
\<close>

theorem assess_can_panic:
  assumes "bot_agent ua" "80 < length ua" "\<not> is_char_boundary ua 80"
  shows "assess_threat fmt (Some ua) rpm auth anomaly = None"
  using assms by (simp add: assess_threat_def Let_def min_absorb2)

theorem assess_can_panic_witness:
  "assess_threat (\<lambda>_ _. []) (Some (''bot'' @ replicate 76 CHR '' '' @ [CHR 0xC3, CHR 0xA9])) (Fin 0) True (Fin 0) = None"
proof (rule assess_can_panic)
  show "bot_agent (''bot'' @ replicate 76 CHR '' '' @ [CHR 0xC3, CHR 0xA9])"
    by (simp add: bot_agent_def to_lowercase_def lower_def)
  show "\<not> is_char_boundary (''bot'' @ replicate 76 CHR '' '' @ [CHR 0xC3, CHR 0xA9]) 80"
    by (simp add: is_char_boundary_def nth_append)
qed simp

text \<open>What a perturbation leaves alone: the structure, the keys and everything that is not a number.\<close>

fun shape :: "json \<Rightarrow> json" where
  "shape (JNumber _) = JNull"
| "shape (JArray vs) = JArray (map shape vs)"
| "shape (JObject kvs) = JObject (map (\<lambda>(k, v). (k, shape v)) kvs)"
| "shape v = v"

lemma shape_json_of_f64 [simp]: "shape (json_of_f64 f) = JNull"
  by (cases f) (simp_all add: json_of_f64_def)

lemma perturb_shape:
  "apply_value_perturbation rg r v g = Some (v', g') \<Longrightarrow> shape v' = shape v"
  "perturb_entries rg r kvs g = Some (kvs', g') \<Longrightarrow> map (\<lambda>(k, v). (k, shape v)) kvs' = map (\<lambda>(k, v). (k, shape v)) kvs"
  "perturb_items rg r vs g = Some (vs', g') \<Longrightarrow> map shape vs' = map shape vs"
proof (induction rg r v g and rg r kvs g and rg r vs g arbitrary: v' g' and kvs' g' and vs' g'
    rule: apply_value_perturbation_perturb_entries_perturb_items.induct)
  case (5 rg r k v kvs g)
  then obtain v1 g1 kvs1 where s: "(case v of JNumber n \<Rightarrow> perturb_number rg r n g | _ \<Rightarrow> apply_value_perturbation rg r v g) = Some (v1, g1)"
    "perturb_entries rg r kvs g1 = Some (kvs1, g')" "kvs' = (k, v1) # kvs1"
    by (auto split: option.splits)
  have "shape v1 = shape v"
  proof (cases "\<exists>n. v = JNumber n")
    case True
    with s(1) show ?thesis by (auto simp: perturb_number_def split: if_splits)
  next
    case False
    then have "(case v of JNumber n \<Rightarrow> perturb_number rg r n g | _ \<Rightarrow> apply_value_perturbation rg r v g) = apply_value_perturbation rg r v g"
      by (cases v) auto
    with s(1) 5(1-5) False show ?thesis by (cases v) simp_all
  qed
  moreover have "map (\<lambda>(k, v). (k, shape v)) kvs1 = map (\<lambda>(k, v). (k, shape v)) kvs"
    using 5(6) [OF s(1) refl s(2)] .
  ultimately show ?case using s(3) by simp
qed (auto split: option.splits)

text \<open>
  A benign client, or any client while poisoning is off, gets the answer unchanged; every other
  client gets an answer marked as poisoned, and a perturbed answer has the structure, the keys and
  the texts of the original.
\<close>

theorem poisoning_spec:
  assumes "generate_poisoned_response f rg cfg template a g = Some (r, g')"
  shows "(pr_is_poisoned r \<longleftrightarrow> pc_enabled cfg \<and> ta_threat_level a \<noteq> Benign)
     \<and> (\<not> pr_is_poisoned r \<longrightarrow> pr_payload r = template \<and> g' = g)
     \<and> (ta_recommended_noise a = ValuePerturbation \<longrightarrow> shape (pr_payload r) = shape template)"
proof (cases "\<not> pc_enabled cfg \<or> ta_threat_level a = Benign")
  case False
  with assms obtain v where v: "apply_all f rg cfg
      (if ta_recommended_noise a = Cocktail then noise_types cfg else [ta_recommended_noise a]) template g = Some (v, g')"
    "pr_payload r = v" "pr_is_poisoned r"
    by (auto simp: generate_poisoned_response_def Let_def)
  have "shape v = shape template" if "ta_recommended_noise a = ValuePerturbation"
  proof (rule perturb_shape(1))
    show "apply_value_perturbation rg (perturbation_range cfg) template g = Some (v, g')"
      using v(1) that by (auto simp: apply_noise_def split: option.splits)
  qed
  with False v show ?thesis by simp
qed (use assms in \<open>auto simp: generate_poisoned_response_def\<close>)

theorem poisoning_spec_witness:
  "let a = \<lparr>ta_threat_level = Benign, ta_confidence = Fin 0, ta_indicators = [], ta_recommended_noise = ValuePerturbation\<rparr>;
       rg = \<lparr>unit_draw = (\<lambda>g :: nat. (Fin 0, g)), range_draw = (\<lambda>_ _ g. Some (Fin 0, g))\<rparr>
   in \<exists>r. generate_poisoned_response id rg PoisonConfig_default (JString ''x'') a 0 = Some (r, 0)
        \<and> \<not> pr_is_poisoned r \<and> pr_payload r = JString ''x''"
proof -
  let ?a = "\<lparr>ta_threat_level = Benign, ta_confidence = Fin 0, ta_indicators = [], ta_recommended_noise = ValuePerturbation\<rparr>"
    and ?rg = "\<lparr>unit_draw = (\<lambda>g :: nat. (Fin 0, g)), range_draw = (\<lambda>_ _ g. Some (Fin 0, g))\<rparr>"
  obtain r where "generate_poisoned_response id ?rg PoisonConfig_default (JString ''x'') ?a 0 = Some (r, 0)"
    by (simp add: generate_poisoned_response_def)
  with poisoning_spec [OF this] show ?thesis by (auto simp: Let_def)
qed

text \<open>
  With the default configuration two of the kinds of noise are never used for an assessed client:
  neither the verdicts nor the cocktail contain them.
\<close>

lemma unused_noise:
  assumes "assess_threat fmt ua rpm auth anomaly = Some a"
    and "generate_poisoned_response f rg PoisonConfig_default template a g = Some (r, g')"
  shows "TypeConfusion \<notin> set (pr_noise_applied r) \<and> HomoglyphSubstitution \<notin> set (pr_noise_applied r)"
proof -
  from assms(1) have "ta_recommended_noise a \<in> {Cocktail, PhantomFields, ValuePerturbation}"
    by (auto simp: assess_threat_def Let_def verdict_def split: if_splits)
  with assms(2) show ?thesis
    by (auto simp: generate_poisoned_response_def PoisonConfig_default_def Let_def split: if_splits)
qed

end
