(* ===== verification/Providers.thy ===== *)
theory Providers
  imports Orchestrator
begin

text \<open>
  \<open>crates/llm-router/src/provider.rs\<close>: the configuration of the providers, the three adapters that
  turn a request into an HTTP call and its reply into text, and the filter by region.

  The HTTP client is the argument \<open>tr\<close>: what comes back for a request, or the text of the error.
  \<open>serde_json\<close> is the argument \<open>sd\<close>: the document read from some bytes, with its entries in order
  and duplicates kept, and the text of an error; what the derived deserialisers make of a document
  is written out. Wasmtime is the argument \<open>w\<close>. A binary32 number is one of the binary64 numbers.
\<close>

section \<open>Configuration\<close>

datatype ProviderError = ConfigError string | UnknownFormat string string

record ProviderConfig =
  pc_id :: string
  pc_display_name :: string
  pc_api_format :: string
  pc_base_url :: string
  pc_model :: string
  pc_api_key :: string
  pc_api_key_env :: string
  pc_timeout_ms :: u64
  pc_max_response_bytes :: usize
  pc_cache_provider :: string
  pc_temperature :: f64
  pc_max_tokens :: u32
  pc_max_retries :: u32
  pc_concurrency_limit :: u32
  pc_geo_region :: "string option"
  pc_adapter :: "string option"

text \<open>An entry of the file with the required fields only: the others have their defaults.\<close>

definition default_timeout_ms :: u64 where
  "default_timeout_ms = 15000"

definition default_max_response_bytes :: usize where
  "default_max_response_bytes = 5 * 1024 * 1024"

definition ProviderConfig_required :: "string \<Rightarrow> string \<Rightarrow> string \<Rightarrow> string \<Rightarrow> ProviderConfig" where
  "ProviderConfig_required i n url m =
     \<lparr>pc_id = i, pc_display_name = n, pc_api_format = ''openai'', pc_base_url = url, pc_model = m, pc_api_key = [],
      pc_api_key_env = [], pc_timeout_ms = default_timeout_ms, pc_max_response_bytes = default_max_response_bytes,
      pc_cache_provider = [], pc_temperature = Fin 0, pc_max_tokens = 1024, pc_max_retries = 3,
      pc_concurrency_limit = 10, pc_geo_region = None, pc_adapter = None\<rparr>"

definition resolve_api_key :: "(string \<Rightarrow> string option) \<Rightarrow> ProviderConfig \<Rightarrow> string option" where
  "resolve_api_key env c =
     (if pc_api_key_env c \<noteq> [] then (case env (pc_api_key_env c) of Some k \<Rightarrow> if k \<noteq> [] then Some k else None | None \<Rightarrow> None)
      else if pc_api_key c \<noteq> [] then Some (pc_api_key c)
      else None)"

definition resolve_cache_provider :: "ProviderConfig \<Rightarrow> string" where
  "resolve_cache_provider c = (if pc_cache_provider c \<noteq> [] then pc_cache_provider c else pc_id c)"

definition satisfies_geo_requirement :: "string \<Rightarrow> ProviderConfig \<Rightarrow> bool" where
  "satisfies_geo_requirement region c =
     (case pc_geo_region c of None \<Rightarrow> True | Some r \<Rightarrow> eq_ignore_ascii_case r region)"

section \<open>HTTP\<close>

datatype http_body = JsonBody json | TextBody string

record http_request =
  hr_url :: string
  hr_headers :: "(string \<times> string) list"
  hr_body :: http_body

record http_response =
  hs_status :: u16
  hs_body :: "string + u8 list"

type_synonym transport = "http_request \<Rightarrow> string + http_response"

record serde =
  parse_slice :: "u8 list \<Rightarrow> json option"
  serde_error :: "u8 list \<Rightarrow> string"

text \<open>The three tests of the status in the adapters for OpenAI and Gemini.\<close>

definition http_failure :: "u16 \<Rightarrow> TmrNodeError option" where
  "http_failure s =
     (if s = 403 then Some HttpForbidden
      else if s = 429 then Some HttpRateLimited
      else if 500 \<le> s then Some (NodeServerError s)
      else None)"

definition too_large :: "string \<Rightarrow> usize \<Rightarrow> TmrNodeError" where
  "too_large n limit = ParseError (n @ '' response exceeded '' @ dec (unat limit) @ ''B safety limit'')"

text \<open>Sending, the status, reading the body and its bound, as both adapters do it.\<close>

definition fetch :: "transport \<Rightarrow> (string \<Rightarrow> string) \<Rightarrow> string \<Rightarrow> usize \<Rightarrow> http_request \<Rightarrow> TmrNodeError + u8 list" where
  "fetch tr shown n limit r =
     and_then (map_err (\<lambda>e. NodeNetworkError (n @ '' request failed: '' @ shown e)) (tr r)) (\<lambda>resp.
     case http_failure (hs_status resp) of
       Some e \<Rightarrow> Inl e
     | None \<Rightarrow>
         and_then (map_err (\<lambda>e. ParseError (''Failed to read '' @ n @ '' bytes: '' @ e)) (hs_body resp)) (\<lambda>bytes.
         if unat limit < length bytes then Inl (too_large n limit) else Inr bytes))"

text \<open>
  Derived deserialisers of structs with one field: from an object in which the field occurs once,
  other entries ignored, or from an array of one element.
\<close>

fun de_struct1 :: "string \<Rightarrow> json \<Rightarrow> json option" where
  "de_struct1 k (JObject kvs) = (case filter (\<lambda>kv. fst kv = k) kvs of [(_, v)] \<Rightarrow> Some v | _ \<Rightarrow> None)"
| "de_struct1 k (JArray [v]) = Some v"
| "de_struct1 k _ = None"

fun de_vec :: "(json \<Rightarrow> 'a option) \<Rightarrow> json \<Rightarrow> 'a list option" where
  "de_vec f (JArray vs) = those (map f vs)"
| "de_vec f _ = None"

fun de_string :: "json \<Rightarrow> string option" where
  "de_string (JString s) = Some s"
| "de_string _ = None"

section \<open>The adapter for OpenAI and compatible services\<close>

record GenericOpenAiProvider =
  oa_id :: string
  oa_display_name :: string
  oa_base_url :: string
  oa_model :: string
  oa_api_key :: "string option"
  oa_timeout_ms :: u64
  oa_max_response_bytes :: usize
  oa_cache_provider :: string

definition GenericOpenAiProvider_from_config :: "(string \<Rightarrow> string option) \<Rightarrow> ProviderConfig \<Rightarrow> GenericOpenAiProvider" where
  "GenericOpenAiProvider_from_config env c =
     \<lparr>oa_id = pc_id c, oa_display_name = pc_display_name c, oa_base_url = pc_base_url c, oa_model = pc_model c,
      oa_api_key = resolve_api_key env c, oa_timeout_ms = pc_timeout_ms c,
      oa_max_response_bytes = pc_max_response_bytes c, oa_cache_provider = resolve_cache_provider c\<rparr>"

record OpenAiMessage =
  om_role :: string
  om_content :: string

record OpenAiRequest =
  or_model :: string
  or_messages :: "OpenAiMessage list"
  or_temperature :: f64
  or_stream :: bool

definition is_zero_f32 :: "f64 \<Rightarrow> bool" where
  "is_zero_f32 v \<longleftrightarrow> v = Fin 0"

definition json_OpenAiMessage :: "OpenAiMessage \<Rightarrow> json" where
  "json_OpenAiMessage m = JObject [(''role'', JString (om_role m)), (''content'', JString (om_content m))]"

definition json_OpenAiRequest :: "OpenAiRequest \<Rightarrow> json" where
  "json_OpenAiRequest r =
     JObject ([(''model'', JString (or_model r)), (''messages'', JArray (map json_OpenAiMessage (or_messages r)))]
              @ (if is_zero_f32 (or_temperature r) then [] else [(''temperature'', json_of_f64 (or_temperature r))])
              @ [(''stream'', JBool (or_stream r))])"

datatype OpenAiResponseMessage = OpenAiResponseMessage (rm_content: string)

datatype OpenAiChoice = OpenAiChoice (ch_message: OpenAiResponseMessage)

datatype OpenAiResponse = OpenAiResponse (rs_choices: "OpenAiChoice list")

definition de_OpenAiChoice :: "json \<Rightarrow> OpenAiChoice option" where
  "de_OpenAiChoice j =
     map_option (\<lambda>s. OpenAiChoice (OpenAiResponseMessage s))
       (Option.bind (de_struct1 ''message'' j) (\<lambda>m. Option.bind (de_struct1 ''content'' m) de_string))"

definition de_OpenAiResponse :: "json \<Rightarrow> OpenAiResponse option" where
  "de_OpenAiResponse j = map_option OpenAiResponse (Option.bind (de_struct1 ''choices'' j) (de_vec de_OpenAiChoice))"

definition trim_end_slashes :: "string \<Rightarrow> string" where
  "trim_end_slashes s = rev (dropWhile (\<lambda>c. c = CHR ''/'') (rev s))"

definition openai_request :: "GenericOpenAiProvider \<Rightarrow> string \<Rightarrow> ProviderRequest \<Rightarrow> http_request" where
  "openai_request p key req =
     \<lparr>hr_url = trim_end_slashes (oa_base_url p) @ ''/chat/completions'',
      hr_headers = [(''Authorization'', ''Bearer '' @ key), (''Content-Type'', ''application/json'')]
                   @ (if contains (oa_base_url p) ''googleapis.com'' then [(''x-goog-api-key'', key)] else []),
      hr_body = JsonBody (json_OpenAiRequest
        \<lparr>or_model = oa_model p, or_messages = [\<lparr>om_role = ''user'', om_content = rq_prompt req\<rparr>],
         or_temperature = rq_temperature req, or_stream = False\<rparr>)\<rparr>"

definition no_key :: "string \<Rightarrow> TmrNodeError" where
  "no_key n = NodeNetworkError (n @ '' API key not configured'')"

definition parse_failed :: "serde \<Rightarrow> string \<Rightarrow> u8 list \<Rightarrow> TmrNodeError" where
  "parse_failed sd n bytes = ParseError (n @ '' response parse failed: '' @ serde_error sd bytes)"

definition openai_invoke :: "transport \<Rightarrow> serde \<Rightarrow> GenericOpenAiProvider \<Rightarrow> ProviderRequest \<Rightarrow> TmrNodeError + string" where
  "openai_invoke tr sd p req =
     and_then (ok_or (no_key (oa_display_name p)) (oa_api_key p)) (\<lambda>key.
     and_then (fetch tr id (oa_display_name p) (oa_max_response_bytes p) (openai_request p key req)) (\<lambda>bytes.
     and_then (ok_or (parse_failed sd (oa_display_name p) bytes) (Option.bind (parse_slice sd bytes) de_OpenAiResponse)) (\<lambda>resp.
     case rs_choices resp of
       c # _ \<Rightarrow> Inr (rm_content (ch_message c))
     | [] \<Rightarrow> Inl (ParseError (oa_display_name p @ '' returned no choices'')))))"

section \<open>The adapter for Gemini\<close>

record GeminiProvider =
  gp_id :: string
  gp_display_name :: string
  gp_base_url :: string
  gp_api_key :: "string option"
  gp_timeout_ms :: u64
  gp_max_response_bytes :: usize

definition GeminiProvider_from_config :: "(string \<Rightarrow> string option) \<Rightarrow> ProviderConfig \<Rightarrow> GeminiProvider" where
  "GeminiProvider_from_config env c =
     \<lparr>gp_id = pc_id c, gp_display_name = pc_display_name c, gp_base_url = pc_base_url c,
      gp_api_key = resolve_api_key env c, gp_timeout_ms = pc_timeout_ms c,
      gp_max_response_bytes = pc_max_response_bytes c\<rparr>"

definition gemini_body :: "ProviderRequest \<Rightarrow> json" where
  "gemini_body req =
     JObject ([(''contents'', JArray [JObject [(''parts'', JArray [JObject [(''text'', JString (rq_prompt req))]])]])]
              @ (if flt (Fin 0) (rq_temperature req)
                 then [(''generationConfig'', JObject [(''temperature'', json_of_f64 (rq_temperature req))])] else []))"

definition gemini_request :: "GeminiProvider \<Rightarrow> string \<Rightarrow> ProviderRequest \<Rightarrow> http_request" where
  "gemini_request p key req =
     \<lparr>hr_url = gp_base_url p @ ''?key='' @ key, hr_headers = [(''Content-Type'', ''application/json'')],
      hr_body = JsonBody (gemini_body req)\<rparr>"

datatype GeminiResponseBodyPart = GeminiResponseBodyPart (gpart_text: string)

datatype GeminiResponseBodyContent = GeminiResponseBodyContent (gc_parts: "GeminiResponseBodyPart list")

datatype GeminiResponseBodyCandidate = GeminiResponseBodyCandidate (gcand_content: GeminiResponseBodyContent)

datatype GeminiResponseBody = GeminiResponseBody (gb_candidates: "GeminiResponseBodyCandidate list")

definition de_GeminiPart :: "json \<Rightarrow> GeminiResponseBodyPart option" where
  "de_GeminiPart j = map_option GeminiResponseBodyPart (Option.bind (de_struct1 ''text'' j) de_string)"

definition de_GeminiCandidate :: "json \<Rightarrow> GeminiResponseBodyCandidate option" where
  "de_GeminiCandidate j =
     map_option (\<lambda>ps. GeminiResponseBodyCandidate (GeminiResponseBodyContent ps))
       (Option.bind (de_struct1 ''content'' j) (\<lambda>c. Option.bind (de_struct1 ''parts'' c) (de_vec de_GeminiPart)))"

definition de_GeminiResponseBody :: "json \<Rightarrow> GeminiResponseBody option" where
  "de_GeminiResponseBody j =
     map_option GeminiResponseBody (Option.bind (de_struct1 ''candidates'' j) (de_vec de_GeminiCandidate))"

definition gemini_text :: "GeminiResponseBody \<Rightarrow> string option" where
  "gemini_text b =
     (case gb_candidates b of
        [] \<Rightarrow> None
      | c # _ \<Rightarrow> (case gc_parts (gcand_content c) of [] \<Rightarrow> None | q # _ \<Rightarrow> Some (gpart_text q)))"

definition gemini_invoke :: "transport \<Rightarrow> serde \<Rightarrow> GeminiProvider \<Rightarrow> ProviderRequest \<Rightarrow> TmrNodeError + string" where
  "gemini_invoke tr sd p req =
     and_then (ok_or (no_key (gp_display_name p)) (gp_api_key p)) (\<lambda>key.
     and_then (fetch tr (\<lambda>e. str_replace e key ''[REDACTED]'') (gp_display_name p) (gp_max_response_bytes p)
                 (gemini_request p key req)) (\<lambda>bytes.
     and_then (ok_or (parse_failed sd (gp_display_name p) bytes) (Option.bind (parse_slice sd bytes) de_GeminiResponseBody)) (\<lambda>resp.
     ok_or (ParseError (gp_display_name p @ '' returned no content'')) (gemini_text resp))))"

section \<open>The adapter that runs a component\<close>

text \<open>The values of the component model the code looks into; the others are \<open>VOther\<close>.\<close>

datatype val =
    VBool bool | VString string | VFloat32 f64 | VList "val list" | VTuple "val list"
  | VRecord "(string \<times> val) list" | VResult "val option + val option" | VOther nat

type_synonym 's guest_fun = "val list \<Rightarrow> 's \<Rightarrow> (string + val) \<times> 's"

record 's guest =
  g_store :: 's
  g_exports :: "string \<Rightarrow> (string \<Rightarrow> 's guest_fun option) option"
  g_func :: "string \<Rightarrow> 's guest_fun option"

record ('c, 's) wasm =
  engine_new :: "string + unit"
  read_adapter :: "string \<Rightarrow> string + u8 list"
  compile :: "u8 list \<Rightarrow> string + 'c"
  instantiate :: "'c \<Rightarrow> string + 's guest"
  debug_val :: "val \<Rightarrow> string"
  lossy_text :: "u8 list \<Rightarrow> string"

record WasmAdapterProvider =
  wa_id :: string
  wa_display_name :: string
  wa_base_url :: string
  wa_model :: string
  wa_api_key :: "string option"
  wa_timeout_ms :: u64
  wa_max_response_bytes :: usize
  wa_cache_provider :: string
  wa_adapter_path :: string

definition WasmAdapterProvider_from_config :: "(string \<Rightarrow> string option) \<Rightarrow> ProviderConfig \<Rightarrow> WasmAdapterProvider" where
  "WasmAdapterProvider_from_config env c =
     \<lparr>wa_id = pc_id c, wa_display_name = pc_display_name c, wa_base_url = pc_base_url c, wa_model = pc_model c,
      wa_api_key = resolve_api_key env c, wa_timeout_ms = pc_timeout_ms c,
      wa_max_response_bytes = pc_max_response_bytes c, wa_cache_provider = resolve_cache_provider c,
      wa_adapter_path = (case pc_adapter c of Some f \<Rightarrow> f | None \<Rightarrow> pc_id c @ ''_adapter.wasm'')\<rparr>"

definition load_adapter :: "('c, 's) wasm \<Rightarrow> string \<Rightarrow> TmrNodeError + 's guest" where
  "load_adapter w path =
     and_then (map_err (\<lambda>e. NodeNetworkError (''Failed to create WASM engine: '' @ e)) (engine_new w)) (\<lambda>_.
     and_then (map_err (\<lambda>e. NodeNetworkError (''Failed to read adapter '' @ [CHR 0x27] @ path @ [CHR 0x27] @ '': '' @ e)) (read_adapter w path)) (\<lambda>bytes.
     and_then (map_err (\<lambda>e. NodeNetworkError (''Failed to compile adapter '' @ [CHR 0x27] @ path @ [CHR 0x27] @ '': '' @ e)) (compile w bytes)) (\<lambda>c.
     map_err (\<lambda>e. NodeNetworkError (''Failed to instantiate adapter '' @ [CHR 0x27] @ path @ [CHR 0x27] @ '': '' @ e)) (instantiate w c))))"

definition find_export :: "'s guest \<Rightarrow> string \<Rightarrow> TmrNodeError + 's guest_fun" where
  "find_export g f =
     ok_or (NodeNetworkError (''Export '' @ [CHR 0x27] @ f @ [CHR 0x27] @ '' not found in component''))
       (case Option.bind (g_exports g ''serein:adapter/provider-adapter@1.0.0'') (\<lambda>i. i f) of
          Some h \<Rightarrow> Some h
        | None \<Rightarrow> g_func g f)"

definition guest_error_text :: "(val \<Rightarrow> string) \<Rightarrow> val option \<Rightarrow> string" where
  "guest_error_text dbg e =
     (case e of None \<Rightarrow> ''unknown error'' | Some (VString s) \<Rightarrow> s | Some v \<Rightarrow> dbg v)"

definition adapter_says :: "string \<Rightarrow> string \<Rightarrow> string" where
  "adapter_says f what = ''WASM adapter '' @ [CHR 0x27] @ f @ [CHR 0x27] @ '' '' @ what"

text \<open>The value inside a successful result, for both functions of an adapter.\<close>

definition unwrap_result :: "(val \<Rightarrow> string) \<Rightarrow> (string \<Rightarrow> TmrNodeError) \<Rightarrow> string \<Rightarrow> val \<Rightarrow> TmrNodeError + val" where
  "unwrap_result dbg err f v =
     (case v of
        VResult (Inr (Some x)) \<Rightarrow> Inr x
      | VResult (Inr None) \<Rightarrow> Inl (err (adapter_says f ''returned empty result''))
      | VResult (Inl e) \<Rightarrow> Inl (err (adapter_says f (''returned error: '' @ guest_error_text dbg e)))
      | _ \<Rightarrow> Inl (err (adapter_says f (''returned unexpected value: '' @ dbg v))))"

fun spec_header :: "val \<Rightarrow> (string \<times> string) list" where
  "spec_header (VTuple [VString n, VString v]) = [(n, v)]"
| "spec_header _ = []"

definition spec_field :: "string \<times> val \<Rightarrow> string \<times> (string \<times> string) list \<times> string \<Rightarrow> string \<times> (string \<times> string) list \<times> string" where
  "spec_field = (\<lambda>(name, v) (url, headers, body).
     if name = ''url'' then (case v of VString s \<Rightarrow> (s, headers, body) | _ \<Rightarrow> (url, headers, body))
     else if name = ''headers'' then (case v of VList items \<Rightarrow> (url, headers @ concat (map spec_header items), body) | _ \<Rightarrow> (url, headers, body))
     else if name = ''body'' then (case v of VString s \<Rightarrow> (url, headers, s) | _ \<Rightarrow> (url, headers, body))
     else (url, headers, body))"

definition http_spec :: "(val \<Rightarrow> string) \<Rightarrow> val \<Rightarrow> TmrNodeError + http_request" where
  "http_spec dbg v =
     (case v of
        VRecord kvs \<Rightarrow>
          (let (url, headers, body) = fold spec_field kvs ([], [], [])
           in Inr \<lparr>hr_url = url, hr_headers = (''Content-Type'', ''application/json'') # headers, hr_body = TextBody body\<rparr>)
      | _ \<Rightarrow> Inl (NodeNetworkError (''WASM adapter returned unexpected HttpRequestSpec: '' @ dbg v)))"

definition guest_request :: "WasmAdapterProvider \<Rightarrow> ProviderRequest \<Rightarrow> val" where
  "guest_request p req =
     VRecord [(''model'', VString (wa_model p)), (''prompt'', VString (rq_prompt req)),
              (''temperature'', VFloat32 (rq_temperature req)), (''base-url'', VString (wa_base_url p))]"

definition adapter_content :: "(val \<Rightarrow> string) \<Rightarrow> val \<Rightarrow> TmrNodeError + string" where
  "adapter_content dbg v =
     and_then (unwrap_result dbg ParseError ''parse-response'' v) (\<lambda>x.
     case x of
       VString s \<Rightarrow> Inr s
     | _ \<Rightarrow> Inl (ParseError (adapter_says ''parse-response'' (''returned non-string: '' @ dbg x))))"

text \<open>The request the adapter asks for, and the guest after the call.\<close>

definition adapter_request ::
  "('c, 's) wasm \<Rightarrow> WasmAdapterProvider \<Rightarrow> string \<Rightarrow> ProviderRequest \<Rightarrow> 's guest \<Rightarrow> TmrNodeError + http_request \<times> 's" where
  "adapter_request w p key req g =
     and_then (find_export g ''transform-request'') (\<lambda>f.
     let (r, s1) = f [guest_request p req, VString key] (g_store g) in
     and_then (map_err (\<lambda>e. NodeNetworkError (adapter_says ''transform-request'' (''call trapped: '' @ e))) r) (\<lambda>v.
     and_then (unwrap_result (debug_val w) NodeNetworkError ''transform-request'' v) (\<lambda>x.
     and_then (http_spec (debug_val w) x) (\<lambda>hr. Inr (hr, s1)))))"

definition wasm_fetch :: "transport \<Rightarrow> ('c, 's) wasm \<Rightarrow> WasmAdapterProvider \<Rightarrow> http_request \<Rightarrow> TmrNodeError + string" where
  "wasm_fetch tr w p hr =
     and_then (map_err (\<lambda>e. NodeNetworkError (wa_display_name p @ '' request failed: '' @ e)) (tr hr)) (\<lambda>resp.
     case from_http_status (hs_status resp) of
       Some e \<Rightarrow> Inl e
     | None \<Rightarrow>
         and_then (map_err (\<lambda>e. ParseError (''Failed to read '' @ wa_display_name p @ '' response text: '' @ e)) (hs_body resp)) (\<lambda>bytes.
         let t = lossy_text w bytes
         in if unat (wa_max_response_bytes p) < length t then Inl (too_large (wa_display_name p) (wa_max_response_bytes p)) else Inr t))"

definition adapter_parse :: "('c, 's) wasm \<Rightarrow> string \<Rightarrow> 's guest \<Rightarrow> 's \<Rightarrow> TmrNodeError + string" where
  "adapter_parse w t g s1 =
     and_then (find_export g ''parse-response'') (\<lambda>f.
     and_then (map_err (\<lambda>e. ParseError (adapter_says ''parse-response'' (''call trapped: '' @ e))) (fst (f [VString t] s1)))
       (adapter_content (debug_val w)))"

definition wasm_invoke ::
  "transport \<Rightarrow> ('c, 's) wasm \<Rightarrow> WasmAdapterProvider \<Rightarrow> ProviderRequest \<Rightarrow> TmrNodeError + string" where
  "wasm_invoke tr w p req =
     and_then (ok_or (no_key (wa_display_name p)) (wa_api_key p)) (\<lambda>key.
     and_then (load_adapter w (wa_adapter_path p)) (\<lambda>g.
     and_then (adapter_request w p key req g) (\<lambda>(hr, s1).
     and_then (wasm_fetch tr w p hr) (\<lambda>t. adapter_parse w t g s1))))"

section \<open>Providers as trait objects\<close>

datatype LlmProvider =
    GenericOpenAi GenericOpenAiProvider | Gemini GeminiProvider | WasmAdapter WasmAdapterProvider

fun provider_id :: "LlmProvider \<Rightarrow> string" where
  "provider_id (GenericOpenAi p) = oa_id p"
| "provider_id (Gemini p) = gp_id p"
| "provider_id (WasmAdapter p) = wa_id p"

fun display_name :: "LlmProvider \<Rightarrow> string" where
  "display_name (GenericOpenAi p) = oa_display_name p"
| "display_name (Gemini p) = gp_display_name p"
| "display_name (WasmAdapter p) = wa_display_name p"

fun cache_provider :: "LlmProvider \<Rightarrow> string" where
  "cache_provider (GenericOpenAi p) = oa_cache_provider p"
| "cache_provider (Gemini p) = ''gemini''"
| "cache_provider (WasmAdapter p) = wa_cache_provider p"

fun timeout_ms :: "LlmProvider \<Rightarrow> u64" where
  "timeout_ms (GenericOpenAi p) = oa_timeout_ms p"
| "timeout_ms (Gemini p) = gp_timeout_ms p"
| "timeout_ms (WasmAdapter p) = wa_timeout_ms p"

fun invoke :: "transport \<Rightarrow> serde \<Rightarrow> ('c, 's) wasm \<Rightarrow> LlmProvider \<Rightarrow> ProviderRequest \<Rightarrow> TmrNodeError + string" where
  "invoke tr sd w (GenericOpenAi p) req = openai_invoke tr sd p req"
| "invoke tr sd w (Gemini p) req = gemini_invoke tr sd p req"
| "invoke tr sd w (WasmAdapter p) req = wasm_invoke tr w p req"

definition build_provider :: "(string \<Rightarrow> string option) \<Rightarrow> ProviderConfig \<Rightarrow> ProviderError + LlmProvider" where
  "build_provider env c =
     (if pc_adapter c \<noteq> None then Inr (WasmAdapter (WasmAdapterProvider_from_config env c))
      else (let f = to_lowercase (pc_api_format c)
            in if f = ''openai'' then Inr (GenericOpenAi (GenericOpenAiProvider_from_config env c))
               else if f = ''gemini'' then Inr (Gemini (GeminiProvider_from_config env c))
               else Inl (UnknownFormat f (pc_id c))))"

definition filter_providers :: "ProviderConfig list \<Rightarrow> string \<Rightarrow> ProviderConfig list" where
  "filter_providers cs region = filter (satisfies_geo_requirement region) cs"

record ProvidersConfig =
  pcs_provider :: "ProviderConfig list"

definition parse_toml :: "(string \<Rightarrow> string + ProvidersConfig) \<Rightarrow> string \<Rightarrow> ProviderError + ProvidersConfig" where
  "parse_toml toml s = map_err (\<lambda>e. ConfigError (''Failed to parse providers TOML: '' @ e)) (toml s)"

definition load_from_file ::
  "(string \<Rightarrow> string + string) \<Rightarrow> (string \<Rightarrow> string + ProvidersConfig) \<Rightarrow> string \<Rightarrow> ProviderError + ProvidersConfig" where
  "load_from_file read toml path =
     and_then (map_err (\<lambda>e. ConfigError (''Failed to read '' @ path @ '': '' @ e)) (read path)) (parse_toml toml)"

fun collect_results :: "('e + 'a) list \<Rightarrow> 'e + 'a list" where
  "collect_results [] = Inr []"
| "collect_results (r # rs) = and_then r (\<lambda>v. and_then (collect_results rs) (\<lambda>vs. Inr (v # vs)))"

definition build_providers :: "(string \<Rightarrow> string option) \<Rightarrow> ProvidersConfig \<Rightarrow> ProviderError + LlmProvider list" where
  "build_providers env c = collect_results (map (build_provider env) (pcs_provider c))"

definition filter_by_geo :: "ProvidersConfig \<Rightarrow> string \<Rightarrow> ProvidersConfig" where
  "filter_by_geo c region = \<lparr>pcs_provider = filter_providers (pcs_provider c) region\<rparr>"

definition build_providers_for_region ::
  "(string \<Rightarrow> string option) \<Rightarrow> ProvidersConfig \<Rightarrow> string \<Rightarrow> ProviderError + LlmProvider list" where
  "build_providers_for_region env c region = build_providers env (filter_by_geo c region)"

section \<open>Properties\<close>

lemma fetch_Inr:
  "fetch tr f n l r = Inr bytes \<longleftrightarrow>
     (\<exists>resp. tr r = Inr resp \<and> http_failure (hs_status resp) = None \<and> hs_body resp = Inr bytes \<and> length bytes \<le> unat l)"
  unfolding fetch_def results by auto

lemma wasm_fetch_Inr:
  "wasm_fetch tr w p r = Inr t \<longleftrightarrow>
     (\<exists>resp bytes. tr r = Inr resp \<and> from_http_status (hs_status resp) = None \<and> hs_body resp = Inr bytes
        \<and> t = lossy_text w bytes \<and> length t \<le> unat (wa_max_response_bytes p))"
  unfolding wasm_fetch_def results Let_def by auto

text \<open>Both ways of classifying a status agree on the statuses that HTTP defines.\<close>

lemma http_failure_equiv: "s < 600 \<Longrightarrow> http_failure s = from_http_status s"
  by (auto simp: http_failure_def from_http_status_def word_less_nat_alt word_le_nat_alt)

text \<open>
  The adapter for OpenAI answers exactly if a key is configured, the call comes back with a status
  that is neither 403, 429 nor 500 and above, the body is within its bound and holds a list of
  choices; the answer is the content of the first one.
\<close>

theorem openai_invoke_iff:
  "openai_invoke tr sd p req = Inr c \<longleftrightarrow>
     (\<exists>key resp bytes doc ms. oa_api_key p = Some key \<and> tr (openai_request p key req) = Inr resp
        \<and> hs_status resp \<notin> {403, 429} \<and> hs_status resp < 500
        \<and> hs_body resp = Inr bytes \<and> length bytes \<le> unat (oa_max_response_bytes p) \<and> parse_slice sd bytes = Some doc
        \<and> de_OpenAiResponse doc = Some (OpenAiResponse (OpenAiChoice (OpenAiResponseMessage c) # ms)))"
proof -
  have st: "http_failure s = None \<longleftrightarrow> s \<notin> {403, 429} \<and> s < 500" for s
    by (auto simp: http_failure_def)
  have ch: "(case rs_choices resp of d # _ \<Rightarrow> Inr (rm_content (ch_message d)) | [] \<Rightarrow> Inl e) = Inr c \<longleftrightarrow>
      (\<exists>ms. resp = OpenAiResponse (OpenAiChoice (OpenAiResponseMessage c) # ms))" for resp and e :: TmrNodeError
    by (cases resp; cases "rs_choices resp"; cases "ch_message (hd (rs_choices resp))") (auto split: list.splits simp: OpenAiChoice.expand)
  show ?thesis
    unfolding openai_invoke_def and_then_Inr ok_or_iff fetch_Inr st ch by (auto simp: bind_eq_Some_conv)
qed

fun api_key :: "LlmProvider \<Rightarrow> string option" where
  "api_key (GenericOpenAi p) = oa_api_key p"
| "api_key (Gemini p) = gp_api_key p"
| "api_key (WasmAdapter p) = wa_api_key p"

definition caused_by :: "u16 \<Rightarrow> TmrNodeError \<Rightarrow> bool" where
  "caused_by s e \<longleftrightarrow> (e = HttpForbidden \<and> s = 403) \<or> (e = HttpRateLimited \<and> s = 429)"

lemma http_failure_fallback:
  "http_failure s = Some e \<Longrightarrow> should_trigger_fallback e \<Longrightarrow> caused_by s e"
  "from_http_status s = Some e \<Longrightarrow> should_trigger_fallback e \<Longrightarrow> caused_by s e"
  by (auto simp: http_failure_def from_http_status_def caused_by_def split: if_splits)

definition blamed :: "transport \<Rightarrow> TmrNodeError \<Rightarrow> bool" where
  "blamed tr e \<longleftrightarrow> (should_trigger_fallback e \<longrightarrow> (\<exists>r resp. tr r = Inr resp \<and> caused_by (hs_status resp) e))"

lemma blamed_simps [simp]: "blamed tr (NodeNetworkError s)" "blamed tr (ParseError s)" "blamed tr (too_large n l)"
  "blamed tr (no_key n)" "blamed tr (parse_failed sd n b)"
  by (simp_all add: blamed_def too_large_def no_key_def parse_failed_def)

lemma fetch_blamed: "fails_only (blamed tr) (fetch tr f n l r)"
  unfolding fetch_def
  by (intro fails_only_intros; auto simp: results; auto simp: blamed_def dest: http_failure_fallback)

lemma wasm_fetch_blamed: "fails_only (blamed tr) (wasm_fetch tr w p r)"
  unfolding wasm_fetch_def Let_def
  by (intro fails_only_intros; auto simp: results; auto simp: blamed_def dest: http_failure_fallback)

lemma unwrap_result_blamed: "(\<And>s. blamed tr (err s)) \<Longrightarrow> fails_only (blamed tr) (unwrap_result dbg err f v)"
  by (auto simp: unwrap_result_def split: val.split sum.split option.split)

lemma adapter_blamed:
  "fails_only (blamed tr) (load_adapter w path)"
  "fails_only (blamed tr) (find_export g h)"
  "fails_only (blamed tr) (http_spec dbg v)"
  "fails_only (blamed tr) (adapter_content dbg v)"
  by (auto simp: load_adapter_def find_export_def http_spec_def adapter_content_def split: val.split prod.split
      intro!: fails_only_intros unwrap_result_blamed)

lemma adapter_calls_blamed:
  "fails_only (blamed tr) (adapter_request w p key req g)"
  "fails_only (blamed tr) (adapter_parse w t g s1)"
  unfolding adapter_request_def adapter_parse_def Let_def
  by (auto split: prod.split intro!: fails_only_intros unwrap_result_blamed adapter_blamed)

lemma invoke_blamed: "fails_only (blamed tr) (invoke tr sd w p req)"
  by (cases p)
     (auto simp: openai_invoke_def gemini_invoke_def wasm_invoke_def split: list.split
      intro!: fails_only_intros fetch_blamed wasm_fetch_blamed adapter_blamed adapter_calls_blamed)

lemma http_failure_None: "http_failure s = None \<longleftrightarrow> s \<notin> {403, 429} \<and> s < 500"
  by (auto simp: http_failure_def)

lemma from_http_status_None: "from_http_status s = None \<longleftrightarrow> s \<notin> {403, 429} \<and> \<not> (500 \<le> s \<and> s \<le> 599)"
  by (auto simp: from_http_status_def)

lemma invoke_success:
  assumes "invoke tr sd w p req = Inr c"
  shows "\<exists>r resp. api_key p \<noteq> None \<and> tr r = Inr resp \<and> from_http_status (hs_status resp) = None"
proof -
  have *: "http_failure s = None \<Longrightarrow> from_http_status s = None" for s
    by (auto simp: http_failure_None from_http_status_None)
  from assms show ?thesis
    by (cases p) (auto simp: openai_invoke_def gemini_invoke_def wasm_invoke_def results fetch_Inr wasm_fetch_Inr dest: *)
qed


definition example_provider :: GenericOpenAiProvider where
  "example_provider =
     \<lparr>oa_id = ''groq'', oa_display_name = ''Groq'', oa_base_url = ''https://api.groq.com/openai/v1/'', oa_model = ''m'',
      oa_api_key = Some ''k'', oa_timeout_ms = 15000, oa_max_response_bytes = 100, oa_cache_provider = ''groq''\<rparr>"

definition no_wasm :: "(unit, unit) wasm" where
  "no_wasm = \<lparr>engine_new = Inl [], read_adapter = (\<lambda>_. Inl []), compile = (\<lambda>_. Inl []), instantiate = (\<lambda>_. Inl []),
     debug_val = (\<lambda>_. []), lossy_text = (\<lambda>_. [])\<rparr>"

definition no_serde :: serde where
  "no_serde = \<lparr>parse_slice = (\<lambda>_. None), serde_error = (\<lambda>_. [])\<rparr>"

definition busy :: transport where
  "busy r = (if hr_url r = ''https://api.groq.com/openai/v1/chat/completions''
             then Inr \<lparr>hs_status = 429, hs_body = Inl []\<rparr> else Inl [])"


text \<open>
  A status that is no failure plays no part in the answer: a reply of 404, or of 401, is read like
  one of 200.
\<close>

lemma accepted_status_irrelevant:
  assumes "http_failure s = None" "http_failure s' = None"
  shows "fetch (\<lambda>_. Inr \<lparr>hs_status = s, hs_body = b\<rparr>) f n l r = fetch (\<lambda>_. Inr \<lparr>hs_status = s', hs_body = b\<rparr>) f n l r"
  using assms by (simp add: fetch_def)

lemma http_failure_client_errors: "http_failure 401 = None" "http_failure 404 = None"
  by (simp_all add: http_failure_def)

section \<open>The key in error messages\<close>

lemma prefix_str_replace:
  assumes "k \<noteq> []" "CHR ''['' \<notin> set x" "prefix x (str_replace s k (CHR ''['' # r))"
  shows "prefix x s"
  using assms(2,3)
proof (induction s arbitrary: x)
  case (Cons c s)
  show ?case
  proof (cases "prefix k (c # s)")
    case True
    then have "str_replace (c # s) k (CHR ''['' # r) = CHR ''['' # r @ str_replace (drop (length k) (c # s)) k (CHR ''['' # r)"
      using assms(1) by (subst str_replace.simps) simp
    with Cons.prems show ?thesis by (cases x) auto
  next
    case False
    with Cons assms(1) show ?thesis by (cases x) (auto simp: str_replace_nomatch)
  qed
qed (use assms(1) in \<open>simp add: str_replace.simps\<close>)

lemma redaction:
  assumes k: "k \<noteq> []" "CHR ''['' \<notin> set k" "CHR '']'' \<notin> set k" "\<not> sublist k m"
  shows "\<not> sublist k (str_replace s k (CHR ''['' # m @ [CHR '']'']))"
proof (induction "length s" arbitrary: s rule: less_induct)
  case less
  let ?r = "CHR ''['' # m @ [CHR '']'']"
  show ?case
  proof (cases s)
    case Nil
    with k(1) show ?thesis by (simp add: str_replace.simps)
  next
    case (Cons c s')
    show ?thesis
    proof (cases "prefix k s")
      case True
      then obtain t where t: "s = k @ t" by (auto simp: prefix_def)
      then have "\<not> sublist k (str_replace t k ?r)" using less k(1) by simp
      moreover have "\<not> sublist k ?r"
        using k by (auto simp: sublist_Cons_right sublist_append prefix_Cons suffix_snoc)
      moreover have "a = []" if "k = a @ b" "suffix a ?r" for a b
        using that k(3) by (cases a rule: rev_cases) (auto simp: suffix_def)
      ultimately have "\<not> sublist k (?r @ str_replace t k ?r)"
        unfolding sublist_append using prefix_imp_sublist by (metis append_Nil)
      with t k(1) show ?thesis by (simp add: str_replace_match)
    next
      case False
      then have e: "str_replace s k ?r = c # str_replace s' k ?r" using Cons k(1) by (simp add: str_replace_nomatch)
      have "\<not> prefix k (str_replace s k ?r)" using prefix_str_replace [OF k(1,2)] False by blast
      moreover have "\<not> sublist k (str_replace s' k ?r)" using less Cons by simp
      ultimately show ?thesis unfolding e by (simp add: sublist_Cons_right)
    qed
  qed
qed

text \<open>
  The error the Gemini adapter reports when a call fails does not contain the key, although the
  URL of the call does: for every key without brackets that is not part of the word that replaces
  it.
\<close>

theorem gemini_key_redacted:
  assumes "gp_api_key p = Some key" "key \<noteq> []" "CHR ''['' \<notin> set key" "CHR '']'' \<notin> set key" "\<not> sublist key ''REDACTED''"
    and "gemini_invoke tr sd p req = Inl (NodeNetworkError msg)"
  shows "\<exists>shown. msg = gp_display_name p @ '' request failed: '' @ shown \<and> \<not> sublist key shown"
proof -
  from assms(1,6) obtain e where "msg = gp_display_name p @ '' request failed: '' @ str_replace e key ''[REDACTED]''"
    by (auto simp: gemini_invoke_def results fetch_def parse_failed_def too_large_def http_failure_def split: option.split_asm if_split_asm)
  moreover have "\<not> sublist key (str_replace e key ''[REDACTED]'')"
    using redaction [OF assms(2-5), of e] by simp
  ultimately show ?thesis by blast
qed

theorem gemini_key_redacted_witness:
  "let p = \<lparr>gp_id = ''gemini'', gp_display_name = ''Gemini'', gp_base_url = ''https://g'', gp_api_key = Some ''k9'',
            gp_timeout_ms = 15000, gp_max_response_bytes = 100\<rparr>;
       req = \<lparr>rq_prompt = ''hi'', rq_tenant_id = ''t'', rq_images = None, rq_temperature = Fin 0\<rparr>
   in \<exists>shown. gemini_invoke (\<lambda>r. Inl (''dns error for '' @ hr_url r)) no_serde p req
                 = Inl (NodeNetworkError (''Gemini'' @ '' request failed: '' @ shown)) \<and> \<not> sublist ''k9'' shown"
proof -
  let ?p = "\<lparr>gp_id = ''gemini'', gp_display_name = ''Gemini'', gp_base_url = ''https://g'', gp_api_key = Some ''k9'',
            gp_timeout_ms = 15000, gp_max_response_bytes = 100\<rparr>"
    and ?req = "\<lparr>rq_prompt = ''hi'', rq_tenant_id = ''t'', rq_images = None, rq_temperature = Fin 0\<rparr>"
    and ?tr = "\<lambda>r. Inl (''dns error for '' @ hr_url r)"
  obtain m where m: "gemini_invoke ?tr no_serde ?p ?req = Inl (NodeNetworkError m)"
    by (simp add: gemini_invoke_def fetch_def gemini_request_def)
  have "\<not> sublist ''k9'' ''REDACTED''" by (simp add: sublist_Cons_right)
  from gemini_key_redacted [of ?p "''k9''", OF _ _ _ _ this m] obtain shown
    where "m = ''Gemini'' @ '' request failed: '' @ shown" "\<not> sublist ''k9'' shown" by auto
  with m show ?thesis unfolding Let_def by blast
qed

section \<open>What the configuration does\<close>

lemma collect_results_Inr: "collect_results rs = Inr vs \<longleftrightarrow> list_all2 (\<lambda>r v. r = Inr v) rs vs"
  by (induction rs arbitrary: vs) (auto simp: results list_all2_Cons1)

text \<open>
  The providers built for a region are those of the entries that name the region, in either case,
  or none, in order; an entry with an unknown format fails the whole build exactly if it is one of
  them.
\<close>

theorem region_build:
  "(\<forall>ps. build_providers_for_region env c region = Inr ps \<longrightarrow>
      list_all2 (\<lambda>cfg p. build_provider env cfg = Inr p \<and> provider_id p = pc_id cfg)
        (filter (\<lambda>cfg. \<forall>r. pc_geo_region cfg = Some r \<longrightarrow> map lower r = map lower region) (pcs_provider c)) ps)
   \<and> (is_ok (build_providers_for_region env c region) \<longleftrightarrow>
      list_all (\<lambda>cfg. satisfies_geo_requirement region cfg \<longrightarrow>
         pc_adapter cfg \<noteq> None \<or> to_lowercase (pc_api_format cfg) \<in> {''openai'', ''gemini''}) (pcs_provider c))"
proof (intro conjI allI impI)
  have geo: "satisfies_geo_requirement region = (\<lambda>cfg. \<forall>r. pc_geo_region cfg = Some r \<longrightarrow> map lower r = map lower region)"
    by (auto simp: satisfies_geo_requirement_def eq_ignore_ascii_case_def split: option.splits)
  have pid: "build_provider env cfg = Inr p \<Longrightarrow> provider_id p = pc_id cfg" for cfg p
    by (auto simp: build_provider_def Let_def GenericOpenAiProvider_from_config_def GeminiProvider_from_config_def
        WasmAdapterProvider_from_config_def split: if_splits)
  fix ps assume "build_providers_for_region env c region = Inr ps"
  then show "list_all2 (\<lambda>cfg p. build_provider env cfg = Inr p \<and> provider_id p = pc_id cfg)
      (filter (\<lambda>cfg. \<forall>r. pc_geo_region cfg = Some r \<longrightarrow> map lower r = map lower region) (pcs_provider c)) ps"
    unfolding geo [symmetric]
    by (auto simp: build_providers_for_region_def build_providers_def filter_by_geo_def filter_providers_def
        collect_results_Inr list_all2_map1 elim!: list_all2_mono dest: pid)
next
  have ok: "is_ok (build_provider env cfg) \<longleftrightarrow> pc_adapter cfg \<noteq> None \<or> to_lowercase (pc_api_format cfg) \<in> {''openai'', ''gemini''}" for cfg
    by (auto simp: build_provider_def Let_def)
  have "is_ok (collect_results rs) \<longleftrightarrow> list_all is_ok rs" for rs :: "(ProviderError + LlmProvider) list"
  proof (induction rs)
    case (Cons r rs)
    then show ?case by (cases r; cases "collect_results rs") auto
  qed simp
  then show "is_ok (build_providers_for_region env c region) \<longleftrightarrow>
      list_all (\<lambda>cfg. satisfies_geo_requirement region cfg \<longrightarrow>
         pc_adapter cfg \<noteq> None \<or> to_lowercase (pc_api_format cfg) \<in> {''openai'', ''gemini''}) (pcs_provider c)"
    by (auto simp: build_providers_for_region_def build_providers_def filter_by_geo_def filter_providers_def
        ok list_all_iff)
qed

theorem region_build_witness:
  "let eu = (ProviderConfig_required ''a'' ''A'' ''u'' ''m'')\<lparr>pc_geo_region := Some ''eu''\<rparr>;
       us = (ProviderConfig_required ''b'' ''B'' ''u'' ''m'')\<lparr>pc_geo_region := Some ''US'', pc_api_format := ''x''\<rparr>
   in is_ok (build_providers_for_region (\<lambda>_. None) \<lparr>pcs_provider = [eu, us]\<rparr> ''EU'')"
  unfolding Let_def conjunct2 [OF region_build]
  by (simp add: satisfies_geo_requirement_def eq_ignore_ascii_case_def lower_def ProviderConfig_required_def to_lowercase_def)

text \<open>
  Four settings of an entry take no part in the provider that is built from it: the temperature,
  the bound on tokens, the retries and the number of concurrent requests.
\<close>

theorem settings_without_effect:
  "build_provider env (c\<lparr>pc_temperature := t, pc_max_tokens := n, pc_max_retries := m, pc_concurrency_limit := l\<rparr>)
   = build_provider env c"
  by (cases "pc_adapter c") (simp_all add: build_provider_def Let_def GenericOpenAiProvider_from_config_def GeminiProvider_from_config_def
      WasmAdapterProvider_from_config_def resolve_api_key_def resolve_cache_provider_def)

text \<open>
  An entry that names an environment variable which is not set has no key, even if it has one in
  the file.
\<close>

lemma inline_key_not_used: "pc_api_key_env c \<noteq> [] \<Longrightarrow> env (pc_api_key_env c) = None \<Longrightarrow> resolve_api_key env c = None"
  by (simp add: resolve_api_key_def)

end
