(* ===== verification/Kernel.thy ===== *)
theory Kernel
  imports Arbitrator ResourceMonitor Prompts Validator HostRuntime HotSwap Attestation Vfs
begin

text \<open>
  \<open>SereinMicrokernel\<close> of \<open>crates/core/src/lib.rs\<close>: the path of a request through the interlock, the resource
  monitor, the router, the oracle and the validator into the guest, the accounting of fuel, the
  counter-measure, and the replacement of components.

  What Wasmtime does with a component and a store is the argument \<open>ke_guest\<close> (\<open>ke_aegis\<close> for the
  counter-measure): how far a call gets, what it returns and the fuel gauge before and after. A
  call that has not returned when its time is up is \<open>Elapsed\<close>. Files, the database and the clock
  are arguments too. \<open>None\<close> is a panic.
\<close>

section \<open>The kernel\<close>

datatype ApiError =
    InvalidPayload string | Authorization string | ThreatMitigated string
  | ApiEmergencyShutdown string | ApiInternal string

record 'c SereinMicrokernel =
  mk_config :: SecureRuntimeConfig
  mk_masking_engine :: MaskingEngine
  mk_tenant_component :: "'c HotSwapContainer option"
  mk_tenant_poisoned :: bool
  mk_aegis_component :: "'c HotSwapContainer option"
  mk_aegis_poisoned :: bool
  mk_module_cache :: "(string, 'c) hmap"
  mk_resource_monitor :: ResourceMonitor
  mk_sis :: SisInterlock
  mk_fuel_monitor :: FuelMonitor
  mk_validator :: Z3FormalValidator
  mk_hsm :: EnclaveBootGuard
  mk_abi_guard :: AbiGuard
  mk_honeypot_env :: "(string \<times> string) list"

record 't RequestStore =
  rs_state :: "'t StoreState"
  rs_environment :: "(string \<times> string) list"
  rs_models_mounted :: bool
  rs_fuel :: u64
  rs_epoch_deadline :: "u64 option"

datatype 'a timed = Finished 'a | Elapsed

text \<open>What \<open>tokio::time::timeout\<close> makes of a call, with the error it is mapped to.\<close>

definition unless_elapsed :: "'e \<Rightarrow> ('e, 'a) rresult timed \<Rightarrow> ('e, 'a) rresult" where
  "unless_elapsed e t = (case t of Finished r \<Rightarrow> r | Elapsed \<Rightarrow> Inl e)"

lemma unless_elapsed_Inr [results]: "unless_elapsed e t = Inr v \<longleftrightarrow> t = Finished (Inr v)"
  by (simp add: unless_elapsed_def split: timed.split)

record guest_run =
  gr_instantiate :: "string + unit"
  gr_fuel_before :: "string + u64"
  gr_result :: "string + string + string"
  gr_fuel_after :: "string + u64"
  gr_in_time :: bool

record aegis_run =
  ag_instantiate :: "string + unit"
  ag_constructor :: "string + unit"
  ag_fuel_before :: "string + u64"
  ag_result :: "string + string"
  ag_resource_drop :: "string + unit"
  ag_fuel_after :: "string + u64"
  ag_in_time :: bool

record ('c, 't) kernel_env =
  ke_from_str :: "string \<Rightarrow> string + json"
  ke_print :: "json \<Rightarrow> string"
  ke_now :: instant
  ke_fmt :: "nat \<Rightarrow> f64 \<Rightarrow> string"
  ke_show_ip :: "IpAddr \<Rightarrow> string"
  ke_models_dir :: "(string + unit) option"
  ke_set_fuel :: "string + unit"
  ke_table :: 't
  ke_guest :: "'c \<Rightarrow> 't RequestStore \<Rightarrow> string \<Rightarrow> guest_run"
  ke_aegis :: "'c \<Rightarrow> 't RequestStore \<Rightarrow> aegis_run"

definition abi_text :: "AbiViolation \<Rightarrow> string" where
  "abi_text v =
     (case v of
        OutOfBoundsAccess off len m \<Rightarrow>
          ''Memory access out of bounds: offset='' @ dec (unat off) @ '', length='' @ dec (unat len) @ '', max='' @ dec (unat m)
      | _ \<Rightarrow> [])"

definition validate_memory_bounds :: "'c SereinMicrokernel \<Rightarrow> (string + usize \<times> usize) \<times> 'c SereinMicrokernel" where
  "validate_memory_bounds k =
     (let m = src_max_memory_size (mk_config k);
          (r, g) = check_memory_access 0 m m (mk_abi_guard k)
      in (case r of
            Inl v \<Rightarrow> Inl (''Memory boundary validation failed: '' @ abi_text v)
          | Inr _ \<Rightarrow> Inr (0, m),
          k\<lparr>mk_abi_guard := g\<rparr>))"

definition fresh_store :: "('c, 't) kernel_env \<Rightarrow> string \<Rightarrow> 'c SereinMicrokernel \<Rightarrow> 't RequestStore" where
  "fresh_store ke tenant k =
     \<lparr>rs_state = \<lparr>ss_table = ke_table ke, ss_attacker_contexts = [], ss_abi_guard = AbiGuard_new True True,
        ss_memory_capability = None, ss_canonical_guard = CanonicalAbiGuard_new True, ss_tenant_id = tenant,
        ss_shared_buffers = [], ss_resource_limiter = default_256mb, ss_masking_engine = mk_masking_engine k\<rparr>,
      rs_environment = mk_honeypot_env k, rs_models_mounted = (ke_models_dir ke \<noteq> None), rs_fuel = SIS_FUEL_QUOTA,
      rs_epoch_deadline = (if epoch_interruption (mk_config k) then Some (epoch_deadline (mk_config k)) else None)\<rparr>"

definition create_store_for_request ::
  "('c, 't) kernel_env \<Rightarrow> string \<Rightarrow> 'c SereinMicrokernel \<Rightarrow> (string + 't RequestStore) \<times> 'c SereinMicrokernel" where
  "create_store_for_request ke tenant k =
     (case ke_models_dir ke of
        Some (Inl e) \<Rightarrow> (Inl (''Failed to preopen models directory '' @ [CHR 0x22] @ ''./serein-models'' @ [CHR 0x22]), k)
      | _ \<Rightarrow>
          (case ke_set_fuel ke of
             Inl e \<Rightarrow> (Inl ''Failed to inject fuel into the execution store'', k)
           | Inr _ \<Rightarrow>
               (let (r, k1) = validate_memory_bounds k in (and_then r (\<lambda>_. Inr (fresh_store ke tenant k)), k1))))"

text \<open>The charge of both kinds of guest calls; \<open>what\<close> is the start of the message of the trap.\<close>

definition charge :: "string \<Rightarrow> u64 \<Rightarrow> 'c SereinMicrokernel \<Rightarrow> ((ApiError + unit) \<times> 'c SereinMicrokernel) may_panic" where
  "charge what fuel k =
     (case consume_fuel fuel (mk_sis k) of
        None \<Rightarrow> None
      | Some (_, s1) \<Rightarrow>
          (let (r, _, m1) = consume fuel (mk_fuel_monitor k); k1 = k\<lparr>mk_sis := s1, mk_fuel_monitor := m1\<rparr>
           in Some (map_err (\<lambda>_. ApiEmergencyShutdown (what @ ''wasm trap: interrupt'')) r, k1)))"

definition guest_reply :: "guest_run \<Rightarrow> ApiError + string" where
  "guest_reply g =
     (case gr_result g of
        Inl trap \<Rightarrow> Inl (ApiInternal (''Guest execution trapped: '' @ trap))
      | Inr (Inl e) \<Rightarrow> Inl (InvalidPayload (''Guest logic failed: '' @ e))
      | Inr (Inr out) \<Rightarrow> Inr out)"

definition execute_guest ::
  "('c, 't) kernel_env \<Rightarrow> 't RequestStore \<Rightarrow> string \<Rightarrow> 'c SereinMicrokernel \<Rightarrow> ((ApiError + string) timed \<times> 'c SereinMicrokernel) may_panic" where
  "execute_guest ke st payload k =
     (if mk_tenant_poisoned k then Some (Finished (Inl (ApiInternal ''Tenant component lock poisoned: poisoned lock: another task failed inside'')), k)
      else case mk_tenant_component k of
        None \<Rightarrow> Some (Finished (Inl (ApiInternal ''Tenant component not loaded'')), k)
      | Some c \<Rightarrow>
          (let g = ke_guest ke (hsc_load c) st payload
           in if \<not> gr_in_time g then Some (Elapsed, k)
              else case gr_instantiate g of
                Inl e \<Rightarrow> Some (Finished (Inl (ApiInternal (''Guest instantiation failed: '' @ e))), k)
              | Inr _ \<Rightarrow>
                  (case gr_fuel_before g of
                     Inl e \<Rightarrow> Some (Finished (Inl (ApiInternal (''Failed to read fuel before execution: '' @ e))), k)
                   | Inr f0 \<Rightarrow>
                       (case gr_fuel_after g of
                          Inl e \<Rightarrow> Some (Finished (Inl (ApiInternal (''Failed to read fuel after execution: '' @ e))), k)
                        | Inr f1 \<Rightarrow>
                            map_option (\<lambda>(r, k1). (Finished (and_then r (\<lambda>_. guest_reply g)), k1))
                              (charge ''Fuel ESD trap: '' (saturating_sub f0 f1) k)))))"

definition execute_aegis ::
  "('c, 't) kernel_env \<Rightarrow> 't RequestStore \<Rightarrow> IpAddr \<Rightarrow> 'c SereinMicrokernel \<Rightarrow> ((ApiError + string) timed \<times> 'c SereinMicrokernel) may_panic" where
  "execute_aegis ke st ip k =
     (if mk_aegis_poisoned k then None
      else case mk_aegis_component k of
        None \<Rightarrow> Some (Finished (Inl (ApiInternal ''Aegis sandbox guard component not available'')), k)
      | Some c \<Rightarrow>
          (let a = ke_aegis ke (hsc_load c) st; no = (\<lambda>e. Some (Finished (Inl (ApiInternal e)), k))
           in if \<not> ag_in_time a then Some (Elapsed, k)
              else case ag_instantiate a of Inl e \<Rightarrow> no (''Aegis sandbox instantiation failed: '' @ e) | Inr _ \<Rightarrow>
              (case ag_constructor a of Inl e \<Rightarrow> no (''Attacker context construction failed: '' @ e) | Inr _ \<Rightarrow>
              (case ag_fuel_before a of Inl e \<Rightarrow> no e | Inr f0 \<Rightarrow>
              (case ag_resource_drop a of Inl e \<Rightarrow> no (''Attacker context resource drop failed: '' @ e) | Inr _ \<Rightarrow>
              (case ag_fuel_after a of Inl e \<Rightarrow> no (''Failed to read fuel after Aegis execution: '' @ e) | Inr f1 \<Rightarrow>
                 map_option (\<lambda>(r, k1). (Finished (and_then r (\<lambda>_.
                     and_then (map_err (\<lambda>t. ApiInternal (''Aegis guest trapped during countermeasure: '' @ t)) (ag_result a)) (\<lambda>_.
                     Inl (ThreatMitigated (''Aegis countermeasure executed for IP '' @ ke_show_ip ke ip
                       @ '' - sandbox containment verified, fuel consumed: '' @ dec (unat (saturating_sub f0 f1))))))), k1))
                   (charge ''Aegis fuel ESD trap: '' (saturating_sub f0 f1) k)))))))"

definition trigger_strangulation_mode ::
  "('c, 't) kernel_env \<Rightarrow> IpAddr \<Rightarrow> 'c SereinMicrokernel \<Rightarrow> ((ApiError + string) \<times> 'c SereinMicrokernel) may_panic" where
  "trigger_strangulation_mode ke ip k =
     (case create_store_for_request ke ''system'' k of
        (Inl e, k1) \<Rightarrow> Some (Inl (ApiInternal e), k1)
      | (Inr st, k1) \<Rightarrow>
          map_option (\<lambda>(r, k2). (unless_elapsed (ApiEmergencyShutdown (''Aegis defense component exceeded ''
              @ dec (unat (execution_timeout_secs (mk_config k))) @ ''s timeout'')) r, k2))
            (execute_aegis ke st ip k1))"

definition source_field :: "json \<Rightarrow> string" where
  "source_field v =
     (case (case json_get v ''source'' of Some x \<Rightarrow> Some x
            | None \<Rightarrow> (case json_get v ''provider'' of Some x \<Rightarrow> Some x | None \<Rightarrow> json_get v ''node_id'')) of
        Some (JString s) \<Rightarrow> s
      | _ \<Rightarrow> [])"

definition detect_response_source :: "(string \<Rightarrow> string + json) \<Rightarrow> string \<Rightarrow> ResponseSource" where
  "detect_response_source from_str payload =
     (case from_str payload of
        Inl _ \<Rightarrow> FrontierCloud
      | Inr v \<Rightarrow>
          (let s = to_lowercase (source_field v)
           in if contains s ''node_d'' \<or> contains s ''noded'' \<or> contains s ''slm'' \<or> contains s ''local''
              then PhysicalNodeD else FrontierCloud))"

fun oracle_display :: "(nat \<Rightarrow> f64 \<Rightarrow> string) \<Rightarrow> OracleError \<Rightarrow> string" where
  "oracle_display fmt (ParseError e) = ''Failed to parse LLM response: '' @ e"
| "oracle_display fmt (LowConfidenceThreshold c t) = ''Confidence score '' @ fmt 2 c @ '' below minimum threshold of '' @ fmt 2 t"
| "oracle_display fmt (SchemaValidation e) = ''Schema validation failed: '' @ e"

definition oracle_rejection :: "(nat \<Rightarrow> f64 \<Rightarrow> string) \<Rightarrow> OracleError \<Rightarrow> ApiError" where
  "oracle_rejection fmt e =
     (case e of
        LowConfidenceThreshold score threshold \<Rightarrow>
          InvalidPayload (''Payload rejected by consensus arbitrator: confidence '' @ fmt 4 score @ '' below threshold '' @ fmt 2 threshold)
      | _ \<Rightarrow> ApiInternal (''Oracle consensus arbitration failed: '' @ oracle_display fmt e))"

text \<open>The request after the resource monitor: router, oracle, validator, guest.\<close>

definition admit :: "('c, 't) kernel_env \<Rightarrow> string \<Rightarrow> string \<Rightarrow> 'c SereinMicrokernel \<Rightarrow> (ApiError + unit) \<times> 'c SereinMicrokernel" where
  "admit ke endpoint payload k =
     (case receive_request (ke_from_str ke) (ke_print ke) endpoint payload of
        Inl e \<Rightarrow> (Inl (ApiInternal (''Nexus Gateway routing failed: '' @ nexus_display e)), k)
      | Inr _ \<Rightarrow>
          (case oracle_arbitrate (ke_from_str ke) payload (detect_response_source (ke_from_str ke) payload) of
             Inl e \<Rightarrow> (Inl (oracle_rejection (ke_fmt ke) e), k)
           | Inr _ \<Rightarrow>
               (let (r, v) = prove_safety (ke_from_str ke) (bytes_of payload) (mk_validator k)
                in (map_err (\<lambda>_. InvalidPayload ''Payload validation failed - formal safety proof rejected'') r, k\<lparr>mk_validator := v\<rparr>))))"

definition run_guest :: "('c, 't) kernel_env \<Rightarrow> string \<Rightarrow> string \<Rightarrow> 'c SereinMicrokernel \<Rightarrow> ((ApiError + string) \<times> 'c SereinMicrokernel) may_panic" where
  "run_guest ke payload tenant k =
     (case create_store_for_request ke tenant k of
        (Inl e, k1) \<Rightarrow> Some (Inl (ApiInternal e), k1)
      | (Inr st, k1) \<Rightarrow>
          map_option (\<lambda>(r, k2). (unless_elapsed (ApiEmergencyShutdown (''WASM guest execution exceeded ''
              @ dec (unat (execution_timeout_secs (mk_config k))) @ ''s timeout - instance force-terminated'')) r, k2))
            (execute_guest ke st payload k1))"

definition process_api_request ::
  "('c, 't) kernel_env \<Rightarrow> string \<Rightarrow> string \<Rightarrow> IpAddr \<Rightarrow> string \<Rightarrow> 'c SereinMicrokernel \<Rightarrow> ((ApiError + string) \<times> 'c SereinMicrokernel) may_panic" where
  "process_api_request ke endpoint payload ip tenant k =
     (if sis_current_state (mk_sis k) = SisEmergencyShutdown
      then Some (Inl (ApiEmergencyShutdown ''Emergency shutdown active - all requests blocked''), k)
      else let (r, rm) = check_and_record_request (ke_now ke) ip (mk_resource_monitor k);
               k1 = k\<lparr>mk_resource_monitor := rm\<rparr>
           in case r of
                None \<Rightarrow> None
              | Some (Inl e) \<Rightarrow> Some (Inl (ApiInternal (''Resource monitor check failed: '' @ e)), k1)
              | Some (Inr True) \<Rightarrow> trigger_strangulation_mode ke ip k1
              | Some (Inr False) \<Rightarrow>
                  (case admit ke endpoint payload k1 of
                     (Inl e, k2) \<Rightarrow> Some (Inl e, k2)
                   | (Inr _, k2) \<Rightarrow> run_guest ke payload tenant k2))"

section \<open>Components\<close>

record 'c loader =
  ld_current_dir :: "string + string"
  ld_exists :: "string \<Rightarrow> bool"
  ld_read :: "string \<Rightarrow> string + u8 list"
  ld_from_binary :: "u8 list \<Rightarrow> string + 'c"

text \<open>\<open>Path::join\<close>: an absolute path replaces the one it is joined to.\<close>

definition path_join :: "string \<Rightarrow> string \<Rightarrow> string" where
  "path_join p q =
     (if starts_with q ''/'' \<or> p = [] then q
      else if last p = CHR ''/'' then p @ q
      else p @ ''/'' @ q)"

definition find_wasm_component :: "'c loader \<Rightarrow> string \<Rightarrow> string + string" where
  "find_wasm_component ld name =
     and_then (map_err (\<lambda>e. ''Failed to determine workspace directory: '' @ e) (ld_current_dir ld)) (\<lambda>root.
     let target = path_join root ''target''
     in ok_or (''Wasm component '' @ [CHR 0x27] @ name @ [CHR 0x27] @ '' not found - ensure it is placed in the project root'')
          (find (ld_exists ld)
             [path_join root name, path_join (path_join root ''modules'') name,
              path_join (path_join target ''wasm32-wasip1/release'') name,
              path_join (path_join target ''wasm32-wasi/release'') name]))"

definition load_component :: "'c loader \<Rightarrow> string \<Rightarrow> string + 'c" where
  "load_component ld name =
     and_then (find_wasm_component ld name) (\<lambda>path.
     and_then (map_err (\<lambda>_. ''Failed to read Wasm component'') (ld_read ld path)) (\<lambda>bytes.
     map_err (\<lambda>_. ''Failed to parse Wasm component binary'') (ld_from_binary ld bytes)))"

text \<open>Put a component into a slot: a swap when the slot is in use.\<close>

definition install :: "string \<Rightarrow> 'c \<Rightarrow> 'c HotSwapContainer option \<Rightarrow> 'c HotSwapContainer may_panic" where
  "install name c slot =
     (case slot of
        Some h \<Rightarrow> swap_and_forget c h
      | None \<Rightarrow> Some (HotSwapContainer_new c name))"

text \<open>A panic while the lock is held poisons it.\<close>

definition install_tenant :: "'c \<Rightarrow> 'c SereinMicrokernel \<Rightarrow> (string + unit) may_panic \<times> 'c SereinMicrokernel" where
  "install_tenant c k =
     (if mk_tenant_poisoned k then (Some (Inl ''Tenant component lock poisoned: poisoned lock: another task failed inside''), k)
      else case install ''tenant_component'' c (mk_tenant_component k) of
        None \<Rightarrow> (None, k\<lparr>mk_tenant_poisoned := True\<rparr>)
      | Some h \<Rightarrow> (Some (Inr ()), k\<lparr>mk_tenant_component := Some h\<rparr>))"

definition update_tenant_component :: "'c loader \<Rightarrow> string \<Rightarrow> 'c SereinMicrokernel \<Rightarrow> (string + unit) may_panic \<times> 'c SereinMicrokernel" where
  "update_tenant_component ld name k =
     (case load_component ld name of Inl e \<Rightarrow> (Some (Inl e), k) | Inr c \<Rightarrow> install_tenant c k)"

definition reload_component :: "'c loader \<Rightarrow> u8 list \<Rightarrow> 'c SereinMicrokernel \<Rightarrow> (string + unit) may_panic \<times> 'c SereinMicrokernel" where
  "reload_component ld bytes k =
     (case ld_from_binary ld bytes of
        Inl _ \<Rightarrow> (Some (Inl ''Failed to compile WASM component from hot-swap bytes''), k)
      | Inr c \<Rightarrow> install_tenant c k)"

definition update_aegis_component :: "'c loader \<Rightarrow> string \<Rightarrow> 'c SereinMicrokernel \<Rightarrow> (string + unit) may_panic \<times> 'c SereinMicrokernel" where
  "update_aegis_component ld name k =
     (case load_component ld name of
        Inl e \<Rightarrow> (Some (Inl e), k)
      | Inr c \<Rightarrow>
          if mk_aegis_poisoned k then (None, k)
          else case install ''aegis_component'' c (mk_aegis_component k) of
            None \<Rightarrow> (None, k\<lparr>mk_aegis_poisoned := True\<rparr>)
          | Some h \<Rightarrow> (Some (Inr ()), k\<lparr>mk_aegis_component := Some h\<rparr>))"

definition tenant_component :: "'c SereinMicrokernel \<Rightarrow> 'c option" where
  "tenant_component k = (if mk_tenant_poisoned k then None else map_option hsc_load (mk_tenant_component k))"

definition get_or_cache_component :: "'c loader \<Rightarrow> string \<Rightarrow> 'c SereinMicrokernel \<Rightarrow> (string + 'c) \<times> 'c SereinMicrokernel" where
  "get_or_cache_component ld path k =
     (case hm_get (mk_module_cache k) path of
        Some c \<Rightarrow> (Inr c, k)
      | None \<Rightarrow>
          (case ld_read ld path of
             Inl _ \<Rightarrow> (Inl ''Failed to read WASM component from path'', k)
           | Inr bytes \<Rightarrow>
               (case ld_from_binary ld bytes of
                  Inl _ \<Rightarrow> (Inl ''Failed to compile WASM component'', k)
                | Inr c \<Rightarrow> (Inr c, k\<lparr>mk_module_cache := hm_insert path c (mk_module_cache k)\<rparr>))))"

definition run_wasm ::
  "('c, 't) kernel_env \<Rightarrow> 'c loader \<Rightarrow> string \<Rightarrow> string \<Rightarrow> string \<Rightarrow> 'c SereinMicrokernel \<Rightarrow> (string + string) \<times> 'c SereinMicrokernel" where
  "run_wasm ke ld path payload tenant k =
     (case get_or_cache_component ld path k of
        (Inl e, k1) \<Rightarrow> (Inl e, k1)
      | (Inr c, k1) \<Rightarrow>
          (case create_store_for_request ke tenant k1 of
             (Inl e, k2) \<Rightarrow> (Inl (''Store creation failed: '' @ e), k2)
           | (Inr st, k2) \<Rightarrow>
               (let g = ke_guest ke c st payload
                in (and_then (map_err (\<lambda>e. ''Component instantiation failed: '' @ e) (gr_instantiate g)) (\<lambda>_.
                    and_then (map_err (\<lambda>e. ''Guest execution trapped: '' @ e) (gr_result g)) (\<lambda>r.
                    map_err (\<lambda>e. ''Guest logic error: '' @ e) r)), k2))))"

section \<open>Start\<close>

record boot =
  bt_database :: "string + unit"
  bt_schema :: "string + unit"
  bt_master_key :: "string option"
  bt_wasi_link :: "string + unit"
  bt_host_link :: "string + unit"
  bt_engine :: "string + unit"
  bt_now :: instant
  bt_build :: build

text \<open>Without the features \<open>wasi-nn\<close> and \<open>secure-hardware\<close>; with the latter the start panics.\<close>

definition check_master_key :: "crypto \<Rightarrow> string option \<Rightarrow> string + MaskingEngine" where
  "check_master_key cr key =
     and_then (ok_or ''SEREIN_MASTER_KEY environment variable is required for production deployment. Set a 64-character hex-encoded 256-bit key.'' key) (\<lambda>h.
     and_then (ensure (length h = 64) (''SEREIN_MASTER_KEY must be exactly 64 hex characters (256 bits). Received '' @ dec (length h) @ '' characters.'')) (\<lambda>_.
     and_then (map_err (\<lambda>e. ''SEREIN_MASTER_KEY must be valid hexadecimal: '' @ e) (hex_decode cr h)) (\<lambda>_.
     map_err (\<lambda>_. ''Failed to initialize the Masking Engine'') (MaskingEngine_new cr (Some h)))))"

definition SereinMicrokernel_new ::
  "crypto \<Rightarrow> boot \<Rightarrow> (string \<times> string) list \<Rightarrow> (string + 'c SereinMicrokernel) may_panic" where
  "SereinMicrokernel_new cr b honeypot =
     (case and_then (bt_engine b) (\<lambda>_.
           and_then (map_err (\<lambda>_. ''Failed to initialize kernel-space ephemeral storage'') (bt_database b)) (\<lambda>_.
           and_then (map_err (\<lambda>_. ''Failed to initialize execution_records schema in ephemeral storage'') (bt_schema b)) (\<lambda>_.
           and_then (check_master_key cr (bt_master_key b)) (\<lambda>m.
           and_then (map_err (\<lambda>_. ''Failed to link WASI interfaces'') (bt_wasi_link b)) (\<lambda>_.
           and_then (map_err (\<lambda>_. ''Failed to link PersistRecord host functions'') (bt_host_link b)) (\<lambda>_. Inr m)))))) of
        Inl e \<Rightarrow> Some (Inl e)
      | Inr m \<Rightarrow>
          if secure_hardware (bt_build b) then None
          else Some (and_then (map_err (\<lambda>e. ''MockHsm initialization failed: '' @ tpm_display e) (MockHsm_new (bt_build b))) (\<lambda>hsm.
            Inr \<lparr>mk_config = SecureRuntimeConfig_default, mk_masking_engine = m, mk_tenant_component = None,
                 mk_tenant_poisoned = False, mk_aegis_component = None, mk_aegis_poisoned = False, mk_module_cache = [],
                 mk_resource_monitor = ResourceMonitor_default, mk_sis = SisInterlock_new SIS_FUEL_QUOTA,
                 mk_fuel_monitor = FuelMonitor_new (bt_now b) SIS_FUEL_QUOTA, mk_validator = Z3FormalValidator_new True,
                 mk_hsm = hsm, mk_abi_guard = AbiGuard_new True True, mk_honeypot_env = honeypot\<rparr>)))"

section \<open>The fuel account\<close>

text \<open>
  The two accounts of the kernel agree, the interlock is in emergency shutdown exactly if the
  quota is used up, and the account exceeds the quota by less than the fuel of one request.
\<close>

definition kernel_ok :: "'c SereinMicrokernel \<Rightarrow> bool" where
  "kernel_ok k \<longleftrightarrow>
     sis_fuel_limit (mk_sis k) = SIS_FUEL_QUOTA \<and> fm_quota (mk_fuel_monitor k) = SIS_FUEL_QUOTA
     \<and> fm_consumed (mk_fuel_monitor k) = sis_fuel_consumed (mk_sis k)
     \<and> unat (sis_fuel_consumed (mk_sis k)) < 2 * unat SIS_FUEL_QUOTA
     \<and> (sis_current_state (mk_sis k) = SisEmergencyShutdown \<longleftrightarrow> SIS_FUEL_QUOTA \<le> sis_fuel_consumed (mk_sis k))"

text \<open>What Wasmtime documents of its fuel: the gauge of a store never shows more than was put in.\<close>

definition fuel_law :: "('c, 't) kernel_env \<Rightarrow> bool" where
  "fuel_law ke \<longleftrightarrow>
     (\<forall>c st p f. gr_fuel_before (ke_guest ke c st p) = Inr f \<longrightarrow> f \<le> rs_fuel st)
     \<and> (\<forall>c st f. ag_fuel_before (ke_aegis ke c st) = Inr f \<longrightarrow> f \<le> rs_fuel st)"

lemma unat_quota [simp]: "unat SIS_FUEL_QUOTA = 10000000000"
  by (simp add: SIS_FUEL_QUOTA_def)

lemma unat_saturating_sub_le: "unat (saturating_sub (a :: u64) b) \<le> unat a"
  by (auto simp: saturating_sub_def word_le_nat_alt unat_sub split: if_splits)

definition used :: "'c SereinMicrokernel \<Rightarrow> nat" where
  "used k = unat (sis_fuel_consumed (mk_sis k))"

lemma consume_monitor:
  "fm_consumed (snd (snd (consume f m))) = fm_consumed m + f" "fm_quota (snd (snd (consume f m))) = fm_quota m"
  by (simp_all add: consume_def Let_def split: EsdState.split)

lemma kernel_ok_running: "kernel_ok k \<Longrightarrow> sis_current_state (mk_sis k) \<noteq> SisEmergencyShutdown \<longleftrightarrow> used k < 10000000000"
  by (auto simp: kernel_ok_def used_def word_le_nat_alt)

lemma charge_spec:
  assumes "kernel_ok k" "used k < 10000000000" "unat fuel \<le> 10000000000"
  shows "\<exists>s m. charge what fuel k =
            Some (if used k + unat fuel < 10000000000 then Inr () else Inl (ApiEmergencyShutdown (what @ ''wasm trap: interrupt'')),
                  k\<lparr>mk_sis := s, mk_fuel_monitor := m\<rparr>)
          \<and> kernel_ok (k\<lparr>mk_sis := s, mk_fuel_monitor := m\<rparr>) \<and> used (k\<lparr>mk_sis := s, mk_fuel_monitor := m\<rparr>) = used k + unat fuel"
proof -
  let ?m = "mk_fuel_monitor k"
  from assms have lim: "sis_fuel_limit (mk_sis k) = SIS_FUEL_QUOTA" "fm_quota ?m = SIS_FUEL_QUOTA"
    "fm_consumed ?m = sis_fuel_consumed (mk_sis k)" by (simp_all add: kernel_ok_def)
  have nat: "unat (sis_fuel_consumed (mk_sis k) + fuel) = used k + unat fuel"
    using assms(2,3) by (simp add: used_def unat_word_ariths)
  from assms(1,2) have run: "sis_state (mk_sis k) \<noteq> 2"
    using kernel_ok_running [OF assms(1)] by (auto simp: sis_current_state_def)
  have "consume_fuel fuel (mk_sis k) \<noteq> None"
    using assms(2,3) lim(1) by (simp add: consume_fuel_spec Let_def used_def)
  then obtain st s where c: "consume_fuel fuel (mk_sis k) = Some (st, s)" by auto
  then have s: "sis_fuel_consumed s = sis_fuel_consumed (mk_sis k) + fuel" "sis_fuel_limit s = SIS_FUEL_QUOTA"
    "sis_state s = 2 \<longleftrightarrow> 10000000000 \<le> used k + unat fuel"
    using assms(2,3) lim(1) run by (auto simp: consume_fuel_spec Let_def used_def split: if_splits)
  have r: "fst (consume fuel ?m) = (if used k + unat fuel < 10000000000 then Inr () else Inl Interrupt)"
    using consume_passes [of ?m fuel] consume_traps [of ?m fuel] lim
    by (auto simp: used_def word_less_nat_alt)
  let ?k = "k\<lparr>mk_sis := s, mk_fuel_monitor := snd (snd (consume fuel ?m))\<rparr>"
  have "kernel_ok ?k"
    using s lim assms(2,3) nat
    by (auto simp: kernel_ok_def consume_monitor sis_current_state_def word_le_nat_alt)
  moreover have "used ?k = used k + unat fuel" using nat s(1) by (simp add: used_def)
  moreover have "charge what fuel k = Some (if used k + unat fuel < 10000000000 then Inr ()
      else Inl (ApiEmergencyShutdown (what @ ''wasm trap: interrupt'')), ?k)"
    using c r by (cases "consume fuel ?m") (auto simp: charge_def)
  ultimately show ?thesis by blast
qed

text \<open>The stages in front of the guest leave the accounts alone.\<close>

definition same_account :: "'c SereinMicrokernel \<Rightarrow> 'c SereinMicrokernel \<Rightarrow> bool" where
  "same_account k k1 \<longleftrightarrow> mk_sis k1 = mk_sis k \<and> mk_fuel_monitor k1 = mk_fuel_monitor k"

lemma same_account_ok: "same_account k k1 \<Longrightarrow> kernel_ok k1 = kernel_ok k" "same_account k k1 \<Longrightarrow> used k1 = used k"
  by (simp_all add: same_account_def kernel_ok_def used_def)

lemma create_store:
  "create_store_for_request ke tenant k = (r, k1) \<Longrightarrow>
     same_account k k1 \<and> mk_tenant_component k1 = mk_tenant_component k \<and> mk_tenant_poisoned k1 = mk_tenant_poisoned k
     \<and> (\<forall>st. r = Inr st \<longrightarrow> rs_fuel st = SIS_FUEL_QUOTA)"
  by (auto simp: create_store_for_request_def validate_memory_bounds_def same_account_def fresh_store_def Let_def results
      split: option.splits sum.splits prod.splits)

lemma admit_account: "admit ke endpoint payload k = (r, k1) \<Longrightarrow> k1\<lparr>mk_validator := mk_validator k\<rparr> = k"
  unfolding admit_def Let_def by (auto split: sum.splits prod.splits)

lemma admit_same: "admit ke endpoint payload k = (r, k1) \<Longrightarrow> same_account k k1 \<and> mk_tenant_component k1 = mk_tenant_component k"
  unfolding admit_def Let_def by (auto simp: same_account_def split: sum.splits prod.splits)

lemma charge_keeps:
  assumes "kernel_ok k" "used k < 10000000000" "unat fuel \<le> 10000000000" "charge what fuel k = Some (r, k1)"
  shows "kernel_ok k1 \<and> used k \<le> used k1"
  using charge_spec [OF assms(1-3), of what] assms(4) by auto

lemma guest_account:
  assumes "fuel_law ke" "rs_fuel st = SIS_FUEL_QUOTA" "kernel_ok k" "used k < 10000000000"
    and "execute_guest ke st payload k = Some (r, k1)"
  shows "kernel_ok k1 \<and> used k \<le> used k1"
proof (cases "k1 = k")
  case False
  with assms(5) obtain c f0 f1 r' where c: "gr_fuel_before (ke_guest ke c st payload) = Inr f0"
    "charge ''Fuel ESD trap: '' (saturating_sub f0 f1) k = Some (r', k1)"
    by (auto simp: execute_guest_def Let_def split: if_splits option.splits sum.splits)
  from c(1) assms(1,2) have "f0 \<le> SIS_FUEL_QUOTA" unfolding fuel_law_def by metis
  then have "unat (saturating_sub f0 f1) \<le> 10000000000"
    using unat_saturating_sub_le [of f0 f1] by (simp add: word_le_nat_alt)
  with charge_keeps [OF assms(3,4) _ c(2)] show ?thesis by simp
qed (use assms in simp)

lemma aegis_account:
  assumes "fuel_law ke" "rs_fuel st = SIS_FUEL_QUOTA" "kernel_ok k" "used k < 10000000000"
    and "execute_aegis ke st ip k = Some (r, k1)"
  shows "kernel_ok k1 \<and> used k \<le> used k1"
proof (cases "k1 = k")
  case False
  with assms(5) obtain c f0 f1 r' where c: "ag_fuel_before (ke_aegis ke c st) = Inr f0"
    "charge ''Aegis fuel ESD trap: '' (saturating_sub f0 f1) k = Some (r', k1)"
    by (auto simp: execute_aegis_def Let_def split: if_splits option.splits sum.splits)
  from c(1) assms(1,2) have "f0 \<le> SIS_FUEL_QUOTA" unfolding fuel_law_def by metis
  then have "unat (saturating_sub f0 f1) \<le> 10000000000"
    using unat_saturating_sub_le [of f0 f1] by (simp add: word_le_nat_alt)
  with charge_keeps [OF assms(3,4) _ c(2)] show ?thesis by simp
qed (use assms in simp)

lemma run_guest_account:
  assumes "fuel_law ke" "kernel_ok k" "used k < 10000000000" "run_guest ke payload tenant k = Some (r, k1)"
  shows "kernel_ok k1 \<and> used k \<le> used k1"
proof -
  obtain x k0 where s: "create_store_for_request ke tenant k = (x, k0)" by (cases "create_store_for_request ke tenant k")
  note cs = create_store [OF s]
  then have k0: "kernel_ok k0" "used k0 = used k" using same_account_ok assms(2) by auto
  show ?thesis
  proof (cases x)
    case (Inr st)
    with assms(4) s obtain r' where "execute_guest ke st payload k0 = Some (r', k1)"
      by (auto simp: run_guest_def split: prod.splits)
    from guest_account [OF assms(1) _ k0(1) _ this] cs Inr k0(2) assms(3) show ?thesis by simp
  qed (use assms(4) s k0 in \<open>auto simp: run_guest_def\<close>)
qed

lemma strangulation_account:
  assumes "fuel_law ke" "kernel_ok k" "used k < 10000000000" "trigger_strangulation_mode ke ip k = Some (r, k1)"
  shows "kernel_ok k1 \<and> used k \<le> used k1"
proof -
  obtain x k0 where s: "create_store_for_request ke ''system'' k = (x, k0)" by (cases "create_store_for_request ke ''system'' k")
  note cs = create_store [OF s]
  then have k0: "kernel_ok k0" "used k0 = used k" using same_account_ok assms(2) by auto
  show ?thesis
  proof (cases x)
    case (Inr st)
    with assms(4) s obtain r' where "execute_aegis ke st ip k0 = Some (r', k1)"
      by (auto simp: trigger_strangulation_mode_def split: prod.splits)
    from aegis_account [OF assms(1) _ k0(1) _ this] cs Inr k0(2) assms(3) show ?thesis by simp
  qed (use assms(4) s k0 in \<open>auto simp: trigger_strangulation_mode_def\<close>)
qed

lemma request_account:
  assumes "fuel_law ke" "kernel_ok k" "process_api_request ke endpoint payload ip tenant k = Some (r, k1)"
  shows "kernel_ok k1 \<and> used k \<le> used k1"
proof (cases "sis_current_state (mk_sis k) = SisEmergencyShutdown")
  case False
  then have low: "used k < 10000000000" using kernel_ok_running [OF assms(2)] by simp
  obtain x rm where c: "check_and_record_request (ke_now ke) ip (mk_resource_monitor k) = (x, rm)"
    by (cases "check_and_record_request (ke_now ke) ip (mk_resource_monitor k)")
  let ?k = "k\<lparr>mk_resource_monitor := rm\<rparr>"
  have k: "kernel_ok ?k" "used ?k = used k" using same_account_ok [of k ?k] assms(2) by (simp_all add: same_account_def)
  obtain y k2 where a: "admit ke endpoint payload ?k = (y, k2)" by (cases "admit ke endpoint payload ?k")
  then have k2: "kernel_ok k2" "used k2 = used k" using admit_same [OF a] same_account_ok [of ?k k2] k by simp_all
  consider "k1 = ?k"
    | "trigger_strangulation_mode ke ip ?k = Some (r, k1)" | "k1 = k2" | "run_guest ke payload tenant k2 = Some (r, k1)"
    using assms(3) False c a by (auto simp: process_api_request_def Let_def split: option.splits sum.splits bool.splits)
  then show ?thesis
    using strangulation_account [OF assms(1) k(1)] run_guest_account [OF assms(1) k2(1)] k k2 low by cases auto
qed (use assms in \<open>auto simp: process_api_request_def\<close>)

section \<open>Runs of the kernel\<close>

datatype ('c, 't) kernel_op =
    Request "('c, 't) kernel_env" string string IpAddr string
  | UpdateTenant "'c loader" string
  | Reload "'c loader" "u8 list"
  | UpdateAegis "'c loader" string
  | RunWasm "('c, 't) kernel_env" "'c loader" string string string

fun kernel_step :: "('c, 't) kernel_op \<Rightarrow> 'c SereinMicrokernel \<Rightarrow> 'c SereinMicrokernel may_panic" where
  "kernel_step (Request ke endpoint payload ip tenant) k = map_option snd (process_api_request ke endpoint payload ip tenant k)"
| "kernel_step (UpdateTenant ld name) k = Some (snd (update_tenant_component ld name k))"
| "kernel_step (Reload ld bytes) k = Some (snd (reload_component ld bytes k))"
| "kernel_step (UpdateAegis ld name) k = Some (snd (update_aegis_component ld name k))"
| "kernel_step (RunWasm ke ld path payload tenant) k = Some (snd (run_wasm ke ld path payload tenant k))"

fun lawful :: "('c, 't) kernel_op \<Rightarrow> bool" where
  "lawful (Request ke _ _ _ _) = fuel_law ke"
| "lawful _ = True"

definition lawful_step :: "('c, 't) kernel_op \<Rightarrow> 'c SereinMicrokernel \<Rightarrow> 'c SereinMicrokernel may_panic" where
  "lawful_step x k = (if lawful x then kernel_step x k else None)"

lemma lawful_run: "list_all lawful xs \<Longrightarrow> run lawful_step xs k = run kernel_step xs k"
  by (induction xs arbitrary: k) (simp_all add: lawful_step_def split: option.split)

lemma install_tenant_account: "same_account k (snd (install_tenant c k))"
  by (simp add: install_tenant_def same_account_def split: option.split)

lemma other_ops_account:
  "same_account k (snd (update_tenant_component ld name k))"
  "same_account k (snd (reload_component ld bytes k))"
  "same_account k (snd (update_aegis_component ld name k))"
  by (auto simp: update_tenant_component_def reload_component_def update_aegis_component_def install_tenant_account
      split: sum.split option.split) (simp_all add: same_account_def)

lemma cache_account: "get_or_cache_component ld path k = (r, k1) \<Longrightarrow> same_account k k1"
  by (auto simp: get_or_cache_component_def same_account_def split: option.splits sum.splits)

lemma run_wasm_account: "same_account k (snd (run_wasm ke ld path payload tenant k))"
proof -
  obtain r k1 where c: "get_or_cache_component ld path k = (r, k1)" by (cases "get_or_cache_component ld path k")
  obtain x k2 where s: "create_store_for_request ke tenant k1 = (x, k2)" by (cases "create_store_for_request ke tenant k1")
  show ?thesis
    using cache_account [OF c] create_store [OF s]
    by (auto simp: run_wasm_def c s Let_def same_account_def split: sum.split)
qed

lemmas other_ops_ok = same_account_ok [OF other_ops_account(1)] same_account_ok [OF other_ops_account(2)]
  same_account_ok [OF other_ops_account(3)] same_account_ok [OF run_wasm_account]

lemma step_account:
  assumes "kernel_ok k" "lawful x" "kernel_step x k = Some k1"
  shows "kernel_ok k1 \<and> used k \<le> used k1"
proof (cases x)
  case (Request ke endpoint payload ip tenant)
  with assms request_account [of ke k] show ?thesis by auto
qed (use assms in \<open>auto simp: other_ops_ok\<close>)

interpretation km: invariant_machine lawful_step kernel_ok
  by unfold_locales (auto simp: lawful_step_def dest: step_account split: if_splits)

text \<open>An account that has reached a level stays above it.\<close>

interpretation km_level: invariant_machine lawful_step "\<lambda>k. kernel_ok k \<and> n \<le> used k" for n
  by unfold_locales (auto simp: lawful_step_def dest: step_account split: if_splits)

section \<open>Properties\<close>

lemma kernel_new_ok: "SereinMicrokernel_new cr b hp = Some (Inr k) \<Longrightarrow> kernel_ok k \<and> used k = 0"
  by (auto simp: SereinMicrokernel_new_def results kernel_ok_def used_def SisInterlock_new_def FuelMonitor_new_def
      sis_current_state_def word_le_nat_alt split: sum.splits if_splits)



lemma admit_Inr:
  "admit ke endpoint payload k = (Inr u, k1) \<Longrightarrow>
     starts_with endpoint ''/v1/agent/''
     \<and> oracle_arbitrate (ke_from_str ke) payload (detect_response_source (ke_from_str ke) payload) = Inr payload
     \<and> fst (prove_safety (ke_from_str ke) (bytes_of payload) (mk_validator k)) = Inr ()"
  by (auto simp: admit_def receive_request_def route_request_def results oracle_arbitrate_def Let_def
      split: sum.splits prod.splits if_splits option.splits)

lemma run_guest_Inr:
  assumes "run_guest ke payload tenant k = Some (Inr out, k1)"
  shows "\<exists>c st. mk_tenant_component k = Some c \<and> gr_in_time (ke_guest ke (hsc_load c) st payload)
    \<and> ss_tenant_id (rs_state st) = tenant \<and> gr_result (ke_guest ke (hsc_load c) st payload) = Inr (Inr out)"
proof -
  obtain x k0 where s: "create_store_for_request ke tenant k = (x, k0)" by (cases "create_store_for_request ke tenant k")
  with assms obtain st where st: "x = Inr st" "execute_guest ke st payload k0 = Some (Finished (Inr out), k1)"
    by (auto simp: run_guest_def results split: sum.splits prod.splits)
  have "ss_tenant_id (rs_state st) = tenant"
    using s st(1) by (auto simp: create_store_for_request_def fresh_store_def results split: option.splits sum.splits prod.splits)
  moreover have "mk_tenant_component k0 = mk_tenant_component k" using create_store [OF s] by simp
  moreover from st(2) have "\<exists>c. mk_tenant_component k0 = Some c \<and> gr_in_time (ke_guest ke (hsc_load c) st payload)
      \<and> gr_result (ke_guest ke (hsc_load c) st payload) = Inr (Inr out)"
    by (auto simp: execute_guest_def guest_reply_def results Let_def split: if_splits option.splits sum.splits)
  ultimately show ?thesis by auto
qed


section \<open>An example\<close>

definition example_crypto :: crypto where
  "example_crypto = toy_crypto\<lparr>hex_decode := (\<lambda>_. Inr (replicate 32 0))\<rparr>"

definition example_boot :: boot where
  "example_boot = \<lparr>bt_database = Inr (), bt_schema = Inr (), bt_master_key = Some (replicate 64 CHR ''0''),
     bt_wasi_link = Inr (), bt_host_link = Inr (), bt_engine = Inr (), bt_now = 0,
     bt_build = \<lparr>secure_hardware = False, has_sev_snp = False, has_tdx = False, random_nonce = []\<rparr>\<rparr>"

definition example_kernel :: "unit SereinMicrokernel" where
  "example_kernel = \<lparr>mk_config = SecureRuntimeConfig_default, mk_masking_engine = \<lparr>encryption_key = Some (replicate 32 0)\<rparr>,
     mk_tenant_component = None, mk_tenant_poisoned = False, mk_aegis_component = None, mk_aegis_poisoned = False,
     mk_module_cache = [], mk_resource_monitor = ResourceMonitor_default, mk_sis = SisInterlock_new SIS_FUEL_QUOTA,
     mk_fuel_monitor = FuelMonitor_new 0 SIS_FUEL_QUOTA, mk_validator = Z3FormalValidator_new True,
     mk_hsm = with_platform SoftwareStub False, mk_abi_guard = AbiGuard_new True True, mk_honeypot_env = []\<rparr>"

lemma example_boot: "SereinMicrokernel_new example_crypto example_boot [] = Some (Inr example_kernel)"
  by (simp add: SereinMicrokernel_new_def example_boot_def check_master_key_def example_crypto_def MaskingEngine_new_def
      MockHsm_new_def detect_def example_kernel_def)

lemmas example_kernel_ok = kernel_new_ok [OF example_boot]

definition example_payload :: json where
  "example_payload =
     JObject [(''confidenceScore'', JNumber (JFloat (Fin 1))), (''networkId'', JString ''main''), (''taskType'', JString ''sum'')]"

text \<open>A component that answers ok and uses the given amount of fuel.\<close>

definition example_env :: "u64 \<Rightarrow> (unit, unit) kernel_env" where
  "example_env f = \<lparr>ke_from_str = (\<lambda>_. Inr example_payload), ke_print = (\<lambda>_. []), ke_now = 0, ke_fmt = (\<lambda>_ _. []), ke_show_ip = (\<lambda>_. []),
     ke_models_dir = None, ke_set_fuel = Inr (), ke_table = (),
     ke_guest = (\<lambda>_ st _. \<lparr>gr_instantiate = Inr (), gr_fuel_before = Inr (rs_fuel st), gr_result = Inr (Inr ''ok''),
        gr_fuel_after = Inr (saturating_sub (rs_fuel st) f), gr_in_time = True\<rparr>),
     ke_aegis = (\<lambda>_ st. \<lparr>ag_instantiate = Inr (), ag_constructor = Inr (), ag_fuel_before = Inr (rs_fuel st),
        ag_result = Inr [], ag_resource_drop = Inr (), ag_fuel_after = Inr 0, ag_in_time = True\<rparr>)\<rparr>"

lemma example_env_law: "fuel_law (example_env f)"
  by (auto simp: fuel_law_def example_env_def)

lemma example_safe:
  "prove_safety (\<lambda>_. Inr example_payload) (bytes_of ''{}'') (Z3FormalValidator_new True)
   = (Inr (), (Z3FormalValidator_new True)\<lparr>validation_count := 1\<rparr>)"
proof -
  let ?a = "AstObject [(''confidenceScore'', AstFloat (Fin 1)), (''networkId'', AstString ''main''), (''taskType'', AstString ''sum'')]"
  have u: "from_utf8 (bytes_of ''{}'') = Some ''{}''" by code_simp
  have a: "json_value_to_ast example_payload = Inr ?a" by (simp add: example_payload_def)
  have s: "prove_schema_constraints ?a execution_payload_schema = Inr ()"
    by (simp add: execution_payload_schema_def find_field_def suspicious_key_def starts_with_def MAX_OBJECT_KEYS_def)
  have l: "validate_leaf_bounds ?a = Inr ()"
    by (simp add: f64_of_nat_small MAX_AST_STRING_LENGTH_def MAX_NUMERIC_VALUE_def Let_def)
  show ?thesis
    using u a s l
    by (simp add: prove_safety_def Z3FormalValidator_new_def Let_def parse_to_ast_def MAX_STRING_LENGTH_def
        MAX_AST_NODES_def MAX_JSON_DEPTH_def del: validate_leaf_bounds.simps prove_schema_constraints.simps)
qed

lemma example_confident: "oracle_arbitrate (\<lambda>_. Inr example_payload) p FrontierCloud = Inr p"
proof -
  have "rnd (80 / 100) \<le> rnd 1" by (rule rnd_mono) simp
  moreover have "\<bar>80 / 100 :: rat\<bar> \<le> 2 ^ 64" by simp
  then have "to_f64 (80 / 100) = Fin (rnd (80 / 100))" by (simp only: to_f64_Fin)
  ultimately show ?thesis by (simp add: oracle_ok_iff example_payload_def oracle_threshold_def f64r.rnd_one)
qed

lemma example_admit:
  "admit (example_env f) ''/v1/agent/x'' ''{}'' k = (Inr (), k\<lparr>mk_validator := (mk_validator k)\<lparr>validation_count := 1\<rparr>\<rparr>)"
  if "mk_validator k = Z3FormalValidator_new True"
proof -
  have "detect_response_source (\<lambda>_. Inr example_payload) ''{}'' = FrontierCloud"
    by (simp add: detect_response_source_def source_field_def example_payload_def to_lowercase_def)
  then show ?thesis
    using that example_safe example_confident
    by (simp add: admit_def example_env_def receive_request_def route_request_def starts_with_def)
qed

definition example_loader :: "unit loader" where
  "example_loader = \<lparr>ld_current_dir = Inr ''/app'', ld_exists = (\<lambda>_. True), ld_read = (\<lambda>_. Inr []), ld_from_binary = (\<lambda>_. Inr ())\<rparr>"

lemma example_reload:
  "reload_component example_loader [] example_kernel
   = (Some (Inr ()), example_kernel\<lparr>mk_tenant_component := Some (HotSwapContainer_new () ''tenant_component'')\<rparr>)"
  by (simp add: reload_component_def example_loader_def install_tenant_def install_def example_kernel_def)

definition loaded :: "unit SereinMicrokernel" where
  "loaded = example_kernel\<lparr>mk_tenant_component := Some (HotSwapContainer_new () ''tenant_component'')\<rparr>"

lemma loaded_ok: "kernel_ok loaded" "used loaded = 0"
  using example_kernel_ok by (simp_all add: loaded_def kernel_ok_def used_def)

lemma loaded_store:
  assumes "mk_config k = SecureRuntimeConfig_default" "mk_abi_guard k = AbiGuard_new True True"
  shows "\<exists>g. create_store_for_request (example_env f) tenant k = (Inr (fresh_store (example_env f) tenant k), k\<lparr>mk_abi_guard := g\<rparr>)"
  using assms
  by (simp add: create_store_for_request_def example_env_def validate_memory_bounds_def SecureRuntimeConfig_default_def
      check_memory_access_def AbiGuard_new_def checked_add_def Let_def) blast

lemma loaded_request:
  assumes "unat f \<le> 10000000000"
  shows "\<exists>k1. process_api_request (example_env f) ''/v1/agent/x'' ''{}'' (V4 1) ''t'' loaded
      = Some (if unat f < 10000000000 then Inr ''ok'' else Inl (ApiEmergencyShutdown ''Fuel ESD trap: wasm trap: interrupt''), k1)
    \<and> kernel_ok k1 \<and> used k1 = unat f"
proof -
  obtain rm where m: "check_and_record_request 0 (V4 1) ResourceMonitor_default = (Some (Inr False), rm)"
    by (simp add: check_and_record_request_def ResourceMonitor_default_def ResourceMonitor_new_def hm_retain_def hm_get_def
        checked_add_def elapsed_def from_secs_def Let_def)
  define k2 where "k2 = loaded\<lparr>mk_resource_monitor := rm, mk_validator := (mk_validator loaded)\<lparr>validation_count := 1\<rparr>\<rparr>"
  have a: "admit (example_env f) ''/v1/agent/x'' ''{}'' (loaded\<lparr>mk_resource_monitor := rm\<rparr>) = (Inr (), k2)"
    using example_admit [of "loaded\<lparr>mk_resource_monitor := rm\<rparr>" f] by (simp add: k2_def loaded_def example_kernel_def)
  obtain g where g: "create_store_for_request (example_env f) ''t'' k2 = (Inr (fresh_store (example_env f) ''t'' k2), k2\<lparr>mk_abi_guard := g\<rparr>)"
    using loaded_store [of k2 f "''t''"] by (auto simp: k2_def loaded_def example_kernel_def)
  let ?k = "k2\<lparr>mk_abi_guard := g\<rparr>"
  have k: "kernel_ok ?k" "used ?k = 0"
    using loaded_ok same_account_ok [of loaded ?k] by (simp_all add: same_account_def k2_def)
  from charge_spec [OF k(1), of f "''Fuel ESD trap: ''"] k(2) assms obtain k1 where c:
    "charge ''Fuel ESD trap: '' f ?k = Some (if unat f < 10000000000 then Inr () else Inl (ApiEmergencyShutdown (''Fuel ESD trap: '' @ ''wasm trap: interrupt'')), k1)"
    "kernel_ok k1" "used k1 = unat f" by auto
  have f: "saturating_sub SIS_FUEL_QUOTA (saturating_sub SIS_FUEL_QUOTA f) = f"
    using assms by (simp add: saturating_sub_def word_le_nat_alt word_less_nat_alt unat_sub SIS_FUEL_QUOTA_def)
  have "execute_guest (example_env f) (fresh_store (example_env f) ''t'' k2) ''{}'' ?k
      = Some (Finished (if unat f < 10000000000 then Inr ''ok'' else Inl (ApiEmergencyShutdown ''Fuel ESD trap: wasm trap: interrupt'')), k1)"
    using c(1) f by (simp add: execute_guest_def k2_def loaded_def example_kernel_def example_env_def fresh_store_def guest_reply_def)
  then have "run_guest (example_env f) ''{}'' ''t'' k2
      = Some (if unat f < 10000000000 then Inr ''ok'' else Inl (ApiEmergencyShutdown ''Fuel ESD trap: wasm trap: interrupt''), k1)"
    by (simp add: run_guest_def g unless_elapsed_def)
  moreover have "sis_current_state (mk_sis loaded) \<noteq> SisEmergencyShutdown" using loaded_ok kernel_ok_running by fastforce
  ultimately show ?thesis
    using c(2,3) m a by (simp add: process_api_request_def loaded_def example_kernel_def example_env_def Let_def)
qed




section \<open>Further properties\<close>

text \<open>
  One request can shut the kernel down for every tenant: the store of a request is given as much
  fuel as the kernel has in all, so a guest that uses up its own fuel uses up the quota of the
  kernel, and the request is answered with a shutdown.
\<close>

theorem one_guest_exhausts_kernel:
  assumes "kernel_ok k" "used k < unat SIS_FUEL_QUOTA" "mk_tenant_component k = Some c" "\<not> mk_tenant_poisoned k"
    and "ke_guest ke (hsc_load c) st payload
         = \<lparr>gr_instantiate = Inr (), gr_fuel_before = Inr SIS_FUEL_QUOTA, gr_result = r, gr_fuel_after = Inr 0, gr_in_time = True\<rparr>"
  shows "\<exists>k1. execute_guest ke st payload k = Some (Finished (Inl (ApiEmergencyShutdown ''Fuel ESD trap: wasm trap: interrupt'')), k1)
     \<and> sis_current_state (mk_sis k1) = SisEmergencyShutdown"
proof -
  have f: "saturating_sub SIS_FUEL_QUOTA 0 = SIS_FUEL_QUOTA" by (simp add: saturating_sub_def)
  from charge_spec [OF assms(1), of SIS_FUEL_QUOTA "''Fuel ESD trap: ''"] assms(2) obtain k1 where
    "charge ''Fuel ESD trap: '' SIS_FUEL_QUOTA k = Some (Inl (ApiEmergencyShutdown (''Fuel ESD trap: '' @ ''wasm trap: interrupt'')), k1)"
    and k1: "kernel_ok k1" "used k1 = used k + 10000000000" by auto
  then have "execute_guest ke st payload k = Some (Finished (Inl (ApiEmergencyShutdown ''Fuel ESD trap: wasm trap: interrupt'')), k1)"
    using assms(3-5) f by (simp add: execute_guest_def)
  moreover have "sis_current_state (mk_sis k1) = SisEmergencyShutdown" using k1 kernel_ok_running [of k1] by auto
  ultimately show ?thesis by blast
qed

theorem one_guest_exhausts_kernel_witness:
  "\<exists>k1. execute_guest (example_env SIS_FUEL_QUOTA) (fresh_store (example_env 0) ''t'' loaded) ''{}'' loaded
       = Some (Finished (Inl (ApiEmergencyShutdown ''Fuel ESD trap: wasm trap: interrupt'')), k1)
     \<and> sis_current_state (mk_sis k1) = SisEmergencyShutdown"
proof (rule one_guest_exhausts_kernel)
  show "mk_tenant_component loaded = Some (HotSwapContainer_new () ''tenant_component'')" by (simp add: loaded_def)
qed (use loaded_ok in \<open>simp_all add: loaded_def example_kernel_def example_env_def fresh_store_def saturating_sub_def\<close>)

text \<open>
  A guest that has not returned when its time is up is not charged for: the request is answered
  with a shutdown, but the accounts of the kernel are those of before, and it goes on.
\<close>

theorem timed_out_guest_uncharged:
  assumes "create_store_for_request ke tenant k = (Inr st, k0)" "mk_tenant_component k = Some c" "\<not> mk_tenant_poisoned k"
    and "\<not> gr_in_time (ke_guest ke (hsc_load c) st payload)"
  shows "\<exists>m k1. run_guest ke payload tenant k = Some (Inl (ApiEmergencyShutdown m), k1)
     \<and> mk_sis k1 = mk_sis k \<and> mk_fuel_monitor k1 = mk_fuel_monitor k"
  using assms create_store [OF assms(1)]
  by (simp add: run_guest_def execute_guest_def unless_elapsed_def same_account_def)

lemma create_store_guest [simp]: "create_store_for_request (ke\<lparr>ke_guest := h\<rparr>) tenant k = create_store_for_request ke tenant k"
proof -
  have "fresh_store (ke\<lparr>ke_guest := h\<rparr>) = fresh_store ke" by (simp add: fresh_store_def fun_eq_iff)
  then show ?thesis by (simp add: create_store_for_request_def split: option.split sum.split)
qed

theorem timed_out_guest_uncharged_witness:
  "\<exists>m k1. run_guest ((example_env 0)\<lparr>ke_guest := (\<lambda>_ _ _. \<lparr>gr_instantiate = Inr (), gr_fuel_before = Inr SIS_FUEL_QUOTA,
       gr_result = Inl [], gr_fuel_after = Inr 0, gr_in_time = False\<rparr>)\<rparr>) ''{}'' ''t'' loaded = Some (Inl (ApiEmergencyShutdown m), k1)
     \<and> mk_sis k1 = mk_sis loaded \<and> mk_fuel_monitor k1 = mk_fuel_monitor loaded"
proof (rule timed_out_guest_uncharged)
  let ?ke = "(example_env 0)\<lparr>ke_guest := (\<lambda>_ _ _. \<lparr>gr_instantiate = Inr (), gr_fuel_before = Inr SIS_FUEL_QUOTA,
       gr_result = Inl [], gr_fuel_after = Inr 0, gr_in_time = False\<rparr>)\<rparr>"
  obtain g where g: "create_store_for_request (example_env 0) ''t'' loaded
      = (Inr (fresh_store (example_env 0) ''t'' loaded), loaded\<lparr>mk_abi_guard := g\<rparr>)"
    using loaded_store [of loaded 0 "''t''"] by (auto simp: loaded_def example_kernel_def)
  then show "create_store_for_request ?ke ''t'' loaded
      = (Inr (fresh_store (example_env 0) ''t'' loaded), snd (create_store_for_request (example_env 0) ''t'' loaded))" by simp
  show "mk_tenant_component loaded = Some (HotSwapContainer_new () ''tenant_component'')" by (simp add: loaded_def)
qed (simp_all add: loaded_def example_kernel_def)

text \<open>
  A request that the router, the oracle or the validator refuses never reaches the guest: what the
  kernel answers and keeps is the same whatever the guest would do.
\<close>

theorem refused_before_guest:
  assumes "check_and_record_request (ke_now ke) ip (mk_resource_monitor k) = (Some (Inr False), rm)"
    and "\<not> is_ok (fst (admit ke endpoint payload (k\<lparr>mk_resource_monitor := rm\<rparr>)))"
  shows "process_api_request (ke\<lparr>ke_guest := h\<rparr>) endpoint payload ip tenant k = process_api_request ke endpoint payload ip tenant k
     \<and> \<not> is_ok (fst (the (process_api_request ke endpoint payload ip tenant k)))
     \<and> same_account k (snd (the (process_api_request ke endpoint payload ip tenant k)))"
proof -
  have h: "admit (ke\<lparr>ke_guest := h\<rparr>) endpoint payload k' = admit ke endpoint payload k'" for k'
    by (simp add: admit_def split: sum.split)
  obtain e k2 where a: "admit ke endpoint payload (k\<lparr>mk_resource_monitor := rm\<rparr>) = (Inl e, k2)"
    using assms(2) by (cases "admit ke endpoint payload (k\<lparr>mk_resource_monitor := rm\<rparr>)"; cases "fst (admit ke endpoint payload (k\<lparr>mk_resource_monitor := rm\<rparr>))") auto
  from admit_same [OF a] show ?thesis
    using assms(1) a h by (simp add: process_api_request_def Let_def same_account_def)
qed

theorem refused_before_guest_witness:
  "process_api_request ((example_env 0)\<lparr>ke_guest := ke_guest (example_env 5)\<rparr>) ''/admin'' ''{}'' (V4 1) ''t'' loaded
   = process_api_request (example_env 0) ''/admin'' ''{}'' (V4 1) ''t'' loaded"
proof (rule conjunct1 [OF refused_before_guest])
  show "check_and_record_request (ke_now (example_env 0)) (V4 1) (mk_resource_monitor loaded)
      = (Some (Inr False), snd (check_and_record_request 0 (V4 1) ResourceMonitor_default))"
    by (simp add: loaded_def example_kernel_def example_env_def check_and_record_request_def ResourceMonitor_default_def
        ResourceMonitor_new_def hm_retain_def hm_get_def checked_add_def elapsed_def from_secs_def Let_def)
qed (simp add: admit_def receive_request_def route_request_def example_env_def starts_with_def)

text \<open>
  Replacing the component of the tenant: bytes that do not compile change nothing, and after a
  success the new component is the one that later requests run, as long as the lock is not
  poisoned and the counter of swaps not exhausted.
\<close>

theorem reload_spec:
  assumes "reload_component ld bytes k = (Some r, k1)"
  shows "(case r of
            Inl _ \<Rightarrow> k1 = k
          | Inr _ \<Rightarrow> \<exists>c. ld_from_binary ld bytes = Inr c \<and> tenant_component k1 = Some c
              \<and> k1\<lparr>mk_tenant_component := mk_tenant_component k\<rparr> = k)"
  using assms
  by (auto simp: reload_component_def install_tenant_def install_def swap_and_forget_def hsc_swap_def tenant_component_def
      hsc_load_def HotSwapContainer_new_def split: sum.splits if_splits option.splits)

theorem reload_spec_witness:
  "\<exists>k1. reload_component example_loader [] example_kernel = (Some (Inr ()), k1) \<and> tenant_component k1 = Some ()"
  using reload_spec [OF example_reload] example_reload by auto

text \<open>The counter-measure never answers a request, and on a kernel as it is started it cannot run at all.\<close>

theorem strangulation_refuses:
  assumes "trigger_strangulation_mode ke ip k = Some (r, k1)"
  shows "(\<exists>e. r = Inl e) \<and> (mk_aegis_component k = None \<longrightarrow> (\<exists>m. r = Inl (ApiInternal m)))"
proof -
  obtain x k0 where s: "create_store_for_request ke ''system'' k = (x, k0)" by (cases "create_store_for_request ke ''system'' k")
  have "mk_aegis_component k0 = mk_aegis_component k"
    using s by (auto simp: create_store_for_request_def validate_memory_bounds_def Let_def split: option.splits sum.splits prod.splits)
  moreover have "\<nexists>v. r = Inr v"
    using assms s by (auto simp: trigger_strangulation_mode_def execute_aegis_def results Let_def
        split: prod.splits sum.splits option.splits if_splits)
  ultimately show ?thesis
    using assms s by (cases r; cases x) (auto simp: trigger_strangulation_mode_def execute_aegis_def unless_elapsed_def split: if_splits)
qed

theorem strangulation_refuses_witness:
  "\<exists>r k1 m. trigger_strangulation_mode (example_env 0) (V4 1) loaded = Some (r, k1) \<and> r = Inl (ApiInternal m)"
proof -
  obtain g where "create_store_for_request (example_env 0) ''system'' loaded
      = (Inr (fresh_store (example_env 0) ''system'' loaded), loaded\<lparr>mk_abi_guard := g\<rparr>)"
    using loaded_store [of loaded 0 "''system''"] by (auto simp: loaded_def example_kernel_def)
  then obtain r k1 where r: "trigger_strangulation_mode (example_env 0) (V4 1) loaded = Some (r, k1)"
    by (simp add: trigger_strangulation_mode_def execute_aegis_def loaded_def example_kernel_def)
  from strangulation_refuses [OF r] show ?thesis using r by (auto simp: loaded_def example_kernel_def)
qed

text \<open>
  The payload itself decides which threshold it has to meet: one that names a local source passes
  with a confidence of one half, and without that name it does not.
\<close>

lemma payload_chooses_threshold:
  assumes "from_str payload = Inr (JObject [(''source'', JString ''local''), (''confidenceScore'', JNumber (JFloat (Fin (1 / 2))))])"
  shows "oracle_arbitrate from_str payload (detect_response_source from_str payload) = Inr payload"
proof -
  have "rnd (40 / 100) \<le> rnd (1 / 2)" by (rule rnd_mono) simp
  moreover have "rnd (1 / 2 :: rat) = 1 / 2" using rnd_pow2 [of "- 1"] by (simp add: power_int_minus)
  moreover have "\<bar>40 / 100 :: rat\<bar> \<le> 2 ^ 64" by simp
  then have "to_f64 (40 / 100) = Fin (rnd (40 / 100))" by (simp only: to_f64_Fin)
  moreover have "detect_response_source from_str payload = PhysicalNodeD"
    using assms by (simp add: detect_response_source_def source_field_def to_lowercase_def lower_def)
  ultimately show ?thesis using assms by (simp add: oracle_ok_iff oracle_threshold_def)
qed

end
