(* ===== verification/LogSanitizer.thy ===== *)
theory LogSanitizer
  imports Text
begin

text \<open>
  \<open>crates/core/src/security/log_sanitizer.rs\<close>: masking of log lines, and the clean-up of texts that
  are handed to guests.

  A rule is a compiled expression with its replacement; \<open>replace_all\<close> of the \<open>regex\<close> crate is the
  argument that applies one. In UTF-8 the byte order mark is EF BB BF, the zero-width space E2 80 8B,
  and the control characters outside ASCII are C2 80 to C2 9F.
\<close>

section \<open>Log lines\<close>

datatype rule = ApiKeyQuery | BearerToken | SensitiveKeyValue | Email | Ipv4

fun rule_replacement :: "rule \<Rightarrow> string" where
  "rule_replacement ApiKeyQuery = ''?key=[REDACTED]''"
| "rule_replacement BearerToken = ''Bearer [REDACTED]''"
| "rule_replacement SensitiveKeyValue = ''${1}=[REDACTED]''"
| "rule_replacement Email = ''[EMAIL_REDACTED]''"
| "rule_replacement Ipv4 = ''[IP_REDACTED]''"

definition SANITIZATION_RULES :: "rule list" where
  "SANITIZATION_RULES = [ApiKeyQuery, BearerToken, SensitiveKeyValue, Email]"

record LogSanitizer =
  mask_ipv4 :: bool

definition LogSanitizer_new :: LogSanitizer where
  "LogSanitizer_new = \<lparr>mask_ipv4 = False\<rparr>"

definition with_ipv4_masking :: LogSanitizer where
  "with_ipv4_masking = \<lparr>mask_ipv4 = True\<rparr>"

definition log_sanitize :: "(rule \<Rightarrow> string \<Rightarrow> string \<Rightarrow> string) \<Rightarrow> LogSanitizer \<Rightarrow> string \<Rightarrow> string" where
  "log_sanitize replace_all ls input =
     (let r = foldl (\<lambda>s rule. replace_all rule s (rule_replacement rule)) input SANITIZATION_RULES
      in if mask_ipv4 ls then replace_all Ipv4 r (rule_replacement Ipv4) else r)"

section \<open>Texts for guests\<close>

definition BOM :: string where
  "BOM = [CHR 0xEF, CHR 0xBB, CHR 0xBF]"

definition ZWSP :: string where
  "ZWSP = [CHR 0xE2, CHR 0x80, CHR 0x8B]"

fun trim_marks :: "string \<Rightarrow> string" where
  "trim_marks (a # b # c # s) = (if [a, b, c] = BOM \<or> [a, b, c] = ZWSP then trim_marks s else a # b # c # s)"
| "trim_marks s = s"

definition ascii_control :: "char \<Rightarrow> bool" where
  "ascii_control c \<longleftrightarrow> (of_char c :: nat) < 32 \<or> (of_char c :: nat) = 127"

definition kept_control :: "char \<Rightarrow> bool" where
  "kept_control c \<longleftrightarrow> (of_char c :: nat) \<in> {9, 10, 13}"

fun scrub :: "string \<Rightarrow> string" where
  "scrub [] = []"
| "scrub [c] = (if ascii_control c \<and> \<not> kept_control c then '' '' else [c])"
| "scrub (c # d # s) =
     (if (of_char c :: nat) = 0xC2 \<and> 0x80 \<le> (of_char d :: nat) \<and> (of_char d :: nat) \<le> 0x9F then CHR '' '' # scrub s
      else if ascii_control c \<and> \<not> kept_control c then CHR '' '' # scrub (d # s)
      else c # scrub (d # s))"

definition sanitize_for_wasm_transfer :: "string \<Rightarrow> string" where
  "sanitize_for_wasm_transfer input = trim (scrub (trim_marks (trim input)))"

section \<open>Properties\<close>

lemma scrub_ascii_control: "c \<in> set (scrub s) \<Longrightarrow> ascii_control c \<Longrightarrow> kept_control c"
  by (induction s rule: scrub.induct) (auto simp: ascii_control_def kept_control_def split: if_splits)

text \<open>
  A text handed to a guest has no control character of ASCII but tabs, line feeds and carriage
  returns, and neither begins nor ends with white space.
\<close>

theorem transfer_text_clean:
  "(\<forall>c. c \<in> set (sanitize_for_wasm_transfer s) \<and> ascii_control c \<longrightarrow> kept_control c)
   \<and> trim (sanitize_for_wasm_transfer s) = sanitize_for_wasm_transfer s"
  using set_trim scrub_ascii_control by (fastforce simp: sanitize_for_wasm_transfer_def)

theorem transfer_text_clean_witness:
  "sanitize_for_wasm_transfer [CHR 0x00, CHR ''a'', CHR 0x01] = ''a''
   \<and> trim (sanitize_for_wasm_transfer [CHR 0x00, CHR ''a'', CHR 0x01]) = ''a''"
proof -
  have e: "sanitize_for_wasm_transfer [CHR 0x00, CHR ''a'', CHR 0x01] = ''a''" by code_simp
  with conjunct2 [OF transfer_text_clean [of "[CHR 0x00, CHR ''a'', CHR 0x01]"]] show ?thesis by simp
qed

text \<open>Printable ASCII without white space at its ends, such as serialised JSON, passes unchanged.\<close>

lemma scrub_printable: "list_all (\<lambda>c. 32 \<le> (of_char c :: nat) \<and> (of_char c :: nat) < 127) s \<Longrightarrow> scrub s = s"
  by (induction s rule: scrub.induct) (auto simp: ascii_control_def)

lemma trim_marks_printable: "list_all (\<lambda>c. 32 \<le> (of_char c :: nat) \<and> (of_char c :: nat) < 127) s \<Longrightarrow> trim_marks s = s"
  by (cases s rule: trim_marks.cases) (auto simp: BOM_def ZWSP_def)

theorem transfer_printable_unchanged:
  assumes "list_all (\<lambda>c. 32 \<le> (of_char c :: nat) \<and> (of_char c :: nat) < 127) s" "trim s = s"
  shows "sanitize_for_wasm_transfer s = s"
  using assms by (simp add: sanitize_for_wasm_transfer_def scrub_printable trim_marks_printable)

theorem transfer_printable_unchanged_witness: "sanitize_for_wasm_transfer ''{}'' = ''{}''"
proof (rule transfer_printable_unchanged)
  show "trim ''{}'' = ''{}''" by code_simp
qed simp

text \<open>
  A byte order mark behind a control character is not removed, and a second pass removes it: the
  clean-up is not idempotent.
\<close>

lemma mark_survives:
  "sanitize_for_wasm_transfer (CHR 0x00 # BOM @ ''a'') = BOM @ ''a''"
  "sanitize_for_wasm_transfer (BOM @ ''a'') = ''a''"
  by code_simp+

end
