(* ===== verification/Gateway.thy ===== *)
theory Gateway
  imports HmacAuth RateLimiter FinOps Worker Waf FlightRecorder LogSanitizer Providers Kernel Execute
begin

text \<open>
  \<open>apps/gateway/src/main.rs\<close>: the two request handlers with everything they check and change, the
  address of the client, the fallback configuration of the providers and the healing of the fallback
  node.

  The state of the handlers is \<open>AppState\<close>, with the process-wide rate limiter, the nonces of the
  authenticator and the Redis store added. What the orchestrator answers to a request within 55
  seconds is the argument \<open>ge_orchestrate\<close> (\<open>Execute\<close> is about it); clocks, the bounded channel of
  the bus, Redis, the automaton of the scanner and JSON are arguments as in the theories of those
  components. Header names are in lower case, as \<open>HeaderMap\<close> keeps them.
\<close>

section \<open>The address and the tenant\<close>

type_synonym headers = "(string \<times> string) list"

text \<open>\<open>HeaderValue::to_str\<close> succeeds on visible ASCII, spaces and tabs.\<close>

definition header_str :: "headers \<Rightarrow> string \<Rightarrow> string option" where
  "header_str h name =
     (case map_of h name of
        Some v \<Rightarrow> if list_all (\<lambda>c. (of_char c :: nat) = 9 \<or> 32 \<le> (of_char c :: nat) \<and> (of_char c :: nat) < 127) v then Some v else None
      | None \<Rightarrow> None)"

definition v4 :: "nat \<Rightarrow> nat \<Rightarrow> nat \<Rightarrow> nat \<Rightarrow> IpAddr" where
  "v4 a b c d = V4 (of_nat (((a * 256 + b) * 256 + c) * 256 + d))"

definition v6 :: "nat \<Rightarrow> nat \<Rightarrow> IpAddr" where
  "v6 a b = V6 (push_bit 96 (of_nat (a * 65536 + b)))"

definition CLOUDFLARE_CIDRS :: "(IpAddr \<times> nat) list" where
  "CLOUDFLARE_CIDRS =
     [(v4 173 245 48 0, 20), (v4 103 21 244 0, 22), (v4 103 22 200 0, 22), (v4 103 31 4 0, 22), (v4 141 101 64 0, 18),
      (v4 108 162 192 0, 18), (v4 190 93 240 0, 20), (v4 188 114 96 0, 20), (v4 197 234 240 0, 22), (v4 198 41 128 0, 17),
      (v4 162 158 0 0, 15), (v4 104 16 0 0, 13), (v4 104 24 0 0, 14), (v4 172 64 0 0, 13), (v4 131 0 72 0, 22),
      (v6 0x2400 0xcb00, 32), (v6 0x2606 0x4700, 32), (v6 0x2803 0xf800, 32), (v6 0x2405 0xb500, 32), (v6 0x2405 0x8100, 32),
      (v6 0x2a06 0x98c0, 29), (v6 0x2c0f 0xf248, 32)]"

text \<open>\<open>IpNet::contains\<close>: the same family and the same leading bits.\<close>

fun net_contains :: "IpAddr \<times> nat \<Rightarrow> IpAddr \<Rightarrow> bool" where
  "net_contains (V4 n, len) (V4 a) = (drop_bit (32 - len) n = drop_bit (32 - len) a)"
| "net_contains (V6 n, len) (V6 a) = (drop_bit (128 - len) n = drop_bit (128 - len) a)"
| "net_contains _ _ = False"

definition is_trusted_proxy :: "IpAddr \<Rightarrow> bool" where
  "is_trusted_proxy a \<longleftrightarrow> list_ex (\<lambda>n. net_contains n a) CLOUDFLARE_CIDRS"

definition extract_trusted_ip :: "(string \<Rightarrow> IpAddr option) \<Rightarrow> headers \<Rightarrow> IpAddr \<Rightarrow> IpAddr" where
  "extract_trusted_ip parse_ip h socket =
     (if is_trusted_proxy socket
      then (case header_str h ''cf-connecting-ip'' of
              Some s \<Rightarrow> (case parse_ip (trim (hd (split_char CHR '','' s))) of Some a \<Rightarrow> a | None \<Rightarrow> socket)
            | None \<Rightarrow> socket)
      else socket)"

definition extract_tenant_id :: "headers \<Rightarrow> nat + string" where
  "extract_tenant_id h =
     (case header_str h ''x-serein-tenant-id'' of
        Some t \<Rightarrow> if trim t \<noteq> [] then Inr (trim t) else Inl 401
      | None \<Rightarrow> Inl 401)"

section \<open>Replies and state\<close>

record TmrConsensus =
  tc_result :: string
  tc_agreeing_nodes :: u8
  tc_total_nodes :: u8
  tc_adjudication_logic :: string

record AgentExecutionPayload =
  ap_network_id :: string
  ap_task_type :: "string option"

record AgentExecutionResponse =
  ar_consensus :: TmrConsensus
  ar_payload :: "IntermediatePayload option"
  ar_tenant_id :: string
  ar_kernel_receipt :: json

datatype reply_body = ErrorBody string string | AgentBody AgentExecutionResponse | SwapBody nat nat

record Reply =
  rp_status :: nat
  rp_headers :: headers
  rp_body :: reply_body

definition error_reply :: "nat \<Rightarrow> string \<Rightarrow> string \<Rightarrow> Reply" where
  "error_reply n err code = \<lparr>rp_status = n, rp_headers = [], rp_body = ErrorBody err code\<rparr>"

definition inject_ai_transparency_headers :: "Reply \<Rightarrow> Reply" where
  "inject_ai_transparency_headers r =
     r\<lparr>rp_headers := hm_insert ''x-ai-provenance'' ''serein-enterprise-v1''
                       (hm_insert ''x-ai-gateway-intervention'' ''true'' (rp_headers r))\<rparr>"

record ('k, 'b, 's) AppState =
  st_kernel :: "'k SereinMicrokernel"
  st_recorder :: "string Channel"
  st_service_auth :: "ServiceAuthenticator option"
  st_nonces :: NonceCacheInner
  st_compliance :: "'b ComplianceBus"
  st_waf :: waf
  st_wasm_module :: "u8 list"
  st_limiter :: ApiRateLimiter
  st_budget :: 's

record ('b, 's) gateway_env =
  ge_now :: instant
  ge_utc :: int
  ge_utc_ms :: int
  ge_stamp :: u64
  ge_parse_ip :: "string \<Rightarrow> IpAddr option"
  ge_show_ip :: "IpAddr \<Rightarrow> string"
  ge_nonce_order :: "(string, instant) hmap \<Rightarrow> (string, instant) hmap"
  ge_try_send :: "AuditEvent \<Rightarrow> 'b \<Rightarrow> (AuditEvent TrySendError + unit) \<times> 'b"
  ge_find_first :: "string list \<Rightarrow> string \<Rightarrow> nat option"
  ge_redis :: "'s redis"
  ge_refund_fate :: fate
  ge_show_limit :: "NetworkError \<Rightarrow> string"
  ge_show_failure :: "TmrNodeError \<Rightarrow> string"
  ge_orchestrate :: "ProviderRequest \<Rightarrow> TmrConsensusResult timed"
  ge_from_llm_output :: "string \<Rightarrow> IntermediatePayload option"
  ge_payload_string :: "IntermediatePayload \<Rightarrow> string + string"
  ge_payload_json :: "IntermediatePayload \<Rightarrow> json"
  ge_event_json :: "ConsensusEvent \<Rightarrow> string option"
  ge_from_json :: "string \<Rightarrow> string + json"

definition emit_audit_event ::
  "('b, 's) gateway_env \<Rightarrow> string \<Rightarrow> IpAddr \<Rightarrow> string \<Rightarrow> AuditAction \<Rightarrow> ('k, 'b, 's) AppState \<Rightarrow> ('k, 'b, 's) AppState" where
  "emit_audit_event ge tenant ip payload action st =
     st\<lparr>st_compliance := snd (emit (ge_try_send ge) (AuditEvent_new (ge_stamp ge) tenant (ge_show_ip ge ip) payload action) (st_compliance st))\<rparr>"

section \<open>Authentication\<close>

definition header_timestamp :: "headers \<Rightarrow> int" where
  "header_timestamp h =
     (case header_str h ''x-serein-timestamp'' of
        Some s \<Rightarrow> (case parse_i64 s of Some i \<Rightarrow> i | None \<Rightarrow> 0)
      | None \<Rightarrow> 0)"

definition header_nonce :: "headers \<Rightarrow> string" where
  "header_nonce h = (case header_str h ''x-serein-nonce'' of Some n \<Rightarrow> n | None \<Rightarrow> [])"

fun auth_error_code :: "HmacAuthError \<Rightarrow> string" where
  "auth_error_code TimestampMismatch = ''TIMESTAMP_MISMATCH''"
| "auth_error_code (HmacAuth.VerificationFailed _) = ''REPLAY_WINDOW_VIOLATION''"
| "auth_error_code InvalidFormat = ''HMAC_INVALID_FORMAT''"
| "auth_error_code ReplayDetected = ''REPLAY_ATTACK_DETECTED''"
| "auth_error_code (ComputationFailed _) = ''HMAC_COMPUTATION_FAILED''"
| "auth_error_code MissingToken = ''HMAC_TOKEN_MISSING''"

definition validate_request ::
  "('b, 's) gateway_env \<Rightarrow> ServiceAuthenticator \<Rightarrow> string \<Rightarrow> string \<Rightarrow> int \<Rightarrow> ('k, 'b, 's) AppState
     \<Rightarrow> ((HmacAuthError + unit) \<times> ('k, 'b, 's) AppState) may_panic" where
  "validate_request ge a hdr msg ts st =
     map_option (\<lambda>(r, nc). (r, st\<lparr>st_nonces := nc\<rparr>))
       (validate_auth_header (ge_nonce_order ge) (ge_now ge) (ge_utc ge) a hdr msg ts (st_nonces st))"

definition check_agent_auth ::
  "('b, 's) gateway_env \<Rightarrow> string \<Rightarrow> IpAddr \<Rightarrow> headers \<Rightarrow> string \<Rightarrow> string \<Rightarrow> ('k, 'b, 's) AppState
     \<Rightarrow> ((Reply + unit) \<times> ('k, 'b, 's) AppState) may_panic" where
  "check_agent_auth ge tenant ip h network task st =
     (let block = (\<lambda>what err code s. (Inl (error_reply 401 err code), emit_audit_event ge tenant ip what BLOCKED_BY_AUTH s)) in
      case st_service_auth st of
        None \<Rightarrow> Some (Inr (), st)
      | Some a \<Rightarrow>
          (case header_str h ''authorization'' of
             None \<Rightarrow> Some (block ''missing auth header'' ''Authorization header required for HMAC authentication'' ''MISSING_AUTH_HEADER'' st)
           | Some cred \<Rightarrow>
               let ts = header_timestamp h; nonce = header_nonce h
               in if nonce = [] then Some (block ''missing nonce'' ''Missing x-serein-nonce header - UUID nonce required for idempotency'' ''MISSING_NONCE'' st)
                  else if ts = 0 then Some (block ''missing timestamp'' ''Missing or invalid x-serein-timestamp header - epoch seconds required'' ''MISSING_TIMESTAMP'' st)
                  else map_option (\<lambda>(r, st1). case r of
                         Inr _ \<Rightarrow> (Inr (), st1)
                       | Inl e \<Rightarrow> (Inl (error_reply 401 ''HMAC signature verification failed'' (auth_error_code e)),
                                   emit_audit_event ge tenant ip ''HMAC auth failed''
                                     (if e = ReplayDetected then BLOCKED_BY_REPLAY else BLOCKED_BY_AUTH) st1))
                     (validate_request ge a cred
                        (tenant @ '':'' @ network @ '':'' @ task @ '':'' @ show_int ts @ '':'' @ nonce) ts st)))"

section \<open>The agent handler\<close>

definition ascii_alphanumeric :: "char \<Rightarrow> bool" where
  "ascii_alphanumeric c \<longleftrightarrow>
     (let n = of_char c :: nat in 48 \<le> n \<and> n \<le> 57 \<or> 65 \<le> n \<and> n \<le> 90 \<or> 97 \<le> n \<and> n \<le> 122)"

text \<open>\<open>char::is_ascii_whitespace\<close>: space, tab, line feed, form feed, carriage return.\<close>

definition ascii_whitespace :: "char \<Rightarrow> bool" where
  "ascii_whitespace c \<longleftrightarrow> (of_char c :: nat) \<in> {9, 10, 12, 13, 32}"

definition valid_network_id :: "string \<Rightarrow> bool" where
  "valid_network_id s \<longleftrightarrow>
     \<not> (s = [] \<or> 64 < length s \<or> \<not> list_all (\<lambda>c. ascii_alphanumeric c \<or> c = CHR ''-'' \<or> c = CHR ''_'') s)"

definition valid_task_type :: "string \<Rightarrow> bool" where
  "valid_task_type s \<longleftrightarrow> \<not> (50 < length s \<or> \<not> list_all (\<lambda>c. ascii_alphanumeric c \<or> ascii_whitespace c) s)"

abbreviation quot :: string where
  "quot \<equiv> [CHR 0x22]"

abbreviation newline :: string where
  "newline \<equiv> [CHR 0x0A]"

definition agent_prompt :: "string \<Rightarrow> string \<Rightarrow> string" where
  "agent_prompt network task =
     (let n = to_lowercase network in
      ''You are a deterministic Web3 agent execution engine. Extract execution parameters for network '' @ quot @ n @ quot
      @ '' and task type '' @ quot @ task @ quot @ ''.'' @ newline
      @ ''Respond ONLY with a JSON object matching this exact schema:'' @ newline
      @ ''{'' @ newline
      @ ''  '' @ quot @ ''networkId'' @ quot @ '': '' @ quot @ n @ quot @ '','' @ newline
      @ ''  '' @ quot @ ''taskType'' @ quot @ '': '' @ quot @ task @ quot @ '','' @ newline
      @ ''  '' @ quot @ ''maxGasLimit'' @ quot @ '': <integer: estimated max gas limit, or 0 if unknown>,'' @ newline
      @ ''  '' @ quot @ ''confidenceScore'' @ quot @ '': <float: 0.0 to 1.0 representing certainty>,'' @ newline
      @ ''  '' @ quot @ ''sourceUrl'' @ quot @ '': '' @ quot @ ''<string: official data source URL or '' @ [CHR 0x27] @ ''unknown''
      @ [CHR 0x27] @ ''>'' @ quot @ newline
      @ ''}'' @ newline
      @ ''No explanation, no markdown fences, just the JSON object.'')"

definition ProviderRequest_new :: "string \<Rightarrow> ProviderRequest" where
  "ProviderRequest_new p = \<lparr>rq_prompt = p, rq_tenant_id = [], rq_images = None, rq_temperature = Fin 0\<rparr>"

definition with_tenant :: "string \<Rightarrow> ProviderRequest \<Rightarrow> ProviderRequest" where
  "with_tenant t r = r\<lparr>rq_tenant_id := t\<rparr>"

definition orchestrated :: "('b, 's) gateway_env \<Rightarrow> ProviderRequest \<Rightarrow> TmrConsensusResult" where
  "orchestrated ge req = (case ge_orchestrate ge req of Finished r \<Rightarrow> r | Elapsed \<Rightarrow> TmrConsensusResult_default)"

definition provider_results :: "('b, 's) gateway_env \<Rightarrow> TmrConsensusResult \<Rightarrow> (string \<times> string) list" where
  "provider_results ge r =
     concat (map (\<lambda>nr. case (nr_output nr, nr_error nr) of
         (Some t, None) \<Rightarrow> [(nr_provider_name nr, t)]
       | (_, Some e) \<Rightarrow> [(nr_provider_name nr, ''ERROR: '' @ ge_show_failure ge e)]
       | _ \<Rightarrow> []) (node_results r))
     @ (case fallback_result r of
          Some fb \<Rightarrow> (case fb_output fb of Some t \<Rightarrow> [(''FallbackNodeD'', t)] | None \<Rightarrow> [])
        | None \<Rightarrow> [])"

definition result_entry :: "('b, 's) gateway_env \<Rightarrow> string \<times> string \<Rightarrow> ProviderResultEntry" where
  "result_entry ge = (\<lambda>(name, out).
     \<lparr>pre_provider = name, pre_status = (if starts_with out ''ERROR:'' then ''error'' else ''success''),
      pre_canonical_key = (if \<not> starts_with out ''ERROR:'' then map_option canonical_key (ge_from_llm_output ge out) else None)\<rparr>)"

definition adjudication_logic :: "TmrConsensusResult \<Rightarrow> string" where
  "adjudication_logic r = (if fallback_activated r then ''canonical_key_majority_with_fallback'' else ''canonical_key_majority'')"

definition consensus_event :: "('b, 's) gateway_env \<Rightarrow> string \<Rightarrow> string \<Rightarrow> TmrConsensusResult \<Rightarrow> ConsensusEvent" where
  "consensus_event ge tenant prompt r =
     \<lparr>ce_timestamp = ge_utc_ms ge, ce_request_id = ''tmr-'' @ show_int (ge_utc_ms ge), ce_tenant_id = tenant, ce_prompt = prompt,
      ce_inference_params = JObject [(''cloud_timeout_ms'', JNumber (PosInt 30000)), (''fallback_activated'', JBool (fallback_activated r))],
      ce_agreeing_nodes = of_nat (agreement_count r), ce_total_nodes = of_nat (total_nodes r),
      ce_adjudication_logic = adjudication_logic r,
      ce_consensus_payload = (case Option.bind (majority_output r) (ge_from_llm_output ge) of
                                Some p \<Rightarrow> ge_payload_json ge p | None \<Rightarrow> JNull),
      ce_provider_results = map (result_entry ge) (provider_results ge r), ce_fallback_activated = fallback_activated r\<rparr>"

text \<open>The answer to a request on which the orchestrator reports consensus.\<close>

definition answer_agent ::
  "('b, 's) gateway_env \<Rightarrow> string \<Rightarrow> IpAddr \<Rightarrow> string \<Rightarrow> TmrConsensusResult \<Rightarrow> ('k, 'b, 's) AppState \<Rightarrow> (Reply + Reply) \<times> ('k, 'b, 's) AppState" where
  "answer_agent ge tenant ip prompt r st =
     (let payload = Option.bind (majority_output r) (ge_from_llm_output ge) in
      case (case payload of Some p \<Rightarrow> ge_payload_string ge p | None \<Rightarrow> Inr []) of
        Inl e \<Rightarrow> (Inl (error_reply 500 ''Internal serialization failure'' ''SERIALIZATION_FAILED''), st)
      | Inr j \<Rightarrow>
          let st1 = (if 2 \<le> agreement_count r
                     then st\<lparr>st_recorder := record_consensus_event (ge_event_json ge) (consensus_event ge tenant prompt r) (st_recorder st)\<rparr>
                     else st);
              clean = sanitize_for_wasm_transfer j;
              receipt = (case ge_from_json ge clean of Inr v \<Rightarrow> v | Inl _ \<Rightarrow> JObject [(''raw'', JString clean)])
          in (Inr (inject_ai_transparency_headers
                \<lparr>rp_status = 200, rp_headers = [],
                 rp_body = AgentBody
                   \<lparr>ar_consensus = \<lparr>tc_result = j, tc_agreeing_nodes = of_nat (agreement_count r), tc_total_nodes = of_nat (total_nodes r),
                                    tc_adjudication_logic = adjudication_logic r\<rparr>,
                    ar_payload = payload, ar_tenant_id = tenant, ar_kernel_receipt = receipt\<rparr>\<rparr>),
              emit_audit_event ge tenant ip clean ALLOWED st1))"

text \<open>Everything after the budget: \<open>Inr\<close> is the answer after which the guard is consumed.\<close>

definition serve_agent ::
  "('b, 's) gateway_env \<Rightarrow> string \<Rightarrow> IpAddr \<Rightarrow> string \<Rightarrow> string \<Rightarrow> ('k, 'b, 's) AppState \<Rightarrow> (Reply + Reply) \<times> ('k, 'b, 's) AppState" where
  "serve_agent ge tenant ip network task st =
     (if \<not> valid_network_id network
      then (Inl (error_reply 400 ''network_id must be a non-empty alphanumeric string (max 64 chars)'' ''INVALID_NETWORK_ID''), st)
      else if \<not> valid_task_type task
      then (Inl (error_reply 400 ''task_type contains invalid characters or exceeds length limits'' ''SECURITY_VIOLATION''),
            emit_audit_event ge tenant ip ''prompt injection attempt'' BLOCKED_BY_WASM st)
      else let prompt = agent_prompt network task in
           case scan (ge_find_first ge) (st_waf st) prompt of
             WafBlocked v \<Rightarrow>
               (Inl (error_reply 403 (''Prompt injection detected: '' @ wv_signature v) ''WAF_BLOCKED''),
                emit_audit_event ge tenant ip (''WAF blocked: '' @ wv_signature v) BLOCKED_BY_WASM st)
           | Clean \<Rightarrow>
               (let r = orchestrated ge (with_tenant tenant (ProviderRequest_new prompt))
                in if \<not> consensus_achieved r
                   then (Inl (error_reply 409 (''TMR consensus failed: no majority agreement among ''
                                @ dec (unat (of_nat (total_nodes r) :: u8)) @ '' providers'') ''CONSENSUS_FAILED''),
                         emit_audit_event ge tenant ip ''TMR consensus failed'' BLOCKED_BY_ORACLE st)
                   else answer_agent ge tenant ip prompt r st))"

text \<open>The budget and the guard that refunds it unless it is consumed.\<close>

definition budgeted ::
  "('b, 's) gateway_env \<Rightarrow> string \<Rightarrow> IpAddr \<Rightarrow> string \<Rightarrow> (('k, 'b, 's) AppState \<Rightarrow> (Reply + Reply) \<times> ('k, 'b, 's) AppState)
     \<Rightarrow> ('k, 'b, 's) AppState \<Rightarrow> Reply \<times> ('k, 'b, 's) AppState" where
  "budgeted ge tenant ip request_id serve st =
     (case deduct_tokens (ge_redis ge) tenant 1 (st_budget st) of
        (Inr (DeductSuccess _), s) \<Rightarrow>
          (let g = FinOpsRefundGuard_new tenant request_id
           in case serve (st\<lparr>st_budget := s\<rparr>) of
                (Inl rp, st1) \<Rightarrow> (rp, st1\<lparr>st_budget := rg_drop (ge_redis ge) (ge_refund_fate ge) g (st_budget st1)\<rparr>)
              | (Inr rp, st1) \<Rightarrow> (rp, st1\<lparr>st_budget := rg_drop (ge_redis ge) (ge_refund_fate ge) (rg_consume g) (st_budget st1)\<rparr>))
      | (Inr (InsufficientFunds b q), s) \<Rightarrow>
          (error_reply 402 ''Insufficient token budget - please top up your account'' ''INSUFFICIENT_FUNDS'',
           emit_audit_event ge tenant ip ''insufficient funds'' BLOCKED_BY_SIS (st\<lparr>st_budget := s\<rparr>))
      | (Inl e, s) \<Rightarrow>
          (error_reply 500 ''Billing infrastructure unavailable - please try again later'' ''FINOPS_UNAVAILABLE'',
           emit_audit_event ge tenant ip ''finops state store inaccessible'' BLOCKED_BY_SIS (st\<lparr>st_budget := s\<rparr>)))"

definition handle_agent_execution ::
  "('b, 's) gateway_env \<Rightarrow> IpAddr \<Rightarrow> headers \<Rightarrow> AgentExecutionPayload \<Rightarrow> ('k, 'b, 's) AppState
     \<Rightarrow> (Reply \<times> ('k, 'b, 's) AppState) may_panic" where
  "handle_agent_execution ge socket h body st =
     (let ip = extract_trusted_ip (ge_parse_ip ge) h socket in
      case extract_tenant_id h of
        Inl n \<Rightarrow>
          Some (error_reply n ''Missing or empty x-serein-tenant-id header - tenant identity required for billing'' ''MISSING_TENANT_ID'',
                emit_audit_event ge ''unknown'' ip ''missing tenant ID'' BLOCKED_BY_AUTH st)
      | Inr tenant \<Rightarrow>
          let request_id = (case header_str h ''x-request-id'' of Some i \<Rightarrow> i | None \<Rightarrow> ''unknown'');
              task = (case ap_task_type body of Some t \<Rightarrow> t | None \<Rightarrow> ''default'')
          in case check_agent_auth ge tenant ip h (ap_network_id body) task st of
               None \<Rightarrow> None
             | Some (Inl rp, st1) \<Rightarrow> Some (rp, st1)
             | Some (Inr _, st1) \<Rightarrow>
                 (case acquire_api_token (ge_now ge) tenant (st_limiter st1) of
                    (Inl e, l) \<Rightarrow>
                      Some (error_reply 429 (''Tenant rate limit exceeded: '' @ ge_show_limit ge e) ''RATE_LIMITED'',
                            emit_audit_event ge tenant ip ''rate limited'' BLOCKED_BY_SIS (st1\<lparr>st_limiter := l\<rparr>))
                  | (Inr _, l) \<Rightarrow>
                      Some (budgeted ge tenant ip request_id (serve_agent ge tenant ip (ap_network_id body) task) (st1\<lparr>st_limiter := l\<rparr>))))"

section \<open>The hot-swap handler\<close>

definition check_swap_auth ::
  "('b, 's) gateway_env \<Rightarrow> string \<Rightarrow> headers \<Rightarrow> ('k, 'b, 's) AppState \<Rightarrow> ((Reply + unit) \<times> ('k, 'b, 's) AppState) may_panic" where
  "check_swap_auth ge tenant h st =
     (case st_service_auth st of
        None \<Rightarrow> Some (Inr (), st)
      | Some a \<Rightarrow>
          (case header_str h ''authorization'' of
             None \<Rightarrow> Some (Inl (error_reply 401 ''Authorization header required for hot-swap'' ''MISSING_AUTH_HEADER''), st)
           | Some cred \<Rightarrow>
               let ts = header_timestamp h; nonce = header_nonce h
               in if nonce = [] \<or> ts = 0
                  then Some (Inl (error_reply 401 ''HMAC authentication required for hot-swap'' ''MISSING_AUTH''), st)
                  else map_option (\<lambda>(r, st1).
                         (map_err (\<lambda>_. error_reply 401 ''HMAC signature verification failed'' ''HMAC_FAILED'') r, st1))
                     (validate_request ge a cred (tenant @ '':hot-swap:'' @ show_int ts @ '':'' @ nonce) ts st)))"

definition MAX_MODULE_BYTES :: nat where
  "MAX_MODULE_BYTES = 50 * 1024 * 1024"

text \<open>The tests of the module; the slice of the first four bytes panics on a shorter body.\<close>

definition check_module :: "u8 list \<Rightarrow> (Reply + unit) may_panic" where
  "check_module body =
     (if body = [] then Some (Inl (error_reply 400 ''Empty WASM module body'' ''EMPTY_BODY''))
      else if MAX_MODULE_BYTES < length body
      then Some (Inl (error_reply 413 ''WASM module exceeds 50MB limit'' ''PAYLOAD_TOO_LARGE''))
      else if length body < 4 then None
      else if take 4 body \<noteq> [0, 0x61, 0x73, 0x6D]
      then Some (Inl (error_reply 400 ''Invalid WASM binary: missing magic number'' ''INVALID_WASM''))
      else Some (Inr ()))"

text \<open>
  The bytes are stored first, then the kernel compiles them. The kernel panics only when its
  counter of swaps overflows.
\<close>

definition commit_module ::
  "('b, 's) gateway_env \<Rightarrow> 'k loader \<Rightarrow> string \<Rightarrow> IpAddr \<Rightarrow> u8 list \<Rightarrow> ('k, 'b, 's) AppState \<Rightarrow> (Reply \<times> ('k, 'b, 's) AppState) may_panic" where
  "commit_module ge ld tenant ip body st =
     (let old = st_wasm_module st; st1 = st\<lparr>st_wasm_module := body\<rparr>; (r, k) = reload_component ld body (st_kernel st);
          st2 = st1\<lparr>st_kernel := k\<rparr>
      in case r of
           None \<Rightarrow> None
         | Some (Inl e) \<Rightarrow> Some (error_reply 500 (''WASM compilation failed: '' @ e) ''WASM_COMPILE_ERROR'', st2)
         | Some (Inr _) \<Rightarrow>
             Some (inject_ai_transparency_headers \<lparr>rp_status = 200, rp_headers = [], rp_body = SwapBody (length old) (length body)\<rparr>,
                   emit_audit_event ge tenant ip (''hot-swap: '' @ dec (length body) @ '' bytes'') MODIFIED st2))"

definition handle_hot_swap ::
  "('b, 's) gateway_env \<Rightarrow> 'k loader \<Rightarrow> IpAddr \<Rightarrow> headers \<Rightarrow> u8 list \<Rightarrow> ('k, 'b, 's) AppState \<Rightarrow> (Reply \<times> ('k, 'b, 's) AppState) may_panic" where
  "handle_hot_swap ge ld socket h body st =
     (let ip = extract_trusted_ip (ge_parse_ip ge) h socket in
      case extract_tenant_id h of
        Inl n \<Rightarrow> Some (error_reply n ''Missing or empty x-serein-tenant-id header'' ''MISSING_TENANT_ID'', st)
      | Inr tenant \<Rightarrow>
          (case check_swap_auth ge tenant h st of
             None \<Rightarrow> None
           | Some (Inl rp, st1) \<Rightarrow> Some (rp, st1)
           | Some (Inr _, st1) \<Rightarrow>
               (case check_module body of
                  None \<Rightarrow> None
                | Some (Inl rp) \<Rightarrow> Some (rp, st1)
                | Some (Inr _) \<Rightarrow> commit_module ge ld tenant ip body st1)))"

section \<open>Start-up\<close>

definition insecure_token :: "(string \<Rightarrow> string option) \<Rightarrow> bool" where
  "insecure_token env \<longleftrightarrow>
     env ''APP_ENV'' = Some ''production''
     \<and> (let token = (case env ''SEREIN_INTERNAL_TOKEN'' of Some t \<Rightarrow> t | None \<Rightarrow> [])
        in token = ''generate_a_random_uuid_here'' \<or> trim token = [])"

definition env_provider ::
  "string \<Rightarrow> string \<Rightarrow> string \<Rightarrow> string \<Rightarrow> string \<Rightarrow> u64 \<Rightarrow> usize \<Rightarrow> u32 \<Rightarrow> u32 \<Rightarrow> u32 \<Rightarrow> ProviderConfig" where
  "env_provider i n url m key_env timeout limit tokens retries conc =
     \<lparr>pc_id = i, pc_display_name = n, pc_api_format = ''openai'', pc_base_url = url, pc_model = m, pc_api_key = [],
      pc_api_key_env = key_env, pc_timeout_ms = timeout, pc_max_response_bytes = limit, pc_cache_provider = i,
      pc_temperature = Fin 0, pc_max_tokens = tokens, pc_max_retries = retries, pc_concurrency_limit = conc,
      pc_geo_region = None, pc_adapter = None\<rparr>"

definition build_providers_from_env :: "(string \<Rightarrow> string option) \<Rightarrow> ProvidersConfig" where
  "build_providers_from_env env =
     \<lparr>pcs_provider =
        (if env ''GROQ_API_KEY'' \<noteq> None
         then [env_provider ''groq'' ''Groq Llama 3 (8B)'' ''https://api.groq.com/openai/v1'' ''llama3-8b-8192'' ''GROQ_API_KEY''
                 10000 (2 * 1024 * 1024) 1024 2 15] else [])
        @ (if env ''DEEPSEEK_API_KEY'' \<noteq> None
           then [env_provider ''deepseek'' ''DeepSeek-V3 Chat'' ''https://api.deepseek.com/v1'' ''deepseek-chat'' ''DEEPSEEK_API_KEY''
                   15000 (5 * 1024 * 1024) 4096 3 20] else [])
        @ (if env ''SILICONFLOW_API_KEY'' \<noteq> None
           then [env_provider ''siliconflow'' ''SiliconFlow Qwen 2.5'' ''https://api.siliconflow.cn/v1'' ''Qwen/Qwen2.5-7B-Instruct''
                   ''SILICONFLOW_API_KEY'' 12000 (2 * 1024 * 1024) 2048 2 10] else [])\<rparr>"

definition load_providers ::
  "(string \<Rightarrow> string option) \<Rightarrow> (string \<Rightarrow> string + string) \<Rightarrow> (string \<Rightarrow> string + ProvidersConfig) \<Rightarrow> ProviderError + LlmProvider list" where
  "load_providers env read toml =
     (let path = (case env ''PROVIDERS_CONFIG'' of Some p \<Rightarrow> p | None \<Rightarrow> ''providers.toml'');
          c = (case load_from_file read toml path of Inr c \<Rightarrow> c | Inl _ \<Rightarrow> build_providers_from_env env)
      in build_providers env c)"

text \<open>
  One round of the task that heals the fallback node: the probe is sent only while the node is
  unavailable. \<open>None\<close> is a panic of the probe, which ends the task.
\<close>

definition heal :: "permit \<Rightarrow> instant \<Rightarrow> u64 \<Rightarrow> PhysicalFallbackNode \<Rightarrow> PhysicalFallbackNode may_panic" where
  "heal pm now ms n =
     (if fn_is_available n then Some n
      else map_option (\<lambda>(r, n1). if fb_error r = None then fn_enable n1 else n1) (fn_invoke pm now ms ''probe'' n))"

section \<open>Which requests are answered\<close>

text \<open>
  What the specification of the agent handler is stated over: the outcome of the authentication, the
  orchestrator's verdict on the prompt, and the serialisation of its payload.
\<close>

definition agent_task :: "AgentExecutionPayload \<Rightarrow> string" where
  "agent_task body = (case ap_task_type body of Some t \<Rightarrow> t | None \<Rightarrow> ''default'')"

definition agent_result :: "('b, 's) gateway_env \<Rightarrow> string \<Rightarrow> AgentExecutionPayload \<Rightarrow> TmrConsensusResult" where
  "agent_result ge tenant body =
     orchestrated ge (with_tenant tenant (ProviderRequest_new (agent_prompt (ap_network_id body) (agent_task body))))"

definition signed_message :: "string \<Rightarrow> AgentExecutionPayload \<Rightarrow> headers \<Rightarrow> string" where
  "signed_message tenant body h =
     tenant @ '':'' @ ap_network_id body @ '':'' @ agent_task body @ '':'' @ show_int (header_timestamp h) @ '':'' @ header_nonce h"

definition authenticated :: "('b, 's) gateway_env \<Rightarrow> string \<Rightarrow> AgentExecutionPayload \<Rightarrow> headers \<Rightarrow> ('k, 'b, 's) AppState \<Rightarrow> bool" where
  "authenticated ge tenant body h st =
     (case st_service_auth st of
        None \<Rightarrow> True
      | Some a \<Rightarrow>
          (case header_str h ''authorization'' of
             None \<Rightarrow> False
           | Some cred \<Rightarrow>
               header_nonce h \<noteq> [] \<and> header_timestamp h \<noteq> 0
               \<and> map_option fst (validate_auth_header (ge_nonce_order ge) (ge_now ge) (ge_utc ge) a cred (signed_message tenant body h)
                    (header_timestamp h) (st_nonces st)) = Some (Inr ())))"

definition prompt_allowed :: "('b, 's) gateway_env \<Rightarrow> AgentExecutionPayload \<Rightarrow> ('k, 'b, 's) AppState \<Rightarrow> bool" where
  "prompt_allowed ge body st \<longleftrightarrow>
     valid_network_id (ap_network_id body) \<and> valid_task_type (agent_task body)
     \<and> scan (ge_find_first ge) (st_waf st) (agent_prompt (ap_network_id body) (agent_task body)) = Clean"

definition serialisable :: "('b, 's) gateway_env \<Rightarrow> TmrConsensusResult \<Rightarrow> bool" where
  "serialisable ge r =
     (case Option.bind (majority_output r) (ge_from_llm_output ge) of
        Some p \<Rightarrow> (case ge_payload_string ge p of Inr _ \<Rightarrow> True | Inl _ \<Rightarrow> False)
      | None \<Rightarrow> True)"

lemmas reply_simps = error_reply_def inject_ai_transparency_headers_def

lemma emit_audit_keeps [simp]:
  "st_waf (emit_audit_event ge t ip p a st) = st_waf st"
  "st_budget (emit_audit_event ge t ip p a st) = st_budget st"
  "st_limiter (emit_audit_event ge t ip p a st) = st_limiter st"
  "st_kernel (emit_audit_event ge t ip p a st) = st_kernel st"
  "st_wasm_module (emit_audit_event ge t ip p a st) = st_wasm_module st"
  "st_recorder (emit_audit_event ge t ip p a st) = st_recorder st"
  by (simp_all add: emit_audit_event_def)

lemma answer_agent_cases:
  obtains (refused) "\<not> serialisable ge r"
      "answer_agent ge tenant ip prompt r st = (Inl (error_reply 500 ''Internal serialization failure'' ''SERIALIZATION_FAILED''), st)"
  | (answered) st1 p b where "serialisable ge r" "answer_agent ge tenant ip prompt r st =
        (Inr (inject_ai_transparency_headers \<lparr>rp_status = 200, rp_headers = [], rp_body = AgentBody b\<rparr>), emit_audit_event ge tenant ip p ALLOWED st1)"
      "st_budget st1 = st_budget st" "st_compliance st1 = st_compliance st" "ar_tenant_id b = tenant"
      "ar_payload b = Option.bind (majority_output r) (ge_from_llm_output ge)"
proof -
  let ?p = "Option.bind (majority_output r) (ge_from_llm_output ge)"
  show ?thesis
  proof (cases "case ?p of Some p \<Rightarrow> ge_payload_string ge p | None \<Rightarrow> Inr []")
    case (Inl e)
    then show ?thesis
      by (intro refused) (simp_all add: answer_agent_def serialisable_def Let_def split: option.splits)
  next
    case (Inr j)
    then have "serialisable ge r" by (simp add: serialisable_def split: option.splits)
    moreover note answer_agent_def [of ge tenant ip prompt r st, unfolded Let_def Inr sum.case]
    ultimately show ?thesis by (rule answered) simp_all
  qed
qed

text \<open>
  The audit trail of one request: the reply names the action of the one event that is emitted, or
  that there is none.
\<close>

definition AUTH_CODES :: "string list" where
  "AUTH_CODES =
     [''MISSING_TENANT_ID'', ''MISSING_AUTH_HEADER'', ''MISSING_NONCE'', ''MISSING_TIMESTAMP'', ''TIMESTAMP_MISMATCH'',
      ''REPLAY_WINDOW_VIOLATION'', ''HMAC_INVALID_FORMAT'', ''HMAC_COMPUTATION_FAILED'', ''HMAC_TOKEN_MISSING'']"

fun audit_of :: "reply_body \<Rightarrow> AuditAction option" where
  "audit_of (AgentBody _) = Some ALLOWED"
| "audit_of (SwapBody _ _) = Some MODIFIED"
| "audit_of (ErrorBody _ code) =
     (if code \<in> set AUTH_CODES then Some BLOCKED_BY_AUTH
      else if code = ''REPLAY_ATTACK_DETECTED'' then Some BLOCKED_BY_REPLAY
      else if code = ''RATE_LIMITED'' then Some BLOCKED_BY_SIS
      else if code = ''SECURITY_VIOLATION'' \<or> code = ''WAF_BLOCKED'' then Some BLOCKED_BY_WASM
      else if code = ''CONSENSUS_FAILED'' then Some BLOCKED_BY_ORACLE
      else None)"

definition audited :: "('b, 's) gateway_env \<Rightarrow> IpAddr \<Rightarrow> Reply \<Rightarrow> ('k, 'b, 's) AppState \<Rightarrow> ('k, 'b, 's) AppState \<Rightarrow> bool" where
  "audited ge ip rp st st' =
     (case audit_of (rp_body rp) of
        None \<Rightarrow> st_compliance st' = st_compliance st
      | Some act \<Rightarrow> (\<exists>t p. st_compliance st' =
          snd (emit (ge_try_send ge) (AuditEvent_new (ge_stamp ge) t (ge_show_ip ge ip) p act) (st_compliance st))))"

lemma auditedI [intro]:
  "audit_of (rp_body rp) = Some act \<Longrightarrow> st_compliance st1 = st_compliance st \<Longrightarrow> audited ge ip rp st (emit_audit_event ge t ip p act st1)"
  "audit_of (rp_body rp) = None \<Longrightarrow> audited ge ip rp st st"
  by (auto simp: audited_def emit_audit_event_def)

lemma audited_update [simp]:
  "audited ge ip rp (st\<lparr>st_budget := s\<rparr>) st' = audited ge ip rp st st'"
  "audited ge ip rp st (st'\<lparr>st_budget := s\<rparr>) = audited ge ip rp st st'"
  "audited ge ip rp (st\<lparr>st_limiter := l\<rparr>) st' = audited ge ip rp st st'"
  "audited ge ip rp (st\<lparr>st_nonces := nc\<rparr>) st' = audited ge ip rp st st'"
  by (simp_all add: audited_def split: option.split)

text \<open>What each stage of the handler leaves, whatever it replies.\<close>

lemma serve_agent_cases:
  obtains (refused) rp st1 where
      "serve_agent ge tenant ip (ap_network_id body) (agent_task body) st = (Inl rp, st1)"
      "\<not> (prompt_allowed ge body st \<and> consensus_achieved (agent_result ge tenant body) \<and> serialisable ge (agent_result ge tenant body))"
      "rp_status rp \<in> {400, 403, 409, 500}" "st_budget st1 = st_budget st" "audited ge ip rp st st1"
  | (answered) rp b st1 where
      "serve_agent ge tenant ip (ap_network_id body) (agent_task body) st = (Inr rp, st1)"
      "prompt_allowed ge body st" "consensus_achieved (agent_result ge tenant body)" "serialisable ge (agent_result ge tenant body)"
      "rp_status rp = 200" "rp_body rp = AgentBody b" "st_budget st1 = st_budget st" "audited ge ip rp st st1" "ar_tenant_id b = tenant"
      "ar_payload b = Option.bind (majority_output (agent_result ge tenant body)) (ge_from_llm_output ge)"
proof -
  let ?r = "agent_result ge tenant body"
  let ?serve = "serve_agent ge tenant ip (ap_network_id body) (agent_task body) st"
  have blocked: thesis
    if "?serve = (Inl (error_reply n err code), emit_audit_event ge tenant ip p act st)" "n \<in> {400, 403, 409, 500}"
      "audit_of (ErrorBody err code) = Some act" "\<not> (prompt_allowed ge body st \<and> consensus_achieved ?r)" for n err code p act
    by (rule refused [OF that(1)]) (use that in \<open>auto simp: error_reply_def\<close>)
  consider (net) "\<not> valid_network_id (ap_network_id body)"
    | (task) "valid_network_id (ap_network_id body)" "\<not> valid_task_type (agent_task body)"
    | (waf) v where "valid_network_id (ap_network_id body)" "valid_task_type (agent_task body)"
        "scan (ge_find_first ge) (st_waf st) (agent_prompt (ap_network_id body) (agent_task body)) = WafBlocked v"
    | (split) "prompt_allowed ge body st" "\<not> consensus_achieved ?r"
    | (ok) "prompt_allowed ge body st" "consensus_achieved ?r"
    by (cases "scan (ge_find_first ge) (st_waf st) (agent_prompt (ap_network_id body) (agent_task body))")
      (auto simp: prompt_allowed_def)
  then show ?thesis
  proof cases
    case net
    then show ?thesis
      by (intro refused) (auto simp: serve_agent_def prompt_allowed_def reply_simps AUTH_CODES_def)
  next
    case task
    then show ?thesis
      by (intro blocked) (auto simp: serve_agent_def prompt_allowed_def AUTH_CODES_def)
  next
    case waf
    then show ?thesis
      by (intro blocked) (auto simp: serve_agent_def Let_def prompt_allowed_def AUTH_CODES_def)
  next
    case split
    let ?err = "''TMR consensus failed: no majority agreement among '' @ dec (unat (of_nat (total_nodes ?r) :: u8)) @ '' providers''"
    have "?serve = (Inl (error_reply 409 ?err ''CONSENSUS_FAILED''), emit_audit_event ge tenant ip ''TMR consensus failed'' BLOCKED_BY_ORACLE st)"
      using split by (simp add: serve_agent_def prompt_allowed_def agent_result_def Let_def)
    then show ?thesis by (rule blocked) (use split in \<open>simp_all add: AUTH_CODES_def\<close>)
  next
    case ok
    then have e: "serve_agent ge tenant ip (ap_network_id body) (agent_task body) st
        = answer_agent ge tenant ip (agent_prompt (ap_network_id body) (agent_task body)) ?r st"
      by (simp add: serve_agent_def prompt_allowed_def agent_result_def Let_def)
    show ?thesis
    proof (cases rule: answer_agent_cases [of ge ?r tenant ip "agent_prompt (ap_network_id body) (agent_task body)" st])
      case refused
      with e show ?thesis by (intro that(1)) (auto simp: reply_simps AUTH_CODES_def)
    next
      case (answered st1 p b)
      show ?thesis
        by (rule that(2) [OF trans [OF e answered(2)]]) (use ok answered in \<open>auto simp: reply_simps\<close>)
    qed
  qed
qed

lemma auth_error_audited:
  "audit_of (ErrorBody err ''MISSING_AUTH_HEADER'') = Some BLOCKED_BY_AUTH"
  "audit_of (ErrorBody err ''MISSING_NONCE'') = Some BLOCKED_BY_AUTH"
  "audit_of (ErrorBody err ''MISSING_TIMESTAMP'') = Some BLOCKED_BY_AUTH"
  "audit_of (ErrorBody err ''REPLAY_ATTACK_DETECTED'') = Some BLOCKED_BY_REPLAY"
  "audit_of (ErrorBody err (auth_error_code e)) = Some (if e = ReplayDetected then BLOCKED_BY_REPLAY else BLOCKED_BY_AUTH)"
  by (simp_all add: AUTH_CODES_def) (cases e; simp add: AUTH_CODES_def)

lemma check_agent_auth_cases:
  assumes "check_agent_auth ge tenant ip h (ap_network_id body) (agent_task body) st = Some (x, st1)"
  obtains (refused) rp where "x = Inl rp" "\<not> authenticated ge tenant body h st" "rp_status rp = 401" "st_budget st1 = st_budget st"
      "audited ge ip rp st st1"
  | (passed) nc where "x = Inr ()" "authenticated ge tenant body h st" "st1 = st\<lparr>st_nonces := nc\<rparr>"
proof (cases x)
  case (Inl rp)
  have "\<not> authenticated ge tenant body h st \<and> rp_status rp = 401 \<and> st_budget st1 = st_budget st"
    using assms Inl
    by (auto simp: check_agent_auth_def validate_request_def map_option_case authenticated_def signed_message_def reply_simps Let_def
        split: option.split_asm if_split_asm sum.split_asm prod.split_asm)
  moreover have "audited ge ip rp st st1"
    using assms Inl
    by (auto simp: check_agent_auth_def validate_request_def map_option_case error_reply_def Let_def auth_error_audited simp del: audit_of.simps
        split: option.split_asm if_split_asm sum.split_asm prod.split_asm intro!: auditedI)
  ultimately show ?thesis using Inl refused by blast
next
  case (Inr u)
  have "authenticated ge tenant body h st"
    using assms Inr
    by (auto simp: check_agent_auth_def validate_request_def map_option_case authenticated_def signed_message_def Let_def
        split: option.split_asm if_split_asm sum.split_asm prod.split_asm)
  moreover have "st1 = st \<or> (\<exists>nc. st1 = st\<lparr>st_nonces := nc\<rparr>)"
    using assms Inr
    by (auto simp: check_agent_auth_def validate_request_def map_option_case Let_def split: option.split_asm if_split_asm sum.split_asm prod.split_asm)
  moreover have "st = st\<lparr>st_nonces := st_nonces st\<rparr>" by simp
  ultimately show ?thesis using Inr passed by (metis old.unit.exhaust)
qed

lemma budgeted_eq:
  "budgeted ge tenant ip i serve st =
     (case serve st of
        (Inl rp, st1) \<Rightarrow> (rp, st1\<lparr>st_budget := snd (refund_tokens (ge_redis ge) (ge_refund_fate ge) tenant 1 i (st_budget st1))\<rparr>)
      | (Inr rp, st1) \<Rightarrow> (rp, st1))"
  by (simp add: budgeted_def deduct_tokens_def rg_drop_def rg_consume_def FinOpsRefundGuard_new_def split: prod.split sum.split)

text \<open>The handler as a whole, by the stage that replies.\<close>

definition request_id :: "headers \<Rightarrow> string" where
  "request_id h = (case header_str h ''x-request-id'' of Some i \<Rightarrow> i | None \<Rightarrow> ''unknown'')"

lemma handle_agent_cases:
  fixes ge :: "('b, 's) gateway_env" and st :: "('k, 'b, 's) AppState"
  assumes "handle_agent_execution ge socket h body st = Some (rp, st')"
  defines "ip \<equiv> extract_trusted_ip (ge_parse_ip ge) h socket"
  obtains (early) "rp_status rp \<in> {401, 429}" "st_budget st' = st_budget st" "audited ge ip rp st st'"
      "\<nexists>tenant. extract_tenant_id h = Inr tenant \<and> authenticated ge tenant body h st
         \<and> (\<exists>l. acquire_api_token (ge_now ge) tenant (st_limiter st) = (Inr (), l))"
  | (served) tenant l nc where "extract_tenant_id h = Inr tenant" "authenticated ge tenant body h st"
      "acquire_api_token (ge_now ge) tenant (st_limiter st) = (Inr (), l)"
      "(rp, st') = budgeted ge tenant ip (request_id h) (serve_agent ge tenant ip (ap_network_id body) (agent_task body))
         (st\<lparr>st_nonces := nc, st_limiter := l\<rparr>)"
proof (cases "extract_tenant_id h")
  case (Inl n)
  then have "n = 401" by (auto simp: extract_tenant_id_def split: option.splits if_splits)
  with Inl show ?thesis
    using assms by (intro early) (auto simp: handle_agent_execution_def error_reply_def AUTH_CODES_def Let_def intro!: auditedI)
next
  case (Inr tenant)
  note h = assms(1) [unfolded handle_agent_execution_def agent_task_def [symmetric] request_id_def [symmetric] Let_def Inr sum.case,
      folded ip_def]
  then obtain x st1 where x: "check_agent_auth ge tenant ip h (ap_network_id body) (agent_task body) st = Some (x, st1)"
    by (auto split: option.splits)
  show ?thesis
    using x
  proof (cases rule: check_agent_auth_cases)
    case refused
    with Inr x h show ?thesis by (intro early) auto
  next
    case (passed nc)
    obtain y l where y: "acquire_api_token (ge_now ge) tenant (st_limiter st) = (y, l)" by (cases "acquire_api_token (ge_now ge) tenant (st_limiter st)")
    show ?thesis
    proof (cases y)
      case (Inl e)
      with passed x y h \<open>extract_tenant_id h = Inr tenant\<close> show ?thesis
        by (intro early) (auto simp: error_reply_def AUTH_CODES_def intro!: auditedI)
    next
      case (Inr u)
      with passed x y h \<open>extract_tenant_id h = Inr tenant\<close> show ?thesis
        by (intro served [of tenant l nc]) auto
    qed
  qed
qed

lemma authenticated_no_panic:
  "authenticated ge tenant body h st \<Longrightarrow> \<exists>x. check_agent_auth ge tenant ip h (ap_network_id body) (agent_task body) st = Some x"
  by (auto simp: authenticated_def check_agent_auth_def validate_request_def signed_message_def Let_def split: option.splits)

lemma served_ok_iff:
  assumes "(rp, st') = budgeted ge tenant ip i (serve_agent ge tenant ip (ap_network_id body) (agent_task body))
         (st\<lparr>st_nonces := nc, st_limiter := l\<rparr>)"
  shows "rp_status rp = 200 \<longleftrightarrow> prompt_allowed ge body st \<and> consensus_achieved (agent_result ge tenant body)
      \<and> serialisable ge (agent_result ge tenant body)"
  using assms
  by (cases rule: serve_agent_cases [of ge tenant ip body "st\<lparr>st_nonces := nc, st_limiter := l\<rparr>"])
    (auto simp: budgeted_eq prompt_allowed_def)

lemma authenticated_total:
  assumes "extract_tenant_id h = Inr tenant" "authenticated ge tenant body h st"
  shows "\<exists>rp st'. handle_agent_execution ge socket h body st = Some (rp, st')"
proof -
  let ?ip = "extract_trusted_ip (ge_parse_ip ge) h socket"
  obtain x st1 where "check_agent_auth ge tenant ?ip h (ap_network_id body) (agent_task body) st = Some (x, st1)"
    using authenticated_no_panic [OF assms(2)] by (metis surj_pair)
  then show ?thesis
    using assms(1) by (auto simp: handle_agent_execution_def agent_task_def Let_def split: sum.split prod.split)
qed

text \<open>
  C6: A request is answered exactly when it names a tenant, is authenticated where a token is
  configured, the tenant has a token of the rate limiter, the two identifiers are well formed, the
  scanner finds nothing in the prompt, the orchestrator reports consensus and its payload can be
  written. No other combination gives the status 200, and in particular no panic does.
\<close>

theorem agent_answered_iff:
  "(\<exists>rp st'. handle_agent_execution ge socket h body st = Some (rp, st') \<and> rp_status rp = 200)
     \<longleftrightarrow> (\<exists>tenant. extract_tenant_id h = Inr tenant \<and> authenticated ge tenant body h st
           \<and> fst (acquire_api_token (ge_now ge) tenant (st_limiter st)) = Inr ()
           \<and> prompt_allowed ge body st \<and> consensus_achieved (agent_result ge tenant body)
           \<and> serialisable ge (agent_result ge tenant body))"
    (is "?l \<longleftrightarrow> ?r")
proof
  assume ?l
  then obtain rp st' where h: "handle_agent_execution ge socket h body st = Some (rp, st')" and ok: "rp_status rp = 200" by blast
  from h show ?r
  proof (cases rule: handle_agent_cases)
    case early
    with ok show ?thesis by simp
  next
    case (served tenant l nc)
    with ok served_ok_iff [OF served(4)] show ?thesis by auto
  qed
next
  assume ?r
  then obtain tenant where t: "extract_tenant_id h = Inr tenant" "authenticated ge tenant body h st"
      "fst (acquire_api_token (ge_now ge) tenant (st_limiter st)) = Inr ()" and p: "prompt_allowed ge body st"
      "consensus_achieved (agent_result ge tenant body)" "serialisable ge (agent_result ge tenant body)" by blast
  obtain rp st' where h: "handle_agent_execution ge socket h body st = Some (rp, st')" using authenticated_total [OF t(1,2)] by blast
  from h show ?l
  proof (cases rule: handle_agent_cases)
    case early
    with t show ?thesis by (metis prod.collapse)
  next
    case (served tenant' l nc)
    with t p served_ok_iff [OF served(4)] have "rp_status rp = 200" by auto
    with h show ?thesis by blast
  qed
qed


text \<open>
  C37: The budget after a request. A request that is answered, not authenticated or rate limited leaves
  the balance; every other one credits the tenant with one token, since the deduction takes nothing
  and the guard refunds it.
\<close>

theorem refused_request_credited:
  assumes "handle_agent_execution ge socket h body st = Some (rp, st')" "extract_tenant_id h = Inr tenant"
    and "redis_docs (ge_redis ge)" "ge_refund_fate ge = Replied"
    and "\<not> r_exists (ge_redis ge) (idempotency_key (request_id h)) (st_budget st)"
  shows "r_get (ge_redis ge) (balance_key tenant) (st_budget st')
       = r_get (ge_redis ge) (balance_key tenant) (st_budget st) + (if rp_status rp \<in> {200, 401, 429} then 0 else 1)"
  using assms(1)
proof (cases rule: handle_agent_cases)
  case early
  then show ?thesis by auto
next
  case (served t l nc)
  let ?ip = "extract_trusted_ip (ge_parse_ip ge) h socket"
  have t: "t = tenant" using served(1) assms(2) by simp
  show ?thesis
    using served(4) assms(4,5) refund_tokens_effect(1) [OF assms(3), where amount = 1 and t = tenant and f = Replied and r = "request_id h" and s = "st_budget st"]
    by (cases rule: serve_agent_cases [of ge tenant ?ip body "st\<lparr>st_nonces := nc, st_limiter := l\<rparr>"]) (auto simp: budgeted_eq t)
qed

section \<open>A concrete gateway\<close>

text \<open>No token configured, one token for the only tenant, a bus with room for one event.\<close>

definition example_gateway :: "(AuditEvent chan, string \<Rightarrow> int option) gateway_env" where
  "example_gateway =
     \<lparr>ge_now = 0, ge_utc = 0, ge_utc_ms = 0, ge_stamp = 0, ge_parse_ip = (\<lambda>s. None), ge_show_ip = (\<lambda>a. []), ge_nonce_order = id,
      ge_try_send = list_send 1, ge_find_first = (\<lambda>ps s. None), ge_redis = map_redis, ge_refund_fate = Replied,
      ge_show_limit = (\<lambda>e. []), ge_show_failure = (\<lambda>e. []), ge_orchestrate = (\<lambda>r. Elapsed), ge_from_llm_output = (\<lambda>s. None),
      ge_payload_string = (\<lambda>p. Inl []), ge_payload_json = (\<lambda>p. JNull), ge_event_json = (\<lambda>e. None), ge_from_json = (\<lambda>s. Inl [])\<rparr>"

definition example_state :: "(unit, AuditEvent chan, string \<Rightarrow> int option) AppState" where
  "example_state =
     \<lparr>st_kernel = example_kernel, st_recorder = \<lparr>ch_queue = [], ch_open = True\<rparr>, st_service_auth = None,
      st_nonces = NonceCacheInner_new, st_compliance = \<lparr>bus_tx = ([], True), dropped_events = 0\<rparr>, st_waf = [],
      st_wasm_module = [], st_limiter = ApiRateLimiter_new 0 1 (Fin 0) 1 (Fin 0) 1, st_budget = Map.empty\<rparr>"

definition example_headers :: headers where
  "example_headers = [(''x-serein-tenant-id'', ''t''), (''x-request-id'', ''r'')]"

lemma example_token: "\<exists>l. acquire_api_token 0 ''t'' (ApiRateLimiter_new 0 1 (Fin 0) 1 (Fin 0) 1) = (Inr (), l)"
  using sb_zero_rate_new [of 0 1]
  by (auto simp: acquire_api_token_def ApiRateLimiter_new_def tenant_entry_def hm.get_empty hm_len_def Let_def split: prod.splits)

lemma example_tenant: "extract_tenant_id example_headers = Inr ''t''"
  by (simp add: extract_tenant_id_def header_str_def example_headers_def trim_def trim_start_def trim_end_def is_ws_def)

text \<open>A request of this tenant without a network is refused with the status 400, one with a network with 409.\<close>

lemma example_refused:
  "\<exists>st'. handle_agent_execution example_gateway (V4 1) example_headers \<lparr>ap_network_id = [], ap_task_type = None\<rparr> example_state
     = Some (error_reply 400 ''network_id must be a non-empty alphanumeric string (max 64 chars)'' ''INVALID_NETWORK_ID'', st')"
proof -
  obtain l where "acquire_api_token 0 ''t'' (ApiRateLimiter_new 0 1 (Fin 0) 1 (Fin 0) 1) = (Inr (), l)" using example_token by blast
  then show ?thesis
    by (simp add: handle_agent_execution_def example_tenant check_agent_auth_def example_state_def example_gateway_def budgeted_eq
        serve_agent_def valid_network_id_def Let_def)
qed

lemma example_no_consensus:
  "\<exists>err st'. handle_agent_execution example_gateway (V4 1) example_headers \<lparr>ap_network_id = ''eth'', ap_task_type = None\<rparr> example_state
     = Some (error_reply 409 err ''CONSENSUS_FAILED'', st')"
proof -
  obtain l where "acquire_api_token 0 ''t'' (ApiRateLimiter_new 0 1 (Fin 0) 1 (Fin 0) 1) = (Inr (), l)" using example_token by blast
  then show ?thesis
    by (simp add: handle_agent_execution_def example_tenant check_agent_auth_def example_state_def example_gateway_def budgeted_eq
        serve_agent_def valid_network_id_def valid_task_type_def ascii_alphanumeric_def scan_def orchestrated_def
        TmrConsensusResult_default_def Let_def) blast
qed


theorem refused_request_credited_witness:
  "\<exists>rp st'. handle_agent_execution example_gateway (V4 1) example_headers \<lparr>ap_network_id = [], ap_task_type = None\<rparr> example_state = Some (rp, st')
     \<and> rp_status rp = 400 \<and> st_budget st' (balance_key ''t'') = Some 1"
proof -
  obtain rp st' where e: "handle_agent_execution example_gateway (V4 1) example_headers \<lparr>ap_network_id = [], ap_task_type = None\<rparr> example_state
      = Some (rp, st')" and s: "rp_status rp = 400" using example_refused by (auto simp: error_reply_def)
  have "ge_redis example_gateway = map_redis" "ge_refund_fate example_gateway = Replied" "st_budget example_state = Map.empty"
    by (simp_all add: example_gateway_def example_state_def)
  then have "r_get map_redis (balance_key ''t'') (st_budget st') = 1"
    using refused_request_credited [OF e example_tenant] redis_docs_map s by (simp add: map_redis_def)
  then show ?thesis using e s by (simp add: map_redis_def split: option.splits)
qed

section \<open>The client and the prompt\<close>

text \<open>
  A peer that is not a Cloudflare proxy cannot choose the address it is recorded under: the header
  that carries a forwarded address has no influence on any reply, audit event or other change.
\<close>

lemma other_header: "n \<noteq> m \<Longrightarrow> header_str ((m, v) # h) n = header_str h n"
  by (simp add: header_str_def)

theorem forged_address_ignored:
  assumes "\<not> is_trusted_proxy socket"
  shows "handle_agent_execution ge socket ((''cf-connecting-ip'', v) # h) body st = handle_agent_execution ge socket h body st
       \<and> handle_hot_swap ge ld socket ((''cf-connecting-ip'', v) # h) bytes st = handle_hot_swap ge ld socket h bytes st"
proof -
  have h: "header_str ((''cf-connecting-ip'', v) # h) n = header_str h n" if "n \<noteq> ''cf-connecting-ip''" for n
    using that by (rule other_header)
  have same: "extract_trusted_ip parse ((''cf-connecting-ip'', v) # h) socket = extract_trusted_ip parse h socket"
      "extract_tenant_id ((''cf-connecting-ip'', v) # h) = extract_tenant_id h"
      "header_timestamp ((''cf-connecting-ip'', v) # h) = header_timestamp h"
      "header_nonce ((''cf-connecting-ip'', v) # h) = header_nonce h" for parse
    using assms by (simp_all add: extract_trusted_ip_def extract_tenant_id_def header_timestamp_def header_nonce_def h)
  have swap: "check_swap_auth ge tenant ((''cf-connecting-ip'', v) # h) st = check_swap_auth ge tenant h st" for tenant
    by (simp add: check_swap_auth_def same h split: option.split)
  have "handle_agent_execution ge socket ((''cf-connecting-ip'', v) # h) body st = handle_agent_execution ge socket h body st"
    by (simp add: handle_agent_execution_def check_agent_auth_def same h cong: if_cong option.case_cong sum.case_cong)
  moreover have "handle_hot_swap ge ld socket ((''cf-connecting-ip'', v) # h) bytes st = handle_hot_swap ge ld socket h bytes st"
    by (cases "extract_tenant_id h") (simp_all add: handle_hot_swap_def same swap)
  ultimately show ?thesis ..
qed

lemma private_peer_untrusted: "\<not> is_trusted_proxy (v4 10 0 0 1)"
  by (simp add: is_trusted_proxy_def CLOUDFLARE_CIDRS_def v4_def v6_def drop_bit_eq_div)

theorem forged_address_ignored_witness:
  "handle_agent_execution example_gateway (v4 10 0 0 1) [(''cf-connecting-ip'', ''8.8.8.8'')] \<lparr>ap_network_id = [], ap_task_type = None\<rparr> example_state
   = handle_agent_execution example_gateway (v4 10 0 0 1) [] \<lparr>ap_network_id = [], ap_task_type = None\<rparr> example_state"
  using forged_address_ignored [OF private_peer_untrusted] by blast

definition punctuation :: "char \<Rightarrow> bool" where
  "punctuation c \<longleftrightarrow> c \<in> set ''{}[]<>:,.;()!?/='' \<or> c = CHR 0x22 \<or> c = CHR 0x27 \<or> c = CHR 0x5C \<or> c = CHR 0x60"

lemma alphanumeric_lower: "ascii_alphanumeric c \<Longrightarrow> ascii_alphanumeric (lower c)"
  by (auto simp: ascii_alphanumeric_def lower_def Let_def)

lemma identifier_chars:
  "ascii_alphanumeric c \<Longrightarrow> \<not> punctuation c" "ascii_whitespace c \<Longrightarrow> \<not> punctuation c"
  by (auto simp: punctuation_def ascii_alphanumeric_def ascii_whitespace_def)

lemma identifiers_no_punctuation:
  "valid_network_id n \<Longrightarrow> filter punctuation (to_lowercase n) = []"
  "valid_task_type t \<Longrightarrow> filter punctuation t = []"
proof -
  have "\<not> punctuation (lower CHR ''-'')" "\<not> punctuation (lower CHR ''_'')" by (simp_all add: punctuation_def lower_def)
  then show "filter punctuation (to_lowercase n) = []" if "valid_network_id n"
    using that identifier_chars alphanumeric_lower by (auto simp: valid_network_id_def to_lowercase_def list_all_iff filter_empty_conv)
  show "filter punctuation t = []" if "valid_task_type t"
    using that identifier_chars by (auto simp: valid_task_type_def list_all_iff filter_empty_conv)
qed

text \<open>
  The two identifiers cannot change the form of the prompt: for all identifiers that pass the tests,
  the quotes, braces, brackets, colons, commas and full stops of the prompt are the same, in number
  and order.
\<close>

theorem prompt_form_fixed:
  assumes "valid_network_id n" "valid_task_type t" "valid_network_id n'" "valid_task_type t'"
  shows "filter punctuation (agent_prompt n t) = filter punctuation (agent_prompt n' t')"
  by (simp only: agent_prompt_def Let_def filter_append identifiers_no_punctuation assms)

theorem prompt_form_fixed_witness:
  "filter punctuation (agent_prompt ''ETH'' ''swap tokens'') = filter punctuation (agent_prompt ''a-1'' [])"
  by (rule prompt_form_fixed) (simp_all add: valid_network_id_def valid_task_type_def ascii_alphanumeric_def ascii_whitespace_def)

section \<open>Replacing the module\<close>

lemma check_module_ok: "check_module body = Some (Inr ()) \<longleftrightarrow> 4 \<le> length body \<and> length body \<le> MAX_MODULE_BYTES \<and> take 4 body = [0, 0x61, 0x73, 0x6D]"
  by (auto simp: check_module_def MAX_MODULE_BYTES_def)

lemma check_module_error: "check_module body = Some (Inl rp) \<Longrightarrow> rp_status rp \<in> {400, 413}"
  by (auto simp: check_module_def error_reply_def split: if_splits)

lemma check_swap_auth_keeps:
  assumes "check_swap_auth ge tenant h st = Some (x, st1)"
  shows "(\<exists>nc. st1 = st\<lparr>st_nonces := nc\<rparr>) \<and> (case x of Inl rp \<Rightarrow> rp_status rp = 401 | Inr _ \<Rightarrow> True)"
proof -
  have "st1 = st \<or> (\<exists>nc. st1 = st\<lparr>st_nonces := nc\<rparr>)"
    using assms
    by (auto simp: check_swap_auth_def validate_request_def map_option_case Let_def split: option.split_asm if_split_asm prod.split_asm)
  moreover have "st = st\<lparr>st_nonces := st_nonces st\<rparr>" by simp
  moreover have "case x of Inl rp \<Rightarrow> rp_status rp = 401 | Inr _ \<Rightarrow> True"
    using assms
    by (auto simp: check_swap_auth_def validate_request_def map_option_case map_err_def error_reply_def Let_def
        split: option.split_asm if_split_asm sum.split sum.split_asm prod.split_asm)
  ultimately show ?thesis by metis
qed

lemma reload_component_effect:
  assumes "reload_component ld bytes k = (Some r, k1)"
  shows "case r of Inl _ \<Rightarrow> k1 = k | Inr _ \<Rightarrow> \<exists>c. ld_from_binary ld bytes = Inr c \<and> tenant_component k1 = Some c"
  using assms
  by (auto simp: reload_component_def install_tenant_def install_def swap_and_forget_def hsc_swap_def tenant_component_def
      hsc_load_def HotSwapContainer_new_def split: sum.splits if_splits option.splits)

text \<open>
  Replacing the module: with the status 200 the compiled module is the one that the kernel runs for
  every tenant and its bytes are the ones stored; otherwise the kernel is as it was. But when the
  bytes do not compile they have replaced the stored ones all the same, so that from then on the
  stored module is not the one that runs.
\<close>

theorem hot_swap_outcome:
  assumes "handle_hot_swap ge ld socket h body st = Some (rp, st')"
  shows "(if rp_status rp = 200
          then \<exists>c. ld_from_binary ld body = Inr c \<and> tenant_component (st_kernel st') = Some c \<and> st_wasm_module st' = body
             \<and> take 4 body = [0, 0x61, 0x73, 0x6D]
          else st_kernel st' = st_kernel st \<and> st_wasm_module st' = (if rp_status rp = 500 then body else st_wasm_module st))"
proof (cases "extract_tenant_id h")
  case (Inl n)
  then have "n = 401" by (auto simp: extract_tenant_id_def split: option.splits if_splits)
  with Inl assms show ?thesis by (auto simp: handle_hot_swap_def error_reply_def)
next
  case (Inr tenant)
  then obtain x st1 where x: "check_swap_auth ge tenant h st = Some (x, st1)"
    using assms by (auto simp: handle_hot_swap_def split: option.splits)
  then obtain nc where st1: "st1 = st\<lparr>st_nonces := nc\<rparr>" using check_swap_auth_keeps [OF x] by blast
  show ?thesis
  proof (cases x)
    case (Inl rp0)
    with check_swap_auth_keeps [OF x] x assms Inr st1 show ?thesis by (auto simp: handle_hot_swap_def)
  next
    case r: (Inr u)
    then obtain y where y: "check_module body = Some y" using assms x Inr by (auto simp: handle_hot_swap_def split: option.splits)
    show ?thesis
    proof (cases y)
      case (Inl rp0)
      with check_module_error [of body rp0] y x r assms Inr st1 show ?thesis by (auto simp: handle_hot_swap_def)
    next
      case (Inr u')
      have c: "commit_module ge ld tenant (extract_trusted_ip (ge_parse_ip ge) h socket) body st1 = Some (rp, st')"
        using assms x r y Inr \<open>extract_tenant_id h = Inr tenant\<close> by (simp add: handle_hot_swap_def)
      obtain v k where k: "reload_component ld body (st_kernel st1) = (v, k)" by (cases "reload_component ld body (st_kernel st1)")
      then obtain q where "v = Some q" using c by (cases v) (auto simp: commit_module_def)
      with k c reload_component_effect [of ld body "st_kernel st1" q k] y Inr st1 check_module_ok [of body] show ?thesis
        by (cases q) (auto simp: commit_module_def reply_simps Let_def)
    qed
  qed
qed

lemma example_swap_auth: "check_swap_auth example_gateway ''t'' example_headers example_state = Some (Inr (), example_state)"
  by (simp add: check_swap_auth_def example_state_def)

definition broken_loader :: "unit loader" where
  "broken_loader = example_loader\<lparr>ld_from_binary := (\<lambda>b. Inl ''bad'')\<rparr>"

theorem hot_swap_outcome_witness:
  "\<exists>rp st'. handle_hot_swap example_gateway broken_loader (V4 1) example_headers [0, 0x61, 0x73, 0x6D, 1] example_state = Some (rp, st')
     \<and> st_kernel st' = st_kernel example_state \<and> st_wasm_module st' = [0, 0x61, 0x73, 0x6D, 1]"
proof -
  obtain rp st' where e: "handle_hot_swap example_gateway broken_loader (V4 1) example_headers [0, 0x61, 0x73, 0x6D, 1] example_state = Some (rp, st')"
    and s: "rp_status rp = 500"
    by (simp add: handle_hot_swap_def example_tenant example_swap_auth check_module_def MAX_MODULE_BYTES_def commit_module_def
        reload_component_def broken_loader_def error_reply_def)
  from hot_swap_outcome [OF e] show ?thesis using e s by auto
qed

text \<open>
  A module of one to three bytes takes the handler down: the slice of its first four bytes panics
  before the missing magic number can be reported.
\<close>

theorem short_module_panics:
  assumes "extract_tenant_id h = Inr tenant" "check_swap_auth ge tenant h st = Some (Inr (), st1)" "body \<noteq> []" "length body < 4"
  shows "handle_hot_swap ge ld socket h body st = None"
  using assms by (simp add: handle_hot_swap_def check_module_def MAX_MODULE_BYTES_def)

theorem short_module_panics_witness: "handle_hot_swap example_gateway example_loader (V4 1) example_headers [0] example_state = None"
  by (rule short_module_panics [OF example_tenant example_swap_auth]) simp_all

text \<open>
  The signature of a replacement does not cover the module: where one module is accepted, the same
  headers carry any other module that compiles.
\<close>

theorem swap_signature_omits_module:
  assumes "handle_hot_swap ge ld socket h body st = Some (rp, st')" "rp_status rp = 200"
    and "check_module body' = Some (Inr ())" "ld_from_binary ld body' = Inr c"
  shows "\<exists>rp' st''. handle_hot_swap ge ld socket h body' st = Some (rp', st'') \<and> rp_status rp' = 200
       \<and> tenant_component (st_kernel st'') = Some c"
proof -
  obtain tenant where t: "extract_tenant_id h = Inr tenant"
    using assms(1,2) by (auto simp: handle_hot_swap_def error_reply_def extract_tenant_id_def split: sum.splits option.splits if_splits)
  obtain x st1 where a: "check_swap_auth ge tenant h st = Some (x, st1)"
    using assms(1) t by (auto simp: handle_hot_swap_def split: option.splits)
  have x: "x = Inr ()" using assms(1,2) t a check_swap_auth_keeps [OF a] by (cases x) (auto simp: handle_hot_swap_def)
  then have m: "check_module body = Some (Inr ())"
    using assms(1,2) t a check_module_error [of body rp] by (auto simp: handle_hot_swap_def split: option.splits sum.splits)
  let ?ip = "extract_trusted_ip (ge_parse_ip ge) h socket"
  have c: "commit_module ge ld tenant ?ip body st1 = Some (rp, st')"
    using assms(1) t a x m by (simp add: handle_hot_swap_def)
  then obtain hc where "\<not> mk_tenant_poisoned (st_kernel st1)"
      "install ''tenant_component'' c (mk_tenant_component (st_kernel st1)) = Some hc" "hsc_load hc = c"
    using assms(2)
    by (auto simp: commit_module_def reload_component_def install_tenant_def install_def swap_and_forget_def hsc_swap_def hsc_load_def
        HotSwapContainer_new_def error_reply_def split: sum.splits option.splits if_splits prod.splits)
  then show ?thesis
    using assms(3,4) t a x
    by (auto simp: handle_hot_swap_def commit_module_def reload_component_def install_tenant_def reply_simps tenant_component_def)
qed

theorem swap_signature_omits_module_witness:
  "\<exists>rp' st''. handle_hot_swap example_gateway example_loader (V4 1) example_headers [0, 0x61, 0x73, 0x6D, 1] example_state = Some (rp', st'')
     \<and> rp_status rp' = 200 \<and> tenant_component (st_kernel st'') = Some ()"
proof -
  have s: "\<exists>rp st'. handle_hot_swap example_gateway example_loader (V4 1) example_headers [0, 0x61, 0x73, 0x6D] example_state = Some (rp, st')
      \<and> rp_status rp = 200"
    by (simp add: handle_hot_swap_def example_tenant example_swap_auth check_module_def MAX_MODULE_BYTES_def commit_module_def reply_simps)
      (simp add: reload_component_def install_tenant_def install_def example_loader_def example_kernel_def example_state_def
        inject_ai_transparency_headers_def)
  then show ?thesis
    using swap_signature_omits_module [of example_gateway example_loader "V4 1" example_headers "[0, 0x61, 0x73, 0x6D]" example_state
        _ _ "[0, 0x61, 0x73, 0x6D, 1]" "()"]
    by (auto simp: check_module_def MAX_MODULE_BYTES_def example_loader_def)
qed

section \<open>Start-up and healing\<close>

text \<open>
  In production the process does not start with the token of the example file or without one, so that
  the authenticator of the handlers exists and has a secret of its own.
\<close>

theorem production_authenticates:
  assumes "env ''APP_ENV'' = Some ''production''" "\<not> insecure_token env"
  shows "\<exists>a. ServiceAuthenticator_from_env env = Inr a \<and> sa_secret a \<noteq> ''generate_a_random_uuid_here'' \<and> trim (sa_secret a) \<noteq> []"
proof -
  have "trim [] = []" by (simp add: trim_def trim_start_def trim_end_def)
  with assms show ?thesis
    by (auto simp: insecure_token_def ServiceAuthenticator_from_env_def Let_def split: option.splits)
qed

theorem production_authenticates_witness:
  "\<exists>a. ServiceAuthenticator_from_env [''APP_ENV'' \<mapsto> ''production'', ''SEREIN_INTERNAL_TOKEN'' \<mapsto> ''k''] = Inr a \<and> trim (sa_secret a) \<noteq> []"
proof -
  have "\<not> insecure_token [''APP_ENV'' \<mapsto> ''production'', ''SEREIN_INTERNAL_TOKEN'' \<mapsto> ''k'']"
    by (simp add: insecure_token_def trim_def trim_start_def trim_end_def is_ws_def)
  from production_authenticates [OF _ this] show ?thesis by auto
qed

text \<open>
  Rounds of the healing task. A node that was disabled at run time is back after the first probe that
  gets a permit; a node whose endpoint is disabled, as every node in lazy mode, never comes back,
  however many probes are sent.
\<close>

fun heal_rounds :: "(permit \<times> instant \<times> u64) list \<Rightarrow> PhysicalFallbackNode \<Rightarrow> PhysicalFallbackNode may_panic" where
  "heal_rounds [] n = Some n"
| "heal_rounds ((pm, now, ms) # rs) n = Option.bind (heal pm now ms n) (heal_rounds rs)"

lemma heal_endpoint: "heal pm now ms n = Some n1 \<Longrightarrow> fn_endpoint n1 = fn_endpoint n"
  by (auto simp: heal_def fn_invoke_def fn_enable_def Let_def split: if_splits permit.splits option.splits)

lemma heal_available:
  assumes "heal pm now ms n = Some n1" "ep_enabled (fn_endpoint n)" "2 \<le> unat (max_input_tokens (fn_endpoint n))"
  shows "fn_is_available n1 \<longleftrightarrow> fn_is_available n \<or> pm = Granted"
proof -
  have "4 < unat m" if m: "checked_mul (max_input_tokens (fn_endpoint n)) 4 = Some m" for m
  proof -
    have "unat m = unat (max_input_tokens (fn_endpoint n)) * unat (4 :: usize)"
      using m unat_mult_lem [of "max_input_tokens (fn_endpoint n)" "4 :: usize"] by (auto simp: checked_mul_def split: if_splits)
    with assms(3) show ?thesis by simp
  qed
  then show ?thesis
    using assms
    by (auto simp: heal_def fn_invoke_def fn_enable_def fn_is_available_def fn_failure_def Let_def
        split: if_splits permit.splits option.splits)
qed

theorem healing_outcome:
  assumes "heal_rounds rs n = Some n1" "2 \<le> unat (max_input_tokens (fn_endpoint n))"
  shows "fn_is_available n1 \<longleftrightarrow> ep_enabled (fn_endpoint n) \<and> (fn_is_available n \<or> Granted \<in> fst ` set rs)"
  using assms
proof (induction rs arbitrary: n)
  case Nil
  then show ?case by (auto simp: fn_is_available_def)
next
  case (Cons r rs)
  obtain pm now ms where r: "r = (pm, now, ms)" by (cases r)
  with Cons.prems(1) obtain n2 where h: "heal pm now ms n = Some n2" "heal_rounds rs n2 = Some n1"
    by (auto split: bind_splits)
  show ?case
    using Cons.IH [OF h(2)] Cons.prems(2) heal_endpoint [OF h(1)] heal_available [OF h(1)] r by auto
qed

theorem healing_outcome_witness:
  "\<exists>n1. heal_rounds [(WaitTimedOut, 0, 0), (Granted, 1, 0)] (fn_disable (PhysicalFallbackNode_new (WasiNnEndpoint_new ''m'' ''p''))) = Some n1
     \<and> fn_is_available n1"
proof -
  let ?n = "fn_disable (PhysicalFallbackNode_new (WasiNnEndpoint_new ''m'' ''p''))"
  obtain n1 where e: "heal_rounds [(WaitTimedOut, 0, 0), (Granted, 1, 0)] ?n = Some n1"
    by (simp add: heal_def fn_invoke_def fn_disable_def fn_is_available_def fn_failure_def PhysicalFallbackNode_new_def
        WasiNnEndpoint_new_def checked_mul_def Let_def)
  have "fn_is_available n1 \<longleftrightarrow> ep_enabled (fn_endpoint ?n) \<and> (fn_is_available ?n \<or> Granted \<in> fst ` set [(WaitTimedOut, 0 :: nat, 0 :: u64), (Granted, 1, 0)])"
    by (rule healing_outcome [OF e]) (simp add: fn_disable_def PhysicalFallbackNode_new_def WasiNnEndpoint_new_def)
  then show ?thesis using e by (simp add: fn_disable_def PhysicalFallbackNode_new_def WasiNnEndpoint_new_def)
qed

end
