(* ===== verification/Sidecar.thy ===== *)
theory Sidecar
  imports Text Json "HOL-Library.Sublist"
begin

text \<open>
  \<open>apps/gateway/src/bin/scheduler.rs\<close>: the process that uploads the corpus of consensus events line
  by line and remembers in a cursor file how far it has come.

  The file system is the state: the corpus, the cursor file, and whether the steps that replace the
  cursor succeed. The collector behind the HTTP client is a state of any type with a function \<open>post\<close>
  that answers a record; JSON, UTF-8 and the text of errors are arguments. A file is a list of bytes.
\<close>

section \<open>One cycle\<close>

datatype post_result = Status nat | NetworkFailure string

type_synonym 's collector = "json \<Rightarrow> 's \<Rightarrow> post_result \<times> 's"

record disk =
  dk_corpus :: "string option"
  dk_cursor :: "string option"

record sidecar_env =
  se_parse :: "string \<Rightarrow> json option"
  se_utf8 :: "string \<Rightarrow> bool"
  se_read_cursor :: "string option"
  se_open_corpus :: "string option"
  se_replace_cursor :: "string option"
  se_show_status :: "nat \<Rightarrow> string"

text \<open>\<open>read_line\<close>: up to and with the next line feed, or the rest.\<close>

fun read_line :: "string \<Rightarrow> string \<times> string" where
  "read_line [] = ([], [])"
| "read_line (c # cs) = (if c = CHR 0x0A then ([c], cs) else let (l, rest) = read_line cs in (c # l, rest))"

lemma read_line_append: "read_line s = (l, rest) \<Longrightarrow> s = l @ rest"
  by (induction s arbitrary: l rest) (auto split: if_splits prod.splits)

lemma read_line_shorter: "length (snd (read_line (c # cs))) < length (c # cs)"
proof -
  obtain l rest where r: "read_line (c # cs) = (l, rest)" by (cases "read_line (c # cs)")
  then have "l \<noteq> []" by (auto split: if_splits prod.splits)
  moreover have "length (c # cs) = length l + length rest" using read_line_append [OF r] by (metis length_append)
  ultimately show ?thesis by (simp only: r snd_conv) simp
qed

function read_lines :: "string \<Rightarrow> string list" where
  "read_lines [] = []"
| "read_lines (c # cs) = fst (read_line (c # cs)) # read_lines (snd (read_line (c # cs)))"
  by pat_completeness auto
termination
  by (relation "measure length") (use read_line_shorter in auto)

definition success_status :: "nat \<Rightarrow> bool" where
  "success_status n \<longleftrightarrow> 200 \<le> n \<and> n < 300"

text \<open>
  The loop over the lines: the number of uploaded records and of bytes to advance, or the error that
  ends the cycle.
\<close>

fun sync_lines :: "sidecar_env \<Rightarrow> 's collector \<Rightarrow> string list \<Rightarrow> nat \<times> nat \<Rightarrow> 's \<Rightarrow> (string + nat \<times> nat) \<times> 's" where
  "sync_lines se post [] acc s = (Inr acc, s)"
| "sync_lines se post (l # ls) (synced, advanced) s =
     (if \<not> se_utf8 se l then (Inl ''stream did not contain valid UTF-8'', s)
      else case se_parse se l of
        None \<Rightarrow> sync_lines se post ls (synced, advanced + length l) s
      | Some record \<Rightarrow>
          (case post record s of
             (Status n, s1) \<Rightarrow>
               if success_status n then sync_lines se post ls (synced + 1, advanced + length l) s1
               else if n = 400 then sync_lines se post ls (synced, advanced + length l) s1
               else (Inl (''Systemic sync failure - HTTP '' @ se_show_status se n), s1)
           | (NetworkFailure e, s1) \<Rightarrow> (Inl (''Systemic sync failure - network error: '' @ e), s1)))"

definition parse_cursor :: "string \<Rightarrow> nat" where
  "parse_cursor t = (case parse_unsigned 64 (trim t) of Some n \<Rightarrow> n | None \<Rightarrow> 0)"

definition start_cursor :: "disk \<Rightarrow> string \<Rightarrow> nat" where
  "start_cursor d corpus =
     (let c = (case dk_cursor d of Some t \<Rightarrow> parse_cursor t | None \<Rightarrow> 0) in if length corpus < c then 0 else c)"

definition write_cursor :: "sidecar_env \<Rightarrow> nat \<Rightarrow> disk \<Rightarrow> (string + unit) \<times> disk" where
  "write_cursor se c d =
     (case se_replace_cursor se of Some e \<Rightarrow> (Inl e, d) | None \<Rightarrow> (Inr (), d\<lparr>dk_cursor := Some (dec c)\<rparr>))"

definition sync_cycle :: "sidecar_env \<Rightarrow> 's collector \<Rightarrow> disk \<times> 's \<Rightarrow> (string + unit) \<times> disk \<times> 's" where
  "sync_cycle se post = (\<lambda>(d, s).
     case dk_corpus d of
       None \<Rightarrow> (Inr (), d, s)
     | Some corpus \<Rightarrow>
         (case (if dk_cursor d = None then None else se_read_cursor se) of
            Some e \<Rightarrow> (Inl e, d, s)
          | None \<Rightarrow>
              (case se_open_corpus se of
                 Some e \<Rightarrow> (Inl e, d, s)
               | None \<Rightarrow>
                   let c = start_cursor d corpus
                   in case sync_lines se post (read_lines (drop c corpus)) (0, 0) s of
                        (Inl e, s1) \<Rightarrow> (Inl e, d, s1)
                      | (Inr (synced, advanced), s1) \<Rightarrow>
                          if 0 < advanced
                          then let (r, d1) = write_cursor se (c + advanced) d in (r, d1, s1)
                          else (Inr (), d, s1))))"

text \<open>
  The process: at the start it removes what an interrupted replacement of the cursor left, then it
  repeats the cycle; a cycle is skipped when the address or the key of the collector is missing.
\<close>

definition sidecar_round :: "string \<Rightarrow> string \<Rightarrow> sidecar_env \<Rightarrow> 's collector \<Rightarrow> disk \<times> 's \<Rightarrow> disk \<times> 's" where
  "sidecar_round url key se post x = (if url \<noteq> [] \<and> key \<noteq> [] then snd (sync_cycle se post x) else x)"

section \<open>Lines and records\<close>

lemma concat_read_lines [simp]: "concat (read_lines s) = s"
  by (induction s rule: read_lines.induct) (use read_line_append in \<open>auto simp del: read_line.simps intro: surjective_pairing\<close>)

definition complete :: "string \<Rightarrow> bool" where
  "complete s \<longleftrightarrow> s = [] \<or> last s = CHR 0x0A"

lemma read_line_complete:
  "s \<noteq> [] \<Longrightarrow> complete s \<Longrightarrow> read_line (s @ t) = (fst (read_line s), snd (read_line s) @ t) \<and> complete (snd (read_line s))"
  by (induction s) (auto simp: complete_def split: if_splits prod.splits)

lemma read_lines_append: "complete s \<Longrightarrow> read_lines (s @ t) = read_lines s @ read_lines t"
proof (induction s rule: read_lines.induct)
  case (2 c cs)
  show ?case
    using 2 read_line_complete [of "c # cs" t] by (simp del: read_line.simps)
qed simp

lemma read_lines_unterminated: "CHR 0x0A \<notin> set s \<Longrightarrow> s \<noteq> [] \<Longrightarrow> read_lines s = [s]"
proof -
  have "CHR 0x0A \<notin> set s \<Longrightarrow> read_line s = (s, [])" by (induction s) auto
  then show "CHR 0x0A \<notin> set s \<Longrightarrow> s \<noteq> [] \<Longrightarrow> read_lines s = [s]" by (cases s) (simp_all del: read_line.simps)
qed

lemma read_lines_one: "CHR 0x0A \<notin> set s \<Longrightarrow> read_lines (s @ [CHR 0x0A]) = [s @ [CHR 0x0A]]"
proof -
  have "CHR 0x0A \<notin> set s \<Longrightarrow> read_line (s @ [CHR 0x0A]) = (s @ [CHR 0x0A], [])" by (induction s) auto
  then show "CHR 0x0A \<notin> set s \<Longrightarrow> read_lines (s @ [CHR 0x0A]) = [s @ [CHR 0x0A]]"
    by (cases "s @ [CHR 0x0A]") (simp_all del: read_line.simps)
qed

definition records :: "(string \<Rightarrow> json option) \<Rightarrow> string list \<Rightarrow> json list" where
  "records parse ls = List.map_filter parse ls"

lemma records_simps [simp]:
  "records parse [] = []"
  "records parse (l # ls) = (case parse l of None \<Rightarrow> records parse ls | Some r \<Rightarrow> r # records parse ls)"
  "records parse (ls @ ms) = records parse ls @ records parse ms"
  by (auto simp: records_def map_filter_def split: option.splits)

text \<open>A collector whose answers may depend on everything before, with the log of what it was sent.\<close>

type_synonym post_log = "(json \<times> post_result) list"

definition logging :: "(nat \<Rightarrow> json \<Rightarrow> post_result) \<Rightarrow> post_log collector" where
  "logging ans r hist = (ans (length hist) r, hist @ [(r, ans (length hist) r)])"

fun settled :: "post_result \<Rightarrow> bool" where
  "settled (Status n) = (success_status n \<or> n = 400)"
| "settled (NetworkFailure e) = False"

lemma sync_lines_log:
  assumes "sync_lines se (logging ans) ls acc hist = (r, hist')"
  shows "\<exists>new. hist' = hist @ new
     \<and> (case r of
          Inr (n, b) \<Rightarrow> map fst new = records (se_parse se) ls \<and> list_all (settled \<circ> snd) new
            \<and> b = snd acc + length (concat ls) \<and> list_all (se_utf8 se) ls
        | Inl e \<Rightarrow> (\<exists>rest. map fst new @ rest = records (se_parse se) ls))"
  using assms
proof (induction ls arbitrary: acc hist)
  case (Cons l ls)
  obtain n b where acc: "acc = (n, b)" by (cases acc)
  show ?case
  proof (cases "se_utf8 se l")
    case utf8: True
    show ?thesis
    proof (cases "se_parse se l")
      case None
      with Cons.prems acc utf8 have "sync_lines se (logging ans) ls (n, b + length l) hist = (r, hist')" by simp
      from Cons.IH [OF this] show ?thesis using None utf8 acc by (auto split: sum.splits)
    next
      case (Some q)
      define x where "x = ans (length hist) q"
      have post: "logging ans q hist = (x, hist @ [(q, x)])" by (simp add: logging_def x_def)
      show ?thesis
      proof (cases "settled x")
        case True
        then obtain m where "sync_lines se (logging ans) ls (m, b + length l) (hist @ [(q, x)]) = (r, hist')"
          using Cons.prems acc utf8 Some by (cases x) (auto simp: post split: if_splits)
        from Cons.IH [OF this] obtain new where new: "hist' = (hist @ [(q, x)]) @ new
          \<and> (case r of Inr (n, b') \<Rightarrow> map fst new = records (se_parse se) ls \<and> list_all (settled \<circ> snd) new
             \<and> b' = snd (m, b + length l) + length (concat ls) \<and> list_all (se_utf8 se) ls
           | Inl e \<Rightarrow> (\<exists>rest. map fst new @ rest = records (se_parse se) ls))" ..
        show ?thesis
          by (rule exI [of _ "(q, x) # new"], cases r) (use new Some True utf8 acc in auto)
      next
        case False
        then have "hist' = hist @ [(q, x)]" "\<exists>e. r = Inl e"
          using Cons.prems acc utf8 Some by (cases x; auto simp: post split: if_splits)+
        then show ?thesis using Some by auto
      qed
    qed
  qed (use Cons.prems acc in auto)
qed auto

section \<open>What a cycle does\<close>

lemma trim_dec [simp]: "trim (dec n) = dec n"
proof -
  have "\<not> is_ws c" if "c \<in> set (dec n)" for c
    using that set_dec [of n] by (auto simp: is_ws_def)
  then have "\<not> is_ws (hd (dec n)) \<and> \<not> is_ws (last (dec n))" if "dec n \<noteq> []"
    using that by simp
  then show ?thesis by (metis trim_def trim_start_no_ws trim_end_no_ws)
qed

lemma parse_cursor_dec: "n < 2 ^ 64 \<Longrightarrow> parse_cursor (dec n) = n"
  by (simp add: parse_cursor_def parse_unsigned_dec)

lemma cycle_ok:
  assumes "sync_cycle se (logging ans) (d, hist) = (Inr (), d', hist')" "dk_corpus d = Some corpus"
  shows "\<exists>new. hist' = hist @ new \<and> map fst new = records (se_parse se) (read_lines (drop (start_cursor d corpus) corpus))
     \<and> list_all (settled \<circ> snd) new
     \<and> d' = (if start_cursor d corpus < length corpus then d\<lparr>dk_cursor := Some (dec (length corpus))\<rparr> else d)"
proof -
  let ?c = "start_cursor d corpus"
  obtain r h where run: "sync_lines se (logging ans) (read_lines (drop ?c corpus)) (0, 0) hist = (r, h)" by fastforce
  from assms run obtain n b where r: "r = Inr (n, b)"
    by (cases r) (auto simp: sync_cycle_def Let_def split: option.splits if_splits)
  from sync_lines_log [OF run] r obtain new where new: "h = hist @ new"
    "map fst new = records (se_parse se) (read_lines (drop ?c corpus))" "list_all (settled \<circ> snd) new" "b = length corpus - ?c"
    by auto
  have "?c \<le> length corpus" by (simp add: start_cursor_def Let_def)
  then have "hist' = h \<and> d' = (if ?c < length corpus then d\<lparr>dk_cursor := Some (dec (length corpus))\<rparr> else d)"
    using assms run r new(4) by (auto simp: sync_cycle_def write_cursor_def Let_def split: option.splits if_splits)
  with new show ?thesis by auto
qed

lemma cycle_err:
  assumes "sync_cycle se (logging ans) (d, hist) = (Inl e, d', hist')"
  shows "d' = d \<and> (\<exists>new. hist' = hist @ new)"
proof (cases "dk_corpus d")
  case (Some corpus)
  let ?ls = "read_lines (drop (start_cursor d corpus) corpus)"
  obtain r h where run: "sync_lines se (logging ans) ?ls (0, 0) hist = (r, h)" by fastforce
  from sync_lines_log [OF run] obtain new where "h = hist @ new" by auto
  with assms Some run show ?thesis
    by (cases r) (auto simp: sync_cycle_def write_cursor_def Let_def split: option.splits if_splits)
qed (use assms in \<open>auto simp: sync_cycle_def\<close>)

lemma cycle_no_corpus: "dk_corpus d = None \<Longrightarrow> sync_cycle se post (d, s) = (Inr (), d, s)"
  by (simp add: sync_cycle_def)

section \<open>No record is lost\<close>

text \<open>
  The corpus is only ever extended by whole lines, up to the largest size of a file; between the
  appends the sidecar runs cycles, each of which may fail to read the cursor, to open the corpus or to
  replace the cursor, and the collector may answer every post as it likes.
\<close>

datatype sidecar_op = AppendLine string | Cycle "string option" "string option" "string option"

definition file_max :: nat where
  "file_max = 2 ^ 63 - 1"

definition corpus_append :: "string \<Rightarrow> disk \<Rightarrow> disk" where
  "corpus_append l d =
     (let corpus = (case dk_corpus d of None \<Rightarrow> [] | Some s \<Rightarrow> s) @ l @ [CHR 0x0A]
      in if length corpus \<le> file_max then d\<lparr>dk_corpus := Some corpus\<rparr> else d)"

fun sidecar_step :: "(string \<Rightarrow> json option) \<Rightarrow> (string \<Rightarrow> bool) \<Rightarrow> (nat \<Rightarrow> string) \<Rightarrow> (nat \<Rightarrow> json \<Rightarrow> post_result)
    \<Rightarrow> sidecar_op \<Rightarrow> disk \<times> post_log \<Rightarrow> (disk \<times> post_log) option" where
  "sidecar_step parse utf8 shw ans (AppendLine l) (d, hist) = Some (corpus_append l d, hist)"
| "sidecar_step parse utf8 shw ans (Cycle e1 e2 e3) (d, hist) =
     Some (snd (sync_cycle \<lparr>se_parse = parse, se_utf8 = utf8, se_read_cursor = e1, se_open_corpus = e2,
       se_replace_cursor = e3, se_show_status = shw\<rparr> (logging ans) (d, hist)))"

abbreviation corpus_text :: "disk \<Rightarrow> string" where
  "corpus_text d \<equiv> case dk_corpus d of None \<Rightarrow> [] | Some s \<Rightarrow> s"

definition cursor_value :: "disk \<Rightarrow> nat" where
  "cursor_value d = (case dk_cursor d of None \<Rightarrow> 0 | Some t \<Rightarrow> parse_cursor t)"

definition delivered :: "post_log \<Rightarrow> json list" where
  "delivered hist = map fst (filter (settled \<circ> snd) hist)"

fun delivered_upto_cursor :: "(string \<Rightarrow> json option) \<Rightarrow> disk \<times> post_log \<Rightarrow> bool" where
  "delivered_upto_cursor parse (d, hist) \<longleftrightarrow>
     length (corpus_text d) \<le> file_max \<and> complete (corpus_text d) \<and> cursor_value d \<le> length (corpus_text d)
     \<and> complete (take (cursor_value d) (corpus_text d))
     \<and> subseq (records parse (read_lines (take (cursor_value d) (corpus_text d)))) (delivered hist)"

lemma delivered_simps [simp]:
  "delivered [] = []"
  "delivered (hist @ new) = delivered hist @ delivered new"
  "list_all (settled \<circ> snd) new \<Longrightarrow> delivered new = map fst new"
  by (auto simp: delivered_def list_all_iff intro!: arg_cong [where f = "map fst"])

lemma start_cursor_value: "cursor_value d \<le> length (corpus_text d) \<Longrightarrow> dk_corpus d = Some corpus \<Longrightarrow> start_cursor d corpus = cursor_value d"
  by (auto simp: start_cursor_def cursor_value_def Let_def)

lemma corpus_append_keeps: "delivered_upto_cursor parse (d, hist) \<Longrightarrow> delivered_upto_cursor parse (corpus_append l d, hist)"
  by (auto simp: corpus_append_def Let_def cursor_value_def complete_def split: option.splits)

lemma cycle_keeps:
  assumes inv: "delivered_upto_cursor parse (d, hist)" and run: "sync_cycle se (logging ans) (d, hist) = (r, d', hist')"
    and parse: "se_parse se = parse"
  shows "delivered_upto_cursor parse (d', hist')"
proof (cases r)
  case (Inl e)
  with run cycle_err have "d' = d \<and> (\<exists>new. hist' = hist @ new)" by blast
  with inv show ?thesis by (auto intro: subseq_order.order_trans)
next
  case (Inr u)
  show ?thesis
  proof (cases "dk_corpus d")
    case None
    with inv run show ?thesis by (simp add: cycle_no_corpus)
  next
    case (Some corpus)
    let ?c = "cursor_value d"
    from inv Some have c: "start_cursor d corpus = ?c" by (simp add: start_cursor_value)
    from cycle_ok [of se ans d hist d' hist' corpus] run Inr Some c parse obtain new
      where new: "hist' = hist @ new" "map fst new = records parse (read_lines (drop ?c corpus))"
        "list_all (settled \<circ> snd) new"
        "d' = (if ?c < length corpus then d\<lparr>dk_cursor := Some (dec (length corpus))\<rparr> else d)" by auto
    have "records parse (read_lines corpus)
        = records parse (read_lines (take ?c corpus)) @ records parse (read_lines (drop ?c corpus))"
      using inv Some read_lines_append [of "take ?c corpus" "drop ?c corpus"] by simp
    with new inv Some have "subseq (records parse (read_lines corpus)) (delivered hist')"
      by (simp add: list_emb_append_mono)
    moreover have "cursor_value d' = length corpus \<and> dk_corpus d' = Some corpus"
      using new(4) inv Some by (auto simp: cursor_value_def file_max_def parse_cursor_dec)
    ultimately show ?thesis using inv Some by simp
  qed
qed

lemma cycle_keeps_snd:
  "delivered_upto_cursor parse x \<Longrightarrow> se_parse se = parse \<Longrightarrow> delivered_upto_cursor parse (snd (sync_cycle se (logging ans) x))"
  by (cases x, cases "sync_cycle se (logging ans) x") (auto simp del: delivered_upto_cursor.simps intro: cycle_keeps)

lemma sidecar_step_inv:
  assumes "delivered_upto_cursor parse x" "sidecar_step parse utf8 shw ans op x = Some y"
  shows "delivered_upto_cursor parse y"
proof (cases op)
  case (AppendLine l)
  then show ?thesis using assms corpus_append_keeps by (cases x) (auto simp del: delivered_upto_cursor.simps)
next
  case (Cycle e1 e2 e3)
  obtain d hist where x: "x = (d, hist)" by (cases x)
  with Cycle assms(2) have "y = snd (sync_cycle \<lparr>se_parse = parse, se_utf8 = utf8, se_read_cursor = e1, se_open_corpus = e2,
       se_replace_cursor = e3, se_show_status = shw\<rparr> (logging ans) (d, hist))" by simp
  with cycle_keeps_snd assms(1) x show ?thesis by (simp only:) (rule cycle_keeps_snd, simp_all)
qed

interpretation sidecar: total_machine "sidecar_step parse utf8 shw ans" "delivered_upto_cursor parse"
  for parse utf8 shw ans
proof
  show "delivered_upto_cursor parse s \<Longrightarrow> sidecar_step parse utf8 shw ans x s = Some t \<Longrightarrow> delivered_upto_cursor parse t" for s x t
    by (rule sidecar_step_inv)
  show "delivered_upto_cursor parse s \<Longrightarrow> sidecar_step parse utf8 shw ans x s \<noteq> None" for s x
    by (cases x; cases s) auto
qed

definition empty_disk :: disk where
  "empty_disk = \<lparr>dk_corpus = None, dk_cursor = None\<rparr>"

lemma empty_disk_inv: "delivered_upto_cursor parse (empty_disk, [])"
  by (simp add: empty_disk_def cursor_value_def file_max_def complete_def)

definition toy_parse :: "string \<Rightarrow> json option" where
  "toy_parse l = (if length l = 2 then Some (JString l) else None)"

definition toy_env :: sidecar_env where
  "toy_env = \<lparr>se_parse = toy_parse, se_utf8 = (\<lambda>_. True), se_read_cursor = None, se_open_corpus = None,
     se_replace_cursor = None, se_show_status = dec\<rparr>"

lemmas toy_sidecar_defs = toy_env_def toy_parse_def empty_disk_def corpus_append_def file_max_def sync_cycle_def
  logging_def success_status_def start_cursor_def write_cursor_def

definition busy_once :: "nat \<Rightarrow> json \<Rightarrow> post_result" where
  "busy_once n r = (if n = 1 then Status 503 else Status 201)"

definition toy_disk :: disk where
  "toy_disk = \<lparr>dk_corpus = Some (''a'' @ [CHR 0x0A] @ ''b'' @ [CHR 0x0A]), dk_cursor = None\<rparr>"

abbreviation toy_hist :: post_log where
  "toy_hist \<equiv> [(JString [CHR ''a'', CHR 0x0A], Status 201), (JString [CHR ''b'', CHR 0x0A], Status 503)]"

lemma toy_first: "sync_cycle toy_env (logging busy_once) (toy_disk, [])
    = (Inl (''Systemic sync failure - HTTP '' @ dec 503), toy_disk, toy_hist)"
  by (simp add: toy_sidecar_defs toy_disk_def busy_once_def)

lemma toy_second: "sync_cycle toy_env (logging busy_once) (toy_disk, toy_hist)
    = (Inr (), toy_disk\<lparr>dk_cursor := Some (dec 4)\<rparr>,
       toy_hist @ [(JString [CHR ''a'', CHR 0x0A], Status 201), (JString [CHR ''b'', CHR 0x0A], Status 201)])"
  by (simp add: toy_sidecar_defs toy_disk_def busy_once_def eval_nat_numeral)

lemma toy_run: "run (sidecar_step toy_parse (\<lambda>_. True) dec busy_once)
    [AppendLine ''a'', AppendLine ''b'', Cycle None None None] (empty_disk, []) = Some (toy_disk, toy_hist)"
  by (simp add: toy_sidecar_defs toy_disk_def busy_once_def)

text \<open>
  C23: A cycle that ends without an error has delivered the whole corpus. Whatever sequence of whole
  lines and of cycles came before from an empty directory, failing or not, and however the collector
  answered, the records of the corpus then are, in their order, among the records that the collector
  has taken, with success or with the status 400.
\<close>
theorem no_record_lost:
  assumes "run (sidecar_step parse utf8 shw ans) ops (empty_disk, []) = Some (d, hist)"
    and "sync_cycle se (logging ans) (d, hist) = (Inr (), d', hist')" "se_parse se = parse"
  shows "subseq (records parse (read_lines (corpus_text d))) (delivered hist')"
proof (cases "dk_corpus d")
  case (Some corpus)
  have inv: "delivered_upto_cursor parse (d, hist)"
    using sidecar.run_inv [OF empty_disk_inv assms(1)] .
  with cycle_keeps [OF inv assms(2,3)] cycle_ok [OF assms(2) Some] Some show ?thesis
    by (auto simp: start_cursor_value cursor_value_def parse_cursor_dec file_max_def split: if_splits)
qed simp


theorem no_record_lost_witness:
  "\<exists>d hist d' hist'. run (sidecar_step toy_parse (\<lambda>_. True) dec busy_once)
       [AppendLine ''a'', AppendLine ''b'', Cycle None None None] (empty_disk, []) = Some (d, hist)
     \<and> sync_cycle toy_env (logging busy_once) (d, hist) = (Inr (), d', hist')
     \<and> subseq (records toy_parse (read_lines (corpus_text d))) (delivered hist')"
proof -
  have "se_parse toy_env = toy_parse" by (simp add: toy_env_def)
  from no_record_lost [OF toy_run toy_second this] toy_run toy_second show ?thesis by blast
qed

text \<open>
  A cycle that ends with an error leaves the cursor where it was, so the next cycle that succeeds
  sends every record behind the old cursor, those that the collector had already taken included.
\<close>
theorem aborted_cycle_resends:
  assumes "dk_corpus d = Some corpus" "sync_cycle se (logging ans) (d, hist) = (Inl e, d1, hist1)"
    and "sync_cycle se' (logging ans) (d1, hist1) = (Inr (), d2, hist2)"
  shows "d1 = d \<and> (\<exists>new. hist2 = hist1 @ new
           \<and> map fst new = records (se_parse se') (read_lines (drop (start_cursor d corpus) corpus)))"
  using cycle_err [OF assms(2)] cycle_ok [of se' ans d hist1 d2 hist2 corpus] assms by auto

theorem aborted_cycle_resends_witness:
  "\<exists>hist1 hist2 d1 d2 e. sync_cycle toy_env (logging busy_once) (toy_disk, []) = (Inl e, d1, hist1)
     \<and> sync_cycle toy_env (logging busy_once) (d1, hist1) = (Inr (), d2, hist2)
     \<and> d1 = toy_disk \<and> length (filter (\<lambda>(r, a). a = Status 201) hist2) = 3"
proof -
  have "dk_corpus toy_disk = Some (''a'' @ [CHR 0x0A] @ ''b'' @ [CHR 0x0A])" by (simp add: toy_disk_def)
  from aborted_cycle_resends [OF this toy_first toy_second] toy_first toy_second show ?thesis by fastforce
qed

text \<open>
  A line that the recorder has written only in part when a cycle reaches it is lost. The part is no
  JSON, so the cursor moves behind it; the rest is no JSON either, so the next cycle skips it too. The
  record of the whole line is never sent.
\<close>
theorem torn_line_lost:
  assumes "CHR 0x0A \<notin> set t" "CHR 0x0A \<notin> set u" "t \<noteq> []" "length t + length u < 2 ^ 63"
    and "se_parse se t = None" "se_parse se (u @ [CHR 0x0A]) = None" "se_parse se (t @ u @ [CHR 0x0A]) = Some r"
    and "se_utf8 se t" "se_utf8 se (u @ [CHR 0x0A])"
    and "se_read_cursor se = None" "se_open_corpus se = None" "se_replace_cursor se = None"
  shows "\<exists>d1 d2. sync_cycle se (logging ans) (\<lparr>dk_corpus = Some t, dk_cursor = None\<rparr>, hist) = (Inr (), d1, hist)
     \<and> sync_cycle se (logging ans) (d1\<lparr>dk_corpus := Some (t @ u @ [CHR 0x0A])\<rparr>, hist) = (Inr (), d2, hist)
     \<and> records (se_parse se) (read_lines (corpus_text d2)) = [r]
     \<and> cursor_value d2 = length (corpus_text d2)"
proof -
  let ?w = "t @ u @ [CHR 0x0A]"
  let ?d1 = "\<lparr>dk_corpus = Some t, dk_cursor = Some (dec (length t))\<rparr>"
  have whole: "read_lines ?w = [?w]" using read_lines_one [of "t @ u"] assms(1,2) by simp
  have cur: "parse_cursor (dec (length t)) = length t" using assms(4) by (simp add: parse_cursor_dec)
  have 1: "sync_cycle se (logging ans) (\<lparr>dk_corpus = Some t, dk_cursor = None\<rparr>, hist) = (Inr (), ?d1, hist)"
    using assms by (simp add: sync_cycle_def start_cursor_def write_cursor_def Let_def read_lines_unterminated)
  have 2: "sync_cycle se (logging ans) (?d1\<lparr>dk_corpus := Some ?w\<rparr>, hist)
      = (Inr (), \<lparr>dk_corpus = Some ?w, dk_cursor = Some (dec (length ?w))\<rparr>, hist)"
    using assms by (simp add: sync_cycle_def start_cursor_def write_cursor_def Let_def read_lines_one cur ac_simps)
  have "cursor_value \<lparr>dk_corpus = Some ?w, dk_cursor = Some (dec (length ?w))\<rparr> = length ?w"
    using assms(4) parse_cursor_dec [of "length ?w"] by (simp add: cursor_value_def)
  with 1 2 whole assms(7) show ?thesis by (intro exI conjI) auto
qed

theorem torn_line_lost_witness:
  "\<exists>d1 d2. sync_cycle (toy_env\<lparr>se_parse := \<lambda>l. if length l = 3 then Some JNull else None\<rparr>) (logging busy_once)
        (\<lparr>dk_corpus = Some ''a'', dk_cursor = None\<rparr>, []) = (Inr (), d1, [])
     \<and> sync_cycle (toy_env\<lparr>se_parse := \<lambda>l. if length l = 3 then Some JNull else None\<rparr>) (logging busy_once)
        (d1\<lparr>dk_corpus := Some (''a'' @ ''b'' @ [CHR 0x0A])\<rparr>, []) = (Inr (), d2, [])"
  using torn_line_lost [of "''a''" "''b''" "toy_env\<lparr>se_parse := \<lambda>l. if length l = 3 then Some JNull else None\<rparr>" JNull busy_once "[]"]
  by (auto simp: toy_env_def)

text \<open>
  A line that is not UTF-8 stops the upload for good. As long as one lies behind the cursor, every
  cycle ends with an error and leaves the cursor in front of it, so no line after it is ever passed.
\<close>
theorem bad_line_stalls:
  assumes "dk_corpus d = Some corpus" "\<not> list_all (se_utf8 se) (read_lines (drop (start_cursor d corpus) corpus))"
  shows "\<exists>e hist'. sync_cycle se (logging ans) (d, hist) = (Inl e, d, hist')"
proof -
  obtain r h where run: "sync_lines se (logging ans) (read_lines (drop (start_cursor d corpus) corpus)) (0, 0) hist = (r, h)"
    by fastforce
  from sync_lines_log [OF run] assms(2) obtain e where "r = Inl e" by (cases r) auto
  with assms(1) run show ?thesis by (auto simp: sync_cycle_def Let_def split: option.splits)
qed

theorem bad_line_stalls_witness:
  "\<exists>e hist'. sync_cycle (toy_env\<lparr>se_utf8 := \<lambda>l. l \<noteq> ''b'' @ [CHR 0x0A]\<rparr>) (logging busy_once) (toy_disk, []) = (Inl e, toy_disk, hist')"
  by (rule bad_line_stalls [where corpus = "''a'' @ [CHR 0x0A] @ ''b'' @ [CHR 0x0A]"])
     (simp_all add: toy_disk_def toy_env_def start_cursor_def)

end
