(* ===== verification/Plugin.thy ===== *)
theory Plugin
  imports Providers
begin

text \<open>
  \<open>plugins/openai-compatible/src\<close>: the reference adapter component, with its two functions, the way
  they are exported (\<open>bindings.rs\<close>), and what the host in \<open>Providers\<close> makes of it.

  \<open>serde_json\<close> is the argument \<open>ps\<close>: the text of a document or the error, the document of a text, and
  the text of the error of the deserialiser. At the boundary of the component values are those of the
  component model; their encoding in the memory of the guest is not modelled. A call with values of
  another type ends with the error \<open>mismatch\<close> of the engine.
\<close>

section \<open>The component\<close>

record plugin_serde =
  ps_to_string :: "json \<Rightarrow> string + string"
  ps_parse :: "string \<Rightarrow> json option"
  ps_error :: "string \<Rightarrow> string"

record StandardizedRequest =
  sr_model :: string
  sr_prompt :: string
  sr_temperature :: f64
  sr_base_url :: string

record HttpRequestSpec =
  sp_url :: string
  sp_headers :: "(string \<times> string) list"
  sp_body :: string

record OpenAiChatMessage =
  cm_role :: string
  cm_content :: string

record OpenAiChatRequest =
  cr_model :: string
  cr_messages :: OpenAiChatMessage
  cr_temperature :: f64
  cr_stream :: bool

datatype OpenAiChatChoice = OpenAiChatChoice (cc_content: string)

datatype OpenAiChatResponse = OpenAiChatResponse (cr_choices: "OpenAiChatChoice list")

definition plugin_is_zero_f32 :: "f64 \<Rightarrow> bool" where
  "plugin_is_zero_f32 v \<longleftrightarrow> v = Fin 0"

definition json_OpenAiChatRequest :: "OpenAiChatRequest \<Rightarrow> json" where
  "json_OpenAiChatRequest r =
     JObject ([(''model'', JString (cr_model r)),
               (''messages'', JArray [JObject [(''role'', JString (cm_role (cr_messages r))), (''content'', JString (cm_content (cr_messages r)))]])]
              @ (if plugin_is_zero_f32 (cr_temperature r) then [] else [(''temperature'', json_of_f64 (cr_temperature r))])
              @ [(''stream'', JBool (cr_stream r))])"

definition de_OpenAiChatChoice :: "json \<Rightarrow> OpenAiChatChoice option" where
  "de_OpenAiChatChoice j =
     map_option OpenAiChatChoice (Option.bind (Option.bind (de_struct1 ''message'' j) (de_struct1 ''content'')) de_string)"

definition de_OpenAiChatResponse :: "json \<Rightarrow> OpenAiChatResponse option" where
  "de_OpenAiChatResponse j =
     map_option OpenAiChatResponse (Option.bind (de_struct1 ''choices'' j) (de_vec de_OpenAiChatChoice))"

definition transform_request :: "plugin_serde \<Rightarrow> StandardizedRequest \<Rightarrow> string \<Rightarrow> string + HttpRequestSpec" where
  "transform_request ps req key =
     (let body = \<lparr>cr_model = sr_model req, cr_messages = \<lparr>cm_role = ''user'', cm_content = sr_prompt req\<rparr>,
                  cr_temperature = sr_temperature req, cr_stream = False\<rparr>
      in and_then (map_err (\<lambda>e. ''Failed to serialize request body: '' @ e) (ps_to_string ps (json_OpenAiChatRequest body))) (\<lambda>body_json.
         Inr \<lparr>sp_url = (if suffix ''/'' (sr_base_url req) then sr_base_url req @ ''chat/completions''
                         else sr_base_url req @ ''/chat/completions''),
              sp_headers = [(''Authorization'', ''Bearer '' @ key), (''Content-Type'', ''application/json'')],
              sp_body = body_json\<rparr>))"

definition parse_response :: "plugin_serde \<Rightarrow> string \<Rightarrow> string + string" where
  "parse_response ps raw_body =
     and_then (ok_or (''Failed to parse OpenAI response JSON: '' @ ps_error ps raw_body)
                 (Option.bind (ps_parse ps raw_body) de_OpenAiChatResponse)) (\<lambda>parsed.
     case cr_choices parsed of
       c # _ \<Rightarrow> Inr (cc_content c)
     | [] \<Rightarrow> Inl ''OpenAI response contained no choices'')"

section \<open>Its exports\<close>

definition val_of_spec :: "HttpRequestSpec \<Rightarrow> val" where
  "val_of_spec sp = VRecord [(''url'', VString (sp_url sp)),
     (''headers'', VList (map (\<lambda>(n, v). VTuple [VString n, VString v]) (sp_headers sp))), (''body'', VString (sp_body sp))]"

definition val_of_result :: "('a \<Rightarrow> val) \<Rightarrow> string + 'a \<Rightarrow> val" where
  "val_of_result f r = VResult (case r of Inr x \<Rightarrow> Inr (Some (f x)) | Inl e \<Rightarrow> Inl (Some (VString e)))"

definition export_transform_request :: "string \<Rightarrow> plugin_serde \<Rightarrow> unit guest_fun" where
  "export_transform_request mismatch ps args s =
     (case args of
        [VRecord [(n1, VString m), (n2, VString p), (n3, VFloat32 t), (n4, VString url)], VString key] \<Rightarrow>
          if [n1, n2, n3, n4] = [''model'', ''prompt'', ''temperature'', ''base-url'']
          then (Inr (val_of_result val_of_spec
                  (transform_request ps \<lparr>sr_model = m, sr_prompt = p, sr_temperature = t, sr_base_url = url\<rparr> key)), s)
          else (Inl mismatch, s)
      | _ \<Rightarrow> (Inl mismatch, s))"

definition export_parse_response :: "string \<Rightarrow> plugin_serde \<Rightarrow> unit guest_fun" where
  "export_parse_response mismatch ps args s =
     (case args of
        [VString raw_body] \<Rightarrow> (Inr (val_of_result VString (parse_response ps raw_body)), s)
      | _ \<Rightarrow> (Inl mismatch, s))"

definition guest_under :: "string \<Rightarrow> string \<Rightarrow> plugin_serde \<Rightarrow> unit guest" where
  "guest_under iface mismatch ps =
     \<lparr>g_store = (),
      g_exports = (\<lambda>i. if i = iface
        then Some (\<lambda>f. if f = ''transform-request'' then Some (export_transform_request mismatch ps)
                       else if f = ''parse-response'' then Some (export_parse_response mismatch ps) else None)
        else None),
      g_func = (\<lambda>_. None)\<rparr>"

definition plugin_guest :: "string \<Rightarrow> plugin_serde \<Rightarrow> unit guest" where
  "plugin_guest = guest_under ''serein:adapter/api-adapter@1.0.0''"

definition toy_plugin_serde :: plugin_serde where
  "toy_plugin_serde = \<lparr>ps_to_string = (\<lambda>_. Inr ''body''),
     ps_parse = (\<lambda>_. Some (JObject [(''choices'', JArray [JObject [(''message'', JObject [(''content'', JString ''yes'')])]])])),
     ps_error = (\<lambda>_. [])\<rparr>"

definition toy_plugin_provider :: WasmAdapterProvider where
  "toy_plugin_provider = \<lparr>wa_id = ''x'', wa_display_name = ''X'', wa_base_url = ''https://x/v1/'', wa_model = ''m'',
     wa_api_key = Some ''k'', wa_timeout_ms = 1, wa_max_response_bytes = 100, wa_cache_provider = ''x'', wa_adapter_path = ''x.wasm''\<rparr>"

definition engine_with :: "unit guest \<Rightarrow> (unit, unit) wasm" where
  "engine_with g = \<lparr>engine_new = Inr (), read_adapter = (\<lambda>_. Inr []), compile = (\<lambda>_. Inr ()), instantiate = (\<lambda>_. Inr g),
     debug_val = (\<lambda>_. []), lossy_text = map (\<lambda>b. char_of (unat b))\<rparr>"

text \<open>
  The component exports the interface \<open>api-adapter\<close> of the contract, the host asks for an interface
  \<open>provider-adapter\<close>. So an invocation through the component always fails, before any request is sent.
\<close>
theorem plugin_never_found:
  assumes "wa_api_key p = Some key" "load_adapter w (wa_adapter_path p) = Inr (plugin_guest mismatch ps)"
  shows "wasm_invoke tr w p req
     = Inl (NodeNetworkError (''Export '' @ [CHR 0x27] @ ''transform-request'' @ [CHR 0x27] @ '' not found in component''))"
  using assms
  by (simp add: wasm_invoke_def adapter_request_def find_export_def plugin_guest_def guest_under_def results)


theorem plugin_never_found_witness:
  "wasm_invoke (\<lambda>_. Inl []) (engine_with (plugin_guest [] toy_plugin_serde)) toy_plugin_provider
       \<lparr>rq_prompt = ''hi'', rq_tenant_id = [], rq_images = None, rq_temperature = Fin 0\<rparr>
     = Inl (NodeNetworkError (''Export '' @ [CHR 0x27] @ ''transform-request'' @ [CHR 0x27] @ '' not found in component''))"
  by (rule plugin_never_found [where key = "''k''" and mismatch = "[]" and ps = toy_plugin_serde])
     (simp_all add: toy_plugin_provider_def load_adapter_def engine_with_def)

section \<open>The component and the built-in adapter\<close>

lemma json_OpenAiChatRequest_eq:
  "json_OpenAiChatRequest \<lparr>cr_model = m, cr_messages = \<lparr>cm_role = r, cm_content = c\<rparr>, cr_temperature = t, cr_stream = b\<rparr>
     = json_OpenAiRequest \<lparr>or_model = m, or_messages = [\<lparr>om_role = r, om_content = c\<rparr>], or_temperature = t, or_stream = b\<rparr>"
  by (simp add: json_OpenAiChatRequest_def json_OpenAiRequest_def json_OpenAiMessage_def plugin_is_zero_f32_def is_zero_f32_def)

lemma chat_url_eq:
  assumes "\<not> suffix ''//'' url"
  shows "(if suffix ''/'' url then url @ ''chat/completions'' else url @ ''/chat/completions'')
     = trim_end_slashes url @ ''/chat/completions''"
proof (cases url rule: rev_cases)
  case (snoc us c)
  then show ?thesis
    using assms by (cases us rule: rev_cases) (auto simp: trim_end_slashes_def suffix_def)
qed (simp add: trim_end_slashes_def)

lemma de_OpenAiChatChoice_eq:
  "de_OpenAiChatChoice j = map_option (\<lambda>c. OpenAiChatChoice (rm_content (ch_message c))) (de_OpenAiChoice j)"
  by (simp add: de_OpenAiChatChoice_def de_OpenAiChoice_def option.map_comp comp_def)

lemma de_vec_map: "de_vec (\<lambda>j. map_option f (g j)) j = map_option (map f) (de_vec g j)"
proof (cases j)
  case (JArray vs)
  have "those (map (\<lambda>j. map_option f (g j)) vs) = map_option (map f) (those (map g vs))"
    by (induction vs) (auto simp: option.map_comp comp_def split: option.split)
  then show ?thesis by (simp add: JArray)
qed simp_all

lemma de_OpenAiChatResponse_eq:
  "de_OpenAiChatResponse j
     = map_option (\<lambda>r. OpenAiChatResponse (map (\<lambda>c. OpenAiChatChoice (rm_content (ch_message c))) (rs_choices r))) (de_OpenAiResponse j)"
proof -
  let ?f = "\<lambda>c. OpenAiChatChoice (rm_content (ch_message c))"
  have "de_vec de_OpenAiChatChoice v = map_option (map ?f) (de_vec de_OpenAiChoice v)" for v
    unfolding de_vec_map [symmetric] by (rule arg_cong [where f = "\<lambda>g. de_vec g v"]) (rule ext, rule de_OpenAiChatChoice_eq)
  then show ?thesis
    by (cases "de_struct1 ''choices'' j")
       (simp_all add: de_OpenAiChatResponse_def de_OpenAiResponse_def option.map_comp comp_def)
qed

lemma parse_response_iff:
  "parse_response ps t = Inr c \<longleftrightarrow>
     (\<exists>doc ms. ps_parse ps t = Some doc \<and> de_OpenAiResponse doc = Some (OpenAiResponse (OpenAiChoice (OpenAiResponseMessage c) # ms)))"
proof (cases "Option.bind (ps_parse ps t) de_OpenAiResponse")
  case None
  then have "Option.bind (ps_parse ps t) de_OpenAiChatResponse = None"
    by (cases "ps_parse ps t") (simp_all add: de_OpenAiChatResponse_eq)
  with None show ?thesis by (cases "ps_parse ps t") (simp_all add: parse_response_def ok_or_def)
next
  case (Some r)
  then obtain doc where doc: "ps_parse ps t = Some doc" "de_OpenAiResponse doc = Some r" by (auto simp: bind_eq_Some_conv)
  obtain cs where r: "r = OpenAiResponse cs" by (cases r)
  from doc r have "parse_response ps t
      = (case cs of [] \<Rightarrow> Inl ''OpenAI response contained no choices'' | x # _ \<Rightarrow> Inr (rm_content (ch_message x)))"
    by (simp add: parse_response_def de_OpenAiChatResponse_eq ok_or_def split: list.split)
  moreover have "rm_content (ch_message x) = c \<longleftrightarrow> x = OpenAiChoice (OpenAiResponseMessage c)" for x
    by (cases x; cases "ch_message x") auto
  ultimately show ?thesis using doc r by (cases cs) auto
qed

text \<open>
  The component under the name that the host asks for, and the built-in adapter with the same settings.
\<close>

definition builtin_of :: "WasmAdapterProvider \<Rightarrow> GenericOpenAiProvider" where
  "builtin_of p = \<lparr>oa_id = wa_id p, oa_display_name = wa_display_name p, oa_base_url = wa_base_url p, oa_model = wa_model p,
     oa_api_key = wa_api_key p, oa_timeout_ms = wa_timeout_ms p, oa_max_response_bytes = wa_max_response_bytes p,
     oa_cache_provider = wa_cache_provider p\<rparr>"

abbreviation renamed_guest :: "string \<Rightarrow> plugin_serde \<Rightarrow> unit guest" where
  "renamed_guest \<equiv> guest_under ''serein:adapter/provider-adapter@1.0.0''"

definition plugin_http :: "WasmAdapterProvider \<Rightarrow> string \<Rightarrow> ProviderRequest \<Rightarrow> string \<Rightarrow> http_request" where
  "plugin_http p key req body = (openai_request (builtin_of p) key req)
     \<lparr>hr_headers := [(''Content-Type'', ''application/json''), (''Authorization'', ''Bearer '' @ key), (''Content-Type'', ''application/json'')],
      hr_body := TextBody body\<rparr>"

fun body_text :: "plugin_serde \<Rightarrow> http_body \<Rightarrow> string + string" where
  "body_text ps (JsonBody j) = ps_to_string ps j"
| "body_text ps (TextBody t) = Inr t"

lemma adapter_request_guest:
  assumes "\<not> suffix ''//'' (wa_base_url p)" "body_text ps (hr_body (openai_request (builtin_of p) key req)) = Inr body"
  shows "adapter_request w p key req (renamed_guest mismatch ps) = Inr (plugin_http p key req body, ())"
  using assms chat_url_eq [OF assms(1)]
  by (simp add: adapter_request_def find_export_def guest_under_def export_transform_request_def guest_request_def Let_def
      transform_request_def json_OpenAiChatRequest_eq val_of_result_def val_of_spec_def unwrap_result_def http_spec_def
      spec_field_def plugin_http_def builtin_of_def openai_request_def ok_or_def cong: if_cong)

lemma adapter_parse_guest: "adapter_parse w t (renamed_guest mismatch ps) s = Inr c \<longleftrightarrow> parse_response ps t = Inr c"
  by (cases "parse_response ps t")
     (simp_all add: adapter_parse_def find_export_def guest_under_def export_parse_response_def val_of_result_def
      adapter_content_def unwrap_result_def ok_or_def)




text \<open>
  Each request of the component carries the header for the type of its content twice, once from the
  component and once from the host; the built-in adapter sends it once.
\<close>
theorem plugin_content_type_twice:
  "length (filter (\<lambda>(n, v). n = ''Content-Type'') (hr_headers (plugin_http p key req body))) = 2
   \<and> length (filter (\<lambda>(n, v). n = ''Content-Type'') (hr_headers (openai_request (builtin_of p) key req))) = 1"
  by (simp add: plugin_http_def openai_request_def)

end
