(* ===== verification/ModelInterface.thy ===== *)
theory ModelInterface
  imports Kernel Orchestrator
begin

text \<open>
  \<open>crates/core/src/model_interface.rs\<close>: the configuration of a local model, the model over the
  inference library and its stand-in, with reloading of weights; and the use that the fallback node of
  \<open>crates/llm-router/src/coordinator.rs\<close> makes of it in the build with the feature \<open>wasi-nn\<close>.

  The library, the files and UTF-8 are the argument \<open>nn\<close>. An error carries the text of its outermost
  context, which is what the callers print. Bytes are characters.
\<close>

section \<open>Configuration\<close>

datatype ModelEncoding = Ggml | Onnx | Tensorflow

datatype InferenceTarget = Cpu | Gpu

fun show_encoding :: "ModelEncoding \<Rightarrow> string" where
  "show_encoding Ggml = ''ggml''"
| "show_encoding Onnx = ''onnx''"
| "show_encoding Tensorflow = ''tensorflow''"

fun show_target :: "InferenceTarget \<Rightarrow> string" where
  "show_target Cpu = ''cpu''"
| "show_target Gpu = ''gpu''"

record ModelConfig =
  mc_model_name :: string
  mc_encoding :: ModelEncoding
  mc_target :: InferenceTarget
  mc_models_dir :: string

definition ModelConfig_default :: ModelConfig where
  "ModelConfig_default = \<lparr>mc_model_name = ''default-slm'', mc_encoding = Ggml, mc_target = Cpu, mc_models_dir = ''./serein-models''\<rparr>"

definition with_model_name :: "string \<Rightarrow> ModelConfig \<Rightarrow> ModelConfig" where
  "with_model_name n c = c\<lparr>mc_model_name := n\<rparr>"

definition with_encoding :: "ModelEncoding \<Rightarrow> ModelConfig \<Rightarrow> ModelConfig" where
  "with_encoding e c = c\<lparr>mc_encoding := e\<rparr>"

definition with_target :: "InferenceTarget \<Rightarrow> ModelConfig \<Rightarrow> ModelConfig" where
  "with_target t c = c\<lparr>mc_target := t\<rparr>"

definition with_models_dir :: "string \<Rightarrow> ModelConfig \<Rightarrow> ModelConfig" where
  "with_models_dir d c = c\<lparr>mc_models_dir := d\<rparr>"

section \<open>The model over the library\<close>

record ('g, 'c) nn =
  nn_read :: "string \<Rightarrow> string + string"
  nn_debug_path :: "string \<Rightarrow> string"
  nn_build :: "ModelEncoding \<Rightarrow> InferenceTarget \<Rightarrow> string \<Rightarrow> string + 'g"
  nn_init :: "'g \<Rightarrow> string + 'c"
  nn_set_input :: "u32 list \<Rightarrow> string \<Rightarrow> 'c \<Rightarrow> (string + unit) \<times> 'c"
  nn_compute :: "'c \<Rightarrow> (string + unit) \<times> 'c"
  nn_get_output :: "'c \<Rightarrow> (string + string) \<times> 'c"
  nn_from_utf8 :: "string \<Rightarrow> string + string"

record ('g, 'c) WasiNnModel =
  wm_config :: ModelConfig
  wm_graph :: "'g option"
  wm_context :: "'c option"

text \<open>The graph and its context for some weights; the two fields are written only after both exist.\<close>

definition build_graph :: "('g, 'c) nn \<Rightarrow> ModelConfig \<Rightarrow> string \<Rightarrow> string + 'g \<times> 'c" where
  "build_graph nn cfg path =
     and_then (map_err (\<lambda>_. ''Failed to read model weights from '' @ nn_debug_path nn path) (nn_read nn path)) (\<lambda>weights.
     and_then (map_err (\<lambda>_. ''Failed to build WASI-NN computation graph from weight bytes'') (nn_build nn (mc_encoding cfg) (mc_target cfg) weights)) (\<lambda>g.
     and_then (map_err (\<lambda>_. ''Failed to initialize WASI-NN execution context'') (nn_init nn g)) (\<lambda>c.
     Inr (g, c))))"

definition load_graph :: "('g, 'c) nn \<Rightarrow> string \<Rightarrow> ('g, 'c) WasiNnModel \<Rightarrow> (string + unit) \<times> ('g, 'c) WasiNnModel" where
  "load_graph nn path m =
     (case build_graph nn (wm_config m) path of
        Inl e \<Rightarrow> (Inl e, m)
      | Inr (g, c) \<Rightarrow> (Inr (), m\<lparr>wm_graph := Some g, wm_context := Some c\<rparr>))"

definition WasiNnModel_new :: "('g, 'c) nn \<Rightarrow> ModelConfig \<Rightarrow> string + ('g, 'c) WasiNnModel" where
  "WasiNnModel_new nn cfg =
     (let m = \<lparr>wm_config = cfg, wm_graph = None, wm_context = None\<rparr>
      in case load_graph nn (path_join (mc_models_dir cfg) (mc_model_name cfg)) m of
           (Inl e, _) \<Rightarrow> Inl e
         | (Inr _, m1) \<Rightarrow> Inr m1)"

definition wm_infer :: "('g, 'c) nn \<Rightarrow> string \<Rightarrow> u32 \<Rightarrow> ('g, 'c) WasiNnModel \<Rightarrow> (string + string) \<times> ('g, 'c) WasiNnModel" where
  "wm_infer nn input max_tokens m =
     (case wm_context m of
        None \<Rightarrow> (Inl ''WASI-NN execution context not initialized - call reload_weights first'', m)
      | Some c \<Rightarrow>
          (case nn_set_input nn [1, of_nat (length input)] input c of
             (Inl _, c1) \<Rightarrow> (Inl ''Failed to set WASI-NN input tensor'', m\<lparr>wm_context := Some c1\<rparr>)
           | (Inr _, c1) \<Rightarrow>
               (case nn_compute nn c1 of
                  (Inl _, c2) \<Rightarrow> (Inl ''WASI-NN inference computation failed'', m\<lparr>wm_context := Some c2\<rparr>)
                | (Inr _, c2) \<Rightarrow>
                    (case nn_get_output nn c2 of
                       (r, c3) \<Rightarrow> (map_err (\<lambda>_. ''Failed to retrieve WASI-NN output tensor'') r, m\<lparr>wm_context := Some c3\<rparr>)))))"

definition wm_reload_weights :: "('g, 'c) nn \<Rightarrow> string \<Rightarrow> ('g, 'c) WasiNnModel \<Rightarrow> (string + unit) \<times> ('g, 'c) WasiNnModel" where
  "wm_reload_weights nn path m = load_graph nn (path_join (mc_models_dir (wm_config m)) path) m"

section \<open>The stand-in and the factory\<close>

record StubModel =
  sm_config :: ModelConfig

definition StubModel_new :: "ModelConfig \<Rightarrow> string + StubModel" where
  "StubModel_new cfg = Inr \<lparr>sm_config = cfg\<rparr>"

definition sm_infer :: "string \<Rightarrow> u32 \<Rightarrow> StubModel \<Rightarrow> (string + string) \<times> StubModel" where
  "sm_infer input max_tokens m =
     (Inl (''WASI-NN inference not available - enable the '' @ [CHR 0x27] @ ''wasi-nn'' @ [CHR 0x27]
           @ '' feature to enable on-device SLM inference''), m)"

definition sm_reload_weights :: "string \<Rightarrow> StubModel \<Rightarrow> (string + unit) \<times> StubModel" where
  "sm_reload_weights path m =
     (Inl (''WASI-NN weight reload not available - enable the '' @ [CHR 0x27] @ ''wasi-nn'' @ [CHR 0x27] @ '' feature''), m)"

datatype ('g, 'c) model = WasiNn "('g, 'c) WasiNnModel" | Stub StubModel

definition create_model :: "bool \<Rightarrow> ('g, 'c) nn \<Rightarrow> ModelConfig \<Rightarrow> string + ('g, 'c) model" where
  "create_model wasi_nn nn cfg =
     (if wasi_nn then map_sum id WasiNn (WasiNnModel_new nn cfg) else map_sum id Stub (StubModel_new cfg))"

fun infer :: "('g, 'c) nn \<Rightarrow> string \<Rightarrow> u32 \<Rightarrow> ('g, 'c) model \<Rightarrow> (string + string) \<times> ('g, 'c) model" where
  "infer nn input n (WasiNn m) = map_prod id WasiNn (wm_infer nn input n m)"
| "infer nn input n (Stub m) = map_prod id Stub (sm_infer input n m)"

fun reload_weights :: "('g, 'c) nn \<Rightarrow> string \<Rightarrow> ('g, 'c) model \<Rightarrow> (string + unit) \<times> ('g, 'c) model" where
  "reload_weights nn path (WasiNn m) = map_prod id WasiNn (wm_reload_weights nn path m)"
| "reload_weights nn path (Stub m) = map_prod id Stub (sm_reload_weights path m)"

fun model_config :: "('g, 'c) model \<Rightarrow> ModelConfig" where
  "model_config (WasiNn m) = wm_config m"
| "model_config (Stub m) = sm_config m"

section \<open>The fallback node with the library\<close>

definition MAX_BLOCKING_TASKS :: nat where
  "MAX_BLOCKING_TASKS = 64"

text \<open>
  Whether a permit of the blocking pool is free, and the error of the task, if it panics or is
  cancelled, are arguments.
\<close>

definition invoke_wasi_nn :: "('g, 'c) nn \<Rightarrow> bool \<Rightarrow> string option \<Rightarrow> WasiNnEndpoint \<Rightarrow> string \<Rightarrow> string + string" where
  "invoke_wasi_nn nn free join_error ep prompt =
     and_then (ensure free (''Resource exhausted: blocking thread pool at capacity ('' @ dec MAX_BLOCKING_TASKS
        @ '' permits) - refusing spawn_blocking to prevent ghost-thread leak'')) (\<lambda>_.
     let cfg = with_models_dir (ep_model_path ep) (with_target Cpu (with_encoding Ggml (with_model_name (ep_model_id ep) ModelConfig_default)))
     in case join_error of
          Some e \<Rightarrow> Inl (''Tokio starvation prevented, but spawn_blocking failed: '' @ e)
        | None \<Rightarrow>
            and_then (map_err (\<lambda>e. ''Failed to create WASI-NN model: '' @ e) (create_model True nn cfg)) (\<lambda>m.
            and_then (map_err (\<lambda>e. ''WASI-NN inference failed: '' @ e) (fst (infer nn prompt (ucast (max_output_tokens ep)) m))) (\<lambda>out.
            map_err (\<lambda>e. ''WASI-NN output is not valid UTF-8: '' @ e) (nn_from_utf8 nn out))))"

text \<open>
  The two builds share everything up to the inference, \<open>fn_invoke\<close>; instead of the constant answer
  this one has what the library returns within the time limit (\<open>None\<close> is the timeout).
\<close>

definition fn_infer_nn :: "u64 \<Rightarrow> (string + string) option \<Rightarrow> PhysicalFallbackNode \<Rightarrow> FallbackNodeResult \<times> PhysicalFallbackNode" where
  "fn_infer_nn ms reply n =
     (let failed = n\<lparr>fn_error_count := fn_error_count n + 1\<rparr>;
          limit = inference_timeout_ms (fn_endpoint n)
      in case reply of
           None \<Rightarrow> (fn_failure n limit (''wasi-nn inference timed out after '' @ dec (unat limit) @ ''ms''), failed)
         | Some (Inl e) \<Rightarrow> (fn_failure n ms (''wasi-nn inference failed: '' @ e), failed)
         | Some (Inr out) \<Rightarrow>
             (\<lparr>fb_output = Some out, fb_error = None, fb_duration_ms = ms, fb_model_id = ep_model_id (fn_endpoint n)\<rparr>, n))"

definition fn_invoke_nn ::
  "('g, 'c) nn \<Rightarrow> bool \<Rightarrow> string option \<Rightarrow> bool \<Rightarrow> permit \<Rightarrow> instant \<Rightarrow> u64 \<Rightarrow> string \<Rightarrow> PhysicalFallbackNode
     \<Rightarrow> (FallbackNodeResult \<times> PhysicalFallbackNode) may_panic" where
  "fn_invoke_nn nn free join_error in_time pm now ms prompt n =
     (case fn_invoke pm now ms prompt n of
        None \<Rightarrow> None
      | Some (r, n1) \<Rightarrow>
          if fb_error r \<noteq> None then Some (r, n1)
          else Some (fn_infer_nn ms (if in_time then Some (invoke_wasi_nn nn free join_error (fn_endpoint n) prompt) else None) n1))"

section \<open>Reloading\<close>

text \<open>
  A reload is all or nothing: if any step fails the model is what it was, otherwise graph and context
  are both those of the new weights. The files and the encoding never change.
\<close>
theorem reload_atomic:
  "wm_reload_weights nn path m =
     (case build_graph nn (wm_config m) (path_join (mc_models_dir (wm_config m)) path) of
        Inl e \<Rightarrow> (Inl e, m)
      | Inr (g, c) \<Rightarrow> (Inr (), \<lparr>wm_config = wm_config m, wm_graph = Some g, wm_context = Some c\<rparr>))"
  by (cases m) (auto simp: wm_reload_weights_def load_graph_def split: sum.split)

datatype model_op = Infer string u32 | Reload string

fun model_step :: "('g, 'c) nn \<Rightarrow> model_op \<Rightarrow> ('g, 'c) WasiNnModel \<Rightarrow> ('g, 'c) WasiNnModel may_panic" where
  "model_step nn (Infer i n) m = Some (snd (wm_infer nn i n m))"
| "model_step nn (Reload p) m = Some (snd (wm_reload_weights nn p m))"

fun model_ready :: "ModelConfig \<Rightarrow> ('g, 'c) WasiNnModel \<Rightarrow> bool" where
  "model_ready cfg m \<longleftrightarrow> wm_config m = cfg \<and> wm_graph m \<noteq> None \<and> wm_context m \<noteq> None"

lemma infer_ready: "model_ready cfg m \<Longrightarrow> model_ready cfg (snd (wm_infer nn i n m))"
  by (auto simp: wm_infer_def split: prod.split sum.split)

lemma reload_ready: "model_ready cfg m \<Longrightarrow> model_ready cfg (snd (wm_reload_weights nn p m))"
  by (auto simp: wm_reload_weights_def load_graph_def split: prod.split sum.split)

interpretation model: total_machine "model_step nn" "model_ready cfg"
  for nn :: "('g, 'c) nn" and cfg
proof
  show "model_ready cfg s \<Longrightarrow> model_step nn x s = Some t \<Longrightarrow> model_ready cfg t" for s t x
    by (cases x) (auto simp del: model_ready.simps intro: infer_ready reload_ready)
  show "model_ready cfg s \<Longrightarrow> model_step nn x s \<noteq> None" for s x
    by (cases x) simp_all
qed

lemma new_ready: "WasiNnModel_new nn cfg = Inr m \<Longrightarrow> model_ready cfg m"
  by (auto simp: WasiNnModel_new_def load_graph_def Let_def split: sum.splits prod.splits)

text \<open>
  A model that was created answers every inference from a context: whatever inferences and reloads came
  before, failed ones included, no inference reports a missing context.
\<close>
theorem model_never_uninitialised:
  assumes "WasiNnModel_new nn cfg = Inr m"
  shows "\<exists>m'. run (model_step nn) ops m = Some m'
     \<and> wm_config m' = cfg
     \<and> fst (wm_infer nn i n m') \<noteq> Inl ''WASI-NN execution context not initialized - call reload_weights first''"
proof -
  from model.run_total [OF new_ready [OF assms]] obtain m' where "run (model_step nn) ops m = Some m'" "model_ready cfg m'" by blast
  then show ?thesis by (auto simp: wm_infer_def map_err_iff split: prod.split_asm sum.split_asm)
qed

section \<open>Where weights come from\<close>

text \<open>
  An absolute path of the caller replaces the directory of the models, so a reload can read any file of
  the host.
\<close>
theorem reload_escapes_models_dir:
  "wm_reload_weights nn (''/'' @ p) m = load_graph nn (''/'' @ p) m"
  by (simp add: wm_reload_weights_def path_join_def starts_with_def)

text \<open>
  The limit on the number of tokens has no effect on an inference.
\<close>
theorem infer_ignores_max_tokens: "infer nn input n m = infer nn input k m"
  by (cases m) (simp_all add: wm_infer_def sm_infer_def)

text \<open>A path below a file that can be read cannot be read.\<close>

definition files_have_no_children :: "('g, 'c) nn \<Rightarrow> bool" where
  "files_have_no_children nn \<longleftrightarrow>
     (\<forall>p q w. nn_read nn p = Inr w \<and> q \<noteq> [] \<and> \<not> starts_with q ''/'' \<longrightarrow> (\<exists>e. nn_read nn (path_join p q) = Inl e))"

lemma create_model_missing:
  assumes "nn_read nn (path_join (mc_models_dir cfg) (mc_model_name cfg)) = Inl e"
  shows "create_model True nn cfg
     = Inl (''Failed to read model weights from '' @ nn_debug_path nn (path_join (mc_models_dir cfg) (mc_model_name cfg)))"
  using assms by (simp add: create_model_def WasiNnModel_new_def load_graph_def build_graph_def)

text \<open>
  The fallback node takes the path of its weights for a directory and looks for a file with the name of
  the model in it. So where the weights are in place, at the path that the settings name, it can answer
  no prompt: every inference fails and counts as an error.
\<close>
theorem fallback_cannot_load_weights:
  assumes "files_have_no_children nn" "nn_read nn (ep_model_path (fn_endpoint n)) = Inr weights"
    and "ep_model_id (fn_endpoint n) \<noteq> []" "\<not> starts_with (ep_model_id (fn_endpoint n)) ''/''"
    and "fn_invoke_nn nn True None True Granted now ms prompt n = Some (r, n')"
  shows "fb_output r = None \<and> fb_error r \<noteq> None \<and> fn_error_count n' = fn_error_count n + 1"
proof -
  let ?ep = "fn_endpoint n"
  from assms(1-4) obtain e where "nn_read nn (path_join (ep_model_path ?ep) (ep_model_id ?ep)) = Inl e"
    by (auto simp: files_have_no_children_def)
  then have "\<exists>e. invoke_wasi_nn nn True None ?ep prompt = Inl e"
    by (simp add: invoke_wasi_nn_def create_model_missing with_models_dir_def with_target_def with_encoding_def with_model_name_def
        ModelConfig_default_def ensure_def Let_def)
  with assms(5) show ?thesis
    by (auto simp: fn_invoke_nn_def fn_infer_nn_def fn_invoke_def fn_failure_def Let_def split: option.splits if_splits)
qed

definition weights_in_place :: "(unit, unit) nn" where
  "weights_in_place = \<lparr>nn_read = (\<lambda>p. if p = ''./serein-models/fallback-slm.gguf'' then Inr ''w'' else Inl ''ENOTDIR''),
     nn_debug_path = id, nn_build = (\<lambda>_ _ _. Inr ()), nn_init = Inr, nn_set_input = (\<lambda>_ _ c. (Inr (), c)),
     nn_compute = (\<lambda>c. (Inr (), c)), nn_get_output = (\<lambda>c. (Inr ''out'', c)), nn_from_utf8 = Inr\<rparr>"

lemma weights_in_place_law: "files_have_no_children weights_in_place"
  by (auto simp: files_have_no_children_def weights_in_place_def path_join_def split: if_splits)

theorem fallback_cannot_load_weights_witness:
  "\<exists>r n'. fn_invoke_nn weights_in_place True None True Granted 0 0 ''hi''
       (PhysicalFallbackNode_new (WasiNnEndpoint_new ''serein-slm-v1'' ''./serein-models/fallback-slm.gguf'')) = Some (r, n')
     \<and> fb_output r = None \<and> fn_error_count n' = 1"
proof -
  let ?n = "PhysicalFallbackNode_new (WasiNnEndpoint_new ''serein-slm-v1'' ''./serein-models/fallback-slm.gguf'')"
  have "fn_invoke_nn weights_in_place True None True Granted 0 0 ''hi'' ?n \<noteq> None"
    by (simp add: fn_invoke_nn_def fn_invoke_def PhysicalFallbackNode_new_def WasiNnEndpoint_new_def checked_mul_def Let_def)
  then obtain r n' where r: "fn_invoke_nn weights_in_place True None True Granted 0 0 ''hi'' ?n = Some (r, n')" by auto
  have "fb_output r = None \<and> fb_error r \<noteq> None \<and> fn_error_count n' = fn_error_count ?n + 1"
    by (rule fallback_cannot_load_weights [OF weights_in_place_law _ _ _ r])
       (simp_all add: PhysicalFallbackNode_new_def WasiNnEndpoint_new_def weights_in_place_def starts_with_def)
  with r show ?thesis by (auto simp: PhysicalFallbackNode_new_def)
qed

theorem model_never_uninitialised_witness:
  "\<exists>m m'. WasiNnModel_new (weights_in_place\<lparr>nn_read := \<lambda>_. Inr ''w''\<rparr>) ModelConfig_default = Inr m
     \<and> run (model_step (weights_in_place\<lparr>nn_read := \<lambda>_. Inr ''w''\<rparr>)) [Reload ''x'', Infer ''p'' 3] m = Some m'
     \<and> wm_config m' = ModelConfig_default"
proof -
  let ?nn = "weights_in_place\<lparr>nn_read := \<lambda>_. Inr ''w''\<rparr>"
  have "WasiNnModel_new ?nn ModelConfig_default = Inr \<lparr>wm_config = ModelConfig_default, wm_graph = Some (), wm_context = Some ()\<rparr>"
    by (simp add: WasiNnModel_new_def load_graph_def build_graph_def weights_in_place_def ModelConfig_default_def)
  with model_never_uninitialised [OF this] show ?thesis by blast
qed

end
