(* ===== verification/Offline.thy ===== *)
theory Offline
  imports Prompts Orchestrator
begin

text \<open>
  \<open>crates/telemetry/src/lib.rs\<close>: the engine with the answer for the time without consensus, and how its
  answer and the one of the local node stand with the oracle of \<open>Prompts\<close>.

  The counter is atomic and wraps around. The lock of the last activation cannot be poisoned, since
  nothing panics while it is held. The process-wide engine is an option: absent before the first use.
\<close>

record OfflineBackupEngine =
  ob_cached_response :: string
  ob_fallback_mode :: bool
  ob_activation_count :: u64
  ob_last_activation :: "instant option"

datatype FallbackSource = OfflineCache | ShadowExecution | ManualOverride

record EclipseFallbackResponse =
  ef_payload :: string
  ef_source :: FallbackSource
  ef_is_conservative :: bool
  ef_activated_at :: "instant option"

definition eclipse_payload :: string where
  "eclipse_payload = ''{\"networkId\":\"FALLBACK\",\"taskType\":\"default\",\"maxGasLimit\":0,\"confidenceScore\":0.81,\"sourceUrl\":\"https://eclipse-fallback.serein.internal\"}''"

definition fallback :: OfflineBackupEngine where
  "fallback = \<lparr>ob_cached_response = eclipse_payload, ob_fallback_mode = False, ob_activation_count = 0, ob_last_activation = None\<rparr>"

definition activate_fallback :: "instant \<Rightarrow> OfflineBackupEngine \<Rightarrow> EclipseFallbackResponse \<times> OfflineBackupEngine" where
  "activate_fallback now e =
     (\<lparr>ef_payload = ob_cached_response e, ef_source = OfflineCache, ef_is_conservative = True, ef_activated_at = Some now\<rparr>,
      e\<lparr>ob_activation_count := ob_activation_count e + 1, ob_last_activation := Some now\<rparr>)"

definition activation_count :: "OfflineBackupEngine \<Rightarrow> u64" where
  "activation_count e = ob_activation_count e"

definition is_fallback_active :: "OfflineBackupEngine \<Rightarrow> bool" where
  "is_fallback_active e = ob_fallback_mode e"

definition trigger_offline_fallback :: "instant \<Rightarrow> OfflineBackupEngine option \<Rightarrow> EclipseFallbackResponse \<times> OfflineBackupEngine option" where
  "trigger_offline_fallback now cell =
     map_prod id Some (activate_fallback now (case cell of None \<Rightarrow> fallback | Some e \<Rightarrow> e))"

section \<open>Sequences of activations\<close>

fun triggers :: "instant list \<Rightarrow> OfflineBackupEngine option \<Rightarrow> EclipseFallbackResponse list \<times> OfflineBackupEngine option" where
  "triggers [] cell = ([], cell)"
| "triggers (t # ts) cell =
     (let (r, cell1) = trigger_offline_fallback t cell; (rs, cell2) = triggers ts cell1 in (r # rs, cell2))"

definition eclipse_reply :: "instant \<Rightarrow> EclipseFallbackResponse" where
  "eclipse_reply t = \<lparr>ef_payload = eclipse_payload, ef_source = OfflineCache, ef_is_conservative = True, ef_activated_at = Some t\<rparr>"

lemma triggers_some:
  assumes "ob_cached_response e = eclipse_payload"
  shows "triggers ts (Some e) = (map eclipse_reply ts,
    Some (e\<lparr>ob_activation_count := ob_activation_count e + of_nat (length ts),
            ob_last_activation := (if ts = [] then ob_last_activation e else Some (last ts))\<rparr>))"
  using assms
proof (induction ts arbitrary: e)
  case (Cons t ts)
  then show ?case
    by (simp add: trigger_offline_fallback_def activate_fallback_def eclipse_reply_def ac_simps)
qed simp

text \<open>
  However often the fallback is triggered in a process, each answer is the same text with the time of
  its activation; the counter is the number of activations modulo \<open>2 ^ 64\<close>; and the engine never reports
  that the fallback is active, also right after it was activated.
\<close>
theorem activations:
  assumes "triggers (t # ts) None = (rs, Some e)"
  shows "rs = map eclipse_reply (t # ts)
     \<and> activation_count e = of_nat (length (t # ts))
     \<and> ob_last_activation e = Some (last (t # ts))
     \<and> \<not> is_fallback_active e"
proof -
  have "triggers (t # ts) None = triggers (t # ts) (Some fallback)" by (simp add: trigger_offline_fallback_def)
  with assms triggers_some [of fallback "t # ts"] have
    "rs = map eclipse_reply (t # ts)"
    "e = fallback\<lparr>ob_activation_count := ob_activation_count fallback + of_nat (length (t # ts)),
                  ob_last_activation := Some (last (t # ts))\<rparr>"
    by (simp_all only: prod.inject option.inject) (simp_all add: fallback_def)
  then show ?thesis by (simp add: activation_count_def is_fallback_active_def fallback_def)
qed

theorem activations_witness:
  "\<exists>rs e. triggers [1, 2] None = (rs, Some e) \<and> rs = map eclipse_reply [1, 2] \<and> activation_count e = 2 \<and> \<not> is_fallback_active e"
proof -
  obtain rs e where "triggers [1, 2] None = (rs, Some e)" by (simp add: trigger_offline_fallback_def activate_fallback_def)
  with activations [OF this] show ?thesis by auto
qed

section \<open>The fallback answers and the oracle\<close>

definition scored :: "(string \<Rightarrow> string + json) \<Rightarrow> string \<Rightarrow> rat \<Rightarrow> bool" where
  "scored from_str payload q \<longleftrightarrow>
     (\<exists>v n. from_str payload = Inr v \<and> json_get v ''confidenceScore'' = Some (JNumber n) \<and> jnum_as_f64 n = to_f64 q)"

lemma scored_passes:
  assumes "scored from_str payload q" "\<bar>q\<bar> \<le> 2 ^ 64"
  shows "oracle_arbitrate from_str payload src = Inr payload \<longleftrightarrow> rnd (if src = PhysicalNodeD then 40 / 100 else 80 / 100) \<le> rnd q"
proof -
  let ?t = "if src = PhysicalNodeD then 40 / 100 else 80 / 100 :: rat"
  have "\<bar>40 / 100 :: rat\<bar> \<le> 2 ^ 64" "\<bar>80 / 100 :: rat\<bar> \<le> 2 ^ 64" by simp_all
  then have "oracle_threshold src = Fin (rnd ?t)" unfolding oracle_threshold_def by (simp only: to_f64_Fin split: if_split) simp
  moreover from assms obtain v n where "from_str payload = Inr v" "json_get v ''confidenceScore'' = Some (JNumber n)"
    "jnum_as_f64 n = Fin (rnd q)" by (auto simp: scored_def to_f64_Fin)
  ultimately show ?thesis by (auto simp: oracle_ok_iff simp del: jnum_as_f64.simps)
qed

lemma rnd_half: "rnd (1 / 2) < rnd (80 / 100)"
proof -
  have "rnd (1 / 2) = 1 / 2" using rnd_pow2 [of "- 1"] by (simp add: power_int_minus)
  moreover have "rnd (5 / 8) = 5 / 8"
    using rnd_dyadic [of 53 "5 / 8" "5 * 2 ^ 50"] by (simp add: round_even_def floor_rat_numeral)
  moreover have "rnd (5 / 8) \<le> rnd (80 / 100)" by (rule rnd_mono) simp
  ultimately show ?thesis by simp
qed

text \<open>
  The stored answer of the engine would pass the oracle as an answer of any source, so as a confident
  answer of the cloud too; the constant answer of the local node passes as its own and as no other.
\<close>
theorem fallback_answers_at_oracle:
  assumes "scored from_str eclipse_payload (81 / 100)" "scored from_str mock_output (1 / 2)"
  shows "oracle_arbitrate from_str eclipse_payload src = Inr eclipse_payload
     \<and> (oracle_arbitrate from_str mock_output src = Inr mock_output \<longleftrightarrow> src = PhysicalNodeD)"
  using rnd_half rnd_mono [of "40 / 100" "81 / 100"] rnd_mono [of "80 / 100" "81 / 100"] rnd_mono [of "40 / 100" "1 / 2"]
  by (simp add: scored_passes [OF assms(1)] scored_passes [OF assms(2)])

theorem fallback_answers_at_oracle_witness:
  "let from_str = (\<lambda>s. Inr (JObject [(''confidenceScore'', JNumber (JFloat (to_f64 (if s = mock_output then 1 / 2 else 81 / 100))))]))
   in oracle_arbitrate from_str eclipse_payload FrontierCloud = Inr eclipse_payload
    \<and> (oracle_arbitrate from_str mock_output FrontierCloud = Inr mock_output \<longleftrightarrow> FrontierCloud = PhysicalNodeD)"
  unfolding Let_def
  by (rule fallback_answers_at_oracle) (simp_all add: scored_def eclipse_payload_def mock_output_def)

end
