(* ===== verification/Boot.thy ===== *)
theory Boot
  imports Gateway Config
begin

text \<open>
  The start of the process in \<open>apps/gateway/src/main.rs\<close>: every step that can stop it, in its order, and
  the state with which the server begins.

  The outcome of what the steps call outside the repository (Redis, the HTTP client, the files of the
  recorder and of the providers, the listener, the parser of header values) is the argument \<open>bw\<close>. Log
  lines, the thread pools and the background tasks are not part of the result; the probe of the
  fallback node at the start is, since it counts as an invocation. \<open>None\<close> is a panic.
\<close>

section \<open>The start\<close>

datatype cors = AnyOrigin | OnlyOrigin string

record ('b, 's) boot_world =
  bw_crypto :: crypto
  bw_parse_f64 :: "string \<Rightarrow> f64 option"
  bw_redis :: "'s option"
  bw_now :: instant
  bw_kernel :: boot
  bw_random :: u64
  bw_http_client :: "string + unit"
  bw_read :: "string \<Rightarrow> string + string"
  bw_toml :: "string \<Rightarrow> string + ProvidersConfig"
  bw_show_provider_error :: "ProviderError \<Rightarrow> string"
  bw_probe_ms :: u64
  bw_recorder :: "string + unit"
  bw_bus :: 'b
  bw_signatures :: "(string \<times> string) list option"
  bw_header_value :: "string \<Rightarrow> string + unit"
  bw_bind :: "string + unit"

record ('k, 'b, 's, 'm) booted =
  bo_config :: AppConfig
  bo_orchestrator :: "('s, 'm) TmrOrchestrator"
  bo_state :: "('k, 'b, 's) AppState"
  bo_cors :: cors

definition slm_or_lazy :: "environment \<Rightarrow> SlmNodeConfig" where
  "slm_or_lazy env =
     (case SlmNodeConfig_from_env env of
        Inr c \<Rightarrow> c
      | Inl _ \<Rightarrow> \<lparr>slm_model_id = ''serein-slm-v1'', slm_model_path = ''./serein-models/fallback-slm.gguf'', execution_mode = SlmLazy\<rparr>)"

definition probe_node :: "instant \<Rightarrow> u64 \<Rightarrow> PhysicalFallbackNode \<Rightarrow> PhysicalFallbackNode" where
  "probe_node now ms n =
     (if fn_is_available n then (case fn_invoke Granted now ms ''probe'' n of Some (r, n1) \<Rightarrow> n1 | None \<Rightarrow> n) else n)"

definition cors_layer :: "(string \<Rightarrow> string + unit) \<Rightarrow> environment \<Rightarrow> string + cors" where
  "cors_layer header_value env =
     (let origin = env_or env ''ALLOWED_ORIGIN'' ''*''
      in if origin = ''*'' then Inr AnyOrigin
         else and_then (map_err (\<lambda>e. ''Invalid ALLOWED_ORIGIN environment variable format: '' @ e) (header_value origin))
                (\<lambda>_. Inr (OnlyOrigin origin)))"

definition honeypot_env :: "u64 \<Rightarrow> (string \<times> string) list" where
  "honeypot_env r = ctx_environment (WasiVirtContext_new r)"

definition start_orchestrator :: "('b, 's) boot_world \<Rightarrow> environment \<Rightarrow> 's \<Rightarrow> LlmProvider list \<Rightarrow> ('s, 'm) TmrOrchestrator" where
  "start_orchestrator bw env store providers =
     (let o1 = with_providers env (map (\<lambda>p. (provider_id p, display_name p, timeout_ms p)) providers) (slm_or_lazy env) store
      in o1\<lparr>fallback_node := probe_node (bw_now bw) (bw_probe_ms bw) (fallback_node o1)\<rparr>)"

definition start_state :: "('b, 's) boot_world \<Rightarrow> environment \<Rightarrow> 's \<Rightarrow> ApiRateLimiter \<Rightarrow> 'k SereinMicrokernel \<Rightarrow> ('k, 'b, 's) AppState" where
  "start_state bw env store limiter k =
     \<lparr>st_kernel = k, st_recorder = \<lparr>ch_queue = [], ch_open = True\<rparr>,
      st_service_auth = (case ServiceAuthenticator_from_env env of Inr a \<Rightarrow> Some a | Inl _ \<Rightarrow> None),
      st_nonces = NonceCacheInner_new, st_compliance = \<lparr>bus_tx = bw_bus bw, dropped_events = 0\<rparr>,
      st_waf = PromptInjectionWaf_new (bw_signatures bw), st_wasm_module = [], st_limiter = limiter, st_budget = store\<rparr>"

definition finish_start ::
  "('b, 's) boot_world \<Rightarrow> environment \<Rightarrow> 's \<Rightarrow> ApiRateLimiter \<Rightarrow> AppConfig \<Rightarrow> 'k SereinMicrokernel \<Rightarrow> string + ('k, 'b, 's, 'm) booted" where
  "finish_start bw env store limiter cfg k =
     and_then (bw_http_client bw) (\<lambda>_.
     and_then (map_err (\<lambda>e. ''Failed to build providers from configuration: '' @ bw_show_provider_error bw e)
                (load_providers env (bw_read bw) (bw_toml bw))) (\<lambda>providers.
     and_then (map_err (\<lambda>e. ''Failed to initialize consensus flight recorder: '' @ e) (bw_recorder bw)) (\<lambda>_.
     and_then (cors_layer (bw_header_value bw) env) (\<lambda>c.
     and_then (bw_bind bw) (\<lambda>_.
     Inr \<lparr>bo_config = cfg, bo_orchestrator = start_orchestrator bw env store providers,
          bo_state = start_state bw env store limiter k, bo_cors = c\<rparr>)))))"

definition start_gateway :: "('b, 's) boot_world \<Rightarrow> environment \<Rightarrow> (string + ('k, 'b, 's, 'm) booted) may_panic" where
  "start_gateway bw env =
     (if insecure_token env then None
      else case (init_circuit_breaker (bw_now bw) None, bw_redis bw) of
        (Some limiter, Some store) \<Rightarrow>
          (case map_err (\<lambda>e. ''Failed to load application configuration from environment: '' @ e)
                  (AppConfig_from_env (bw_crypto bw) (bw_parse_f64 bw) env) of
             Inl e \<Rightarrow> Some (Inl e)
           | Inr cfg \<Rightarrow>
               (case SereinMicrokernel_new (bw_crypto bw) ((bw_kernel bw)\<lparr>bt_master_key := env ''SEREIN_MASTER_KEY''\<rparr>)
                       (honeypot_env (bw_random bw)) of
                  None \<Rightarrow> None
                | Some (Inl e) \<Rightarrow> Some (Inl e)
                | Some (Inr k) \<Rightarrow> Some (finish_start bw env store limiter cfg k)))
      | _ \<Rightarrow> None)"

section \<open>What a started process is like\<close>

lemma start_cases:
  assumes "start_gateway bw env = Some (Inr b)"
  obtains limiter store k providers where
    "\<not> insecure_token env" "init_circuit_breaker (bw_now bw) None = Some limiter" "bw_redis bw = Some store"
    "AppConfig_from_env (bw_crypto bw) (bw_parse_f64 bw) env = Inr (bo_config b)"
    "SereinMicrokernel_new (bw_crypto bw) ((bw_kernel bw)\<lparr>bt_master_key := env ''SEREIN_MASTER_KEY''\<rparr>) (honeypot_env (bw_random bw)) = Some (Inr k)"
    "load_providers env (bw_read bw) (bw_toml bw) = Inr providers"
    "bo_orchestrator b = start_orchestrator bw env store providers" "bo_state b = start_state bw env store limiter k"
    "cors_layer (bw_header_value bw) env = Inr (bo_cors b)"
  using assms
  by (auto simp: start_gateway_def finish_start_def results split: if_splits option.splits sum.splits)

text \<open>
  C33: A process that serves requests has settings that were accepted, authenticates with the token of these
  settings, has a kernel with untouched accounts that is not shut down, no module and an empty cache of
  nonces; and the settings of its local model come from the environment, so the configuration for an
  invalid environment is never used.
\<close>
theorem started_gateway:
  assumes "start_gateway bw env = Some (Inr b)"
  shows "AppConfig_from_env (bw_crypto bw) (bw_parse_f64 bw) env = Inr (bo_config b)
     \<and> st_service_auth (bo_state b) = Some \<lparr>sa_secret = ac_internal_token (bo_config b)\<rparr> \<and> ac_internal_token (bo_config b) \<noteq> []
     \<and> kernel_ok (st_kernel (bo_state b)) \<and> used (st_kernel (bo_state b)) = 0
     \<and> st_wasm_module (bo_state b) = [] \<and> nc_entries (st_nonces (bo_state b)) = []
     \<and> (\<exists>slm. SlmNodeConfig_from_env env = Inr slm \<and> slm_or_lazy env = slm)"
proof -
  from assms obtain limiter store k providers where s:
    "AppConfig_from_env (bw_crypto bw) (bw_parse_f64 bw) env = Inr (bo_config b)"
    "SereinMicrokernel_new (bw_crypto bw) ((bw_kernel bw)\<lparr>bt_master_key := env ''SEREIN_MASTER_KEY''\<rparr>) (honeypot_env (bw_random bw)) = Some (Inr k)"
    "bo_state b = start_state bw env store limiter k" by (rule start_cases)
  have "env ''SLM_MODEL_PATH'' \<noteq> Some []"
    using from_env_ok_iff [of "bw_crypto bw" "bw_parse_f64 bw" env] s(1) by (simp add: is_ok_iff)
  then have "\<exists>slm. SlmNodeConfig_from_env env = Inr slm"
    by (auto simp: SlmNodeConfig_from_env_def Let_def split: option.splits)
  then show ?thesis
    using s started_process_authenticates [OF s(1)] kernel_new_ok [OF s(2)]
    by (auto simp: start_state_def NonceCacheInner_new_def slm_or_lazy_def)
qed

text \<open>Dispatches one after the other, each with its own environment, calls, request and key.\<close>

definition dispatch_step ::
  "('s, 'm) Orchestrator.env \<times> call list \<times> ProviderRequest \<times> string \<Rightarrow> ('s, 'm) TmrOrchestrator \<Rightarrow> ('s, 'm) TmrOrchestrator may_panic" where
  "dispatch_step = (\<lambda>(ev, calls, req, key) o1. map_option snd (dispatch_consensus_inner ev calls req key o1))"

definition detached :: "'s \<Rightarrow> ('s, 'm) TmrOrchestrator \<Rightarrow> bool" where
  "detached st o1 \<longleftrightarrow> \<not> has_cache o1 \<and> \<not> has_finops o1 \<and> or_store o1 = st \<and> cache_writes o1 = []"

lemma finish_flags:
  "finish_dispatch ev req key res o1 = Some (res', o2) \<Longrightarrow> has_cache o2 = has_cache o1 \<and> has_finops o2 = has_finops o1"
  by (auto simp: finish_dispatch_def Let_def split: option.splits if_splits)

lemma dispatch_detached:
  assumes "detached st o1" "dispatch_step x o1 = Some o2"
  shows "detached st o2"
proof -
  obtain ev calls req key where x: "x = (ev, calls, req, key)" by (cases x)
  with assms(2) obtain res where "dispatch_consensus_inner ev calls req key o1 = Some (res, o2)" by (auto simp: dispatch_step_def)
  then obtain res1 o3 where d: "finish_dispatch ev req key res1 o3 = Some (res, o2)"
      "or_store o3 = or_store o1" "has_finops o3 = has_finops o1" "has_cache o3 = has_cache o1" "cache_writes o3 = cache_writes o1"
    by (rule dispatch_cases)
  show ?thesis
    using assms(1) d(2-) finish_flags [OF d(1)] finish_result(6,7) [OF d(1)] by (simp add: detached_def)
qed

interpretation dispatching: invariant_machine dispatch_step "detached st"
  for st
  by unfold_locales (rule dispatch_detached)


text \<open>
  The guard against the token of the example file looks at the variable itself, the settings take a
  missing one for production. So without the variable a process starts as production with that token,
  which with the variable set to production halts.
\<close>
theorem unset_environment_skips_token_check:
  assumes "env ''APP_ENV'' = None" "env ''SEREIN_INTERNAL_TOKEN'' = Some ''generate_a_random_uuid_here''"
    and "start_gateway bw env = Some (Inr b)"
  shows "ac_app_env (bo_config b) = ''production'' \<and> ac_internal_token (bo_config b) = ''generate_a_random_uuid_here''
     \<and> start_gateway bw (env(''APP_ENV'' \<mapsto> ''production'')) = None"
proof -
  from assms(3) have "AppConfig_from_env (bw_crypto bw) (bw_parse_f64 bw) env = Inr (bo_config b)" by (rule start_cases)
  then have "ac_app_env (bo_config b) = ''production'' \<and> ac_internal_token (bo_config b) = ''generate_a_random_uuid_here''"
    using assms(1,2) from_env_fields(1,2) by (fastforce simp: env_or_def)
  moreover have "insecure_token (env(''APP_ENV'' \<mapsto> ''production''))" using assms(2) by (simp add: insecure_token_def)
  ultimately show ?thesis by (simp add: start_gateway_def)
qed

text \<open>
  Which origins may call depends on the variable \<open>ALLOWED_ORIGIN\<close> alone; when it is missing every origin
  may, whatever origins the settings list.
\<close>
theorem cors_ignores_settings:
  assumes "start_gateway bw env = Some (Inr b)"
  shows "bo_cors b = (case env ''ALLOWED_ORIGIN'' of None \<Rightarrow> AnyOrigin | Some s \<Rightarrow> if s = ''*'' then AnyOrigin else OnlyOrigin s)"
  using assms by (rule start_cases) (auto simp: cors_layer_def env_or_def results Let_def split: option.splits if_splits)


section \<open>A concrete start\<close>

definition example_world :: "(AuditEvent chan, string \<Rightarrow> int option) boot_world" where
  "example_world =
     \<lparr>bw_crypto = example_crypto, bw_parse_f64 = (\<lambda>s. Some (Fin 1)), bw_redis = Some Map.empty, bw_now = 0, bw_kernel = example_boot,
      bw_random = 0, bw_http_client = Inr (), bw_read = (\<lambda>_. Inl []), bw_toml = (\<lambda>_. Inl []), bw_show_provider_error = (\<lambda>_. []),
      bw_probe_ms = 0, bw_recorder = Inr (), bw_bus = ([], True), bw_signatures = None, bw_header_value = (\<lambda>_. Inr ()), bw_bind = Inr ()\<rparr>"

definition placeholder_vars :: environment where
  "placeholder_vars = example_vars(''SEREIN_INTERNAL_TOKEN'' \<mapsto> ''generate_a_random_uuid_here'')"

lemma placeholder_config: "\<exists>c. AppConfig_from_env example_crypto (\<lambda>s. Some (Fin 1)) placeholder_vars = Inr c"
  unfolding is_ok_iff [symmetric]
  using defaults_parse(1)
  by (auto simp: from_env_ok_iff example_crypto_def placeholder_vars_def example_vars_def env_or_def parses_def u64_settings_def
      bool_settings_def parse_word_def parse_unsigned_def is_digit_def digit_val_def)

lemma placeholder_kernel:
  "\<exists>k :: unit SereinMicrokernel. SereinMicrokernel_new example_crypto (example_boot\<lparr>bt_master_key := placeholder_vars ''SEREIN_MASTER_KEY''\<rparr>) hp = Some (Inr k)"
  by (simp add: SereinMicrokernel_new_def example_boot_def check_master_key_def example_crypto_def MaskingEngine_new_def
      MockHsm_new_def detect_def placeholder_vars_def example_vars_def)

lemma placeholder_providers: "load_providers placeholder_vars (\<lambda>_. Inl []) toml = Inr []"
  by (simp add: load_providers_def load_from_file_def build_providers_from_env_def build_providers_def placeholder_vars_def example_vars_def)

lemma example_start:
  "\<exists>b :: (unit, AuditEvent chan, string \<Rightarrow> int option, 'm) booted. start_gateway example_world placeholder_vars = Some (Inr b)"
proof -
  obtain c where c: "AppConfig_from_env example_crypto (\<lambda>s. Some (Fin 1)) placeholder_vars = Inr c" using placeholder_config by blast
  obtain k :: "unit SereinMicrokernel" where
    k: "SereinMicrokernel_new example_crypto (example_boot\<lparr>bt_master_key := placeholder_vars ''SEREIN_MASTER_KEY''\<rparr>) (honeypot_env 0) = Some (Inr k)"
    using placeholder_kernel by blast
  have "\<not> insecure_token placeholder_vars" "cors_layer (\<lambda>_. Inr ()) placeholder_vars = Inr AnyOrigin"
    by (simp_all add: insecure_token_def cors_layer_def env_or_def placeholder_vars_def example_vars_def)
  with c k placeholder_providers show ?thesis
    by (simp add: start_gateway_def example_world_def init_circuit_breaker_def finish_start_def)
qed

theorem started_gateway_witness:
  "\<exists>b :: (unit, AuditEvent chan, string \<Rightarrow> int option, unit) booted. start_gateway example_world placeholder_vars = Some (Inr b)
     \<and> st_service_auth (bo_state b) = Some \<lparr>sa_secret = ac_internal_token (bo_config b)\<rparr> \<and> used (st_kernel (bo_state b)) = 0"
  using example_start started_gateway by blast


theorem unset_environment_skips_token_check_witness:
  "\<exists>b :: (unit, AuditEvent chan, string \<Rightarrow> int option, unit) booted. start_gateway example_world placeholder_vars = Some (Inr b)
     \<and> ac_app_env (bo_config b) = ''production''"
proof -
  obtain b :: "(unit, AuditEvent chan, string \<Rightarrow> int option, unit) booted" where
    b: "start_gateway example_world placeholder_vars = Some (Inr b)" using example_start by blast
  have v: "placeholder_vars ''APP_ENV'' = None" "placeholder_vars ''SEREIN_INTERNAL_TOKEN'' = Some ''generate_a_random_uuid_here''"
    by (simp_all add: placeholder_vars_def example_vars_def)
  from conjunct1 [OF unset_environment_skips_token_check [OF v b]] b show ?thesis by blast
qed

theorem cors_ignores_settings_witness:
  "\<exists>b :: (unit, AuditEvent chan, string \<Rightarrow> int option, unit) booted. start_gateway example_world placeholder_vars = Some (Inr b) \<and> bo_cors b = AnyOrigin"
proof -
  obtain b :: "(unit, AuditEvent chan, string \<Rightarrow> int option, unit) booted" where
    b: "start_gateway example_world placeholder_vars = Some (Inr b)" using example_start by blast
  from cors_ignores_settings [OF b] b show ?thesis by (simp add: placeholder_vars_def example_vars_def)
qed

end
