(* ===== verification/TextMasking.thy ===== *)
theory TextMasking
  imports Masking
begin

text \<open>
  The last part of \<open>crates/core/src/security/masking.rs\<close>: personal data in free text, found by four
  regular expressions and replaced one kind after the other.

  The regular expressions are the argument \<open>tp\<close>: each cuts a text into its matches, a gap and the named
  groups of the match each, and the rest behind the last match. What the code relies on is
  \<open>cuts_law\<close>: the pieces make up the text. The expressions do not capture the separators inside a
  national identifier; they are pieces of their own here, which the replacement drops.
\<close>

record text_patterns =
  passports :: "ustring \<Rightarrow> (ustring \<times> ustring \<times> ustring) list \<times> ustring"
  emails :: "ustring \<Rightarrow> (ustring \<times> ustring \<times> ustring) list \<times> ustring"
  phones :: "ustring \<Rightarrow> (ustring \<times> ustring \<times> ustring \<times> ustring) list \<times> ustring"
  national_ids :: "ustring \<Rightarrow> (ustring \<times> ustring \<times> ustring \<times> ustring \<times> ustring \<times> ustring) list \<times> ustring"

definition replace_cut :: "('m \<Rightarrow> ustring) \<Rightarrow> 'm list \<times> ustring \<Rightarrow> ustring" where
  "replace_cut f = (\<lambda>(ms, rest). concat (map f ms) @ rest)"

definition own_config :: "PiiMaskingEngine \<Rightarrow> PiiField \<Rightarrow> PiiMaskConfig" where
  "own_config pe field = (case hm_get (mask_configs pe) field of Some c \<Rightarrow> c | None \<Rightarrow> PiiMaskConfig_default)"

definition byte_len :: "ustring \<Rightarrow> nat" where
  "byte_len s = sum_list (map len_utf8 s)"

text \<open>The codes 42, 64 and 45 are the asterisk, the at sign and the hyphen.\<close>

definition mask_passport_patterns :: "text_patterns \<Rightarrow> PiiMaskingEngine \<Rightarrow> ustring \<Rightarrow> ustring" where
  "mask_passport_patterns tp pe t =
     replace_cut (\<lambda>(gap, prefix, digits). gap @ prefix @ replicate (byte_len digits) (mask_char (own_config pe PassportNumber)))
       (passports tp t)"

definition mask_email_patterns :: "text_patterns \<Rightarrow> ustring \<Rightarrow> ustring" where
  "mask_email_patterns tp t =
     replace_cut (\<lambda>(gap, user, domain). gap @ (if user = [] then [42, 42, 42, 64] else take 1 user @ [42, 42, 42, 64] @ domain))
       (emails tp t)"

definition mask_phone_patterns :: "text_patterns \<Rightarrow> PiiMaskingEngine \<Rightarrow> ustring \<Rightarrow> ustring" where
  "mask_phone_patterns tp pe t =
     replace_cut (\<lambda>(gap, plus, country, number). gap @ plus @ country @ replicate (byte_len number) (mask_char (own_config pe PhoneNumber)))
       (phones tp t)"

definition mask_national_id_patterns :: "text_patterns \<Rightarrow> ustring \<Rightarrow> ustring" where
  "mask_national_id_patterns tp t =
     replace_cut (\<lambda>(gap, prefix, sep1, middle, sep2, suf). gap @ prefix @ [45] @ replicate (byte_len middle) 42 @ [45] @ suf)
       (national_ids tp t)"

definition mask_pii_in_text :: "text_patterns \<Rightarrow> PiiMaskingEngine \<Rightarrow> ustring \<Rightarrow> ustring" where
  "mask_pii_in_text tp pe t =
     mask_national_id_patterns tp (mask_phone_patterns tp pe (mask_email_patterns tp (mask_passport_patterns tp pe t)))"

section \<open>What the masked text shows\<close>

definition cuts_law :: "text_patterns \<Rightarrow> bool" where
  "cuts_law tp \<longleftrightarrow>
     (\<forall>t. replace_cut (\<lambda>(g, a, b). g @ a @ b) (passports tp t) = t)
   \<and> (\<forall>t. replace_cut (\<lambda>(g, a, b). g @ a @ [64] @ b) (emails tp t) = t)
   \<and> (\<forall>t. replace_cut (\<lambda>(g, a, b, c). g @ a @ b @ c) (phones tp t) = t)
   \<and> (\<forall>t. replace_cut (\<lambda>(g, a, s, b, s', c). g @ a @ s @ b @ s' @ c) (national_ids tp t) = t)"

definition no_match :: "text_patterns \<Rightarrow> ustring \<Rightarrow> bool" where
  "no_match tp t \<longleftrightarrow> fst (passports tp t) = [] \<and> fst (emails tp t) = [] \<and> fst (phones tp t) = [] \<and> fst (national_ids tp t) = []"

text \<open>Text in which none of the expressions matches is left as it is.\<close>

theorem clean_text_unchanged:
  assumes "cuts_law tp" "no_match tp t"
  shows "mask_pii_in_text tp pe t = t"
proof -
  have c: "snd c = t" if "replace_cut f c = t" "fst c = []" for f :: "'m \<Rightarrow> ustring" and c
    using that by (cases c) (simp add: replace_cut_def)
  have r: "replace_cut f c = snd c" if "fst c = []" for f :: "'m \<Rightarrow> ustring" and c
    using that by (cases c) (simp add: replace_cut_def)
  have "snd (passports tp t) = t" "snd (emails tp t) = t" "snd (phones tp t) = t" "snd (national_ids tp t) = t"
    using assms unfolding cuts_law_def no_match_def by (blast intro: c)+
  with assms(2) show ?thesis
    by (simp add: mask_pii_in_text_def mask_passport_patterns_def mask_email_patterns_def mask_phone_patterns_def
        mask_national_id_patterns_def no_match_def r)
qed

definition same_outside :: "('m \<Rightarrow> 'v) \<Rightarrow> 'm list \<times> ustring \<Rightarrow> 'm list \<times> ustring \<Rightarrow> bool" where
  "same_outside view c c' \<longleftrightarrow> map view (fst c) = map view (fst c') \<and> snd c = snd c'"

lemma replace_cut_view:
  assumes "\<And>m. f m = h (view m)" "same_outside view c c'"
  shows "replace_cut f c = replace_cut f c'"
proof -
  have f: "map f ms = map h (map view ms)" for ms by (simp add: assms(1))
  show ?thesis
    using assms(2) unfolding replace_cut_def same_outside_def case_prod_unfold f by simp
qed

lemma passports_hide:
  "same_outside (\<lambda>(g, p, d). (g, p, byte_len d)) (passports tp t) (passports tp t') \<Longrightarrow> mask_passport_patterns tp pe t = mask_passport_patterns tp pe t'"
  unfolding mask_passport_patterns_def
  by (rule replace_cut_view [where h = "\<lambda>(g, p, n). g @ p @ replicate n (mask_char (own_config pe PassportNumber))"]) auto

lemma emails_hide:
  "same_outside (\<lambda>(g, u, d). (g, take 1 u, d)) (emails tp t) (emails tp t') \<Longrightarrow> mask_email_patterns tp t = mask_email_patterns tp t'"
  unfolding mask_email_patterns_def
  by (rule replace_cut_view [where h = "\<lambda>(g, u, d). g @ (if u = [] then [42, 42, 42, 64] else u @ [42, 42, 42, 64] @ d)"]) auto

lemma phones_hide:
  "same_outside (\<lambda>(g, p, c, n). (g, p, c, byte_len n)) (phones tp t) (phones tp t') \<Longrightarrow> mask_phone_patterns tp pe t = mask_phone_patterns tp pe t'"
  unfolding mask_phone_patterns_def
  by (rule replace_cut_view [where h = "\<lambda>(g, p, c, n). g @ p @ c @ replicate n (mask_char (own_config pe PhoneNumber))"]) auto

lemma national_ids_hide:
  "same_outside (\<lambda>(g, p, s, m, s', e). (g, p, byte_len m, e)) (national_ids tp t) (national_ids tp t') \<Longrightarrow> mask_national_id_patterns tp t = mask_national_id_patterns tp t'"
  unfolding mask_national_id_patterns_def
  by (rule replace_cut_view [where h = "\<lambda>(g, p, n, e). g @ p @ [45] @ replicate n 42 @ [45] @ e"]) auto

text \<open>
  What a stage hides does not reach the result. Two texts that differ only in what one of the four
  expressions captures to hide (the digits of passports, the users of addresses behind the first
  character, the numbers of telephones, the middle of national identifiers), with as many bytes in it
  where asterisks are counted, are masked alike from that stage on.
\<close>
theorem masked_text_hides:
  assumes "same_outside (\<lambda>(g, p, d). (g, p, byte_len d)) (passports tp t) (passports tp t')
    \<or> mask_passport_patterns tp pe t = t1 \<and> mask_passport_patterns tp pe t' = t1'
      \<and> (same_outside (\<lambda>(g, u, d). (g, take 1 u, d)) (emails tp t1) (emails tp t1')
         \<or> mask_email_patterns tp t1 = t2 \<and> mask_email_patterns tp t1' = t2'
           \<and> (same_outside (\<lambda>(g, p, c, n). (g, p, c, byte_len n)) (phones tp t2) (phones tp t2')
              \<or> same_outside (\<lambda>(g, p, s, m, s', e). (g, p, byte_len m, e))
                   (national_ids tp (mask_phone_patterns tp pe t2)) (national_ids tp (mask_phone_patterns tp pe t2'))))"
  shows "mask_pii_in_text tp pe t = mask_pii_in_text tp pe t'"
  unfolding mask_pii_in_text_def
  using assms by (elim disjE conjE) (simp_all only: passports_hide emails_hide phones_hide national_ids_hide)

definition toy_text_patterns :: text_patterns where
  "toy_text_patterns =
     \<lparr>passports = (\<lambda>t. case t of c # d # ds \<Rightarrow> if c = 65 then ([([], [c], d # ds)], []) else ([], t) | _ \<Rightarrow> ([], t)),
      emails = (\<lambda>t. ([], t)), phones = (\<lambda>t. ([], t)), national_ids = (\<lambda>t. ([], t))\<rparr>"

lemma toy_text_law: "cuts_law toy_text_patterns"
  by (auto simp: cuts_law_def toy_text_patterns_def replace_cut_def split: list.split)

theorem clean_text_unchanged_witness: "mask_pii_in_text toy_text_patterns default_engine [66, 49] = [66, 49]"
  by (rule clean_text_unchanged [OF toy_text_law]) (simp add: no_match_def toy_text_patterns_def)

theorem masked_text_hides_witness:
  "mask_pii_in_text toy_text_patterns default_engine [65, 49, 50] = mask_pii_in_text toy_text_patterns default_engine [65, 51, 52]"
  by (rule masked_text_hides [OF disjI1]) (simp add: same_outside_def toy_text_patterns_def byte_len_def len_utf8_def)

end
