(* ===== verification/VfsSerde.thy ===== *)
theory VfsSerde
  imports Vfs Json
begin

text \<open>
  \<open>crates/sandbox-guard/src/wasi_virt.rs\<close>: writing a virtual file system and a honeypot context as a
  document and reading them back, and copies of a context.

  Documents are those of \<open>serde_json\<close>, entries in order and duplicates kept. What the derived
  deserialisers make of a document is written out: a struct from an object in which every field occurs
  once, others ignored, or from an array of its fields; a map from an object, where a later entry of a
  key replaces an earlier one.
\<close>

section \<open>Documents\<close>

definition json_u64 :: "u64 \<Rightarrow> json" where
  "json_u64 n = JNumber (PosInt n)"

definition json_option :: "string option \<Rightarrow> json" where
  "json_option x = (case x of None \<Rightarrow> JNull | Some s \<Rightarrow> JString s)"

fun de_u64 :: "json \<Rightarrow> u64 option" where
  "de_u64 (JNumber (PosInt n)) = Some n"
| "de_u64 _ = None"

fun de_u8 :: "json \<Rightarrow> u8 option" where
  "de_u8 (JNumber (PosInt n)) = (if unat n < 256 then Some (ucast n) else None)"
| "de_u8 _ = None"

fun de_text :: "json \<Rightarrow> string option" where
  "de_text (JString s) = Some s"
| "de_text _ = None"

fun de_bool :: "json \<Rightarrow> bool option" where
  "de_bool (JBool b) = Some b"
| "de_bool _ = None"

fun de_option :: "json \<Rightarrow> string option option" where
  "de_option JNull = Some None"
| "de_option j = map_option Some (de_text j)"

fun de_list :: "(json \<Rightarrow> 'a option) \<Rightarrow> json \<Rightarrow> 'a list option" where
  "de_list f (JArray vs) = those (map f vs)"
| "de_list f _ = None"

fun de_hmap :: "(json \<Rightarrow> 'a option) \<Rightarrow> json \<Rightarrow> (string, 'a) hmap option" where
  "de_hmap f (JObject kvs) =
     map_option (\<lambda>vs. hm_collect (zip (map fst kvs) vs)) (those (map (f \<circ> snd) kvs))"
| "de_hmap f _ = None"

definition once :: "string \<Rightarrow> (string \<times> json) list \<Rightarrow> json option" where
  "once k kvs = (case filter (\<lambda>kv. fst kv = k) kvs of [(_, v)] \<Rightarrow> Some v | _ \<Rightarrow> None)"

fun de_fields :: "string list \<Rightarrow> json \<Rightarrow> json list option" where
  "de_fields ks (JObject kvs) = those (map (\<lambda>k. once k kvs) ks)"
| "de_fields ks (JArray vs) = (if length vs = length ks then Some vs else None)"
| "de_fields ks _ = None"

section \<open>The file system\<close>

definition json_VirtualFile :: "VirtualFile \<Rightarrow> json" where
  "json_VirtualFile f =
     JObject [(''path'', JString (vf_path f)), (''content'', JArray (map (\<lambda>b. json_u64 (ucast b)) (vf_content f))),
       (''created_at'', json_u64 (created_at f)), (''modified_at'', json_u64 (modified_at f)), (''size'', json_u64 (vf_size f))]"

definition de_VirtualFile :: "json \<Rightarrow> VirtualFile option" where
  "de_VirtualFile j =
     (case de_fields [''path'', ''content'', ''created_at'', ''modified_at'', ''size''] j of
        Some [p, c, t1, t2, n] \<Rightarrow>
          (case (de_text p, de_list de_u8 c, de_u64 t1, de_u64 t2, de_u64 n) of
             (Some path, Some content, Some t, Some t', Some len) \<Rightarrow>
               Some \<lparr>vf_path = path, vf_content = content, created_at = t, modified_at = t', vf_size = len\<rparr>
           | _ \<Rightarrow> None)
      | _ \<Rightarrow> None)"

definition json_VirtualFileSystem :: "VirtualFileSystem \<Rightarrow> json" where
  "json_VirtualFileSystem v =
     JObject [(''mount_point'', JString (mount_point v)), (''max_total_bytes'', json_u64 (max_total_bytes v)),
       (''max_file_count'', json_u64 (max_file_count v)),
       (''files'', JObject (map (\<lambda>(k, f). (k, json_VirtualFile f)) (vfs_files v))),
       (''total_bytes_used'', json_u64 (total_bytes_used v)), (''write_count'', json_u64 (write_count v)),
       (''read_count'', json_u64 (read_count v))]"

definition de_VirtualFileSystem :: "json \<Rightarrow> VirtualFileSystem option" where
  "de_VirtualFileSystem j =
     (case de_fields [''mount_point'', ''max_total_bytes'', ''max_file_count'', ''files'', ''total_bytes_used'', ''write_count'', ''read_count''] j of
        Some [m, b, n, fs, u, w, r] \<Rightarrow>
          (case (de_text m, de_u64 b, de_u64 n, de_hmap de_VirtualFile fs, de_u64 u, de_u64 w, de_u64 r) of
             (Some mount, Some bytes, Some cap, Some files, Some tot, Some writes, Some reads) \<Rightarrow>
               Some \<lparr>mount_point = mount, max_total_bytes = bytes, max_file_count = cap, vfs_files = files,
                     total_bytes_used = tot, write_count = writes, read_count = reads\<rparr>
           | _ \<Rightarrow> None)
      | _ \<Rightarrow> None)"

section \<open>The context\<close>

definition json_HoneypotTokens :: "HoneypotTokens \<Rightarrow> json" where
  "json_HoneypotTokens t =
     JObject [(''aws_access_key_id'', JString (aws_access_key_id t)), (''aws_secret_access_key'', JString (aws_secret_access_key t)),
       (''db_password'', JString (db_password t)), (''db_connection_string'', JString (db_connection_string t)),
       (''api_token'', JString (api_token t))]"

definition de_HoneypotTokens :: "json \<Rightarrow> HoneypotTokens option" where
  "de_HoneypotTokens j =
     (case Option.bind (de_fields [''aws_access_key_id'', ''aws_secret_access_key'', ''db_password'', ''db_connection_string'', ''api_token''] j)
             (\<lambda>vs. those (map de_text vs)) of
        Some [a, s, p, c, t] \<Rightarrow>
          Some \<lparr>aws_access_key_id = a, aws_secret_access_key = s, db_password = p, db_connection_string = c, api_token = t\<rparr>
      | _ \<Rightarrow> None)"

definition json_WasiVirtContext :: "WasiVirtContext \<Rightarrow> json" where
  "json_WasiVirtContext c =
     JObject [(''tokens'', json_HoneypotTokens (ctx_tokens c)), (''vfs'', json_VirtualFileSystem (ctx_vfs c)),
       (''environment'', JObject (map (\<lambda>(k, v). (k, JString v)) (ctx_environment c))),
       (''leak_detected'', JBool (ctx_leak_detected c)), (''leaked_token'', json_option (ctx_leaked_token c))]"

text \<open>A field of an optional type may be missing from an object.\<close>

fun with_missing :: "string \<Rightarrow> json \<Rightarrow> json" where
  "with_missing k (JObject kvs) = JObject (if filter (\<lambda>kv. fst kv = k) kvs = [] then kvs @ [(k, JNull)] else kvs)"
| "with_missing k j = j"

definition de_WasiVirtContext :: "json \<Rightarrow> WasiVirtContext option" where
  "de_WasiVirtContext j =
     (case de_fields [''tokens'', ''vfs'', ''environment'', ''leak_detected'', ''leaked_token''] (with_missing ''leaked_token'' j) of
        Some [t, v, e, d, l] \<Rightarrow>
          (case (de_HoneypotTokens t, de_VirtualFileSystem v, de_hmap de_text e, de_bool d, de_option l) of
             (Some tokens, Some vfs, Some env, Some leak, Some token) \<Rightarrow>
               Some \<lparr>ctx_tokens = tokens, ctx_vfs = vfs, ctx_environment = env, ctx_leak_detected = leak, ctx_leaked_token = token\<rparr>
           | _ \<Rightarrow> None)
      | _ \<Rightarrow> None)"

definition WasiVirtContext_clone :: "WasiVirtContext \<Rightarrow> WasiVirtContext" where
  "WasiVirtContext_clone c = c\<lparr>ctx_vfs := VirtualFileSystem_clone (ctx_vfs c)\<rparr>"

section \<open>Round trips\<close>

lemma those_map_Some [simp]: "those (map (\<lambda>x. Some (f x)) xs) = Some (map f xs)"
  by (induction xs) simp_all

lemma de_u8_json [simp]: "de_u8 (json_u64 (ucast b)) = Some b"
proof -
  have b: "unat b < 256" using unsigned_less [of b, where ?'a = nat] by simp
  then have "unat (ucast b :: u64) = unat b" by (simp add: unsigned_ucast_eq take_bit_nat_eq_self)
  moreover note b
  moreover have "ucast (ucast b :: u64) = b" by (rule ucast_up_ucast_id) (simp add: is_up)
  ultimately show ?thesis by (simp add: json_u64_def)
qed

lemma de_json_simps [simp]: "de_u64 (json_u64 n) = Some n" "de_option (json_option x) = Some x"
  by (simp_all add: json_u64_def json_option_def split: option.split)

lemma de_VirtualFile_json [simp]: "de_VirtualFile (json_VirtualFile f) = Some f"
  by (cases f) (simp add: de_VirtualFile_def json_VirtualFile_def once_def comp_def)

lemma de_hmap_json:
  assumes "\<And>v. f (g v) = Some v" "hm_inv m"
  shows "de_hmap f (JObject (map (\<lambda>(k, v). (k, g v)) m)) = Some m"
proof -
  have "those (map (f \<circ> snd) (map (\<lambda>(k, v). (k, g v)) m)) = Some (map snd m)"
    by (simp add: comp_def case_prod_unfold assms(1))
  moreover have "zip (map fst (map (\<lambda>(k, v). (k, g v)) m)) (map snd m) = m"
    by (induction m) auto
  ultimately show ?thesis using assms(2) by (simp del: map_map add: hm_inv_def hm_collect_distinct)
qed

lemma de_VirtualFileSystem_json:
  "hm_inv (vfs_files v) \<Longrightarrow> de_VirtualFileSystem (json_VirtualFileSystem v) = Some v"
  using de_hmap_json [of de_VirtualFile json_VirtualFile "vfs_files v"]
  by (cases v) (simp add: de_VirtualFileSystem_def json_VirtualFileSystem_def once_def del: de_hmap.simps)

lemma de_HoneypotTokens_json [simp]: "de_HoneypotTokens (json_HoneypotTokens t) = Some t"
  by (cases t) (simp add: de_HoneypotTokens_def json_HoneypotTokens_def once_def)

text \<open>
  C27: A context that is written and read back, or copied, is the same: its files with their bytes, the
  counters, the tokens and what is known of a leak.
\<close>
theorem context_roundtrip:
  assumes "hm_inv (vfs_files (ctx_vfs c))" "hm_inv (ctx_environment c)"
  shows "de_WasiVirtContext (json_WasiVirtContext c) = Some c \<and> WasiVirtContext_clone c = c"
proof -
  have "VirtualFileSystem_clone (ctx_vfs c) = ctx_vfs c"
    using assms(1) by (simp add: VirtualFileSystem_clone_def hm_inv_def hm_collect_distinct)
  moreover have "de_hmap de_text (JObject (map (\<lambda>(k, v). (k, JString v)) (ctx_environment c))) = Some (ctx_environment c)"
    using assms(2) by (rule de_hmap_json [rotated]) simp
  ultimately show ?thesis
    using de_VirtualFileSystem_json [OF assms(1)]
    by (simp add: de_WasiVirtContext_def json_WasiVirtContext_def once_def WasiVirtContext_clone_def del: de_hmap.simps)
qed

theorem context_roundtrip_witness:
  "de_WasiVirtContext (json_WasiVirtContext (WasiVirtContext_new 7)) = Some (WasiVirtContext_new 7)
   \<and> WasiVirtContext_clone (WasiVirtContext_new 7) = WasiVirtContext_new 7"
  by (rule context_roundtrip)
     (simp_all add: WasiVirtContext_new_def VirtualFileSystem_new_def hm_inv_def Let_def hm_insert_def)

text \<open>
  Reading checks the types of the fields and nothing else. A document can claim that less is used than
  its files hold; the file system read from it then takes more than its limit, so the invariant of the
  file system does not hold for what is read.
\<close>
theorem reading_trusts_counters:
  assumes "hm_inv (vfs_files v)"
  shows "de_VirtualFileSystem (json_VirtualFileSystem (v\<lparr>total_bytes_used := n\<rparr>)) = Some (v\<lparr>total_bytes_used := n\<rparr>)
     \<and> (unat n \<noteq> stored_bytes (vfs_files v) \<longrightarrow> \<not> vfs_inv (v\<lparr>total_bytes_used := n\<rparr>))"
  using assms de_VirtualFileSystem_json [of "v\<lparr>total_bytes_used := n\<rparr>"] by (simp add: vfs_inv_def)

definition one_byte_vfs :: VirtualFileSystem where
  "one_byte_vfs = VirtualFileSystem_new\<lparr>vfs_files :=
     [(''f'', \<lparr>vf_path = ''f'', vf_content = [1], created_at = 0, modified_at = 0, vf_size = 1\<rparr>)], total_bytes_used := 1\<rparr>"

theorem reading_trusts_counters_witness:
  "de_VirtualFileSystem (json_VirtualFileSystem (one_byte_vfs\<lparr>total_bytes_used := 0\<rparr>)) = Some (one_byte_vfs\<lparr>total_bytes_used := 0\<rparr>)
   \<and> \<not> vfs_inv (one_byte_vfs\<lparr>total_bytes_used := 0\<rparr>)"
  using reading_trusts_counters [of one_byte_vfs 0] by (simp add: one_byte_vfs_def hm_inv_def stored_bytes_def)

end
