(* ===== verification/RecorderStore.thy ===== *)
theory RecorderStore
  imports FlightRecorder
begin

text \<open>
  The table of the flight recorder in \<open>crates/cache-storage/src/flight_recorder.rs\<close> beside the writer:
  opening it, the daily deletion of old records, counting and exporting.

  A column of type TEXT is compared byte by byte. A time stamp is written by \<open>to_rfc3339\<close>, with a \<open>T\<close>
  between date and time; \<open>datetime\<close> of SQLite puts a blank there. The outcome of opening the file and
  of starting the thread are arguments.
\<close>

datatype FlightRecorderError = DatabaseOpen string | SchemaInit string

definition FlightRecorder_new :: "string + unit \<Rightarrow> string + unit \<Rightarrow> string + unit \<Rightarrow> FlightRecorderError + FlightRecorderCommand Channel" where
  "FlightRecorder_new opened schema spawned =
     and_then (map_err DatabaseOpen opened) (\<lambda>_.
     and_then (map_err SchemaInit schema) (\<lambda>_.
     and_then (map_err (\<lambda>e. DatabaseOpen (''Failed to spawn flight recorder writer thread: '' @ e)) spawned) (\<lambda>_.
     Inr \<lparr>ch_queue = [], ch_open = True\<rparr>)))"

fun text_less :: "string \<Rightarrow> string \<Rightarrow> bool" where
  "text_less [] t = (t \<noteq> [])"
| "text_less (c # s) [] = False"
| "text_less (c # s) (d # t) = ((of_char c :: nat) < of_char d \<or> c = d \<and> text_less s t)"

definition collect_garbage :: "bool \<Rightarrow> string \<Rightarrow> (int \<times> FlightRecorderRecord) list \<Rightarrow> (int \<times> FlightRecorderRecord) list" where
  "collect_garbage opened cutoff rows = (if opened then filter (\<lambda>(i, r). \<not> text_less (fr_timestamp r) cutoff) rows else rows)"

definition fr_count :: "(string + unit) \<Rightarrow> (string + unit) \<Rightarrow> (string + int) \<Rightarrow> string option \<Rightarrow> usize" where
  "fr_count opened pragmas selected join_error =
     (case join_error of
        Some _ \<Rightarrow> 0
      | None \<Rightarrow>
          (case (opened, pragmas) of
             (Inr _, Inr _) \<Rightarrow> word_of_int (case selected of Inr n \<Rightarrow> n | Inl _ \<Rightarrow> 0)
           | _ \<Rightarrow> 0))"

definition export_query :: RecordQuery where
  "export_query = \<lparr>q_event_type = None, q_node_name = None, q_request_id = None, q_since = None, q_until = None,
     q_limit = Some 10000, q_offset = None\<rparr>"

definition export_json ::
  "row_readers \<Rightarrow> (nat \<Rightarrow> nat \<Rightarrow> (int \<times> FlightRecorderRecord) list option) \<Rightarrow> (FlightRecord list \<Rightarrow> string + string) \<Rightarrow> string + string" where
  "export_json rd select pretty = pretty (fr_query rd select export_query)"

section \<open>How long records are kept\<close>

lemma text_less_append: "length s = length t \<Longrightarrow> text_less (s @ u) (t @ v) \<longleftrightarrow> text_less s t \<or> s = t \<and> text_less u v"
  by (induction s t rule: list_induct2) auto

text \<open>
  The daily collection deletes a record exactly if its date is before the date of the limit: the time of
  the day plays no part, since the letter between date and time is greater than the blank. So records of
  the day that is thirty days back are kept, also those that are older than thirty days.
\<close>
theorem garbage_by_date:
  assumes "length d = length d'" "fr_timestamp r = d @ ''T'' @ u" "cutoff = d' @ '' '' @ v"
  shows "(i, r) \<in> set (collect_garbage True cutoff rows) \<longleftrightarrow> (i, r) \<in> set rows \<and> \<not> text_less d d'"
  using assms by (auto simp: collect_garbage_def text_less_append)

theorem garbage_by_date_witness:
  "(1, sample_record\<lparr>fr_timestamp := ''2026-01-01'' @ ''T'' @ ''00:00:01+00:00''\<rparr>)
     \<in> set (collect_garbage True (''2026-01-01'' @ '' '' @ ''23:59:59'')
             [(1, sample_record\<lparr>fr_timestamp := ''2026-01-01'' @ ''T'' @ ''00:00:01+00:00''\<rparr>)])"
  by (subst garbage_by_date [OF refl _ refl]) simp_all

section \<open>What is exported\<close>

text \<open>The documented meaning of the statement: newest first, in some order among equal time stamps.\<close>

definition select_law :: "(int \<times> FlightRecorderRecord) list \<Rightarrow> (nat \<Rightarrow> nat \<Rightarrow> (int \<times> FlightRecorderRecord) list option) \<Rightarrow> bool" where
  "select_law rows select \<longleftrightarrow>
     (\<exists>xs. mset xs = mset rows \<and> sorted_wrt (\<lambda>a b. \<not> text_less (fr_timestamp (snd a)) (fr_timestamp (snd b))) xs
        \<and> (\<forall>l off. select l off = Some (take l (drop off xs))))"

text \<open>
  An export holds the ten thousand newest records, and all of them when there are no more; nothing tells
  the reader that others were left out.
\<close>
theorem export_holds_newest:
  assumes "select_law rows select"
  shows "\<exists>xs ys. mset (xs @ ys) = mset rows \<and> length xs = min 10000 (length rows)
     \<and> (\<forall>x \<in> set xs. \<forall>y \<in> set ys. \<not> text_less (fr_timestamp (snd x)) (fr_timestamp (snd y)))
     \<and> export_json rd select pretty = pretty (map (row_to_record rd) xs)"
proof -
  from assms obtain zs where z: "mset zs = mset rows"
      "sorted_wrt (\<lambda>a b. \<not> text_less (fr_timestamp (snd a)) (fr_timestamp (snd b))) zs"
      "select 10000 0 = Some (take 10000 zs)"
    by (auto simp: select_law_def)
  have "sorted_wrt (\<lambda>a b. \<not> text_less (fr_timestamp (snd a)) (fr_timestamp (snd b))) (take 10000 zs @ drop 10000 zs)"
    using z(2) by simp
  then have "\<forall>x \<in> set (take 10000 zs). \<forall>y \<in> set (drop 10000 zs). \<not> text_less (fr_timestamp (snd x)) (fr_timestamp (snd y))"
    unfolding sorted_wrt_append by blast
  moreover have "mset (take 10000 zs @ drop 10000 zs) = mset rows" using z(1) by simp
  moreover have "length (take 10000 zs) = min 10000 (length rows)" using mset_eq_length [OF z(1)] by simp
  moreover have "export_json rd select pretty = pretty (map (row_to_record rd) (take 10000 zs))"
    using z(3) by (simp add: export_json_def fr_query_def export_query_def)
  ultimately show ?thesis by blast
qed

theorem export_holds_newest_witness:
  "\<exists>xs ys. mset (xs @ ys) = mset [(1 :: int, sample_record)] \<and> length xs = min 10000 (length [(1 :: int, sample_record)])
     \<and> export_json \<lparr>rd_time = (\<lambda>_. None), rd_now = 0, rd_map = (\<lambda>_. None)\<rparr> (\<lambda>l off. Some (take l (drop off [(1, sample_record)]))) (\<lambda>rs. Inr []) = Inr []"
proof -
  have "select_law [(1, sample_record)] (\<lambda>l off. Some (take l (drop off [(1, sample_record)])))"
    by (auto simp: select_law_def intro!: exI [of _ "[(1, sample_record)]"])
  from export_holds_newest [OF this, where pretty = "\<lambda>rs. Inr []"] show ?thesis by blast
qed

end
