(* ===== verification/Sanitize.thy ===== *)
theory Sanitize
  imports Orchestrator
begin

text \<open>
  \<open>crates/interfaces/src/lib.rs\<close>: how the text of a model becomes a payload. The code block around the
  JSON is taken off, what is left is read by one parser and, when that fails, by another.

  The expression for a code block (three backticks, the word \<open>json\<close> or nothing, white space, as little as
  possible, white space, three backticks) is the function \<open>fence_capture\<close>: the first three backticks
  open the block, since any later ones could only open it when the first can; the next ones behind it
  close it; the group is the text between without the white space at its ends. The parsers are the
  argument \<open>pp\<close>. The first one works in the buffer of the text and leaves it changed.
\<close>

definition backticks :: string where
  "backticks = ''```''"

definition fence_capture :: "string \<Rightarrow> string option" where
  "fence_capture t =
     (case find_str backticks t of
        None \<Rightarrow> None
      | Some (_, behind) \<Rightarrow>
          (case find_str backticks (case strip_prefix behind ''json'' of Some r \<Rightarrow> r | None \<Rightarrow> behind) of
             None \<Rightarrow> None
           | Some (inner, _) \<Rightarrow> Some (trim inner)))"

definition sanitize_llm_response :: "string \<Rightarrow> string" where
  "sanitize_llm_response response =
     (let trimmed = trim (case fence_capture response of Some g \<Rightarrow> g | None \<Rightarrow> response)
      in case fence_capture trimmed of Some g \<Rightarrow> trim g | None \<Rightarrow> trimmed)"

record payload_parsers =
  pp_simd :: "string \<Rightarrow> IntermediatePayload option \<times> string"
  pp_lossy :: "string \<Rightarrow> string"
  pp_serde :: "string \<Rightarrow> string + IntermediatePayload"

definition from_llm_output :: "payload_parsers \<Rightarrow> string \<Rightarrow> string + IntermediatePayload" where
  "from_llm_output pp raw =
     (case pp_simd pp (sanitize_llm_response raw) of
        (Some p, _) \<Rightarrow> Inr p
      | (None, bytes) \<Rightarrow> map_err (\<lambda>e. ''Failed to parse payload: '' @ e) (pp_serde pp (pp_lossy pp bytes)))"

section \<open>Wrapping\<close>

lemma fence_none: "CHR 0x60 \<notin> set t \<Longrightarrow> fence_capture t = None"
  by (simp add: fence_capture_def backticks_def find_str_None)

definition blank :: "string \<Rightarrow> bool" where
  "blank w \<longleftrightarrow> list_all is_ws w"

lemma blank_no_backtick: "blank w \<Longrightarrow> CHR 0x60 \<notin> set w"
  by (auto simp: blank_def list_all_iff is_ws_def)

lemma prefix_before: "prefix p (u @ c # v) \<Longrightarrow> c \<notin> set p \<Longrightarrow> prefix p u"
proof (induction u arbitrary: p)
  case Nil
  then show ?case by (cases p) auto
next
  case (Cons d u)
  then show ?case by (cases p) auto
qed

lemma json_no_backtick: "CHR 0x60 \<notin> set ''json''"
  by simp

lemma fence_block:
  assumes "CHR 0x60 \<notin> set before" "CHR 0x60 \<notin> set j" "blank w" "blank w'" "trim j = j"
    and "tag = ''json'' \<or> tag = [] \<and> \<not> prefix ''json'' (w @ j @ w')"
  shows "fence_capture (before @ backticks @ tag @ w @ j @ w' @ backticks @ behind) = Some j"
proof -
  have b: "backticks \<noteq> []" "hd backticks = CHR 0x60" by (simp_all add: backticks_def)
  let ?r = "w @ j @ w' @ backticks @ behind"
  have "find_str backticks (before @ backticks @ tag @ ?r) = Some (before, tag @ ?r)"
    using find_str_behind [of backticks before "tag @ ?r"] b assms(1) by simp
  moreover have "(case strip_prefix (tag @ ?r) ''json'' of Some r \<Rightarrow> r | None \<Rightarrow> tag @ ?r) = ?r"
  proof (cases "tag = []")
    case True
    have "?r = (w @ j @ w') @ CHR 0x60 # ''``'' @ behind" by (simp add: backticks_def)
    then have "\<not> prefix ''json'' ?r"
      using prefix_before [of "''json''" "w @ j @ w'" "CHR 0x60"] assms(6) True by (metis list.distinct(1) assms(6) json_no_backtick)
    with True show ?thesis by (simp add: strip_prefix_def)
  next
    case False
    with assms(6) show ?thesis by (simp add: strip_prefix_def)
  qed
  moreover have "find_str backticks ?r = Some (w @ j @ w', behind)"
    using find_str_behind [of backticks "w @ j @ w'" behind] b assms(2-4) blank_no_backtick by simp
  moreover have "trim (w @ j @ w') = j"
    using assms(3-5) by (intro trim_around) (auto simp: blank_def list_all_iff)
  ultimately show ?thesis by (simp add: fence_capture_def)
qed



end
